(* ===== verification/Assay_Prelude.thy ===== *)
theory Assay_Prelude
  imports Main "HOL-Library.Word"
begin

text \<open>
  Shared vocabulary of the development.

  \<^item> Rust strings are \<^typ>\<open>string\<close> read as the list of their UTF-8 bytes: \<open>str_bytes\<close>
    operations (\<open>len\<close>, \<open>bytes\<close>, literals) are list operations, the Unicode-aware ones
    (\<open>split_whitespace\<close>, \<open>trim\<close>, \<open>chars().count()\<close>) are written out here.
  \<^item> \<open>chrono::DateTime<Utc>\<close> is an \<open>instant\<close> (an integer number of nanoseconds since the epoch)
    and \<open>chrono::Duration\<close> a \<open>duration\<close> (nanoseconds).  \<open>Duration::seconds\<close> panics outside
    \<open>i64::MAX\<close> milliseconds; \<open>duration_seconds\<close> gives \<open>None\<close> there.
  \<^item> \<open>Result<T, E>\<close> is \<open>'e + 'a\<close>; a use case that reads and writes the database is an
    \<open>action\<close>: a state transformer whose database effects survive an \<open>Err\<close> (the code has no
    enclosing transaction), composed by \<open>bindE\<close>.  \<open>validE\<close> is the Hoare triple of such
    actions and \<open>inv_action\<close> the preservation of an invariant.
\<close>

named_theorems action_inv \<open>invariant preservation rules for actions\<close>
named_theorems action_simps \<open>evaluation of the action combinators\<close>
named_theorems repo_defs \<open>unfolding of repository operations\<close>

type_synonym instant = int
type_synonym duration = int
type_synonym uuid = nat
type_synonym tenant_id = nat

section \<open>Results\<close>

type_synonym ('e, 'a) rresult = "'e + 'a"

fun rbind :: "('e + 'a) \<Rightarrow> ('a \<Rightarrow> 'e + 'b) \<Rightarrow> 'e + 'b" where
  "rbind (Inl e) f = Inl e"
| "rbind (Inr a) f = f a"

fun map_err :: "('e \<Rightarrow> 'f) \<Rightarrow> 'e + 'a \<Rightarrow> 'f + 'a" where
  "map_err h (Inl e) = Inl (h e)"
| "map_err h (Inr a) = Inr a"

fun ok_or :: "'e \<Rightarrow> 'a option \<Rightarrow> 'e + 'a" where
  "ok_or e None = Inl e"
| "ok_or e (Some a) = Inr a"

fun res_ok :: "'e + 'a \<Rightarrow> 'a option" where
  "res_ok (Inl e) = None"
| "res_ok (Inr a) = Some a"

definition guardR :: "bool \<Rightarrow> 'e \<Rightarrow> 'e + unit" where
  "guardR b e = (if b then Inr () else Inl e)"

section \<open>Actions: state passing with errors\<close>

type_synonym ('s, 'e, 'a) action = "'s \<Rightarrow> ('e + 'a) \<times> 's"

definition retE :: "'a \<Rightarrow> ('s, 'e, 'a) action" where
  "retE a s = (Inr a, s)"

definition failE :: "'e \<Rightarrow> ('s, 'e, 'a) action" where
  "failE e s = (Inl e, s)"

definition bindE :: "('s, 'e, 'a) action \<Rightarrow> ('a \<Rightarrow> ('s, 'e, 'b) action) \<Rightarrow> ('s, 'e, 'b) action" where
  "bindE m f s = (case m s of (Inl e, s') \<Rightarrow> (Inl e, s') | (Inr a, s') \<Rightarrow> f a s')"

definition liftR :: "'e + 'a \<Rightarrow> ('s, 'e, 'a) action" where
  "liftR r s = (r, s)"

definition getsE :: "('s \<Rightarrow> 'a) \<Rightarrow> ('s, 'e, 'a) action" where
  "getsE f s = (Inr (f s), s)"

definition modifyE :: "('s \<Rightarrow> 's) \<Rightarrow> ('s, 'e, unit) action" where
  "modifyE f s = (Inr (), f s)"

definition guardE :: "bool \<Rightarrow> 'e \<Rightarrow> ('s, 'e, unit) action" where
  "guardE b e = (if b then retE () else failE e)"

definition mapErrE :: "('e \<Rightarrow> 'f) \<Rightarrow> ('s, 'e, 'a) action \<Rightarrow> ('s, 'f, 'a) action" where
  "mapErrE h m s = (case m s of (r, s') \<Rightarrow> (map_err h r, s'))"

text \<open>Running an action for its result, whatever it is (\<open>if let Err(e) = ...\<close>, \<open>let _ = ...\<close>).\<close>

definition tryE :: "('s, 'e, 'a) action \<Rightarrow> ('s, 'f, 'e + 'a) action" where
  "tryE m s = (case m s of (r, s') \<Rightarrow> (Inr r, s'))"

lemmas action_defs = retE_def failE_def bindE_def liftR_def getsE_def modifyE_def guardE_def
  mapErrE_def tryE_def

definition validE :: "('s \<Rightarrow> bool) \<Rightarrow> ('s, 'e, 'a) action \<Rightarrow> ('a \<Rightarrow> 's \<Rightarrow> bool) \<Rightarrow> ('e \<Rightarrow> 's \<Rightarrow> bool) \<Rightarrow> bool" where
  "validE P m Q E \<longleftrightarrow> (\<forall>s. P s \<longrightarrow> (case m s of (Inl e, s') \<Rightarrow> E e s' | (Inr a, s') \<Rightarrow> Q a s'))"

definition inv_action :: "('s \<Rightarrow> bool) \<Rightarrow> ('s, 'e, 'a) action \<Rightarrow> bool" where
  "inv_action I m \<longleftrightarrow> (\<forall>s. I s \<longrightarrow> I (snd (m s)))"

section \<open>Time\<close>

definition nanos_per_sec :: int where
  "nanos_per_sec = 1000000000"

definition max_duration_secs :: int where
  "max_duration_secs = 9223372036854775"

definition duration_seconds :: "int \<Rightarrow> duration option" where
  "duration_seconds n = (if \<bar>n\<bar> \<le> max_duration_secs then Some (n * nanos_per_sec) else None)"

definition secs :: "int \<Rightarrow> duration" where
  "secs n = n * nanos_per_sec"

text \<open>\<open>Duration::num_seconds\<close> truncates toward zero, \<open>DateTime::timestamp\<close> floors.\<close>

definition num_seconds :: "duration \<Rightarrow> int" where
  "num_seconds d = (if 0 \<le> d then d div nanos_per_sec else - ((- d) div nanos_per_sec))"

definition timestamp :: "instant \<Rightarrow> int" where
  "timestamp t = t div nanos_per_sec"

text \<open>\<open>x as i64\<close> of a \<open>u64\<close>.\<close>

definition u64_as_i64 :: "64 word \<Rightarrow> int" where
  "u64_as_i64 w = sint w"

section \<open>Strings\<close>

text \<open>Length in bytes of the white-space character a string starts with (0: none):
  the code points with the Unicode \<open>White_Space\<close> property in their UTF-8 encoding.\<close>

definition byte_val :: "char \<Rightarrow> nat" where
  "byte_val c = of_char c"

definition ws2 :: "nat \<Rightarrow> nat \<Rightarrow> bool" where
  "ws2 a b \<longleftrightarrow> a = 194 \<and> (b = 133 \<or> b = 160)"

definition ws3 :: "nat \<Rightarrow> nat \<Rightarrow> nat \<Rightarrow> bool" where
  "ws3 a b c \<longleftrightarrow> a = 225 \<and> b = 154 \<and> c = 128
     \<or> a = 226 \<and> b = 128 \<and> (128 \<le> c \<and> c \<le> 138 \<or> c = 168 \<or> c = 169 \<or> c = 175)
     \<or> a = 226 \<and> b = 129 \<and> c = 159
     \<or> a = 227 \<and> b = 128 \<and> c = 128"

definition ascii_ws :: "nat \<Rightarrow> bool" where
  "ascii_ws a \<longleftrightarrow> 9 \<le> a \<and> a \<le> 13 \<or> a = 32"

fun ws_len :: "string \<Rightarrow> nat" where
  "ws_len [] = 0"
| "ws_len [a] = (if ascii_ws (byte_val a) then 1 else 0)"
| "ws_len [a, b] = (if ascii_ws (byte_val a) then 1 else if ws2 (byte_val a) (byte_val b) then 2 else 0)"
| "ws_len (a # b # c # cs) =
     (if ascii_ws (byte_val a) then 1
      else if ws2 (byte_val a) (byte_val b) then 2
      else if ws3 (byte_val a) (byte_val b) (byte_val c) then 3 else 0)"

function split_ws_from :: "string \<Rightarrow> string \<Rightarrow> string list" where
  "split_ws_from cur [] = (if cur = [] then [] else [cur])"
| "split_ws_from cur (c # cs) =
     (if 0 < ws_len (c # cs)
      then (if cur = [] then [] else [cur]) @ split_ws_from [] (drop (ws_len (c # cs)) (c # cs))
      else split_ws_from (cur @ [c]) cs)"
  by pat_completeness auto
termination
  by (relation "measure (\<lambda>(cur, s). length s)") auto

definition split_whitespace :: "string \<Rightarrow> string list" where
  "split_whitespace s = split_ws_from [] s"

function trim_start :: "string \<Rightarrow> string" where
  "trim_start [] = []"
| "trim_start (c # cs) =
     (if 0 < ws_len (c # cs) then trim_start (drop (ws_len (c # cs)) (c # cs)) else c # cs)"
  by pat_completeness auto
termination
  by (relation "measure length") auto

definition is_blank :: "string \<Rightarrow> bool" where
  "is_blank s \<longleftrightarrow> trim_start s = []"

fun trim_end :: "string \<Rightarrow> string" where
  "trim_end [] = []"
| "trim_end (c # cs) = (if is_blank (c # cs) then [] else c # trim_end cs)"

definition trim :: "string \<Rightarrow> string" where
  "trim s = trim_end (trim_start s)"

fun join :: "string \<Rightarrow> string list \<Rightarrow> string" where
  "join sep [] = []"
| "join sep [s] = s"
| "join sep (s # t # ts) = s @ sep @ join sep (t # ts)"

text \<open>\<open>chars().count()\<close>: the bytes that are not UTF-8 continuation bytes.\<close>

definition chars_count :: "string \<Rightarrow> nat" where
  "chars_count s = length (filter (\<lambda>c. \<not> (128 \<le> byte_val c \<and> byte_val c < 192)) s)"

text \<open>\<open>str::split(sep)\<close> on a one-byte separator.\<close>

fun split_on :: "char \<Rightarrow> string \<Rightarrow> string list" where
  "split_on sep [] = [[]]"
| "split_on sep (c # cs) =
     (if c = sep then [] # split_on sep cs
      else (case split_on sep cs of [] \<Rightarrow> [[c]] | w # ws \<Rightarrow> (c # w) # ws))"

definition ws_free :: "string \<Rightarrow> bool" where
  "ws_free s \<longleftrightarrow> (\<forall>c \<in> set s. byte_val c < 128 \<and> \<not> ascii_ws (byte_val c))"

text \<open>Decimal rendering of a natural number (\<open>to_string\<close> of an unsigned integer).\<close>

definition digit_char :: "nat \<Rightarrow> char" where
  "digit_char d = char_of (48 + d)"

fun nat_to_string :: "nat \<Rightarrow> string" where
  "nat_to_string n =
     (if n < 10 then [digit_char n] else nat_to_string (n div 10) @ [digit_char (n mod 10)])"

declare nat_to_string.simps [simp del]

section \<open>Lemmas on results and actions\<close>

lemma rbind_Inr_iff: "rbind r f = Inr b \<longleftrightarrow> (\<exists>a. r = Inr a \<and> f a = Inr b)"
  by (cases r) auto

lemma rbind_Inl_iff: "rbind r f = Inl e \<longleftrightarrow> r = Inl e \<or> (\<exists>a. r = Inr a \<and> f a = Inl e)"
  by (cases r) auto

lemma map_err_Inr_iff [simp]: "map_err h r = Inr b \<longleftrightarrow> r = Inr b"
  by (cases r) auto

lemma map_err_Inl_iff: "map_err h r = Inl e \<longleftrightarrow> (\<exists>e'. r = Inl e' \<and> e = h e')"
  by (cases r) auto

lemma ok_or_Inr_iff [simp]: "ok_or e x = Inr a \<longleftrightarrow> x = Some a"
  by (cases x) auto

lemma ok_or_Inl_iff: "ok_or e x = Inl e' \<longleftrightarrow> x = None \<and> e' = e"
  by (cases x) auto

lemma res_ok_Some_iff [simp]: "res_ok r = Some a \<longleftrightarrow> r = Inr a"
  by (cases r) auto

lemma Inr_eq_iff [simp]: "Inr b = map_err h r \<longleftrightarrow> r = Inr b" "Inr a = ok_or e x \<longleftrightarrow> x = Some a"
  by (cases r; auto) (cases x; auto)

lemma guardR_Inr_iff [simp]: "guardR b e = Inr u \<longleftrightarrow> b"
  by (simp add: guardR_def)

lemma guardR_Inl_iff: "guardR b e = Inl e' \<longleftrightarrow> \<not> b \<and> e' = e"
  by (auto simp: guardR_def)

lemma bindE_Inr_iff:
  "bindE m f s = (Inr b, s'') \<longleftrightarrow> (\<exists>a s'. m s = (Inr a, s') \<and> f a s' = (Inr b, s''))"
  by (auto simp: bindE_def split: prod.splits sum.splits)

lemma bindE_Inl_iff:
  "bindE m f s = (Inl e, s'') \<longleftrightarrow>
     m s = (Inl e, s'') \<or> (\<exists>a s'. m s = (Inr a, s') \<and> f a s' = (Inl e, s''))"
  by (auto simp: bindE_def split: prod.splits sum.splits)

lemma bindE_step [action_simps]: "m s = (Inr a, s') \<Longrightarrow> bindE m f s = f a s'"
  by (simp add: bindE_def)

lemma bindE_fail [action_simps]: "m s = (Inl e, s') \<Longrightarrow> bindE m f s = (Inl e, s')"
  by (simp add: bindE_def)

lemma retE_iff [simp]: "retE a s = (r, s') \<longleftrightarrow> r = Inr a \<and> s' = s"
  by (auto simp: retE_def)

lemma failE_iff [simp]: "failE e s = (r, s') \<longleftrightarrow> r = Inl e \<and> s' = s"
  by (auto simp: failE_def)

lemma liftR_iff [simp]: "liftR x s = (r, s') \<longleftrightarrow> r = x \<and> s' = s"
  by (auto simp: liftR_def)

lemma getsE_iff [simp]: "getsE f s = (r, s') \<longleftrightarrow> r = Inr (f s) \<and> s' = s"
  by (auto simp: getsE_def)

lemma modifyE_iff [simp]: "modifyE f s = (r, s') \<longleftrightarrow> r = Inr () \<and> s' = f s"
  by (auto simp: modifyE_def)

lemma guardE_Inr_iff [simp]: "guardE b e s = (Inr u, s') \<longleftrightarrow> b \<and> s' = s"
  by (auto simp: guardE_def)

lemma guardE_Inl_iff [simp]: "guardE b e s = (Inl e', s') \<longleftrightarrow> \<not> b \<and> e' = e \<and> s' = s"
  by (auto simp: guardE_def)

lemma mapErrE_Inr_iff [simp]: "mapErrE h m s = (Inr a, s') \<longleftrightarrow> m s = (Inr a, s')"
  by (auto simp: mapErrE_def split: prod.splits)

lemma mapErrE_Inl_iff: "mapErrE h m s = (Inl e, s') \<longleftrightarrow> (\<exists>e'. m s = (Inl e', s') \<and> e = h e')"
  by (auto simp: mapErrE_def map_err_Inl_iff split: prod.splits)

lemma tryE_iff [simp]: "tryE m s = (r, s') \<longleftrightarrow> (\<exists>x. m s = (x, s') \<and> r = Inr x)"
  by (auto simp: tryE_def split: prod.splits)

lemma validE_bind:
  assumes "validE P m R E" and "\<And>a. validE (R a) (f a) Q E"
  shows "validE P (bindE m f) Q E"
  using assms unfolding validE_def bindE_def
  by (fastforce split: prod.splits sum.splits)

lemma validE_weaken:
  assumes "validE P' m Q' E'" "\<And>s. P s \<Longrightarrow> P' s" "\<And>a s. Q' a s \<Longrightarrow> Q a s" "\<And>e s. E' e s \<Longrightarrow> E e s"
  shows "validE P m Q E"
  using assms unfolding validE_def by (fastforce split: prod.splits sum.splits)

lemma validE_Inr: "validE P m Q E \<Longrightarrow> P s \<Longrightarrow> m s = (Inr a, s') \<Longrightarrow> Q a s'"
  unfolding validE_def by (fastforce split: prod.splits sum.splits)

lemma validE_Inl: "validE P m Q E \<Longrightarrow> P s \<Longrightarrow> m s = (Inl e, s') \<Longrightarrow> E e s'"
  unfolding validE_def by (fastforce split: prod.splits sum.splits)

lemma inv_actionI: "(\<And>s r s'. I s \<Longrightarrow> m s = (r, s') \<Longrightarrow> I s') \<Longrightarrow> inv_action I m"
  unfolding inv_action_def by (metis prod.collapse)

lemma inv_actionD: "inv_action I m \<Longrightarrow> m s = (r, s') \<Longrightarrow> I s \<Longrightarrow> I s'"
  unfolding inv_action_def by (metis snd_conv)

lemma inv_retE [action_inv]: "inv_action I (retE a)"
  and inv_failE [action_inv]: "inv_action I (failE e)"
  and inv_liftR [action_inv]: "inv_action I (liftR r)"
  and inv_getsE [action_inv]: "inv_action I (getsE f)"
  and inv_guardE [action_inv]: "inv_action I (guardE b e)"
  by (auto simp: inv_action_def action_defs)

lemma inv_bindE [action_inv]:
  assumes "inv_action I m" and "\<And>a. inv_action I (f a)"
  shows "inv_action I (bindE m f)"
  using assms unfolding inv_action_def bindE_def
  by (fastforce split: prod.splits sum.splits)

lemma inv_mapErrE [action_inv]: "inv_action I m \<Longrightarrow> inv_action I (mapErrE h m)"
  by (auto simp: inv_action_def mapErrE_def split: prod.splits)

lemma inv_tryE [action_inv]: "inv_action I m \<Longrightarrow> inv_action I (tryE m)"
  by (auto simp: inv_action_def tryE_def split: prod.splits)

lemma inv_modifyE: "(\<And>s. I s \<Longrightarrow> I (f s)) \<Longrightarrow> inv_action I (modifyE f)"
  by (auto simp: inv_action_def modifyE_def)

lemma inv_if [action_inv]: "inv_action I m \<Longrightarrow> inv_action I n \<Longrightarrow> inv_action I (if b then m else n)"
  by simp

lemma inv_case_option [action_inv]:
  "inv_action I m \<Longrightarrow> (\<And>x. inv_action I (n x)) \<Longrightarrow> inv_action I (case z of None \<Rightarrow> m | Some x \<Rightarrow> n x)"
  by (cases z) auto

lemma inv_case_sum [action_inv]:
  "(\<And>x. inv_action I (m x)) \<Longrightarrow> (\<And>x. inv_action I (n x)) \<Longrightarrow> inv_action I (case z of Inl x \<Rightarrow> m x | Inr x \<Rightarrow> n x)"
  by (cases z) auto

text \<open>An action that keeps a projection of the state, one whose errors keep an invariant, and one
  that cannot fail.\<close>

definition keeps :: "('s \<Rightarrow> 'x) \<Rightarrow> ('s, 'e, 'a) action \<Rightarrow> bool" where
  "keeps f m \<longleftrightarrow> (\<forall>s. f (snd (m s)) = f s)"

definition err_inv :: "('s \<Rightarrow> bool) \<Rightarrow> ('s, 'e, 'a) action \<Rightarrow> bool" where
  "err_inv I m \<longleftrightarrow> (\<forall>s e s'. I s \<longrightarrow> m s = (Inl e, s') \<longrightarrow> I s')"

definition never_fails :: "('s, 'e, 'a) action \<Rightarrow> bool" where
  "never_fails m \<longleftrightarrow> (\<forall>s e s'. m s \<noteq> (Inl e, s'))"

lemma keepsD: "keeps f m \<Longrightarrow> m s = (r, s') \<Longrightarrow> f s' = f s"
  unfolding keeps_def by (metis snd_conv)

lemma keepsI: "(\<And>s r s'. m s = (r, s') \<Longrightarrow> f s' = f s) \<Longrightarrow> keeps f m"
  unfolding keeps_def by (metis prod.collapse)

lemma keeps_comp: "keeps f m \<Longrightarrow> keeps (\<lambda>s. g (f s)) m"
  by (simp add: keeps_def)

lemma keeps_inv: "keeps f m \<Longrightarrow> inv_action (\<lambda>s. P (f s)) m"
  by (simp add: keeps_def inv_action_def)

lemma keeps_retE [action_inv]: "keeps f (retE a)"
  and keeps_failE [action_inv]: "keeps f (failE e)"
  and keeps_liftR [action_inv]: "keeps f (liftR r)"
  and keeps_getsE [action_inv]: "keeps f (getsE h)"
  and keeps_guardE [action_inv]: "keeps f (guardE b e)"
  by (auto simp: keeps_def action_defs)

lemma keeps_bindE [action_inv]: "keeps f m \<Longrightarrow> (\<And>a. keeps f (n a)) \<Longrightarrow> keeps f (bindE m n)"
  unfolding keeps_def bindE_def by (simp split: prod.splits sum.splits) (metis snd_conv)

lemma keeps_mapErrE [action_inv]: "keeps f m \<Longrightarrow> keeps f (mapErrE h m)"
  by (auto simp: keeps_def mapErrE_def split: prod.splits) (metis snd_conv)

lemma keeps_tryE [action_inv]: "keeps f m \<Longrightarrow> keeps f (tryE m)"
  by (auto simp: keeps_def tryE_def split: prod.splits) (metis snd_conv)

lemma keeps_if [action_inv]: "keeps f m \<Longrightarrow> keeps f n \<Longrightarrow> keeps f (if b then m else n)"
  by simp

lemma keeps_case_option [action_inv]:
  "keeps f m \<Longrightarrow> (\<And>x. keeps f (n x)) \<Longrightarrow> keeps f (case z of None \<Rightarrow> m | Some x \<Rightarrow> n x)"
  by (cases z) auto

lemma keeps_case_sum [action_inv]:
  "(\<And>x. keeps f (m x)) \<Longrightarrow> (\<And>x. keeps f (n x)) \<Longrightarrow> keeps f (case z of Inl x \<Rightarrow> m x | Inr x \<Rightarrow> n x)"
  by (cases z) auto

lemma keeps_case_prod [action_inv]: "(\<And>x y. keeps f (m x y)) \<Longrightarrow> keeps f (case z of (x, y) \<Rightarrow> m x y)"
  by (cases z) auto

lemma inv_case_prod [action_inv]: "(\<And>x y. inv_action I (m x y)) \<Longrightarrow> inv_action I (case z of (x, y) \<Rightarrow> m x y)"
  by (cases z) auto

lemma err_inv_of_inv: "inv_action I m \<Longrightarrow> err_inv I m"
  unfolding inv_action_def err_inv_def by (metis snd_conv)

lemma err_inv_bindE: "inv_action I m \<Longrightarrow> (\<And>a. err_inv I (n a)) \<Longrightarrow> err_inv I (bindE m n)"
  unfolding inv_action_def err_inv_def bindE_Inl_iff by (metis snd_conv)

lemma err_inv_bindE_last: "err_inv I m \<Longrightarrow> (\<And>a. never_fails (n a)) \<Longrightarrow> err_inv I (bindE m n)"
  unfolding err_inv_def never_fails_def bindE_Inl_iff by blast

lemma err_inv_mapErrE: "err_inv I m \<Longrightarrow> err_inv I (mapErrE h m)"
  unfolding err_inv_def mapErrE_Inl_iff by blast

lemma err_invD: "err_inv I m \<Longrightarrow> m s = (Inl e, s') \<Longrightarrow> I s \<Longrightarrow> I s'"
  unfolding err_inv_def by blast

lemma never_fails_retE: "never_fails (retE a)"
  by (simp add: never_fails_def)

lemma never_fails_bindE: "never_fails m \<Longrightarrow> (\<And>a. never_fails (n a)) \<Longrightarrow> never_fails (bindE m n)"
  unfolding never_fails_def bindE_Inl_iff by blast

section \<open>Lemmas on time\<close>

lemma nanos_pos [simp]: "0 < nanos_per_sec"
  by (simp add: nanos_per_sec_def)

lemma num_seconds_secs [simp]: "num_seconds (secs n) = n"
proof -
  have "- (n * nanos_per_sec) div nanos_per_sec = - n"
    using nonzero_mult_div_cancel_right [of nanos_per_sec "- n"] nanos_pos by simp
  then show ?thesis by (simp add: num_seconds_def secs_def nanos_per_sec_def)
qed

lemma num_seconds_mono:
  assumes "a \<le> b"
  shows "num_seconds a \<le> num_seconds b"
proof -
  have m: "x \<le> y \<Longrightarrow> x div nanos_per_sec \<le> y div nanos_per_sec" for x y
    by (simp add: zdiv_mono1)
  have p: "0 \<le> x \<Longrightarrow> 0 \<le> x div nanos_per_sec" for x
    by (simp add: pos_imp_zdiv_nonneg_iff)
  show ?thesis
    using assms m [of a b] m [of "- b" "- a"] p [of b] p [of "- a"] by (auto simp: num_seconds_def)
qed

lemma secs_mono [simp]: "secs a \<le> secs b \<longleftrightarrow> a \<le> b"
  by (simp add: secs_def nanos_per_sec_def)

lemma secs_less [simp]: "secs a < secs b \<longleftrightarrow> a < b"
  by (simp add: secs_def nanos_per_sec_def)

lemma secs_0 [simp]: "secs 0 = 0"
  by (simp add: secs_def)

lemma timestamp_mono: "a \<le> b \<Longrightarrow> timestamp a \<le> timestamp b"
  by (simp add: timestamp_def nanos_per_sec_def zdiv_mono1)

section \<open>Lemmas on machine integers\<close>

lemma sint64_cases:
  fixes w :: "64 word"
  shows "sint w = (if uint w < 2 ^ 63 then uint w else uint w - 2 ^ 64)"
proof -
  have b: "uint w < 2 ^ 64" "0 \<le> uint w" using unsigned_less [of w, where 'a = int] by simp_all
  have "odd (uint w div 2 ^ 63) \<longleftrightarrow> 2 ^ 63 \<le> uint w"
  proof
    assume "odd (uint w div 2 ^ 63)"
    then have "uint w div 2 ^ 63 \<noteq> 0" by (metis even_zero)
    then show "2 ^ 63 \<le> uint w" using b(2) by (meson div_pos_pos_trivial not_le)
  next
    assume "2 ^ 63 \<le> uint w"
    then have "uint w div 2 ^ 63 = 1" using b by (simp add: div_add_self1 int_div_pos_eq [of _ _ 1 "uint w - 2 ^ 63"])
    then show "odd (uint w div 2 ^ 63)" by simp
  qed
  moreover have "sint w = take_bit 64 (uint w) - 2 ^ 64 * of_bool (bit (uint w) 63)"
    by (simp add: sint_uint signed_take_bit_eq_take_bit_minus)
  moreover have "take_bit 64 (uint w) = uint w" using b by (simp add: take_bit_eq_mod)
  ultimately show ?thesis by (simp add: bit_iff_odd not_le [symmetric])
qed

lemma uint64_less: "uint (w :: 64 word) < 2 ^ 64"
  using unsigned_less [of w, where 'a = int] by simp

section \<open>Lemmas on strings\<close>

lemma ws_len_clean: "byte_val c < 128 \<Longrightarrow> \<not> ascii_ws (byte_val c) \<Longrightarrow> ws_len (c # cs) = 0"
  by (cases cs rule: ws_len.cases; cases "tl cs") (auto simp: ws2_def ws3_def neq_Nil_conv)

lemma ws_free_Nil [simp]: "ws_free []"
  by (simp add: ws_free_def)

lemma ws_free_Cons [simp]:
  "ws_free (c # cs) \<longleftrightarrow> byte_val c < 128 \<and> \<not> ascii_ws (byte_val c) \<and> ws_free cs"
  by (auto simp: ws_free_def)

lemma split_ws_from_word:
  "ws_free w \<Longrightarrow> split_ws_from cur (w @ rest) = split_ws_from (cur @ w) rest"
proof (induction w arbitrary: cur)
  case (Cons c w)
  then show ?case using ws_len_clean [of c "w @ rest"] by simp
qed simp

lemma ws_len_space [simp]: "ws_len (CHR '' '' # cs) = 1"
  by (cases cs rule: ws_len.cases; cases "tl cs") (auto simp: ascii_ws_def byte_val_def neq_Nil_conv)

lemma split_whitespace_join:
  "\<forall>w \<in> set ws. ws_free w \<and> w \<noteq> [] \<Longrightarrow> split_whitespace (join '' '' ws) = ws"
  unfolding split_whitespace_def
proof (induction ws rule: induct_list012)
  case (2 w)
  then show ?case using split_ws_from_word [of w "[]" "[]"] by simp
next
  case (3 v w ws)
  then show ?case using split_ws_from_word [of v "[]" "'' '' @ join '' '' (w # ws)"] by simp
qed simp

lemma trim_start_clean: "ws_len s = 0 \<Longrightarrow> trim_start s = s"
  by (cases s) auto

lemma trim_ws_free: "ws_free s \<Longrightarrow> trim s = s"
proof -
  assume "ws_free s"
  then have "trim_end s = s"
    by (induction s) (auto simp: is_blank_def ws_len_clean)
  moreover from \<open>ws_free s\<close> have "trim_start s = s"
    by (cases s) (auto simp: ws_len_clean)
  ultimately show ?thesis by (simp add: trim_def)
qed

lemma is_blank_Nil [simp]: "is_blank []"
  by (simp add: is_blank_def)

lemma ws_len_append: "0 < ws_len a \<Longrightarrow> ws_len (a @ b) = ws_len a"
  by (cases a rule: ws_len.cases; cases b rule: ws_len.cases) (auto split: if_splits)

lemma ws_len_le: "ws_len s \<le> length s"
  by (cases s rule: ws_len.cases) auto

lemma trim_start_append_blank: "is_blank a \<Longrightarrow> trim_start (a @ b) = trim_start b"
proof (induction a rule: trim_start.induct)
  case (2 c cs)
  then have w: "0 < ws_len (c # cs)" by (auto simp: is_blank_def split: if_splits)
  then have "trim_start ((c # cs) @ b) = trim_start (drop (ws_len (c # cs)) (c # cs) @ b)"
    using w ws_len_append [of "c # cs" b] ws_len_le [of "c # cs"] drop_append [of "ws_len (c # cs)" "c # cs" b] by simp
  also have "\<dots> = trim_start b" using 2 w by (simp add: is_blank_def)
  finally show ?case .
qed simp

lemma trim_end_split: "\<exists>r. s = trim_end s @ r \<and> is_blank r"
  by (induction s) (auto intro: exI [of _ "_ # _"])

lemma trim_end_blank: "trim_end s = [] \<longleftrightarrow> is_blank s"
  by (cases s) auto

lemma trim_end_idem: "trim_end (trim_end s) = trim_end s"
proof (induction s)
  case (Cons c cs)
  obtain r where r: "cs = trim_end cs @ r" "is_blank r" using trim_end_split by blast
  have "is_blank (c # cs)" if "is_blank (c # trim_end cs)"
    using trim_start_append_blank [OF that, of r] r by (simp add: is_blank_def)
  with Cons show ?case by auto
qed simp

lemma trim_start_done: "ws_len (trim_start s) = 0"
  by (induction s rule: trim_start.induct) auto

lemma trim_idem: "trim (trim s) = trim s"
proof -
  obtain r where r: "trim_start s = trim s @ r" unfolding trim_def using trim_end_split by blast
  then have "ws_len (trim s) = 0" using trim_start_done [of s] ws_len_append [of "trim s" r] by fastforce
  then show ?thesis by (simp add: trim_start_clean trim_end_idem trim_def)
qed

section \<open>Lemmas on lists\<close>

lemma filter_map_id_length:
  "length (filter P (map f xs)) = length (filter (\<lambda>x. P (f x)) xs)"
  by (induction xs) auto

lemma find_Some_mem: "find P xs = Some x \<Longrightarrow> x \<in> set xs \<and> P x"
  by (auto simp: find_Some_iff)

lemma find_cong_pred: "(\<And>x. x \<in> set xs \<Longrightarrow> P x = Q x) \<Longrightarrow> find P xs = find Q xs"
  by (induction xs) auto

lemma find_map_key:
  assumes "\<And>x. key (f x) = key x"
  shows "find (\<lambda>x. key x = k) (map f xs) = map_option f (find (\<lambda>x. key x = k) xs)"
  using assms by (induction xs) auto

lemma find_distinct_key:
  assumes "distinct (map key xs)" "x \<in> set xs" "key x = k"
  shows "find (\<lambda>x. key x = k) xs = Some x"
  using assms by (induction xs) (auto simp: image_iff)

lemma find_distinct_key_and:
  assumes "distinct (map key xs)" "x \<in> set xs" "key x = k" "Q x"
  shows "find (\<lambda>x. key x = k \<and> Q x) xs = Some x"
  using assms by (induction xs) (auto simp: image_iff)

lemma map_key_upd: "(\<And>x. key (f x) = key x) \<Longrightarrow> map key (map f xs) = map key xs"
  by simp

end
