(* ===== verification/Values.thy ===== *)
theory Values
  imports Assay_Prelude
begin

text \<open>
  Enumerations with stored string values and the value objects of \<open>domain/values.rs\<close>, the domain
  error type of \<open>domain/error.rs\<close> and the translation keys of \<open>domain/message.rs\<close>.

  The macro \<open>string_enum!\<close> generates \<open>as_str\<close> and \<open>parse\<close> from one list of
  variant/value pairs.  Its model is the pair \<open>enum_as_str\<close>, \<open>enum_parse\<close> over such a list;
  every enumeration is a datatype with its list of pairs, and the locale \<open>string_enum\<close> holds
  the round-trip laws once, interpreted on each enumeration.
\<close>

section \<open>Errors and messages\<close>

datatype domain_error = NotFound | Conflict string | InvalidValue string | Repository string

record message_key =
  mk_key :: string
  mk_value :: "string option"

definition message_new :: "string \<Rightarrow> message_key" where
  "message_new k = \<lparr>mk_key = k, mk_value = None\<rparr>"

definition message_with_value :: "string \<Rightarrow> string \<Rightarrow> message_key" where
  "message_with_value k v = \<lparr>mk_key = k, mk_value = Some v\<rparr>"

datatype oauth_error_code =
    InvalidRequest | InvalidClient | InvalidGrant | UnauthorizedClient | UnsupportedGrantType
  | UnsupportedResponseType | InvalidScope | AccessDenied | ServerError | LoginRequired
  | ConsentRequired | InteractionRequired | InvalidTarget | InvalidDpopProof

fun oauth_error_as_str :: "oauth_error_code \<Rightarrow> string" where
  "oauth_error_as_str InvalidRequest = ''invalid_request''"
| "oauth_error_as_str InvalidClient = ''invalid_client''"
| "oauth_error_as_str InvalidGrant = ''invalid_grant''"
| "oauth_error_as_str UnauthorizedClient = ''unauthorized_client''"
| "oauth_error_as_str UnsupportedGrantType = ''unsupported_grant_type''"
| "oauth_error_as_str UnsupportedResponseType = ''unsupported_response_type''"
| "oauth_error_as_str InvalidScope = ''invalid_scope''"
| "oauth_error_as_str AccessDenied = ''access_denied''"
| "oauth_error_as_str ServerError = ''server_error''"
| "oauth_error_as_str LoginRequired = ''login_required''"
| "oauth_error_as_str ConsentRequired = ''consent_required''"
| "oauth_error_as_str InteractionRequired = ''interaction_required''"
| "oauth_error_as_str InvalidTarget = ''invalid_target''"
| "oauth_error_as_str InvalidDpopProof = ''invalid_dpop_proof''"

section \<open>The string-enumeration macro\<close>

type_synonym 'a enum_table = "('a \<times> string) list"

fun enum_as_str :: "'a enum_table \<Rightarrow> 'a \<Rightarrow> string" where
  "enum_as_str [] v = []"
| "enum_as_str ((w, s) # ps) v = (if w = v then s else enum_as_str ps v)"

fun enum_lookup :: "'a enum_table \<Rightarrow> string \<Rightarrow> 'a option" where
  "enum_lookup [] s = None"
| "enum_lookup ((w, t) # ps) s = (if t = s then Some w else enum_lookup ps s)"

definition enum_parse :: "string \<Rightarrow> 'a enum_table \<Rightarrow> string \<Rightarrow> domain_error + 'a" where
  "enum_parse name tab s =
     (case enum_lookup tab s of Some v \<Rightarrow> Inr v | None \<Rightarrow> Inl (InvalidValue (name @ '': '' @ s)))"

section \<open>The enumerations\<close>

datatype user_status = UserActive | UserDisabled | UserLocked

definition user_status_table :: "user_status enum_table" where
  "user_status_table = [(UserActive, ''ACTIVE''), (UserDisabled, ''DISABLED''), (UserLocked, ''LOCKED'')]"

datatype tenant_status = TenantActive | TenantDisabled

definition tenant_status_table :: "tenant_status enum_table" where
  "tenant_status_table = [(TenantActive, ''ACTIVE''), (TenantDisabled, ''DISABLED'')]"

datatype membership_type = Home | Guest

definition membership_type_table :: "membership_type enum_table" where
  "membership_type_table = [(Home, ''HOME''), (Guest, ''GUEST'')]"

datatype membership_status = Invited | MemberActive | Suspended

definition membership_status_table :: "membership_status enum_table" where
  "membership_status_table = [(Invited, ''INVITED''), (MemberActive, ''ACTIVE''), (Suspended, ''SUSPENDED'')]"

datatype resource_status = ResourceActive | ResourceDisabled

definition resource_status_table :: "resource_status enum_table" where
  "resource_status_table = [(ResourceActive, ''ACTIVE''), (ResourceDisabled, ''DISABLED'')]"

datatype application_status = ApplicationActive | ApplicationDisabled

definition application_status_table :: "application_status enum_table" where
  "application_status_table = [(ApplicationActive, ''ACTIVE''), (ApplicationDisabled, ''DISABLED'')]"

datatype assignment_mode = Everyone | Individual

definition assignment_mode_table :: "assignment_mode enum_table" where
  "assignment_mode_table = [(Everyone, ''EVERYONE''), (Individual, ''INDIVIDUAL'')]"

datatype assignment_enforcement = RecordOnly | Enforce

definition assignment_enforcement_table :: "assignment_enforcement enum_table" where
  "assignment_enforcement_table = [(RecordOnly, ''record_only''), (Enforce, ''enforce'')]"

datatype client_type = Public | Confidential

definition client_type_table :: "client_type enum_table" where
  "client_type_table = [(Public, ''public''), (Confidential, ''confidential'')]"

datatype client_status = ClientActive | ClientDisabled | ClientDeleted

definition client_status_table :: "client_status enum_table" where
  "client_status_table =
     [(ClientActive, ''ACTIVE''), (ClientDisabled, ''DISABLED''), (ClientDeleted, ''DELETED'')]"

datatype token_endpoint_auth_method = ClientSecretBasic | ClientSecretPost | PrivateKeyJwt | AuthMethodNone

definition token_endpoint_auth_method_table :: "token_endpoint_auth_method enum_table" where
  "token_endpoint_auth_method_table =
     [(ClientSecretBasic, ''client_secret_basic''), (ClientSecretPost, ''client_secret_post''),
      (PrivateKeyJwt, ''private_key_jwt''), (AuthMethodNone, ''none'')]"

datatype signing_key_status = KeyActive | KeyRetired

definition signing_key_status_table :: "signing_key_status enum_table" where
  "signing_key_status_table = [(KeyActive, ''ACTIVE''), (KeyRetired, ''RETIRED'')]"

datatype signing_algorithm = Rs256 | Es256

definition signing_algorithm_table :: "signing_algorithm enum_table" where
  "signing_algorithm_table = [(Rs256, ''RS256''), (Es256, ''ES256'')]"

datatype code_challenge_method = S256

definition code_challenge_method_table :: "code_challenge_method enum_table" where
  "code_challenge_method_table = [(S256, ''S256'')]"

datatype prompt = PromptNone | PromptLogin | PromptConsent | PromptSelectAccount

definition prompt_table :: "prompt enum_table" where
  "prompt_table = [(PromptNone, ''none''), (PromptLogin, ''login''), (PromptConsent, ''consent''),
     (PromptSelectAccount, ''select_account'')]"

datatype scope = OpenId | Profile | Email | OfflineAccess

definition scope_table :: "scope enum_table" where
  "scope_table = [(OpenId, ''openid''), (Profile, ''profile''), (Email, ''email''),
     (OfflineAccess, ''offline_access'')]"

datatype grant_type = AuthorizationCodeGrant | RefreshTokenGrant | ClientCredentialsGrant

definition grant_type_table :: "grant_type enum_table" where
  "grant_type_table = [(AuthorizationCodeGrant, ''authorization_code''),
     (RefreshTokenGrant, ''refresh_token''), (ClientCredentialsGrant, ''client_credentials'')]"

datatype authentication_method =
  Password | Totp | WebAuthn | RecoveryCode | EmailOtp | SmsOtp | ExternalIdp | AppApproval

definition authentication_method_table :: "authentication_method enum_table" where
  "authentication_method_table =
     [(Password, ''password''), (Totp, ''totp''), (WebAuthn, ''webauthn''),
      (RecoveryCode, ''recovery_code''), (EmailOtp, ''email_otp''), (SmsOtp, ''sms_otp''),
      (ExternalIdp, ''external_idp''), (AppApproval, ''app_approval'')]"

datatype authentication_strength = SingleFactor | MultiFactor

definition authentication_strength_table :: "authentication_strength enum_table" where
  "authentication_strength_table = [(SingleFactor, ''single_factor''), (MultiFactor, ''multi_factor'')]"

section \<open>Authentication methods and strength\<close>

fun amr :: "authentication_method \<Rightarrow> string" where
  "amr Password = ''pwd''"
| "amr Totp = ''otp''"
| "amr WebAuthn = ''hwk''"
| "amr RecoveryCode = ''rba''"
| "amr EmailOtp = ''otp''"
| "amr SmsOtp = ''otp''"
| "amr ExternalIdp = ''fed''"
| "amr AppApproval = ''hwk''"

definition is_second_factor :: "authentication_method \<Rightarrow> bool" where
  "is_second_factor m \<longleftrightarrow>
     m = Totp \<or> m = WebAuthn \<or> m = RecoveryCode \<or> m = EmailOtp \<or> m = SmsOtp \<or> m = AppApproval"

definition all_methods :: "authentication_method list" where
  "all_methods = [Password, Totp, WebAuthn, RecoveryCode, EmailOtp, SmsOtp, ExternalIdp, AppApproval]"

definition second_factors :: "authentication_method list" where
  "second_factors = [Totp, WebAuthn, RecoveryCode, EmailOtp, SmsOtp, AppApproval]"

definition acr_multi_factor :: string where
  "acr_multi_factor = ''urn:assay:ac:mfa''"

definition acr_single_factor :: string where
  "acr_single_factor = ''urn:assay:ac:single''"

definition supported_acr_values :: "string list" where
  "supported_acr_values = [acr_multi_factor, acr_single_factor]"

definition from_methods :: "authentication_method list \<Rightarrow> authentication_strength" where
  "from_methods ms = (if list_ex is_second_factor ms then MultiFactor else SingleFactor)"

fun strength_satisfies :: "authentication_strength \<Rightarrow> authentication_strength \<Rightarrow> bool" where
  "strength_satisfies s SingleFactor = True"
| "strength_satisfies s MultiFactor = (s = MultiFactor)"

fun strength_acr :: "authentication_strength \<Rightarrow> string" where
  "strength_acr SingleFactor = acr_single_factor"
| "strength_acr MultiFactor = acr_multi_factor"

section \<open>Input validation\<close>

definition email_max_len :: nat where
  "email_max_len = 320"

definition validate_email :: "string \<Rightarrow> message_key + unit" where
  "validate_email email =
     (if chars_count email > email_max_len
      then Inl (message_with_value ''api-email-too-long'' (nat_to_string email_max_len))
      else let parts = split_on CHR ''@'' email in
        if length parts = 2 \<and> parts ! 0 \<noteq> [] \<and> parts ! 1 \<noteq> [] then Inr ()
        else Inl (message_new ''api-email-invalid''))"

definition preferred_username_max_len :: nat where
  "preferred_username_max_len = 255"

definition validate_preferred_username :: "string \<Rightarrow> message_key + unit" where
  "validate_preferred_username v =
     (if chars_count v > preferred_username_max_len
      then Inl (message_with_value ''api-username-too-long'' (nat_to_string preferred_username_max_len))
      else Inr ())"

definition display_name_max_len :: nat where
  "display_name_max_len = 255"

definition validate_display_name :: "string \<Rightarrow> message_key + unit" where
  "validate_display_name v =
     (if chars_count v > display_name_max_len
      then Inl (message_with_value ''api-display-name-too-long'' (nat_to_string display_name_max_len))
      else Inr ())"

section \<open>The prompt set\<close>

type_synonym prompt_set = "prompt list"

definition prompt_parse :: "string \<Rightarrow> domain_error + prompt" where
  "prompt_parse = enum_parse ''Prompt'' prompt_table"

fun prompt_collect :: "prompt list \<Rightarrow> string list \<Rightarrow> prompt list" where
  "prompt_collect values [] = values"
| "prompt_collect values (token # tokens) =
     (case prompt_parse token of
        Inr p \<Rightarrow> prompt_collect (if p \<in> set values then values else values @ [p]) tokens
      | Inl _ \<Rightarrow> prompt_collect values tokens)"

definition prompt_set_parse :: "string \<Rightarrow> prompt_set" where
  "prompt_set_parse raw = prompt_collect [] (split_whitespace raw)"

definition prompt_set_to_storage :: "prompt_set \<Rightarrow> string option" where
  "prompt_set_to_storage ps =
     (if ps = [] then None else Some (join '' '' (map (enum_as_str prompt_table) ps)))"

definition prompt_set_contains :: "prompt_set \<Rightarrow> prompt \<Rightarrow> bool" where
  "prompt_set_contains ps p \<longleftrightarrow> p \<in> set ps"

section \<open>Round trips of the enumerations\<close>

definition table_ok :: "'a enum_table \<Rightarrow> bool" where
  "table_ok tab \<longleftrightarrow> distinct (map fst tab) \<and> distinct (map snd tab)
     \<and> list_all (\<lambda>(v, s). ws_free s \<and> s \<noteq> []) tab"

lemma enum_as_str_mem: "v \<in> fst ` set tab \<Longrightarrow> (v, enum_as_str tab v) \<in> set tab"
  by (induction tab) force+

lemma enum_lookup_mem: "enum_lookup tab s = Some v \<Longrightarrow> (v, s) \<in> set tab"
  by (induction tab) (auto split: if_splits)

lemma enum_lookup_intro: "distinct (map snd tab) \<Longrightarrow> (v, s) \<in> set tab \<Longrightarrow> enum_lookup tab s = Some v"
  by (induction tab) (force simp: image_iff split: if_splits)+

lemma enum_as_str_intro: "distinct (map fst tab) \<Longrightarrow> (v, s) \<in> set tab \<Longrightarrow> enum_as_str tab v = s"
  by (induction tab) (force simp: image_iff split: if_splits)+

locale string_enum =
  fixes tab :: "'a enum_table"
  assumes table: "table_ok tab"
    and complete: "v \<in> fst ` set tab"
begin

lemma parse_as_str: "enum_parse name tab (enum_as_str tab v) = Inr v"
proof -
  have "(v, enum_as_str tab v) \<in> set tab" using complete by (rule enum_as_str_mem)
  then show ?thesis using table by (simp add: enum_parse_def enum_lookup_intro table_ok_def)
qed

lemma as_str_parse: "enum_parse name tab s = Inr v \<Longrightarrow> enum_as_str tab v = s"
  using table
  by (auto simp: enum_parse_def table_ok_def split: option.splits
      dest!: enum_lookup_mem intro: enum_as_str_intro)

lemma parse_iff: "enum_parse name tab s = Inr v \<longleftrightarrow> enum_as_str tab v = s"
  using as_str_parse parse_as_str by blast

lemma parse_fails_iff: "(\<exists>e. enum_parse name tab s = Inl e) \<longleftrightarrow> s \<notin> range (enum_as_str tab)"
proof -
  have "(\<exists>e. enum_parse name tab s = Inl e) \<longleftrightarrow> (\<nexists>v. enum_parse name tab s = Inr v)"
    by (metis Inl_Inr_False old.sum.exhaust)
  then show ?thesis by (auto simp: parse_iff)
qed

lemma as_str_inj: "inj (enum_as_str tab)"
  by (metis injI parse_as_str sum.inject(2))

lemma as_str_clean: "ws_free (enum_as_str tab v) \<and> enum_as_str tab v \<noteq> []"
proof -
  have "(v, enum_as_str tab v) \<in> set tab" using complete by (rule enum_as_str_mem)
  then show ?thesis using table by (auto simp: table_ok_def list_all_iff)
qed

end

lemmas enum_table_simps = table_ok_def ascii_ws_def byte_val_def

interpretation user_status_enum: string_enum user_status_table
proof unfold_locales
  show "table_ok user_status_table" by (simp add: user_status_table_def enum_table_simps)
  show "v \<in> fst ` set user_status_table" for v by (cases v) (simp_all add: user_status_table_def)
qed

interpretation tenant_status_enum: string_enum tenant_status_table
proof unfold_locales
  show "table_ok tenant_status_table" by (simp add: tenant_status_table_def enum_table_simps)
  show "v \<in> fst ` set tenant_status_table" for v by (cases v) (simp_all add: tenant_status_table_def)
qed

interpretation membership_type_enum: string_enum membership_type_table
proof unfold_locales
  show "table_ok membership_type_table" by (simp add: membership_type_table_def enum_table_simps)
  show "v \<in> fst ` set membership_type_table" for v by (cases v) (simp_all add: membership_type_table_def)
qed

interpretation membership_status_enum: string_enum membership_status_table
proof unfold_locales
  show "table_ok membership_status_table" by (simp add: membership_status_table_def enum_table_simps)
  show "v \<in> fst ` set membership_status_table" for v by (cases v) (simp_all add: membership_status_table_def)
qed

interpretation resource_status_enum: string_enum resource_status_table
proof unfold_locales
  show "table_ok resource_status_table" by (simp add: resource_status_table_def enum_table_simps)
  show "v \<in> fst ` set resource_status_table" for v by (cases v) (simp_all add: resource_status_table_def)
qed

interpretation application_status_enum: string_enum application_status_table
proof unfold_locales
  show "table_ok application_status_table" by (simp add: application_status_table_def enum_table_simps)
  show "v \<in> fst ` set application_status_table" for v by (cases v) (simp_all add: application_status_table_def)
qed

interpretation assignment_mode_enum: string_enum assignment_mode_table
proof unfold_locales
  show "table_ok assignment_mode_table" by (simp add: assignment_mode_table_def enum_table_simps)
  show "v \<in> fst ` set assignment_mode_table" for v by (cases v) (simp_all add: assignment_mode_table_def)
qed

interpretation assignment_enforcement_enum: string_enum assignment_enforcement_table
proof unfold_locales
  show "table_ok assignment_enforcement_table" by (simp add: assignment_enforcement_table_def enum_table_simps)
  show "v \<in> fst ` set assignment_enforcement_table" for v by (cases v) (simp_all add: assignment_enforcement_table_def)
qed

interpretation client_type_enum: string_enum client_type_table
proof unfold_locales
  show "table_ok client_type_table" by (simp add: client_type_table_def enum_table_simps)
  show "v \<in> fst ` set client_type_table" for v by (cases v) (simp_all add: client_type_table_def)
qed

interpretation client_status_enum: string_enum client_status_table
proof unfold_locales
  show "table_ok client_status_table" by (simp add: client_status_table_def enum_table_simps)
  show "v \<in> fst ` set client_status_table" for v by (cases v) (simp_all add: client_status_table_def)
qed

interpretation token_endpoint_auth_method_enum: string_enum token_endpoint_auth_method_table
proof unfold_locales
  show "table_ok token_endpoint_auth_method_table" by (simp add: token_endpoint_auth_method_table_def enum_table_simps)
  show "v \<in> fst ` set token_endpoint_auth_method_table" for v by (cases v) (simp_all add: token_endpoint_auth_method_table_def)
qed

interpretation signing_key_status_enum: string_enum signing_key_status_table
proof unfold_locales
  show "table_ok signing_key_status_table" by (simp add: signing_key_status_table_def enum_table_simps)
  show "v \<in> fst ` set signing_key_status_table" for v by (cases v) (simp_all add: signing_key_status_table_def)
qed

interpretation signing_algorithm_enum: string_enum signing_algorithm_table
proof unfold_locales
  show "table_ok signing_algorithm_table" by (simp add: signing_algorithm_table_def enum_table_simps)
  show "v \<in> fst ` set signing_algorithm_table" for v by (cases v) (simp_all add: signing_algorithm_table_def)
qed

interpretation code_challenge_method_enum: string_enum code_challenge_method_table
proof unfold_locales
  show "table_ok code_challenge_method_table" by (simp add: code_challenge_method_table_def enum_table_simps)
  show "v \<in> fst ` set code_challenge_method_table" for v by (cases v) (simp_all add: code_challenge_method_table_def)
qed

interpretation prompt_enum: string_enum prompt_table
proof unfold_locales
  show "table_ok prompt_table" by (simp add: prompt_table_def enum_table_simps)
  show "v \<in> fst ` set prompt_table" for v by (cases v) (simp_all add: prompt_table_def)
qed

interpretation scope_enum: string_enum scope_table
proof unfold_locales
  show "table_ok scope_table" by (simp add: scope_table_def enum_table_simps)
  show "v \<in> fst ` set scope_table" for v by (cases v) (simp_all add: scope_table_def)
qed

interpretation grant_type_enum: string_enum grant_type_table
proof unfold_locales
  show "table_ok grant_type_table" by (simp add: grant_type_table_def enum_table_simps)
  show "v \<in> fst ` set grant_type_table" for v by (cases v) (simp_all add: grant_type_table_def)
qed

interpretation authentication_method_enum: string_enum authentication_method_table
proof unfold_locales
  show "table_ok authentication_method_table" by (simp add: authentication_method_table_def enum_table_simps)
  show "v \<in> fst ` set authentication_method_table" for v by (cases v) (simp_all add: authentication_method_table_def)
qed

interpretation authentication_strength_enum: string_enum authentication_strength_table
proof unfold_locales
  show "table_ok authentication_strength_table" by (simp add: authentication_strength_table_def enum_table_simps)
  show "v \<in> fst ` set authentication_strength_table" for v by (cases v) (simp_all add: authentication_strength_table_def)
qed

section \<open>Authentication strength as an order\<close>

instantiation authentication_strength :: linorder
begin

definition less_eq_authentication_strength :: "authentication_strength \<Rightarrow> authentication_strength \<Rightarrow> bool" where
  "less_eq_authentication_strength a b \<longleftrightarrow> a = SingleFactor \<or> b = MultiFactor"

definition less_authentication_strength :: "authentication_strength \<Rightarrow> authentication_strength \<Rightarrow> bool" where
  "less_authentication_strength a b \<longleftrightarrow> a = SingleFactor \<and> b = MultiFactor"

instance
proof
  fix x y z :: authentication_strength
  show "x < y \<longleftrightarrow> x \<le> y \<and> \<not> y \<le> x"
    by (cases x; cases y) (simp_all add: less_authentication_strength_def less_eq_authentication_strength_def)
  show "x \<le> x" by (cases x) (simp_all add: less_eq_authentication_strength_def)
  show "x \<le> y \<Longrightarrow> y \<le> z \<Longrightarrow> x \<le> z" by (auto simp: less_eq_authentication_strength_def)
  show "x \<le> y \<Longrightarrow> y \<le> x \<Longrightarrow> x = y"
    by (cases x; cases y) (simp_all add: less_eq_authentication_strength_def)
  show "x \<le> y \<or> y \<le> x" by (cases x; cases y) (simp_all add: less_eq_authentication_strength_def)
qed

end

lemma strength_satisfies_iff_le: "strength_satisfies s r \<longleftrightarrow> r \<le> s"
  by (cases r) (auto simp: less_eq_authentication_strength_def)

lemma from_methods_MultiFactor_iff: "from_methods ms = MultiFactor \<longleftrightarrow> (\<exists>m \<in> set ms. is_second_factor m)"
  by (auto simp: from_methods_def list_ex_iff)

lemma from_methods_mono: "set ms \<subseteq> set ns \<Longrightarrow> from_methods ms \<le> from_methods ns"
  by (auto simp: from_methods_def list_ex_iff less_eq_authentication_strength_def)

lemma from_methods_append: "from_methods (ms @ ns) = max (from_methods ms) (from_methods ns)"
  by (auto simp: from_methods_def max_def less_eq_authentication_strength_def)

lemma second_factors_exact: "m \<in> set second_factors \<longleftrightarrow> is_second_factor m"
  by (cases m) (simp_all add: second_factors_def is_second_factor_def)

lemma all_methods_exact: "m \<in> set all_methods"
  by (cases m) (simp_all add: all_methods_def)

lemma strength_acr_inj: "strength_acr a = strength_acr b \<longleftrightarrow> a = b"
  by (cases a; cases b) (simp_all add: acr_single_factor_def acr_multi_factor_def)

section \<open>Splitting\<close>

lemma split_on_ne [simp]: "split_on sep s \<noteq> []"
  by (cases s) (auto split: list.splits)

lemma split_on_clean: "sep \<notin> set s \<Longrightarrow> split_on sep s = [s]"
  by (induction s) auto

lemma split_on_append: "sep \<notin> set a \<Longrightarrow> split_on sep (a @ sep # b) = a # split_on sep b"
  by (induction a) auto

lemma split_on_member_clean: "w \<in> set (split_on sep s) \<Longrightarrow> sep \<notin> set w"
  by (induction s arbitrary: w) (auto split: if_splits list.splits)

lemma split_on_join: "join [sep] (split_on sep s) = s"
proof (induction s)
  case (Cons c cs)
  then show ?case
    by (cases "split_on sep cs"; cases "tl (split_on sep cs)") auto
qed simp

lemma split_on_two_iff:
  "split_on sep s = [a, b] \<longleftrightarrow> s = a @ sep # b \<and> sep \<notin> set a \<and> sep \<notin> set b"
proof
  assume eq: "split_on sep s = [a, b]"
  then show "s = a @ sep # b \<and> sep \<notin> set a \<and> sep \<notin> set b"
    using split_on_join [of sep s] split_on_member_clean [of a sep s] split_on_member_clean [of b sep s]
    by simp
qed (simp add: split_on_append split_on_clean)

section \<open>Prompt sets\<close>

lemma prompt_parse_iff: "prompt_parse t = Inr p \<longleftrightarrow> enum_as_str prompt_table p = t"
  by (simp add: prompt_parse_def prompt_enum.parse_iff)

lemma prompt_collect_distinct: "distinct vs \<Longrightarrow> distinct (prompt_collect vs ts)"
  by (induction ts arbitrary: vs) (auto split: sum.splits)

lemma prompt_collect_set:
  "set (prompt_collect vs ts) = set vs \<union> {p. enum_as_str prompt_table p \<in> set ts}"
proof (induction ts arbitrary: vs)
  case (Cons t ts)
  show ?case
  proof (cases "prompt_parse t")
    case (Inl e)
    then have "enum_as_str prompt_table p \<noteq> t" for p by (metis Inl_Inr_False prompt_parse_iff)
    then show ?thesis using Inl Cons by auto
  next
    case (Inr q)
    then have "enum_as_str prompt_table p = t \<longleftrightarrow> p = q" for p by (metis prompt_parse_iff sum.inject(2))
    then show ?thesis using Inr Cons by auto
  qed
qed simp

lemma prompt_collect_rendered:
  "distinct (vs @ ps) \<Longrightarrow> prompt_collect vs (map (enum_as_str prompt_table) ps) = vs @ ps"
proof (induction ps arbitrary: vs)
  case (Cons p ps)
  have "prompt_parse (enum_as_str prompt_table p) = Inr p" by (simp add: prompt_parse_iff)
  then show ?case using Cons.prems Cons.IH [of "vs @ [p]"] by simp
qed simp

lemma prompt_set_parse_distinct: "distinct (prompt_set_parse raw)"
  by (simp add: prompt_set_parse_def prompt_collect_distinct)

lemma prompt_set_parse_mem:
  "p \<in> set (prompt_set_parse raw) \<longleftrightarrow> enum_as_str prompt_table p \<in> set (split_whitespace raw)"
  by (simp add: prompt_set_parse_def prompt_collect_set)

lemma prompt_set_storage_read:
  assumes "distinct ps" "prompt_set_to_storage ps = Some st"
  shows "prompt_set_parse st = ps"
proof -
  have st: "st = join '' '' (map (enum_as_str prompt_table) ps)"
    using assms(2) by (simp add: prompt_set_to_storage_def split: if_splits)
  have "split_whitespace st = map (enum_as_str prompt_table) ps"
    unfolding st by (rule split_whitespace_join) (auto simp: prompt_enum.as_str_clean)
  then show ?thesis using assms(1) by (simp add: prompt_set_parse_def prompt_collect_rendered)
qed

section \<open>Properties\<close>

text \<open>The stored form of a prompt set is lossless and canonical: what \<open>PromptSet::parse\<close>
  accepts from a request is exactly the set of known values among its white-space separated
  tokens, without duplicates, and writing it with \<open>to_storage\<close> and parsing the column again
  gives the same list; an empty set is stored as NULL.\<close>

theorem prompt_set_roundtrip:
  "distinct (prompt_set_parse raw)
   \<and> (\<forall>p. prompt_set_contains (prompt_set_parse raw) p \<longleftrightarrow> enum_as_str prompt_table p \<in> set (split_whitespace raw))
   \<and> (case prompt_set_to_storage (prompt_set_parse raw) of
        None \<Rightarrow> prompt_set_parse raw = []
      | Some st \<Rightarrow> prompt_set_parse st = prompt_set_parse raw)"
proof (intro conjI allI)
  show "distinct (prompt_set_parse raw)" by (rule prompt_set_parse_distinct)
  show "prompt_set_contains (prompt_set_parse raw) p \<longleftrightarrow> enum_as_str prompt_table p \<in> set (split_whitespace raw)" for p
    by (simp only: prompt_set_contains_def prompt_set_parse_mem)
  show "case prompt_set_to_storage (prompt_set_parse raw) of
        None \<Rightarrow> prompt_set_parse raw = []
      | Some st \<Rightarrow> prompt_set_parse st = prompt_set_parse raw"
  proof (cases "prompt_set_to_storage (prompt_set_parse raw)")
    case None
    then show ?thesis by (simp add: prompt_set_to_storage_def split: if_splits)
  next
    case (Some st)
    then show ?thesis using prompt_set_storage_read [OF prompt_set_parse_distinct] by simp
  qed
qed

text \<open>\<open>validate_email\<close> accepts exactly the strings of at most 320 characters of the form
  \<open>local@domain\<close> with a single \<open>@\<close> and both sides non-empty; an over-long address is reported
  as too long even when it is malformed as well.\<close>

theorem validate_email_exact:
  "(validate_email s = Inr () \<longleftrightarrow>
      chars_count s \<le> 320 \<and> (\<exists>a b. s = a @ CHR ''@'' # b \<and> a \<noteq> [] \<and> b \<noteq> []
        \<and> CHR ''@'' \<notin> set a \<and> CHR ''@'' \<notin> set b))
   \<and> (validate_email s = Inl (message_with_value ''api-email-too-long'' (nat_to_string 320)) \<longleftrightarrow> chars_count s > 320)"
proof -
  let ?ps = "split_on CHR ''@'' s"
  have two: "length ?ps = 2 \<and> ?ps ! 0 \<noteq> [] \<and> ?ps ! 1 \<noteq> [] \<longleftrightarrow>
    (\<exists>a b. s = a @ CHR ''@'' # b \<and> a \<noteq> [] \<and> b \<noteq> [] \<and> CHR ''@'' \<notin> set a \<and> CHR ''@'' \<notin> set b)"
    (is "?L \<longleftrightarrow> ?R")
  proof
    assume ?L
    then have "?ps = [?ps ! 0, ?ps ! 1]" by (auto simp: numeral_2_eq_2 length_Suc_conv)
    with \<open>?L\<close> show ?R using split_on_two_iff by blast
  next
    assume ?R
    then obtain a b where "?ps = [a, b]" "a \<noteq> []" "b \<noteq> []" using split_on_two_iff by blast
    then show ?L by simp
  qed
  show ?thesis
    unfolding validate_email_def Let_def two
    by (auto simp: email_max_len_def message_new_def message_with_value_def)
qed

end
