(* ===== verification/Crypto.thy ===== *)
theory Crypto
  imports Values
begin

text \<open>
  Digests, PKCE and key material (\<open>domain/crypto.rs\<close>, \<open>domain/pkce.rs\<close>, the key part of
  \<open>domain/jwt.rs\<close> and \<open>domain/client_jwks.rs\<close>).

  SHA-256, hex, base64url and the acceptance of RSA/EC components by \<open>jsonwebtoken\<close> are third-party:
  they are the fields of \<open>crypto_lib\<close>, an argument of every definition that uses them.
  Where a proof needs collision freedom it is the named predicate \<open>digest_injective\<close>.
\<close>

record crypto_lib =
  lib_sha256 :: "string \<Rightarrow> string"
  lib_hex :: "string \<Rightarrow> string"
  lib_base64url :: "string \<Rightarrow> string"
  lib_rsa_components_ok :: "string \<Rightarrow> string \<Rightarrow> bool"
  lib_ec_components_ok :: "string \<Rightarrow> string \<Rightarrow> bool"

definition sha256_hex :: "crypto_lib \<Rightarrow> string \<Rightarrow> string" where
  "sha256_hex lib input = lib_hex lib (lib_sha256 lib input)"

definition base64url :: "crypto_lib \<Rightarrow> string \<Rightarrow> string" where
  "base64url lib bs = lib_base64url lib bs"

definition digest_injective :: "crypto_lib \<Rightarrow> bool" where
  "digest_injective lib \<longleftrightarrow> inj (sha256_hex lib)"

section \<open>PKCE\<close>

definition min_verifier_len :: nat where
  "min_verifier_len = 43"

definition max_verifier_len :: nat where
  "max_verifier_len = 128"

definition is_verifier_byte :: "char \<Rightarrow> bool" where
  "is_verifier_byte c \<longleftrightarrow> (let b = byte_val c in
     48 \<le> b \<and> b \<le> 57 \<or> 65 \<le> b \<and> b \<le> 90 \<or> 97 \<le> b \<and> b \<le> 122
     \<or> c = CHR ''-'' \<or> c = CHR ''.'' \<or> c = CHR ''_'' \<or> c = CHR ''~'')"

definition is_valid_code_verifier :: "string \<Rightarrow> bool" where
  "is_valid_code_verifier v \<longleftrightarrow>
     min_verifier_len \<le> length v \<and> length v \<le> max_verifier_len \<and> list_all is_verifier_byte v"

definition s256_challenge :: "crypto_lib \<Rightarrow> string \<Rightarrow> string" where
  "s256_challenge lib v = lib_base64url lib (lib_sha256 lib v)"

definition verify_s256 :: "crypto_lib \<Rightarrow> string \<Rightarrow> string \<Rightarrow> bool" where
  "verify_s256 lib v challenge \<longleftrightarrow> s256_challenge lib v = challenge"

section \<open>JSON Web Keys\<close>

record jwk =
  jwk_kty :: string
  jwk_use :: string
  jwk_kid :: string
  jwk_alg :: string
  jwk_n :: "string option"
  jwk_e :: "string option"
  jwk_crv :: "string option"
  jwk_x :: "string option"
  jwk_y :: "string option"

datatype decoding_key = RsaKey string string | EcKey string string

text \<open>\<open>anyhow\<close> errors of \<open>domain/jwt.rs\<close> are discarded by every caller; they are the unit error.\<close>

definition decoding_key_from_jwk :: "crypto_lib \<Rightarrow> jwk \<Rightarrow> unit + decoding_key" where
  "decoding_key_from_jwk lib k =
     (if jwk_kty k = ''RSA'' then
        rbind (ok_or () (jwk_n k)) (\<lambda>n.
        rbind (ok_or () (jwk_e k)) (\<lambda>e.
          if lib_rsa_components_ok lib n e then Inr (RsaKey n e) else Inl ()))
      else if jwk_kty k = ''EC'' then
        rbind (ok_or () (jwk_x k)) (\<lambda>x.
        rbind (ok_or () (jwk_y k)) (\<lambda>y.
          if lib_ec_components_ok lib x y then Inr (EcKey x y) else Inl ()))
      else Inl ())"

section \<open>Registered client keys\<close>

definition max_client_jwks_keys :: nat where
  "max_client_jwks_keys = 8"

type_synonym client_jwks = "jwk list"

datatype client_jwks_error =
    JwksMalformed | JwksEmpty | TooManyKeys | UnsupportedKeyType | MissingField
  | PrivateKeyMaterial | DuplicateKid | InvalidKeyMaterial

record submitted_jwk =
  sj_kty :: string
  sj_kid :: "string option"
  sj_use :: "string option"
  sj_n :: "string option"
  sj_e :: "string option"
  sj_crv :: "string option"
  sj_x :: "string option"
  sj_y :: "string option"
  sj_d :: "string option"
  sj_p :: "string option"
  sj_q :: "string option"
  sj_dp :: "string option"
  sj_dq :: "string option"
  sj_qi :: "string option"

definition opt_filter_ne :: "string option \<Rightarrow> string option" where
  "opt_filter_ne v = (case v of None \<Rightarrow> None | Some s \<Rightarrow> if s = [] then None else Some s)"

definition has_private_material :: "submitted_jwk \<Rightarrow> bool" where
  "has_private_material k \<longleftrightarrow>
     sj_d k \<noteq> None \<or> sj_p k \<noteq> None \<or> sj_q k \<noteq> None \<or> sj_dp k \<noteq> None \<or> sj_dq k \<noteq> None \<or> sj_qi k \<noteq> None"

definition jwk_normalize :: "submitted_jwk \<Rightarrow> client_jwks_error + jwk" where
  "jwk_normalize k =
     (if has_private_material k then Inl PrivateKeyMaterial
      else case opt_filter_ne (sj_kid k) of
        None \<Rightarrow> Inl MissingField
      | Some kid \<Rightarrow>
          if sj_kty k = ''RSA'' then
            (case (opt_filter_ne (sj_n k), opt_filter_ne (sj_e k)) of
               (Some n, Some e) \<Rightarrow>
                 Inr \<lparr>jwk_kty = ''RSA'', jwk_use = (case sj_use k of None \<Rightarrow> ''sig'' | Some u \<Rightarrow> u),
                      jwk_kid = kid, jwk_alg = ''RS256'', jwk_n = Some n, jwk_e = Some e,
                      jwk_crv = None, jwk_x = None, jwk_y = None\<rparr>
             | _ \<Rightarrow> Inl MissingField)
          else if sj_kty k = ''EC'' then
            (if sj_crv k \<noteq> Some ''P-256'' then Inl UnsupportedKeyType
             else case (opt_filter_ne (sj_x k), opt_filter_ne (sj_y k)) of
               (Some x, Some y) \<Rightarrow>
                 Inr \<lparr>jwk_kty = ''EC'', jwk_use = (case sj_use k of None \<Rightarrow> ''sig'' | Some u \<Rightarrow> u),
                      jwk_kid = kid, jwk_alg = ''ES256'', jwk_n = None, jwk_e = None,
                      jwk_crv = Some ''P-256'', jwk_x = Some x, jwk_y = Some y\<rparr>
             | _ \<Rightarrow> Inl MissingField)
          else Inl UnsupportedKeyType)"

fun collect_results :: "('a \<Rightarrow> 'e + 'b) \<Rightarrow> 'a list \<Rightarrow> 'e + 'b list" where
  "collect_results f [] = Inr []"
| "collect_results f (x # xs) = rbind (f x) (\<lambda>y. rbind (collect_results f xs) (\<lambda>ys. Inr (y # ys)))"

fun has_duplicate_kid :: "jwk list \<Rightarrow> bool" where
  "has_duplicate_kid [] = False"
| "has_duplicate_kid (k # ks) = (list_ex (\<lambda>other. jwk_kid other = jwk_kid k) ks \<or> has_duplicate_kid ks)"

definition jwks_build :: "crypto_lib \<Rightarrow> submitted_jwk list \<Rightarrow> client_jwks_error + client_jwks" where
  "jwks_build lib submitted =
     (if submitted = [] then Inl JwksEmpty
      else if length submitted > max_client_jwks_keys then Inl TooManyKeys
      else rbind (collect_results jwk_normalize submitted) (\<lambda>keys.
        if list_ex (\<lambda>k. res_ok (decoding_key_from_jwk lib k) = None) keys then Inl InvalidKeyMaterial
        else if has_duplicate_kid keys then Inl DuplicateKid
        else Inr keys))"

text \<open>\<open>serde_json::from_str\<close> is the argument \<open>from_json\<close>.\<close>

definition parse_registration_jwks ::
  "crypto_lib \<Rightarrow> (string \<Rightarrow> submitted_jwk list option) \<Rightarrow> string \<Rightarrow> client_jwks_error + client_jwks" where
  "parse_registration_jwks lib from_json raw =
     rbind (ok_or JwksMalformed (from_json raw)) (jwks_build lib)"

fun jwks_select :: "client_jwks \<Rightarrow> string option \<Rightarrow> jwk option" where
  "jwks_select keys (Some kid) = find (\<lambda>k. jwk_kid k = kid) keys"
| "jwks_select keys None = (if length keys = 1 then Some (hd keys) else None)"

section \<open>Lemmas\<close>

definition jwk_wf :: "crypto_lib \<Rightarrow> jwk \<Rightarrow> bool" where
  "jwk_wf lib k \<longleftrightarrow> jwk_kid k \<noteq> []
     \<and> (jwk_kty k = ''RSA'' \<and> jwk_alg k = ''RS256'' \<or> jwk_kty k = ''EC'' \<and> jwk_alg k = ''ES256'' \<and> jwk_crv k = Some ''P-256'')
     \<and> (\<exists>dk. decoding_key_from_jwk lib k = Inr dk)"

lemma has_duplicate_kid_iff: "has_duplicate_kid ks \<longleftrightarrow> \<not> distinct (map jwk_kid ks)"
  by (induction ks) (force simp: list_ex_iff image_iff)+

lemma collect_results_Inr:
  "collect_results f xs = Inr ys \<Longrightarrow> length ys = length xs \<and> (\<forall>y \<in> set ys. \<exists>x \<in> set xs. f x = Inr y)"
  by (induction xs arbitrary: ys) (fastforce simp: rbind_Inr_iff)+

lemma opt_filter_ne_Some [simp]: "opt_filter_ne v = Some s \<longleftrightarrow> v = Some s \<and> s \<noteq> []"
  by (auto simp: opt_filter_ne_def split: option.splits if_splits)

lemma jwk_normalize_shape:
  "jwk_normalize s = Inr k \<Longrightarrow> \<not> has_private_material s \<and> sj_kid s = Some (jwk_kid k) \<and> jwk_kid k \<noteq> []
     \<and> (jwk_kty k = ''RSA'' \<and> jwk_alg k = ''RS256'' \<or> jwk_kty k = ''EC'' \<and> jwk_alg k = ''ES256'' \<and> jwk_crv k = Some ''P-256'')"
  by (auto simp: jwk_normalize_def split: if_splits option.splits)

lemma jwks_build_wf:
  assumes "jwks_build lib submitted = Inr keys"
  shows "distinct (map jwk_kid keys)" and "k \<in> set keys \<Longrightarrow> jwk_wf lib k"
    and "length keys = length submitted" and "0 < length keys" and "length keys \<le> max_client_jwks_keys"
    and "k \<in> set keys \<Longrightarrow> \<exists>s \<in> set submitted. jwk_normalize s = Inr k"
proof -
  from assms have c: "collect_results jwk_normalize submitted = Inr keys"
    and d: "\<forall>k \<in> set keys. \<exists>dk. decoding_key_from_jwk lib k = Inr dk"
    and dup: "\<not> has_duplicate_kid keys" and len: "submitted \<noteq> []" "length submitted \<le> max_client_jwks_keys"
    by (auto simp: jwks_build_def rbind_Inr_iff list_ex_iff split: if_splits)
  note r = collect_results_Inr [OF c]
  show "distinct (map jwk_kid keys)" using dup by (simp add: has_duplicate_kid_iff)
  show "length keys = length submitted" "0 < length keys" "length keys \<le> max_client_jwks_keys"
    using r len by auto
  show n: "\<exists>s \<in> set submitted. jwk_normalize s = Inr k" if "k \<in> set keys" using r that by blast
  show "jwk_wf lib k" if "k \<in> set keys"
    using n [OF that] d that jwk_normalize_shape unfolding jwk_wf_def by blast
qed

lemma jwks_select_unique:
  "distinct (map jwk_kid keys) \<Longrightarrow> jwks_select keys (Some kid) = Some k \<longleftrightarrow> k \<in> set keys \<and> jwk_kid k = kid"
  by (auto dest: find_Some_mem intro: find_distinct_key)

lemma jwks_select_mem: "jwks_select keys kid = Some k \<Longrightarrow> k \<in> set keys"
  by (cases kid; cases keys) (auto dest: find_Some_mem split: if_splits)

section \<open>Properties\<close>

text \<open>(C40) A registered client key set never contains private key material, has between one and
  eight keys with pairwise distinct non-empty \<open>kid\<close>s, each usable and of a type that fixes its
  algorithm (RSA: RS256, EC P-256: ES256), so that a \<open>kid\<close> selects exactly one verification
  key.\<close>

theorem registered_jwks_wf:
  assumes "parse_registration_jwks lib from_json raw = Inr keys"
  shows "\<exists>submitted. from_json raw = Some submitted
     \<and> (\<forall>k \<in> set keys. jwk_wf lib k \<and> (\<exists>s \<in> set submitted. \<not> has_private_material s \<and> sj_kid s = Some (jwk_kid k)))
     \<and> length keys = length submitted \<and> 1 \<le> length keys \<and> length keys \<le> 8
     \<and> (\<forall>kid k. jwks_select keys (Some kid) = Some k \<longleftrightarrow> k \<in> set keys \<and> jwk_kid k = kid)"
proof -
  from assms obtain sub where s: "from_json raw = Some sub" and b: "jwks_build lib sub = Inr keys"
    by (auto simp: parse_registration_jwks_def rbind_Inr_iff)
  note wf = jwks_build_wf [OF b]
  have "\<exists>s \<in> set sub. \<not> has_private_material s \<and> sj_kid s = Some (jwk_kid k)" if "k \<in> set keys" for k
    using wf(6) [OF that] jwk_normalize_shape by blast
  then show ?thesis
    using s wf(1-5) jwks_select_unique [OF wf(1)]
    by (intro exI [of _ sub]) (auto simp: max_client_jwks_keys_def Suc_le_eq simp del: jwks_select.simps)
qed

definition toy_crypto :: crypto_lib where
  "toy_crypto = \<lparr>lib_sha256 = id, lib_hex = id, lib_base64url = id,
     lib_rsa_components_ok = (\<lambda>n e. True), lib_ec_components_ok = (\<lambda>x y. True)\<rparr>"

definition sample_submitted :: submitted_jwk where
  "sample_submitted = \<lparr>sj_kty = ''RSA'', sj_kid = Some ''k1'', sj_use = None, sj_n = Some ''n'', sj_e = Some ''AQAB'',
     sj_crv = None, sj_x = None, sj_y = None, sj_d = None, sj_p = None, sj_q = None, sj_dp = None,
     sj_dq = None, sj_qi = None\<rparr>"

definition sample_jwk :: jwk where
  "sample_jwk = \<lparr>jwk_kty = ''RSA'', jwk_use = ''sig'', jwk_kid = ''k1'', jwk_alg = ''RS256'', jwk_n = Some ''n'',
     jwk_e = Some ''AQAB'', jwk_crv = None, jwk_x = None, jwk_y = None\<rparr>"

theorem registered_jwks_wf_witness:
  "\<forall>kid k. jwks_select [sample_jwk] (Some kid) = Some k \<longleftrightarrow> k \<in> set [sample_jwk] \<and> jwk_kid k = kid"
proof -
  have "parse_registration_jwks toy_crypto (\<lambda>_. Some [sample_submitted]) ''{}'' = Inr [sample_jwk]"
    by (simp add: parse_registration_jwks_def jwks_build_def jwk_normalize_def sample_submitted_def
        sample_jwk_def toy_crypto_def decoding_key_from_jwk_def has_private_material_def
        opt_filter_ne_def max_client_jwks_keys_def)
  from registered_jwks_wf [OF this] show ?thesis by blast
qed

end
