(* ===== verification/Entities.thy ===== *)
theory Entities
  imports Crypto
begin

text \<open>
  The registered entities: clients (\<open>domain/client.rs\<close>), users (\<open>domain/user.rs\<close>), tenants and
  the request tenant scope (\<open>domain/tenant.rs\<close>, \<open>domain/tenant_context.rs\<close>) and the tenant issuer
  (\<open>domain/issuer.rs\<close>).  A UUID is a natural number; its rendering is the argument
  \<open>uuid_str\<close> where the code formats it.
\<close>

section \<open>Clients\<close>

record client =
  c_id :: uuid
  c_tenant_id :: tenant_id
  c_client_id :: string
  c_client_secret_hash :: "string option"
  c_client_type :: client_type
  c_client_status :: client_status
  c_app_name :: string
  c_redirect_uris :: "string list"
  c_grant_types :: "string list"
  c_response_types :: "string list"
  c_scopes :: "string list"
  c_token_endpoint_auth_method :: token_endpoint_auth_method
  c_jwks :: "client_jwks option"
  c_post_logout_redirect_uris :: "string list"
  c_frontchannel_logout_uri :: "string option"
  c_backchannel_logout_uri :: "string option"
  c_created_at :: instant
  c_updated_at :: instant

definition client_is_active :: "client \<Rightarrow> bool" where
  "client_is_active c \<longleftrightarrow> c_client_status c = ClientActive"

definition client_is_deleted :: "client \<Rightarrow> bool" where
  "client_is_deleted c \<longleftrightarrow> c_client_status c = ClientDeleted"

definition allows_redirect_uri :: "client \<Rightarrow> string \<Rightarrow> bool" where
  "allows_redirect_uri c uri \<longleftrightarrow> list_ex (\<lambda>u. u = uri) (c_redirect_uris c)"

definition allows_post_logout_redirect_uri :: "client \<Rightarrow> string \<Rightarrow> bool" where
  "allows_post_logout_redirect_uri c uri \<longleftrightarrow> list_ex (\<lambda>u. u = uri) (c_post_logout_redirect_uris c)"

definition allows_scopes :: "client \<Rightarrow> string list \<Rightarrow> bool" where
  "allows_scopes c requested \<longleftrightarrow> list_all (\<lambda>s. s \<in> set (c_scopes c)) requested"

definition allows_grant_type :: "client \<Rightarrow> grant_type \<Rightarrow> bool" where
  "allows_grant_type c g \<longleftrightarrow> list_ex (\<lambda>t. t = enum_as_str grant_type_table g) (c_grant_types c)"

definition uses_private_key_jwt :: "client \<Rightarrow> bool" where
  "uses_private_key_jwt c \<longleftrightarrow> c_client_type c = Confidential \<and> c_token_endpoint_auth_method c = PrivateKeyJwt"

definition allows_client_credentials :: "client \<Rightarrow> bool" where
  "allows_client_credentials c \<longleftrightarrow> c_client_type c = Confidential \<and> allows_grant_type c ClientCredentialsGrant"

definition is_service_account :: "client \<Rightarrow> bool" where
  "is_service_account c \<longleftrightarrow> allows_client_credentials c \<and> \<not> allows_grant_type c AuthorizationCodeGrant"

section \<open>Users\<close>

record login_failure_record =
  lf_failed_login_count :: int
  lf_locked_until :: "instant option"

definition lf_is_locked :: "login_failure_record \<Rightarrow> bool" where
  "lf_is_locked r \<longleftrightarrow> lf_locked_until r \<noteq> None"

record user =
  u_id :: uuid
  u_tenant_id :: tenant_id
  u_sub :: uuid
  u_email :: string
  u_email_verified :: bool
  u_preferred_username :: "string option"
  u_name :: "string option"
  u_language :: "string option"
  u_theme :: "string option"
  u_password_hash :: string
  u_must_change_password :: bool
  u_password_changed_at :: "instant option"
  u_status :: user_status
  u_pending_setup :: bool
  u_failed_login_count :: int
  u_locked_until :: "instant option"
  u_created_at :: instant
  u_updated_at :: instant

definition user_is_active :: "user \<Rightarrow> bool" where
  "user_is_active u \<longleftrightarrow> u_status u = UserActive \<and> \<not> u_pending_setup u"

definition can_finish_setup :: "user \<Rightarrow> bool" where
  "can_finish_setup u \<longleftrightarrow> u_status u = UserActive"

definition is_locked_at :: "user \<Rightarrow> instant \<Rightarrow> bool" where
  "is_locked_at u now = (case u_locked_until u of Some until \<Rightarrow> until > now | None \<Rightarrow> False)"

definition password_set_at :: "user \<Rightarrow> instant" where
  "password_set_at u = (case u_password_changed_at u of Some t \<Rightarrow> t | None \<Rightarrow> u_created_at u)"

section \<open>Tenants\<close>

record tenant =
  t_id :: tenant_id
  t_parent_tenant_id :: "tenant_id option"
  t_name :: string
  t_status :: tenant_status
  t_self_registration_enabled :: bool
  t_email_login_enabled :: bool
  t_created_at :: instant
  t_updated_at :: instant

definition tenant_is_root :: "tenant \<Rightarrow> bool" where
  "tenant_is_root t \<longleftrightarrow> t_parent_tenant_id t = None"

definition tenant_is_active :: "tenant \<Rightarrow> bool" where
  "tenant_is_active t \<longleftrightarrow> t_status t = TenantActive"

definition tenant_issuer :: "(uuid \<Rightarrow> string) \<Rightarrow> string \<Rightarrow> tenant_id \<Rightarrow> string" where
  "tenant_issuer uuid_str base t = base @ ''/'' @ uuid_str t"

section \<open>Lemmas\<close>

lemma allows_redirect_uri_iff [simp]: "allows_redirect_uri c u \<longleftrightarrow> u \<in> set (c_redirect_uris c)"
  by (auto simp: allows_redirect_uri_def list_ex_iff)

lemma allows_scopes_iff [simp]: "allows_scopes c ss \<longleftrightarrow> set ss \<subseteq> set (c_scopes c)"
  by (auto simp: allows_scopes_def list_all_iff)

lemma allows_grant_type_iff: "allows_grant_type c g \<longleftrightarrow> enum_as_str grant_type_table g \<in> set (c_grant_types c)"
  by (auto simp: allows_grant_type_def list_ex_iff)

lemma tenant_issuer_inj:
  "inj uuid_str \<Longrightarrow> tenant_issuer uuid_str base t = tenant_issuer uuid_str base t' \<longleftrightarrow> t = t'"
  by (auto simp: tenant_issuer_def dest: injD)

lemma is_locked_at_antimono: "is_locked_at u now \<Longrightarrow> before \<le> now \<Longrightarrow> is_locked_at u before"
  by (auto simp: is_locked_at_def split: option.splits)

end
