(* ===== verification/Response_Mode.thy ===== *)
theory Response_Mode
  imports Values
begin

text \<open>
  How the authorization response travels back to the relying party
  (\<open>domain/response_mode.rs\<close>): the \<open>response_mode\<close> values, the response as a target plus
  raw parameters, and the percent-encoded URL of \<open>query\<close> mode.  \<open>query_decode\<close> is the
  relying party's reading of a query string (RFC 3986 percent-decoding of \<open>k=v\<close> pairs
  separated by \<open>&\<close>): the specification \<open>query_location\<close> is proved against.
\<close>

datatype response_mode = Query | FormPost

fun response_mode_as_str :: "response_mode \<Rightarrow> string" where
  "response_mode_as_str Query = ''query''"
| "response_mode_as_str FormPost = ''form_post''"

definition response_mode_parse :: "string \<Rightarrow> domain_error + response_mode" where
  "response_mode_parse raw =
     (let v = trim raw in
      if v = ''query'' then Inr Query
      else if v = ''form_post'' then Inr FormPost
      else Inl (InvalidValue (''unsupported response_mode: '' @ v)))"

definition from_stored :: "string option \<Rightarrow> response_mode" where
  "from_stored raw =
     (case Option.bind raw (\<lambda>v. res_ok (response_mode_parse v)) of None \<Rightarrow> Query | Some m \<Rightarrow> m)"

fun to_stored :: "response_mode \<Rightarrow> string option" where
  "to_stored Query = None"
| "to_stored FormPost = Some (response_mode_as_str FormPost)"

record authorization_response =
  ar_redirect_uri :: string
  ar_parameters :: "(string \<times> string) list"
  ar_response_mode :: response_mode

definition response_success :: "string \<Rightarrow> string \<Rightarrow> string \<Rightarrow> response_mode \<Rightarrow> authorization_response" where
  "response_success redirect_uri code state mode =
     \<lparr>ar_redirect_uri = redirect_uri,
      ar_parameters = [(''code'', code)] @ (if state = [] then [] else [(''state'', state)]),
      ar_response_mode = mode\<rparr>"

definition response_error ::
  "string \<Rightarrow> string \<Rightarrow> string \<Rightarrow> string \<Rightarrow> response_mode \<Rightarrow> authorization_response" where
  "response_error redirect_uri err description state mode =
     \<lparr>ar_redirect_uri = redirect_uri,
      ar_parameters = [(''error'', err), (''error_description'', description)]
        @ (if state = [] then [] else [(''state'', state)]),
      ar_response_mode = mode\<rparr>"

definition is_form_post :: "authorization_response \<Rightarrow> bool" where
  "is_form_post r \<longleftrightarrow> ar_response_mode r = FormPost"

definition is_unreserved :: "char \<Rightarrow> bool" where
  "is_unreserved c \<longleftrightarrow> (let b = byte_val c in
     65 \<le> b \<and> b \<le> 90 \<or> 97 \<le> b \<and> b \<le> 122 \<or> 48 \<le> b \<and> b \<le> 57 \<or> b = 45 \<or> b = 46 \<or> b = 95 \<or> b = 126)"

definition hex_digit :: "nat \<Rightarrow> char" where
  "hex_digit d = (if d < 10 then char_of (48 + d) else char_of (55 + d))"

definition encode_byte :: "char \<Rightarrow> string" where
  "encode_byte c =
     (if is_unreserved c then [c]
      else [CHR ''%'', hex_digit (byte_val c div 16), hex_digit (byte_val c mod 16)])"

definition encode :: "string \<Rightarrow> string" where
  "encode s = concat (map encode_byte s)"

definition query_location :: "authorization_response \<Rightarrow> string" where
  "query_location r =
     (let encoded = map (\<lambda>(k, v). encode k @ ''='' @ encode v) (ar_parameters r) in
      if encoded = [] then ar_redirect_uri r
      else ar_redirect_uri r @ (if CHR ''?'' \<in> set (ar_redirect_uri r) then ''&'' else ''?'')
           @ join ''&'' encoded)"

definition location :: "authorization_response \<Rightarrow> string" where
  "location r = (if is_form_post r then ar_redirect_uri r else query_location r)"

section \<open>The relying party's reading of a query string\<close>

definition unhex :: "char \<Rightarrow> nat" where
  "unhex c = (if byte_val c < 58 then byte_val c - 48 else byte_val c - 55)"

fun pct_decode :: "string \<Rightarrow> string" where
  "pct_decode [] = []"
| "pct_decode [c] = [c]"
| "pct_decode [c, d] = c # pct_decode [d]"
| "pct_decode (c # d # e # s) =
     (if c = CHR ''%'' then char_of (16 * unhex d + unhex e) # pct_decode s
      else c # pct_decode (d # e # s))"

definition pair_decode :: "string \<Rightarrow> string \<times> string" where
  "pair_decode s = (case split_on CHR ''='' s of
     [] \<Rightarrow> ([], []) | k # vs \<Rightarrow> (pct_decode k, pct_decode (join ''='' vs)))"

definition query_decode :: "string \<Rightarrow> (string \<times> string) list" where
  "query_decode q = map pair_decode (split_on CHR ''&'' q)"

section \<open>Lemmas\<close>

lemma byte_val_less [simp]: "byte_val c < 256"
  unfolding byte_val_def by simp

lemma byte_val_char_of [simp]: "n < 256 \<Longrightarrow> byte_val (char_of n) = n"
  by (simp add: byte_val_def)

lemma char_of_byte_val [simp]: "char_of (byte_val c) = c"
  by (simp add: byte_val_def)

lemma byte_val_inj: "byte_val c = byte_val d \<longleftrightarrow> c = d"
  by (metis char_of_byte_val)

lemma hex_digit_val: "d < 16 \<Longrightarrow> byte_val (hex_digit d) = (if d < 10 then 48 + d else 55 + d)"
  by (simp add: hex_digit_def)

lemma unhex_hex_digit: "d < 16 \<Longrightarrow> unhex (hex_digit d) = d"
  by (simp add: unhex_def hex_digit_val)

lemma byte_val_literals:
  "byte_val (CHR ''%'') = 37" "byte_val (CHR ''&'') = 38" "byte_val (CHR ''='') = 61"
  "byte_val (CHR ''?'') = 63" "byte_val (CHR ''#'') = 35" "byte_val (CHR '' '') = 32"
  by (simp_all add: byte_val_def)

definition url_byte :: "char \<Rightarrow> bool" where
  "url_byte c \<longleftrightarrow> is_unreserved c \<or> c = CHR ''%''"

lemma url_byte_hex: "d < 16 \<Longrightarrow> url_byte (hex_digit d)"
  by (auto simp: url_byte_def is_unreserved_def Let_def hex_digit_val)

lemma encode_url_bytes: "c \<in> set (encode s) \<Longrightarrow> url_byte c"
proof (induction s)
  case (Cons a s)
  have "byte_val a div 16 < 16" using byte_val_less [of a] by linarith
  then have "c \<in> set (encode_byte a) \<Longrightarrow> url_byte c"
    by (auto simp: encode_byte_def url_byte_hex split: if_splits) (auto simp: url_byte_def)
  with Cons show ?case by (auto simp: encode_def)
qed (simp add: encode_def)

lemma encode_no_delims:
  "CHR ''&'' \<notin> set (encode s)" "CHR ''='' \<notin> set (encode s)" "CHR ''#'' \<notin> set (encode s)"
  "CHR ''?'' \<notin> set (encode s)" "CHR '' '' \<notin> set (encode s)"
  by (auto dest!: encode_url_bytes simp: url_byte_def is_unreserved_def Let_def byte_val_literals)

lemma pct_decode_plain: "c \<noteq> CHR ''%'' \<Longrightarrow> pct_decode (c # s) = c # pct_decode s"
  by (cases s rule: pct_decode.cases) simp_all

lemma pct_decode_encode: "pct_decode (encode s) = s"
proof (induction s)
  case (Cons c s)
  have b: "byte_val c div 16 < 16" using byte_val_less [of c] by linarith
  show ?case
  proof (cases "is_unreserved c")
    case True
    then have "c \<noteq> CHR ''%''" by (auto simp: is_unreserved_def Let_def byte_val_literals)
    with True Cons show ?thesis by (simp add: encode_def encode_byte_def pct_decode_plain)
  next
    case False
    then show ?thesis using Cons b by (simp add: encode_def encode_byte_def unhex_hex_digit)
  qed
qed (simp add: encode_def)

lemma pair_decode_encode: "pair_decode (encode k @ ''='' @ encode v) = (k, v)"
  using split_on_append [of "CHR ''=''" "encode k" "encode v"]
  by (simp add: pair_decode_def split_on_clean encode_no_delims pct_decode_encode)

lemma split_on_join_clean:
  "ws \<noteq> [] \<Longrightarrow> \<forall>w \<in> set ws. sep \<notin> set w \<Longrightarrow> split_on sep (join [sep] ws) = ws"
  by (induction ws rule: induct_list012) (auto simp: split_on_clean split_on_append)

lemma query_decode_join:
  assumes "ps \<noteq> []"
  shows "query_decode (join ''&'' (map (\<lambda>(k, v). encode k @ ''='' @ encode v) ps)) = ps"
proof -
  have "split_on CHR ''&'' (join ''&'' (map (\<lambda>(k, v). encode k @ ''='' @ encode v) ps))
      = map (\<lambda>(k, v). encode k @ ''='' @ encode v) ps"
    by (rule split_on_join_clean) (use assms in \<open>auto simp: encode_no_delims\<close>)
  then show ?thesis
    by (simp add: query_decode_def comp_def case_prod_unfold pair_decode_encode [simplified])
qed

lemma from_stored_to_stored: "from_stored (to_stored m) = m"
proof -
  have "trim ''form_post'' = ''form_post''"
    by (rule trim_ws_free) (simp add: ascii_ws_def byte_val_def)
  then show ?thesis by (cases m) (simp_all add: from_stored_def response_mode_parse_def)
qed

section \<open>Properties\<close>

text \<open>In \<open>query\<close> mode the 302 target extends the redirect URI by exactly one query string from
  which a relying party decodes precisely the response parameters (so neither \<open>code\<close> nor
  \<open>state\<close> can inject a parameter or a fragment); in \<open>form_post\<close> mode the location carries no
  parameter at all, and a response without parameters leaves the redirect URI unchanged.\<close>

theorem location_decodes:
  "case ar_response_mode r of
     FormPost \<Rightarrow> location r = ar_redirect_uri r
   | Query \<Rightarrow>
      (if ar_parameters r = [] then location r = ar_redirect_uri r
       else \<exists>q. location r = ar_redirect_uri r @ (if CHR ''?'' \<in> set (ar_redirect_uri r) then ''&'' else ''?'') @ q
              \<and> query_decode q = ar_parameters r
              \<and> CHR ''#'' \<notin> set q)"
proof (cases "ar_response_mode r")
  case Query
  let ?q = "join ''&'' (map (\<lambda>(k, v). encode k @ ''='' @ encode v) (ar_parameters r))"
  have clean: "CHR ''#'' \<notin> set (join ''&'' (map (\<lambda>(k, v). encode k @ ''='' @ encode v) ps))" for ps
    by (induction ps rule: induct_list012) (auto simp: encode_no_delims)
  have "location r = ar_redirect_uri r @ (if CHR ''?'' \<in> set (ar_redirect_uri r) then ''&'' else ''?'') @ ?q"
    if "ar_parameters r \<noteq> []"
    using Query that by (simp add: location_def is_form_post_def query_location_def)
  then show ?thesis
    using Query clean [of "ar_parameters r"] query_decode_join [of "ar_parameters r"]
    by (auto simp: location_def is_form_post_def query_location_def)
next
  case FormPost
  then show ?thesis by (simp add: location_def is_form_post_def)
qed

text \<open>The success and error responses keep the relying party's parameters apart and return
  \<open>state\<close> exactly when the request carried one; the column value written for a response mode is
  read back as the same mode, and an unknown requested mode is an error, never the default.\<close>

theorem response_mode_storage:
  "from_stored (to_stored m) = m
   \<and> (response_mode_parse raw = Inr m \<longleftrightarrow> trim raw = response_mode_as_str m)
   \<and> ar_parameters (response_success uri code st m)
       = (''code'', code) # (if st = [] then [] else [(''state'', st)])
   \<and> query_decode (join ''&'' (map (\<lambda>(k, v). encode k @ ''='' @ encode v)
        (ar_parameters (response_error uri err desc st m))))
       = [(''error'', err), (''error_description'', desc)] @ (if st = [] then [] else [(''state'', st)])"
proof -
  have "response_mode_parse raw = Inr m \<longleftrightarrow> trim raw = response_mode_as_str m"
    by (cases m) (auto simp: response_mode_parse_def Let_def)
  then show ?thesis
    by (subst query_decode_join)
      (simp_all add: from_stored_to_stored response_success_def response_error_def)
qed

end
