(* ===== verification/Authorization_Request.thy ===== *)
theory Authorization_Request
  imports Entities Response_Mode
begin

text \<open>
  The authorization request (\<open>domain/authorization_request.rs\<close>): parameters as received, the
  two kinds of rejection, acceptance against a registered client and the questions the later
  steps ask of an accepted request.  \<open>acceptable\<close> is the declarative specification that
  \<open>accept\<close> is proved to implement.
\<close>

record authorization_parameters =
  p_response_type :: "string option"
  p_client_id :: "string option"
  p_redirect_uri :: "string option"
  p_scope :: "string option"
  p_state :: "string option"
  p_nonce :: "string option"
  p_code_challenge :: "string option"
  p_code_challenge_method :: "string option"
  p_prompt :: "string option"
  p_max_age :: "64 word option"
  p_acr_values :: "string option"
  p_login_hint :: "string option"
  p_ui_locales :: "string option"
  p_response_mode :: "string option"

datatype authorization_request_rejection =
    NotRedirectable oauth_error_code string
  | Redirectable string "string option" oauth_error_code string

record pkce_challenge =
  pk_challenge :: string
  pk_method :: code_challenge_method

record authorization_request =
  r_client_id :: string
  r_redirect_uri :: string
  r_scope :: "string list"
  r_state :: string
  r_nonce :: string
  r_pkce :: pkce_challenge
  r_prompt :: prompt_set
  r_response_mode :: response_mode
  r_max_age :: "64 word option"
  r_acr_values :: "string option"
  r_login_hint :: "string option"
  r_ui_locales :: "string option"

record authorization_request_parts =
  rp_client_id :: string
  rp_redirect_uri :: string
  rp_scope :: "string list"
  rp_state :: string
  rp_nonce :: string
  rp_code_challenge :: string
  rp_code_challenge_method :: code_challenge_method
  rp_prompt :: prompt_set
  rp_response_mode :: response_mode
  rp_max_age :: "64 word option"
  rp_acr_values :: "string option"
  rp_login_hint :: "string option"
  rp_ui_locales :: "string option"

definition unwrap_or_default :: "string option \<Rightarrow> string" where
  "unwrap_or_default v = (case v of None \<Rightarrow> [] | Some s \<Rightarrow> s)"

definition split_scope :: "string option \<Rightarrow> string list" where
  "split_scope raw = split_whitespace (unwrap_or_default raw)"

definition non_empty :: "string option \<Rightarrow> string option" where
  "non_empty v = (case v of None \<Rightarrow> None | Some s \<Rightarrow> if s = [] then None else Some s)"

definition validate_redirectable ::
  "authorization_parameters \<Rightarrow> client \<Rightarrow> (oauth_error_code \<times> string) + unit" where
  "validate_redirectable p c =
     (if p_response_type p \<noteq> Some ''code''
      then Inl (UnsupportedResponseType, ''response_type must be `code`'')
      else if \<not> list_ex (\<lambda>t. t = ''code'') (c_response_types c)
           \<or> \<not> list_ex (\<lambda>t. t = ''authorization_code'') (c_grant_types c)
      then Inl (UnauthorizedClient, ''client is not allowed to use the authorization code flow'')
      else let scope = split_scope (p_scope p) in
      if \<not> list_ex (\<lambda>s. s = enum_as_str scope_table OpenId) scope
      then Inl (InvalidScope, ''scope must include `openid`'')
      else if \<not> allows_scopes c scope
      then Inl (InvalidScope, ''requested scope exceeds the client's registered scopes'')
      else if non_empty (p_state p) = None
      then Inl (InvalidRequest, ''state is required'')
      else if (case non_empty (p_response_mode p) of None \<Rightarrow> False
               | Some raw \<Rightarrow> res_ok (response_mode_parse raw) = None)
      then Inl (InvalidRequest, ''response_mode must be `query` or `form_post`'')
      else if p_code_challenge_method p \<noteq> Some (enum_as_str code_challenge_method_table S256)
      then Inl (InvalidRequest, ''code_challenge_method must be `S256`'')
      else if non_empty (p_code_challenge p) = None
      then Inl (InvalidRequest, ''code_challenge is required'')
      else Inr ())"

text \<open>The two \<open>expect\<close>s of the code are \<open>the\<close>; \<open>accept_expects_defined\<close> shows that they
  never meet a \<open>None\<close>.\<close>

definition accept ::
  "authorization_parameters \<Rightarrow> client \<Rightarrow> authorization_request_rejection + authorization_request" where
  "accept p c =
     (if \<not> client_is_active c then Inl (NotRedirectable InvalidClient ''client is not active'')
      else case non_empty (p_redirect_uri p) of
        None \<Rightarrow> Inl (NotRedirectable InvalidRequest ''redirect_uri is required'')
      | Some redirect_uri \<Rightarrow>
        if \<not> allows_redirect_uri c redirect_uri
        then Inl (NotRedirectable InvalidRequest ''redirect_uri is not registered'')
        else let state = non_empty (p_state p) in
          rbind (map_err (\<lambda>(err, description). Redirectable redirect_uri state err description)
                   (validate_redirectable p c)) (\<lambda>_.
          Inr \<lparr>r_client_id = c_client_id c,
               r_redirect_uri = redirect_uri,
               r_scope = split_scope (p_scope p),
               r_state = the state,
               r_nonce = unwrap_or_default (p_nonce p),
               r_pkce = \<lparr>pk_challenge = the (p_code_challenge p), pk_method = S256\<rparr>,
               r_prompt = prompt_set_parse (unwrap_or_default (p_prompt p)),
               r_response_mode =
                 (case Option.bind (non_empty (p_response_mode p)) (\<lambda>raw. res_ok (response_mode_parse raw)) of
                    None \<Rightarrow> Query | Some m \<Rightarrow> m),
               r_max_age = p_max_age p,
               r_acr_values = non_empty (p_acr_values p),
               r_login_hint = non_empty (p_login_hint p),
               r_ui_locales = non_empty (p_ui_locales p)\<rparr>))"

definition request_reconstitute :: "authorization_request_parts \<Rightarrow> authorization_request" where
  "request_reconstitute q =
     \<lparr>r_client_id = rp_client_id q, r_redirect_uri = rp_redirect_uri q, r_scope = rp_scope q,
      r_state = rp_state q, r_nonce = rp_nonce q,
      r_pkce = \<lparr>pk_challenge = rp_code_challenge q, pk_method = rp_code_challenge_method q\<rparr>,
      r_prompt = rp_prompt q, r_response_mode = rp_response_mode q, r_max_age = rp_max_age q,
      r_acr_values = rp_acr_values q, r_login_hint = rp_login_hint q, r_ui_locales = rp_ui_locales q\<rparr>"

definition requested_acr :: "authorization_request \<Rightarrow> string list" where
  "requested_acr r = split_whitespace (unwrap_or_default (r_acr_values r))"

definition forbids_interaction :: "authorization_request \<Rightarrow> bool" where
  "forbids_interaction r \<longleftrightarrow> prompt_set_contains (r_prompt r) PromptNone"

definition forces_reauthentication :: "authorization_request \<Rightarrow> bool" where
  "forces_reauthentication r \<longleftrightarrow>
     prompt_set_contains (r_prompt r) PromptLogin \<or> prompt_set_contains (r_prompt r) PromptSelectAccount"

definition forces_consent :: "authorization_request \<Rightarrow> bool" where
  "forces_consent r \<longleftrightarrow> prompt_set_contains (r_prompt r) PromptConsent"

definition authentication_is_too_old :: "authorization_request \<Rightarrow> instant \<Rightarrow> instant \<Rightarrow> bool" where
  "authentication_is_too_old r auth_time now =
     (case r_max_age r of None \<Rightarrow> False
      | Some max_age \<Rightarrow> num_seconds (now - auth_time) > u64_as_i64 max_age)"

definition scopes_needing_consent :: "authorization_request \<Rightarrow> string list" where
  "scopes_needing_consent r = filter (\<lambda>s. s \<noteq> enum_as_str scope_table OpenId) (r_scope r)"

definition success_response :: "authorization_request \<Rightarrow> string \<Rightarrow> authorization_response" where
  "success_response r code = response_success (r_redirect_uri r) code (r_state r) (r_response_mode r)"

definition error_response :: "authorization_request \<Rightarrow> oauth_error_code \<Rightarrow> string \<Rightarrow> authorization_response" where
  "error_response r err description =
     response_error (r_redirect_uri r) (oauth_error_as_str err) description (r_state r) (r_response_mode r)"

section \<open>Specification of acceptance\<close>

definition trusted_target :: "authorization_parameters \<Rightarrow> client \<Rightarrow> bool" where
  "trusted_target p c \<longleftrightarrow> client_is_active c
     \<and> (\<exists>uri. p_redirect_uri p = Some uri \<and> uri \<noteq> [] \<and> uri \<in> set (c_redirect_uris c))"

definition code_flow_ok :: "authorization_parameters \<Rightarrow> client \<Rightarrow> bool" where
  "code_flow_ok p c \<longleftrightarrow>
     p_response_type p = Some ''code'' \<and> ''code'' \<in> set (c_response_types c)
     \<and> ''authorization_code'' \<in> set (c_grant_types c)
     \<and> ''openid'' \<in> set (split_scope (p_scope p)) \<and> set (split_scope (p_scope p)) \<subseteq> set (c_scopes c)
     \<and> non_empty (p_state p) \<noteq> None
     \<and> (\<forall>raw. non_empty (p_response_mode p) = Some raw \<longrightarrow> (\<exists>m. response_mode_parse raw = Inr m))
     \<and> p_code_challenge_method p = Some ''S256'' \<and> non_empty (p_code_challenge p) \<noteq> None"

section \<open>Lemmas\<close>

lemma non_empty_Some [simp]: "non_empty v = Some s \<longleftrightarrow> v = Some s \<and> s \<noteq> []"
  by (auto simp: non_empty_def split: option.splits if_splits)

lemma non_empty_simps [simp]: "non_empty None = None" "non_empty (Some s) = (if s = [] then None else Some s)"
  by (simp_all add: non_empty_def)

lemma openid_str: "enum_as_str scope_table OpenId = ''openid''"
  by (simp add: scope_table_def)

lemma s256_str: "enum_as_str code_challenge_method_table S256 = ''S256''"
  by (simp add: code_challenge_method_table_def)

lemma res_ok_None_iff: "res_ok r = None \<longleftrightarrow> \<not> (\<exists>a. r = Inr a)"
  by (cases r) auto

lemma validate_redirectable_ok_iff: "validate_redirectable p c = Inr () \<longleftrightarrow> code_flow_ok p c"
  unfolding validate_redirectable_def code_flow_ok_def openid_str s256_str Let_def
  by (auto simp: list_ex_iff res_ok_None_iff split: option.splits if_splits)

lemma validate_redirectable_total: "validate_redirectable p c = Inr () \<or> (\<exists>e d. validate_redirectable p c = Inl (e, d))"
  by (cases "validate_redirectable p c") auto

lemma accept_expects_defined:
  "validate_redirectable p c = Inr () \<Longrightarrow> (\<exists>s. non_empty (p_state p) = Some s) \<and> (\<exists>ch. p_code_challenge p = Some ch)"
  by (auto simp: validate_redirectable_ok_iff code_flow_ok_def)

lemma trusted_target_iff:
  "trusted_target p c \<longleftrightarrow> client_is_active c
     \<and> (case non_empty (p_redirect_uri p) of None \<Rightarrow> False | Some uri \<Rightarrow> uri \<in> set (c_redirect_uris c))"
  by (cases "p_redirect_uri p") (auto simp: trusted_target_def)

lemma accept_cases:
  "\<not> trusted_target p c \<Longrightarrow> \<exists>e d. accept p c = Inl (NotRedirectable e d)"
  "trusted_target p c \<Longrightarrow> validate_redirectable p c = Inl (e, d) \<Longrightarrow>
     accept p c = Inl (Redirectable (the (p_redirect_uri p)) (non_empty (p_state p)) e d)"
  "trusted_target p c \<Longrightarrow> validate_redirectable p c = Inr () \<Longrightarrow> \<exists>r. accept p c = Inr r"
  by (cases "p_redirect_uri p"; auto simp: accept_def trusted_target_iff Let_def split: if_splits)+

lemma accept_ok_iff: "(\<exists>r. accept p c = Inr r) \<longleftrightarrow> trusted_target p c \<and> code_flow_ok p c"
  using validate_redirectable_total [of p c] accept_cases [of p c]
  by (metis Inl_Inr_False validate_redirectable_ok_iff)

lemma accept_fields:
  assumes "accept p c = Inr r"
  shows "r_client_id r = c_client_id c" "p_redirect_uri p = Some (r_redirect_uri r)"
    "r_scope r = split_scope (p_scope p)" "p_state p = Some (r_state r)" "r_state r \<noteq> []"
    "p_code_challenge p = Some (pk_challenge (r_pkce r))" "pk_challenge (r_pkce r) \<noteq> []"
    "pk_method (r_pkce r) = S256" "distinct (r_prompt r)" "r_max_age r = p_max_age p"
proof -
  from assms have v: "validate_redirectable p c = Inr ()"
    using validate_redirectable_total [of p c]
    by (auto simp: accept_def Let_def split: option.splits if_splits)
  then have ok: "code_flow_ok p c" by (simp add: validate_redirectable_ok_iff)
  then obtain s ch where sc: "p_state p = Some s" "s \<noteq> []" "p_code_challenge p = Some ch" "ch \<noteq> []"
    by (auto simp: code_flow_ok_def)
  then have ns: "non_empty (p_state p) = Some s" by simp
  show "r_client_id r = c_client_id c" "p_redirect_uri p = Some (r_redirect_uri r)"
    "r_scope r = split_scope (p_scope p)" "p_state p = Some (r_state r)" "r_state r \<noteq> []"
    "p_code_challenge p = Some (pk_challenge (r_pkce r))" "pk_challenge (r_pkce r) \<noteq> []"
    "pk_method (r_pkce r) = S256" "distinct (r_prompt r)" "r_max_age r = p_max_age p"
    using assms v sc ns
    by (auto simp: accept_def Let_def prompt_set_parse_distinct split: option.splits if_splits)
qed

section \<open>Properties\<close>

text \<open>What an accepted request has to say: every field, from the parameters and the client.\<close>

definition given_text :: "string option \<Rightarrow> string option \<Rightarrow> bool" where
  "given_text raw v \<longleftrightarrow> (case v of None \<Rightarrow> raw = None \<or> raw = Some [] | Some s \<Rightarrow> raw = Some s \<and> s \<noteq> [])"

definition binds_request :: "authorization_parameters \<Rightarrow> client \<Rightarrow> authorization_request \<Rightarrow> bool" where
  "binds_request p c r \<longleftrightarrow>
     r_client_id r = c_client_id c \<and> p_redirect_uri p = Some (r_redirect_uri r)
     \<and> r_scope r = (case p_scope p of None \<Rightarrow> [] | Some raw \<Rightarrow> split_whitespace raw)
     \<and> p_state p = Some (r_state r) \<and> r_nonce r = (case p_nonce p of None \<Rightarrow> [] | Some n \<Rightarrow> n)
     \<and> p_code_challenge p = Some (pk_challenge (r_pkce r)) \<and> pk_method (r_pkce r) = S256
     \<and> r_prompt r = prompt_set_parse (case p_prompt p of None \<Rightarrow> [] | Some raw \<Rightarrow> raw)
     \<and> (case non_empty (p_response_mode p) of None \<Rightarrow> r_response_mode r = Query
        | Some raw \<Rightarrow> response_mode_parse raw = Inr (r_response_mode r))
     \<and> r_max_age r = p_max_age p \<and> given_text (p_acr_values p) (r_acr_values r)
     \<and> given_text (p_login_hint p) (r_login_hint r) \<and> given_text (p_ui_locales p) (r_ui_locales r)"

lemma given_text_non_empty: "given_text raw (non_empty raw)"
  by (auto simp: given_text_def non_empty_def split: option.splits)

lemma accept_binds:
  assumes "accept p c = Inr r"
  shows "binds_request p c r"
proof -
  note f = accept_fields [OF assms]
  have v: "validate_redirectable p c = Inr ()"
    using assms validate_redirectable_total [of p c] by (auto simp: accept_def Let_def split: option.splits if_splits)
  then have "case non_empty (p_response_mode p) of None \<Rightarrow> r_response_mode r = Query
      | Some raw \<Rightarrow> response_mode_parse raw = Inr (r_response_mode r)"
    using assms unfolding validate_redirectable_ok_iff code_flow_ok_def
    by (auto simp: accept_def Let_def v split: option.splits if_splits)
  moreover have "r_nonce r = unwrap_or_default (p_nonce p)" "r_prompt r = prompt_set_parse (unwrap_or_default (p_prompt p))"
    "r_acr_values r = non_empty (p_acr_values p)" "r_login_hint r = non_empty (p_login_hint p)"
    "r_ui_locales r = non_empty (p_ui_locales p)"
    using assms v by (auto simp: accept_def Let_def split: option.splits if_splits)
  moreover have "r_scope r = (case p_scope p of None \<Rightarrow> [] | Some raw \<Rightarrow> split_whitespace raw)"
    using f(3) by (simp add: split_scope_def unwrap_or_default_def split_whitespace_def split: option.splits)
  ultimately show ?thesis
    using f by (simp add: binds_request_def given_text_non_empty unwrap_or_default_def)
qed

text \<open>(C33) \<open>AuthorizationRequest::accept\<close> implements its specification: a request is accepted
  exactly when the client is active, the redirect URI is one of its registered ones and the
  code-flow rules hold (response type, registered flow, \<open>openid\<close> and only registered scopes,
  \<open>state\<close>, S256 PKCE); what is accepted says in every field what the parameters asked for: that redirect
  URI, exactly the requested scopes, state, nonce, challenge, prompts, response mode, \<open>max_age\<close> and hints, for the
  registered client id.\<close>

theorem accept_refines_spec:
  "case accept p c of
     Inr r \<Rightarrow> trusted_target p c \<and> code_flow_ok p c \<and> binds_request p c r
   | Inl _ \<Rightarrow> \<not> (trusted_target p c \<and> code_flow_ok p c)"
  using accept_ok_iff [of p c] accept_binds [of p c] by (cases "accept p c") auto

text \<open>An error is sent back to the relying party only when the target can be trusted: the
  rejection is \<open>NotRedirectable\<close> exactly when the client is inactive or the redirect URI is
  missing or not registered, and a \<open>Redirectable\<close> rejection names a registered redirect URI
  of an active client and returns the request's \<open>state\<close>.\<close>

theorem rejection_never_redirects_to_unregistered:
  "((\<exists>e d. accept p c = Inl (NotRedirectable e d)) \<longleftrightarrow> \<not> trusted_target p c)
   \<and> ((\<exists>uri st e d. accept p c = Inl (Redirectable uri st e d)) \<longleftrightarrow> trusted_target p c \<and> \<not> code_flow_ok p c)
   \<and> (case accept p c of
        Inl (Redirectable uri st e d) \<Rightarrow>
          client_is_active c \<and> uri \<in> set (c_redirect_uris c) \<and> st = non_empty (p_state p)
      | _ \<Rightarrow> True)"
proof -
  consider (bad) e d where "\<not> trusted_target p c" "accept p c = Inl (NotRedirectable e d)"
    | (rej) e d where "trusted_target p c" "\<not> code_flow_ok p c"
        "accept p c = Inl (Redirectable (the (p_redirect_uri p)) (non_empty (p_state p)) e d)"
    | (ok) r where "trusted_target p c" "code_flow_ok p c" "accept p c = Inr r"
    using validate_redirectable_total [of p c] accept_cases [of p c]
    by (metis Inl_Inr_False validate_redirectable_ok_iff)
  then show ?thesis
    by cases (auto simp: trusted_target_def)
qed

text \<open>\<open>max_age\<close> is honoured to the second for every value below \<open>2^63\<close>; from \<open>2^63\<close> on the
  cast to \<open>i64\<close> wraps to a negative bound and every authentication that is not in the future
  counts as too old.\<close>

theorem max_age_bounds:
  assumes "r_max_age r = Some w" and "auth_time \<le> now"
  shows "if uint w < 2 ^ 63
         then authentication_is_too_old r auth_time now \<longleftrightarrow> (now - auth_time) div 1000000000 > uint w
         else authentication_is_too_old r auth_time now"
proof -
  have el: "num_seconds (now - auth_time) = (now - auth_time) div 1000000000"
    using assms(2) by (simp add: num_seconds_def nanos_per_sec_def)
  have nn: "0 \<le> (now - auth_time) div 1000000000"
    using assms(2) by (simp add: pos_imp_zdiv_nonneg_iff)
  show ?thesis
    using assms(1) el nn uint64_less [of w] by (simp add: authentication_is_too_old_def u64_as_i64_def sint64_cases)
qed

definition sample_request :: authorization_request where
  "sample_request = \<lparr>r_client_id = ''app'', r_redirect_uri = ''https://rp/cb'', r_scope = [''openid'', ''email''],
     r_state = ''xyz'', r_nonce = ''n'', r_pkce = \<lparr>pk_challenge = ''ch'', pk_method = S256\<rparr>, r_prompt = [PromptConsent],
     r_response_mode = Query, r_max_age = Some 300, r_acr_values = None, r_login_hint = None, r_ui_locales = None\<rparr>"

theorem max_age_bounds_witness:
  "authentication_is_too_old sample_request 0 (secs 301) \<and> \<not> authentication_is_too_old sample_request 0 (secs 300)
   \<and> authentication_is_too_old (sample_request\<lparr>r_max_age := Some 9223372036854775808\<rparr>) 0 (secs 1)"
proof -
  have "authentication_is_too_old sample_request 0 (secs 301)" "\<not> authentication_is_too_old sample_request 0 (secs 300)"
    using max_age_bounds [of sample_request 300 0 "secs 301"] max_age_bounds [of sample_request 300 0 "secs 300"]
    by (simp_all add: sample_request_def secs_def nanos_per_sec_def)
  moreover have "authentication_is_too_old (sample_request\<lparr>r_max_age := Some 9223372036854775808\<rparr>) 0 (secs 1)"
    using max_age_bounds [of "sample_request\<lparr>r_max_age := Some 9223372036854775808\<rparr>" 9223372036854775808 0 "secs 1"]
    by (simp add: secs_def nanos_per_sec_def)
  ultimately show ?thesis by blast
qed

end
