(* ===== verification/Auth_Session.thy ===== *)
theory Auth_Session
  imports Authorization_Request
begin

text \<open>
  The authorization session (\<open>domain/auth_session.rs\<close>) and its table
  (\<open>infrastructure/repositories/auth_session.rs\<close>).

  An aggregate method of the code mutates the session in memory and returns the change to save;
  here each returns the pair of the mutated session and that change.  Fresh random values are
  arguments.  A row of \<open>auth_sessions\<close> is \<open>auth_session_row\<close>; its JSON and UUID columns are kept
  as the typed values they encode, timestamps without the truncation of \<open>DATETIME(6)\<close>.  A table is
  the list of its rows; \<open>UPDATE .. WHERE\<close> maps over it and reports the rows that matched.
\<close>

section \<open>The aggregate\<close>

record pending_handoff =
  h_handle_hash :: string
  h_expires_at :: instant

record authentication =
  au_user_id :: uuid
  au_auth_time :: instant
  au_sso_sid :: "string option"
  au_methods :: "authentication_method list option"

datatype authentication_progress =
    Anonymous
  | PasswordVerified uuid instant
  | Authenticated authentication "instant option"

record id_rotation =
  ir_previous :: string
  ir_issued :: string

record handoff_exchange =
  he_consumed :: string
  he_rotation :: id_rotation

record password_verification =
  pv_user_id :: uuid
  pv_verified_at :: instant
  pv_rotation :: id_rotation

record authentication_completion =
  ac_authentication :: authentication
  ac_rotation :: id_rotation

record auth_session =
  as_id_hash :: string
  as_tenant_id :: tenant_id
  as_request :: authorization_request
  as_handoff :: "pending_handoff option"
  as_progress :: authentication_progress
  as_expires_at :: instant
  as_created_at :: instant
  as_updated_at :: instant

record auth_session_parts =
  ap_id_hash :: string
  ap_tenant_id :: tenant_id
  ap_request :: authorization_request
  ap_handle_hash :: "string option"
  ap_handle_expires_at :: "instant option"
  ap_authenticated_user_id :: "uuid option"
  ap_auth_time :: "instant option"
  ap_password_verified_at :: "instant option"
  ap_sso_sid :: "string option"
  ap_authentication_methods :: "authentication_method list option"
  ap_expires_at :: instant
  ap_created_at :: instant
  ap_updated_at :: instant

definition from_presented :: "string \<Rightarrow> string option" where
  "from_presented raw = (if raw \<noteq> [] then Some raw else None)"

definition id_hash_of_plain :: "crypto_lib \<Rightarrow> string \<Rightarrow> string" where
  "id_hash_of_plain lib plain = sha256_hex lib plain"

definition handoff_hash :: "crypto_lib \<Rightarrow> string \<Rightarrow> string" where
  "handoff_hash lib handle = sha256_hex lib handle"

text \<open>\<open>fresh_handle\<close> and \<open>fresh_id\<close> are the two \<open>random_hex(32)\<close> values.\<close>

definition auth_session_start ::
  "crypto_lib \<Rightarrow> string \<Rightarrow> string \<Rightarrow> tenant_id \<Rightarrow> authorization_request \<Rightarrow> instant \<Rightarrow> duration \<Rightarrow> duration
   \<Rightarrow> auth_session \<times> string" where
  "auth_session_start lib fresh_handle fresh_id tenant_id request now lifetime handoff_lifetime =
     (\<lparr>as_id_hash = id_hash_of_plain lib fresh_id,
       as_tenant_id = tenant_id,
       as_request = request,
       as_handoff = Some \<lparr>h_handle_hash = handoff_hash lib fresh_handle, h_expires_at = now + handoff_lifetime\<rparr>,
       as_progress = Anonymous,
       as_expires_at = now + lifetime,
       as_created_at = now,
       as_updated_at = now\<rparr>, fresh_handle)"

definition auth_session_reconstitute :: "auth_session_parts \<Rightarrow> auth_session" where
  "auth_session_reconstitute q =
     \<lparr>as_id_hash = ap_id_hash q, as_tenant_id = ap_tenant_id q, as_request = ap_request q,
      as_handoff = (case (ap_handle_hash q, ap_handle_expires_at q) of
          (Some h, Some e) \<Rightarrow> Some \<lparr>h_handle_hash = h, h_expires_at = e\<rparr>
        | _ \<Rightarrow> None),
      as_progress = (case (ap_authenticated_user_id q, ap_auth_time q, ap_password_verified_at q) of
          (Some u, Some t, pva) \<Rightarrow>
            Authenticated \<lparr>au_user_id = u, au_auth_time = t, au_sso_sid = ap_sso_sid q,
                           au_methods = ap_authentication_methods q\<rparr> pva
        | (Some u, None, Some v) \<Rightarrow> PasswordVerified u v
        | _ \<Rightarrow> Anonymous),
      as_expires_at = ap_expires_at q, as_created_at = ap_created_at q, as_updated_at = ap_updated_at q\<rparr>"

definition auth_session_to_parts :: "auth_session \<Rightarrow> auth_session_parts" where
  "auth_session_to_parts s =
     (let (uid, t, pva, sid, ms) =
        (case as_progress s of
           Anonymous \<Rightarrow> (None, None, None, None, None)
         | PasswordVerified u v \<Rightarrow> (Some u, None, Some v, None, None)
         | Authenticated a pva \<Rightarrow> (Some (au_user_id a), Some (au_auth_time a), pva, au_sso_sid a, au_methods a))
      in \<lparr>ap_id_hash = as_id_hash s, ap_tenant_id = as_tenant_id s, ap_request = as_request s,
          ap_handle_hash = map_option h_handle_hash (as_handoff s),
          ap_handle_expires_at = map_option h_expires_at (as_handoff s),
          ap_authenticated_user_id = uid, ap_auth_time = t, ap_password_verified_at = pva,
          ap_sso_sid = sid, ap_authentication_methods = ms,
          ap_expires_at = as_expires_at s, ap_created_at = as_created_at s, ap_updated_at = as_updated_at s\<rparr>)"

definition auth_session_is_expired_at :: "auth_session \<Rightarrow> instant \<Rightarrow> bool" where
  "auth_session_is_expired_at s now \<longleftrightarrow> as_expires_at s \<le> now"

definition handoff_is_valid_at :: "auth_session \<Rightarrow> instant \<Rightarrow> bool" where
  "handoff_is_valid_at s now = (case as_handoff s of None \<Rightarrow> False | Some h \<Rightarrow> h_expires_at h > now)"

definition identified_user :: "auth_session \<Rightarrow> uuid option" where
  "identified_user s = (case as_progress s of
     Anonymous \<Rightarrow> None | PasswordVerified u v \<Rightarrow> Some u | Authenticated a pva \<Rightarrow> Some (au_user_id a))"

definition password_verified_user :: "auth_session \<Rightarrow> uuid option" where
  "password_verified_user s = (case as_progress s of
     Anonymous \<Rightarrow> None | PasswordVerified u v \<Rightarrow> Some u
   | Authenticated a pva \<Rightarrow> map_option (\<lambda>_. au_user_id a) pva)"

definition completed_authentication :: "auth_session \<Rightarrow> authentication option" where
  "completed_authentication s = (case as_progress s of Authenticated a pva \<Rightarrow> Some a | _ \<Rightarrow> None)"

definition rotate_id :: "crypto_lib \<Rightarrow> string \<Rightarrow> auth_session \<Rightarrow> auth_session \<times> id_rotation" where
  "rotate_id lib fresh s =
     (s\<lparr>as_id_hash := id_hash_of_plain lib fresh\<rparr>, \<lparr>ir_previous = as_id_hash s, ir_issued = fresh\<rparr>)"

definition exchange_handoff ::
  "crypto_lib \<Rightarrow> string \<Rightarrow> auth_session \<Rightarrow> instant \<Rightarrow> (auth_session \<times> handoff_exchange) option" where
  "exchange_handoff lib fresh s now =
     (if \<not> handoff_is_valid_at s now \<or> auth_session_is_expired_at s now then None
      else let consumed = h_handle_hash (the (as_handoff s));
               (s', rot) = rotate_id lib fresh (s\<lparr>as_handoff := None\<rparr>)
           in Some (s', \<lparr>he_consumed = consumed, he_rotation = rot\<rparr>))"

definition record_password_verification ::
  "crypto_lib \<Rightarrow> string \<Rightarrow> auth_session \<Rightarrow> uuid \<Rightarrow> instant \<Rightarrow> auth_session \<times> password_verification" where
  "record_password_verification lib fresh s user_id verified_at =
     (let (s', rot) = rotate_id lib fresh (s\<lparr>as_progress := PasswordVerified user_id verified_at\<rparr>)
      in (s', \<lparr>pv_user_id = user_id, pv_verified_at = verified_at, pv_rotation = rot\<rparr>))"

definition complete_authentication ::
  "crypto_lib \<Rightarrow> string \<Rightarrow> auth_session \<Rightarrow> authentication \<Rightarrow> auth_session \<times> authentication_completion" where
  "complete_authentication lib fresh s a =
     (let pva = (case as_progress s of
            Anonymous \<Rightarrow> None | PasswordVerified u v \<Rightarrow> Some v | Authenticated b pva \<Rightarrow> pva);
          (s', rot) = rotate_id lib fresh (s\<lparr>as_progress := Authenticated a pva\<rparr>)
      in (s', \<lparr>ac_authentication = a, ac_rotation = rot\<rparr>))"

section \<open>The table\<close>

record auth_session_row =
  asr_id_hash :: string
  asr_tenant_id :: tenant_id
  asr_client_id :: string
  asr_redirect_uri :: string
  asr_scope :: "string list"
  asr_state :: string
  asr_nonce :: string
  asr_code_challenge :: string
  asr_code_challenge_method :: string
  asr_prompt :: "string option"
  asr_response_mode :: "string option"
  asr_max_age :: "int option"
  asr_acr_values :: "string option"
  asr_login_hint :: "string option"
  asr_ui_locales :: "string option"
  asr_handle_hash :: "string option"
  asr_handle_expires_at :: "instant option"
  asr_authenticated_user_id :: "uuid option"
  asr_auth_time :: "instant option"
  asr_password_verified_at :: "instant option"
  asr_sso_sid :: "string option"
  asr_authentication_methods :: "authentication_method list option"
  asr_expires_at :: instant
  asr_created_at :: instant
  asr_updated_at :: instant

text \<open>\<open>v.max(0) as u64\<close>.\<close>

definition i64_max0_as_u64 :: "int \<Rightarrow> 64 word" where
  "i64_max0_as_u64 v = word_of_int (max 0 v)"

definition row_request :: "auth_session_row \<Rightarrow> domain_error + authorization_request" where
  "row_request r =
     rbind (enum_parse ''CodeChallengeMethod'' code_challenge_method_table (asr_code_challenge_method r)) (\<lambda>ccm.
     Inr (request_reconstitute
       \<lparr>rp_client_id = asr_client_id r, rp_redirect_uri = asr_redirect_uri r, rp_scope = asr_scope r,
        rp_state = asr_state r, rp_nonce = asr_nonce r, rp_code_challenge = asr_code_challenge r,
        rp_code_challenge_method = ccm,
        rp_prompt = prompt_set_parse (unwrap_or_default (asr_prompt r)),
        rp_response_mode = from_stored (asr_response_mode r),
        rp_max_age = map_option i64_max0_as_u64 (asr_max_age r),
        rp_acr_values = asr_acr_values r, rp_login_hint = asr_login_hint r, rp_ui_locales = asr_ui_locales r\<rparr>))"

definition auth_session_map_row :: "auth_session_row \<Rightarrow> domain_error + auth_session" where
  "auth_session_map_row r =
     rbind (row_request r) (\<lambda>request.
     Inr (auth_session_reconstitute
       \<lparr>ap_id_hash = asr_id_hash r, ap_tenant_id = asr_tenant_id r, ap_request = request,
        ap_handle_hash = asr_handle_hash r, ap_handle_expires_at = asr_handle_expires_at r,
        ap_authenticated_user_id = asr_authenticated_user_id r, ap_auth_time = asr_auth_time r,
        ap_password_verified_at = asr_password_verified_at r, ap_sso_sid = asr_sso_sid r,
        ap_authentication_methods = asr_authentication_methods r, ap_expires_at = asr_expires_at r,
        ap_created_at = asr_created_at r, ap_updated_at = asr_updated_at r\<rparr>))"

text \<open>The row an \<open>INSERT\<close> writes.  \<open>db_now\<close> is the database clock behind the defaults of
  \<open>created_at\<close> and \<open>updated_at\<close>; columns the statement does not name are NULL.\<close>

definition auth_session_row_of :: "instant \<Rightarrow> auth_session \<Rightarrow> auth_session_row" where
  "auth_session_row_of db_now s =
     (let q = as_request s in
      \<lparr>asr_id_hash = as_id_hash s, asr_tenant_id = as_tenant_id s, asr_client_id = r_client_id q,
       asr_redirect_uri = r_redirect_uri q, asr_scope = r_scope q, asr_state = r_state q, asr_nonce = r_nonce q,
       asr_code_challenge = pk_challenge (r_pkce q),
       asr_code_challenge_method = enum_as_str code_challenge_method_table (pk_method (r_pkce q)),
       asr_prompt = prompt_set_to_storage (r_prompt q),
       asr_response_mode = to_stored (r_response_mode q),
       asr_max_age = map_option u64_as_i64 (r_max_age q),
       asr_acr_values = r_acr_values q, asr_login_hint = r_login_hint q, asr_ui_locales = r_ui_locales q,
       asr_handle_hash = map_option h_handle_hash (as_handoff s),
       asr_handle_expires_at = map_option h_expires_at (as_handoff s),
       asr_authenticated_user_id = identified_user s,
       asr_auth_time = map_option au_auth_time (completed_authentication s),
       asr_password_verified_at = None, asr_sso_sid = None, asr_authentication_methods = None,
       asr_expires_at = as_expires_at s, asr_created_at = db_now, asr_updated_at = db_now\<rparr>)"

text \<open>\<open>PRIMARY KEY (id_hash)\<close> and \<open>UNIQUE KEY (handle_hash)\<close>.\<close>

definition auth_session_insert ::
  "auth_session_row \<Rightarrow> auth_session_row list \<Rightarrow> domain_error + auth_session_row list" where
  "auth_session_insert row rows =
     (if list_ex (\<lambda>x. asr_id_hash x = asr_id_hash row
                    \<or> asr_handle_hash row \<noteq> None \<and> asr_handle_hash x = asr_handle_hash row) rows
      then Inl (Repository ''duplicate entry'') else Inr (rows @ [row]))"

definition auth_session_create ::
  "instant \<Rightarrow> auth_session \<Rightarrow> auth_session_row list \<Rightarrow> domain_error + auth_session_row list" where
  "auth_session_create db_now s rows = auth_session_insert (auth_session_row_of db_now s) rows"

definition transpose_row :: "(domain_error + 'a) option \<Rightarrow> domain_error + 'a option" where
  "transpose_row x = (case x of None \<Rightarrow> Inr None | Some r \<Rightarrow> rbind r (\<lambda>a. Inr (Some a)))"

definition auth_session_find ::
  "tenant_id \<Rightarrow> string \<Rightarrow> auth_session_row list \<Rightarrow> domain_error + auth_session option" where
  "auth_session_find tenant_id idh rows =
     transpose_row (map_option auth_session_map_row
       (find (\<lambda>r. asr_id_hash r = idh \<and> asr_tenant_id r = tenant_id) rows))"

definition auth_session_find_by_handoff ::
  "tenant_id \<Rightarrow> string \<Rightarrow> auth_session_row list \<Rightarrow> domain_error + auth_session option" where
  "auth_session_find_by_handoff tenant_id handle rows =
     transpose_row (map_option auth_session_map_row
       (find (\<lambda>r. asr_handle_hash r = Some handle \<and> asr_tenant_id r = tenant_id) rows))"

text \<open>An \<open>UPDATE\<close> that would give a matched row the \<open>id_hash\<close> of another row violates the
  primary key and changes nothing.\<close>

definition id_conflict :: "(auth_session_row \<Rightarrow> bool) \<Rightarrow> string \<Rightarrow> auth_session_row list \<Rightarrow> bool" where
  "id_conflict hit j rows \<longleftrightarrow> list_ex hit rows \<and> list_ex (\<lambda>r. asr_id_hash r = j \<and> \<not> hit r) rows"

definition save_handoff_exchange ::
  "crypto_lib \<Rightarrow> handoff_exchange \<Rightarrow> auth_session_row list \<Rightarrow> domain_error + bool \<times> auth_session_row list" where
  "save_handoff_exchange lib ex rows =
     (let rot = he_rotation ex;
          hit = (\<lambda>r. asr_id_hash r = ir_previous rot \<and> asr_handle_hash r = Some (he_consumed ex));
          j = id_hash_of_plain lib (ir_issued rot)
      in if id_conflict hit j rows then Inl (Repository ''duplicate entry'')
         else Inr (length (filter hit rows) = 1,
          map (\<lambda>r. if hit r then r\<lparr>asr_handle_hash := None, asr_handle_expires_at := None,
                                  asr_id_hash := j\<rparr> else r) rows))"

definition save_password_verification ::
  "crypto_lib \<Rightarrow> password_verification \<Rightarrow> auth_session_row list \<Rightarrow> domain_error + auth_session_row list" where
  "save_password_verification lib v rows =
     (let rot = pv_rotation v;
          hit = (\<lambda>r. asr_id_hash r = ir_previous rot);
          j = id_hash_of_plain lib (ir_issued rot)
      in if id_conflict hit j rows then Inl (Repository ''duplicate entry'')
         else Inr (map (\<lambda>r. if hit r
               then r\<lparr>asr_id_hash := j,
                      asr_authenticated_user_id := Some (pv_user_id v),
                      asr_password_verified_at := Some (pv_verified_at v),
                      asr_auth_time := None, asr_sso_sid := None, asr_authentication_methods := None\<rparr>
               else r) rows))"

definition save_authentication ::
  "crypto_lib \<Rightarrow> authentication_completion \<Rightarrow> auth_session_row list \<Rightarrow> domain_error + auth_session_row list" where
  "save_authentication lib c rows =
     (let rot = ac_rotation c; a = ac_authentication c;
          hit = (\<lambda>r. asr_id_hash r = ir_previous rot);
          j = id_hash_of_plain lib (ir_issued rot)
      in if id_conflict hit j rows then Inl (Repository ''duplicate entry'')
         else Inr (map (\<lambda>r. if hit r
               then r\<lparr>asr_id_hash := j,
                      asr_authenticated_user_id := Some (au_user_id a),
                      asr_auth_time := Some (au_auth_time a),
                      asr_sso_sid := au_sso_sid a,
                      asr_authentication_methods := au_methods a\<rparr>
               else r) rows))"

definition auth_session_delete :: "string \<Rightarrow> auth_session_row list \<Rightarrow> auth_session_row list" where
  "auth_session_delete idh rows = filter (\<lambda>r. asr_id_hash r \<noteq> idh) rows"

definition auth_session_delete_expired :: "instant \<Rightarrow> auth_session_row list \<Rightarrow> nat \<times> auth_session_row list" where
  "auth_session_delete_expired now rows =
     (length (filter (\<lambda>r. asr_expires_at r \<le> now) rows), filter (\<lambda>r. \<not> asr_expires_at r \<le> now) rows)"

end
