(* ===== verification/Single_Use.thy ===== *)
theory Single_Use
  imports Assay_Prelude
begin

text \<open>
  The contract of a conditional database write that may succeed only once: the handoff handle,
  the authorization code, the refresh token under rotation and the one-time identifiers of
  assertions and proofs.  \<open>usage_trace\<close> is an arbitrary interleaving of such writes by
  concurrent requests with steps of the rest of the system; the locale \<open>single_use_store\<close> derives,
  from the per-statement laws, that a key is consumed at most once along every interleaving and
  that whoever consumes it does so first.
\<close>

inductive usage_trace ::
  "('x \<Rightarrow> 's \<Rightarrow> bool \<times> 's) \<Rightarrow> ('s \<Rightarrow> 's \<Rightarrow> bool) \<Rightarrow> 's \<Rightarrow> ('x \<times> bool) list \<Rightarrow> 's \<Rightarrow> bool"
  for consume :: "'x \<Rightarrow> 's \<Rightarrow> bool \<times> 's" and other :: "'s \<Rightarrow> 's \<Rightarrow> bool" where
  trace_nil: "usage_trace consume other s [] s"
| trace_consume: "usage_trace consume other s es s' \<Longrightarrow> consume x s' = (b, s'')
    \<Longrightarrow> usage_trace consume other s (es @ [(x, b)]) s''"
| trace_other: "usage_trace consume other s es s' \<Longrightarrow> other s' s'' \<Longrightarrow> usage_trace consume other s es s''"

inductive_cases usage_trace_nilE: "usage_trace consume other s [] s'"

definition successes :: "('x \<Rightarrow> 'k) \<Rightarrow> 'k \<Rightarrow> ('x \<times> bool) list \<Rightarrow> nat" where
  "successes key k es = length (filter (\<lambda>(x, b). b \<and> key x = k) es)"

lemma successes_Nil [simp]: "successes key k [] = 0"
  by (simp add: successes_def)

lemma successes_snoc [simp]:
  "successes key k (es @ [(x, b)]) = successes key k es + (if b \<and> key x = k then 1 else 0)"
  by (simp add: successes_def)

locale single_use_store =
  fixes inv :: "'s \<Rightarrow> bool"
    and live :: "'k \<Rightarrow> 's \<Rightarrow> bool"
    and key :: "'x \<Rightarrow> 'k"
    and consume :: "'x \<Rightarrow> 's \<Rightarrow> bool \<times> 's"
    and other :: "'k \<Rightarrow> 's \<Rightarrow> 's \<Rightarrow> bool"
  assumes consume_inv: "inv s \<Longrightarrow> consume x s = (b, s') \<Longrightarrow> inv s'"
    and consume_won: "inv s \<Longrightarrow> consume x s = (True, s') \<Longrightarrow> live (key x) s \<and> \<not> live (key x) s'"
    and consume_dead: "inv s \<Longrightarrow> consume x s = (b, s') \<Longrightarrow> \<not> live k s \<Longrightarrow> \<not> live k s'"
    and other_inv: "inv s \<Longrightarrow> other k s s' \<Longrightarrow> inv s'"
    and other_dead: "inv s \<Longrightarrow> other k s s' \<Longrightarrow> \<not> live k s \<Longrightarrow> \<not> live k s'"
begin

lemma trace_inv: "usage_trace consume (other k) s es s' \<Longrightarrow> inv s \<Longrightarrow> inv s'"
  by (induction rule: usage_trace.induct) (auto intro: consume_inv other_inv)

lemma trace_dead:
  "usage_trace consume (other k) s es s' \<Longrightarrow> inv s \<Longrightarrow> \<not> live k s \<Longrightarrow> \<not> live k s' \<and> successes key k es = 0"
proof (induction rule: usage_trace.induct)
  case (trace_consume s es s' x b s'')
  then have i: "inv s'" and d: "\<not> live k s'" and z: "successes key k es = 0" by (auto intro: trace_inv)
  have "\<not> (b \<and> key x = k)" using consume_won [OF i] trace_consume.hyps(2) d by (cases b) auto
  then show ?case using consume_dead [OF i trace_consume.hyps(2) d] z by simp
next
  case (trace_other s es s' s'')
  then show ?case using other_dead trace_inv by blast
qed simp

lemma at_most_once:
  "usage_trace consume (other k) s es s' \<Longrightarrow> inv s \<Longrightarrow>
     successes key k es \<le> 1 \<and> (successes key k es = 1 \<longrightarrow> live k s \<and> \<not> live k s')"
proof (induction rule: usage_trace.induct)
  case (trace_consume s es s' x b s'')
  then have i: "inv s'" by (auto intro: trace_inv)
  show ?case
  proof (cases "b \<and> key x = k")
    case True
    then have l: "live k s'" "\<not> live k s''" using consume_won [OF i] trace_consume.hyps(2) by auto
    moreover have "live k s" using l(1) trace_dead [OF trace_consume.hyps(1) trace_consume.prems] by blast
    moreover have "successes key k es = 0" using trace_consume l(1) by fastforce
    ultimately show ?thesis by simp
  next
    case False
    then have "successes key k (es @ [(x, b)]) = successes key k es" by auto
    then show ?thesis
      using trace_consume consume_dead [OF i trace_consume.hyps(2)] by fastforce
  qed
next
  case (trace_other s es s' s'')
  then show ?case using other_dead trace_inv by blast
qed simp

end

end
