(* ===== verification/Auth_Session_Flow.thy ===== *)
theory Auth_Session_Flow
  imports Auth_Session Single_Use
begin

text \<open>
  Correctness of the authorization session: the stored row represents the aggregate
  (\<open>auth_session_map_row\<close> as abstraction function), each save implements the in-memory transition,
  identifiers rotate so that an earlier identifier resolves to nothing, the handoff handle is used
  at most once along any interleaving, and the reachable tables (\<open>flow_reach\<close>) keep their
  invariant.
\<close>

section \<open>Row invariant\<close>

definition row_ok :: "auth_session_row \<Rightarrow> bool" where
  "row_ok r \<longleftrightarrow>
     (asr_authenticated_user_id r = None \<longrightarrow> asr_auth_time r = None \<and> asr_password_verified_at r = None)
   \<and> (asr_authenticated_user_id r \<noteq> None \<longrightarrow> asr_auth_time r \<noteq> None \<or> asr_password_verified_at r \<noteq> None)
   \<and> (asr_auth_time r = None \<longrightarrow> asr_sso_sid r = None \<and> asr_authentication_methods r = None)
   \<and> (asr_handle_hash r = None \<longleftrightarrow> asr_handle_expires_at r = None)"

definition handles :: "auth_session_row list \<Rightarrow> string list" where
  "handles rows = List.map_filter asr_handle_hash rows"

definition table_inv :: "auth_session_row list \<Rightarrow> bool" where
  "table_inv rows \<longleftrightarrow> distinct (map asr_id_hash rows) \<and> distinct (handles rows) \<and> (\<forall>r \<in> set rows. row_ok r)"

text \<open>What the database knows of an authorization request, and of the flow it belongs to.\<close>

definition row_binding :: "auth_session_row \<Rightarrow> tenant_id \<times> string \<times> string \<times> string list \<times> string \<times> string" where
  "row_binding r = (asr_tenant_id r, asr_client_id r, asr_redirect_uri r, asr_scope r, asr_nonce r, asr_code_challenge r)"

section \<open>Aggregate and row\<close>

lemma reconstitute_to_parts: "auth_session_reconstitute (auth_session_to_parts s) = s"
  by (cases s; cases "as_handoff s"; cases "as_progress s")
    (auto simp: auth_session_reconstitute_def auth_session_to_parts_def)

definition row_handoff :: "auth_session_row \<Rightarrow> pending_handoff option" where
  "row_handoff r = (case (asr_handle_hash r, asr_handle_expires_at r) of
     (Some h, Some e) \<Rightarrow> Some \<lparr>h_handle_hash = h, h_expires_at = e\<rparr> | _ \<Rightarrow> None)"

definition row_progress :: "auth_session_row \<Rightarrow> authentication_progress" where
  "row_progress r = (case (asr_authenticated_user_id r, asr_auth_time r, asr_password_verified_at r) of
     (Some u, Some t, pva) \<Rightarrow>
       Authenticated \<lparr>au_user_id = u, au_auth_time = t, au_sso_sid = asr_sso_sid r,
                      au_methods = asr_authentication_methods r\<rparr> pva
   | (Some u, None, Some v) \<Rightarrow> PasswordVerified u v
   | _ \<Rightarrow> Anonymous)"

lemma map_row_eq:
  "auth_session_map_row r = rbind (row_request r) (\<lambda>q. Inr
     \<lparr>as_id_hash = asr_id_hash r, as_tenant_id = asr_tenant_id r, as_request = q, as_handoff = row_handoff r,
      as_progress = row_progress r, as_expires_at = asr_expires_at r, as_created_at = asr_created_at r,
      as_updated_at = asr_updated_at r\<rparr>)"
  by (cases "asr_authenticated_user_id r"; cases "asr_auth_time r"; cases "asr_password_verified_at r")
    (simp_all add: auth_session_map_row_def auth_session_reconstitute_def row_handoff_def row_progress_def)

lemma row_request_upd [simp]:
  "row_request (r\<lparr>asr_id_hash := a\<rparr>) = row_request r"
  "row_request (r\<lparr>asr_handle_hash := b\<rparr>) = row_request r"
  "row_request (r\<lparr>asr_handle_expires_at := c\<rparr>) = row_request r"
  "row_request (r\<lparr>asr_authenticated_user_id := d\<rparr>) = row_request r"
  "row_request (r\<lparr>asr_auth_time := e\<rparr>) = row_request r"
  "row_request (r\<lparr>asr_password_verified_at := f\<rparr>) = row_request r"
  "row_request (r\<lparr>asr_sso_sid := g\<rparr>) = row_request r"
  "row_request (r\<lparr>asr_authentication_methods := h\<rparr>) = row_request r"
  by (simp_all add: row_request_def)

lemma ccm_parse_as_str [simp]:
  "enum_parse n code_challenge_method_table (enum_as_str code_challenge_method_table m) = Inr m"
  by (rule code_challenge_method_enum.parse_as_str)

lemma prompt_column_read:
  "distinct ps \<Longrightarrow> prompt_set_parse (unwrap_or_default (prompt_set_to_storage ps)) = ps"
  using prompt_set_storage_read [of ps]
  by (cases "prompt_set_to_storage ps")
    (auto simp: unwrap_or_default_def prompt_set_to_storage_def prompt_set_parse_def split_whitespace_def split: if_splits)

lemma max_age_column:
  "i64_max0_as_u64 (u64_as_i64 w) = (if uint w < 2 ^ 63 then w else 0)"
  using uint64_less [of w] by (simp add: i64_max0_as_u64_def u64_as_i64_def sint64_cases)

definition stored_request :: "authorization_request \<Rightarrow> authorization_request" where
  "stored_request q = q\<lparr>r_max_age := map_option (\<lambda>w. if uint w < 2 ^ 63 then w else 0) (r_max_age q)\<rparr>"

lemma row_request_row_of:
  "distinct (r_prompt (as_request s)) \<Longrightarrow> row_request (auth_session_row_of t s) = Inr (stored_request (as_request s))"
  by (cases "as_request s"; cases "r_pkce (as_request s)")
    (simp add: row_request_def auth_session_row_of_def Let_def request_reconstitute_def stored_request_def
      prompt_column_read from_stored_to_stored max_age_column option.map_comp comp_def)

lemma map_row_row_of_anonymous:
  assumes "as_progress s = Anonymous" and "distinct (r_prompt (as_request s))"
  shows "auth_session_map_row (auth_session_row_of t s)
       = Inr (s\<lparr>as_request := stored_request (as_request s), as_created_at := t, as_updated_at := t\<rparr>)"
proof -
  have "row_handoff (auth_session_row_of t s) = as_handoff s"
    by (cases "as_handoff s"; cases "the (as_handoff s)")
      (auto simp: row_handoff_def auth_session_row_of_def Let_def)
  moreover have "row_progress (auth_session_row_of t s) = Anonymous"
    using assms(1) by (simp add: row_progress_def auth_session_row_of_def Let_def identified_user_def)
  ultimately show ?thesis
    using assms(1) unfolding map_row_eq row_request_row_of [OF assms(2)]
    by (simp add: auth_session_row_of_def Let_def)
qed

lemma row_ok_row_of: "as_progress s = Anonymous \<Longrightarrow> row_ok (auth_session_row_of t s)"
  by (auto simp: row_ok_def auth_session_row_of_def Let_def identified_user_def completed_authentication_def)

section \<open>Saves implement the aggregate's transitions\<close>

definition set_password_verified :: "string \<Rightarrow> uuid \<Rightarrow> instant \<Rightarrow> auth_session_row \<Rightarrow> auth_session_row" where
  "set_password_verified j u v r = r\<lparr>asr_id_hash := j, asr_authenticated_user_id := Some u,
     asr_password_verified_at := Some v, asr_auth_time := None, asr_sso_sid := None,
     asr_authentication_methods := None\<rparr>"

definition set_authenticated :: "string \<Rightarrow> authentication \<Rightarrow> auth_session_row \<Rightarrow> auth_session_row" where
  "set_authenticated j a r = r\<lparr>asr_id_hash := j, asr_authenticated_user_id := Some (au_user_id a),
     asr_auth_time := Some (au_auth_time a), asr_sso_sid := au_sso_sid a,
     asr_authentication_methods := au_methods a\<rparr>"

definition set_exchanged :: "string \<Rightarrow> auth_session_row \<Rightarrow> auth_session_row" where
  "set_exchanged j r = r\<lparr>asr_handle_hash := None, asr_handle_expires_at := None, asr_id_hash := j\<rparr>"

lemmas set_row_defs = set_password_verified_def set_authenticated_def set_exchanged_def

lemma row_binding_set [simp]:
  "row_binding (set_password_verified j u v r) = row_binding r"
  "row_binding (set_authenticated j a r) = row_binding r"
  "row_binding (set_exchanged j r) = row_binding r"
  by (simp_all add: row_binding_def set_row_defs)

lemma row_ok_set [simp]:
  "row_ok r \<Longrightarrow> row_ok (set_password_verified j u v r)"
  "row_ok r \<Longrightarrow> row_ok (set_authenticated j a r)"
  "row_ok r \<Longrightarrow> row_ok (set_exchanged j r)"
  by (auto simp: row_ok_def set_row_defs)

lemma map_row_password_verified:
  assumes "auth_session_map_row r = Inr s" and "record_password_verification lib fresh s u v = (s', pv)"
  shows "auth_session_map_row (set_password_verified (id_hash_of_plain lib fresh) u v r) = Inr s'"
  using assms
  by (auto simp: map_row_eq rbind_Inr_iff record_password_verification_def rotate_id_def Let_def
      set_password_verified_def row_handoff_def row_progress_def)

lemma map_row_authenticated:
  assumes "auth_session_map_row r = Inr s" and "row_ok r" and "complete_authentication lib fresh s a = (s', c)"
  shows "auth_session_map_row (set_authenticated (id_hash_of_plain lib fresh) a r) = Inr s'"
proof -
  have "row_progress (set_authenticated j a r) = Authenticated a (case row_progress r of
      Anonymous \<Rightarrow> None | PasswordVerified u v \<Rightarrow> Some v | Authenticated b pva \<Rightarrow> pva)" for j
    using assms(2) by (cases a)
      (auto simp: row_progress_def set_authenticated_def row_ok_def split: option.splits)
  moreover have "row_handoff (set_authenticated j a r) = row_handoff r" for j
    by (simp add: row_handoff_def set_authenticated_def)
  moreover have "row_request (set_authenticated j a r) = row_request r" for j
    by (simp add: set_authenticated_def)
  moreover have "asr_id_hash (set_authenticated j a r) = j" "asr_tenant_id (set_authenticated j a r) = asr_tenant_id r"
    "asr_expires_at (set_authenticated j a r) = asr_expires_at r" "asr_created_at (set_authenticated j a r) = asr_created_at r"
    "asr_updated_at (set_authenticated j a r) = asr_updated_at r" for j
    by (simp_all add: set_authenticated_def)
  ultimately show ?thesis
    using assms
    by (auto simp: map_row_eq rbind_Inr_iff complete_authentication_def rotate_id_def Let_def)
qed

lemma map_row_exchanged:
  assumes "auth_session_map_row r = Inr s" and "exchange_handoff lib fresh s now = Some (s', ex)"
  shows "auth_session_map_row (set_exchanged (id_hash_of_plain lib fresh) r) = Inr s'"
    and "asr_handle_hash r = Some (he_consumed ex)" and "ir_previous (he_rotation ex) = asr_id_hash r"
    and "ir_issued (he_rotation ex) = fresh"
  using assms
  by (auto simp: map_row_eq rbind_Inr_iff exchange_handoff_def rotate_id_def Let_def
      handoff_is_valid_at_def row_handoff_def row_progress_def set_exchanged_def split: if_splits option.splits)

section \<open>Tables\<close>

definition rotate_rows ::
  "(auth_session_row \<Rightarrow> bool) \<Rightarrow> (auth_session_row \<Rightarrow> auth_session_row) \<Rightarrow> auth_session_row list \<Rightarrow> auth_session_row list" where
  "rotate_rows hit f rows = map (\<lambda>r. if hit r then f r else r) rows"

lemma save_password_verification_eq:
  "save_password_verification lib pv rows =
     (let hit = (\<lambda>r. asr_id_hash r = ir_previous (pv_rotation pv)); j = id_hash_of_plain lib (ir_issued (pv_rotation pv))
      in if id_conflict hit j rows then Inl (Repository ''duplicate entry'')
         else Inr (rotate_rows hit (set_password_verified j (pv_user_id pv) (pv_verified_at pv)) rows))"
  by (simp add: save_password_verification_def rotate_rows_def set_password_verified_def Let_def)

lemma save_authentication_eq:
  "save_authentication lib c rows =
     (let hit = (\<lambda>r. asr_id_hash r = ir_previous (ac_rotation c)); j = id_hash_of_plain lib (ir_issued (ac_rotation c))
      in if id_conflict hit j rows then Inl (Repository ''duplicate entry'')
         else Inr (rotate_rows hit (set_authenticated j (ac_authentication c)) rows))"
  by (simp add: save_authentication_def rotate_rows_def set_authenticated_def Let_def)

lemma save_handoff_exchange_eq:
  "save_handoff_exchange lib ex rows =
     (let hit = (\<lambda>r. asr_id_hash r = ir_previous (he_rotation ex) \<and> asr_handle_hash r = Some (he_consumed ex));
          j = id_hash_of_plain lib (ir_issued (he_rotation ex))
      in if id_conflict hit j rows then Inl (Repository ''duplicate entry'')
         else Inr (length (filter hit rows) = 1, rotate_rows hit (set_exchanged j) rows))"
  by (simp add: save_handoff_exchange_def rotate_rows_def set_exchanged_def Let_def)

lemma handles_mem: "h \<in> set (handles rows) \<longleftrightarrow> (\<exists>r \<in> set rows. asr_handle_hash r = Some h)"
  by (force simp: handles_def map_filter_def)

lemma handles_simps [simp]:
  "handles [] = []"
  "handles (r # rows) = (case asr_handle_hash r of None \<Rightarrow> handles rows | Some h \<Rightarrow> h # handles rows)"
  "handles (xs @ ys) = handles xs @ handles ys"
  by (auto simp: handles_def map_filter_def split: option.splits)

lemma handles_rotate:
  assumes "\<And>r. asr_handle_hash (f r) = asr_handle_hash r \<or> asr_handle_hash (f r) = None"
  shows "set (handles (rotate_rows hit f rows)) \<subseteq> set (handles rows)"
    and "distinct (handles rows) \<Longrightarrow> distinct (handles (rotate_rows hit f rows))"
proof -
  show s: "set (handles (rotate_rows hit f rows)) \<subseteq> set (handles rows)" for rows
  proof
    fix h assume "h \<in> set (handles (rotate_rows hit f rows))"
    then obtain r where "r \<in> set rows" "asr_handle_hash (if hit r then f r else r) = Some h"
      by (auto simp: handles_mem rotate_rows_def)
    then show "h \<in> set (handles rows)" using assms [of r] by (auto simp: handles_mem split: if_splits)
  qed
  show "distinct (handles rows) \<Longrightarrow> distinct (handles (rotate_rows hit f rows))"
  proof (induction rows)
    case (Cons r rows)
    have "rotate_rows hit f (r # rows) = (if hit r then f r else r) # rotate_rows hit f rows"
      by (simp add: rotate_rows_def)
    then show ?case
      using Cons s [of rows] assms [of r] by (cases "hit r") (auto split: option.splits if_splits)
  qed (simp add: rotate_rows_def)
qed

lemma ids_rotate:
  assumes "distinct (map asr_id_hash rows)" and "\<not> id_conflict hit j rows"
    and "\<And>r. hit r \<Longrightarrow> asr_id_hash r = i" and "\<And>r. asr_id_hash (f r) = j"
  shows "distinct (map asr_id_hash (rotate_rows hit f rows))"
    and "i \<noteq> j \<Longrightarrow> \<exists>r \<in> set rows. hit r \<Longrightarrow> i \<notin> asr_id_hash ` set (rotate_rows hit f rows)"
    and "x \<noteq> i \<Longrightarrow> x \<noteq> j \<Longrightarrow>
       find (\<lambda>r. asr_id_hash r = x \<and> P (asr_tenant_id r)) (rotate_rows hit f rows)
       = find (\<lambda>r. asr_id_hash r = x \<and> P (asr_tenant_id r)) rows"
proof -
  have none: "rotate_rows hit f rows = rows" if "\<not> (\<exists>r \<in> set rows. hit r)" for rows
    using that by (auto simp: rotate_rows_def intro!: map_idI)
  have one: "distinct (map asr_id_hash (rotate_rows hit f rows))"
    if "distinct (map asr_id_hash rows)" "\<forall>r \<in> set rows. asr_id_hash r = j \<longrightarrow> hit r" for rows
    using that
  proof (induction rows)
    case (Cons r rows)
    have t: "rotate_rows hit f (r # rows) = (if hit r then f r else r) # rotate_rows hit f rows"
      by (simp add: rotate_rows_def)
    show ?case
    proof (cases "hit r")
      case True
      have nh: "\<not> (\<exists>r \<in> set rows. hit r)"
        using Cons.prems(1) True assms(3) by (metis distinct.simps(2) image_eqI list.map(2) list.set_map)
      then have "j \<notin> asr_id_hash ` set rows" using Cons.prems(2) by auto
      then show ?thesis using True none [OF nh] Cons.prems(1) assms(4) by (simp add: t)
    next
      case False
      then have "asr_id_hash r \<noteq> j" using Cons.prems(2) by auto
      then have "asr_id_hash r \<notin> asr_id_hash ` set (rotate_rows hit f rows)"
        using Cons.prems(1) assms(4) by (auto simp: rotate_rows_def)
      then show ?thesis using False Cons by (simp add: t)
    qed
  qed (simp add: rotate_rows_def)
  show "distinct (map asr_id_hash (rotate_rows hit f rows))"
  proof (cases "\<exists>r \<in> set rows. hit r")
    case True
    then show ?thesis using one assms(1,2) by (auto simp: id_conflict_def list_ex_iff)
  qed (simp add: none assms(1))
next
  assume ij: "i \<noteq> j" and "\<exists>r \<in> set rows. hit r"
  then obtain r0 where r0: "r0 \<in> set rows" "hit r0" by blast
  have "r = r0" if "r \<in> set rows" "asr_id_hash r = i" for r
    using assms(1,3) r0 that by (metis distinct_map inj_onD)
  then show "i \<notin> asr_id_hash ` set (rotate_rows hit f rows)"
    using ij r0(2) assms(4) by (auto simp: rotate_rows_def split: if_splits)
next
  assume "x \<noteq> i" "x \<noteq> j"
  then show "find (\<lambda>r. asr_id_hash r = x \<and> P (asr_tenant_id r)) (rotate_rows hit f rows)
       = find (\<lambda>r. asr_id_hash r = x \<and> P (asr_tenant_id r)) rows"
    using assms(3,4) by (induction rows) (auto simp: rotate_rows_def)
qed

lemma set_row_id [simp]:
  "asr_id_hash (set_password_verified j u v r) = j" "asr_id_hash (set_authenticated j a r) = j"
  "asr_id_hash (set_exchanged j r) = j"
  "asr_tenant_id (set_password_verified j u v r) = asr_tenant_id r"
  "asr_tenant_id (set_authenticated j a r) = asr_tenant_id r" "asr_tenant_id (set_exchanged j r) = asr_tenant_id r"
  "asr_handle_hash (set_password_verified j u v r) = asr_handle_hash r"
  "asr_handle_hash (set_authenticated j a r) = asr_handle_hash r" "asr_handle_hash (set_exchanged j r) = None"
  by (simp_all add: set_row_defs)

lemma rotate_table_inv:
  assumes "table_inv rows" and "\<not> id_conflict hit j rows" and "\<And>r. hit r \<Longrightarrow> asr_id_hash r = i"
    and "\<And>r. asr_id_hash (f r) = j"
    and "\<And>r. asr_handle_hash (f r) = asr_handle_hash r \<or> asr_handle_hash (f r) = None"
    and "\<And>r. row_ok r \<Longrightarrow> row_ok (f r)"
  shows "table_inv (rotate_rows hit f rows)"
  using assms ids_rotate(1) [of rows hit j i f] handles_rotate(2) [of f rows hit]
  by (auto simp: table_inv_def rotate_rows_def)

lemma find_rotated:
  assumes "distinct (map asr_id_hash rows)" and "\<not> id_conflict (\<lambda>r. asr_id_hash r = i) j rows"
    and "find (\<lambda>r. asr_id_hash r = i \<and> asr_tenant_id r = t) rows = Some r"
    and "\<And>r. asr_id_hash (f r) = j" and "\<And>r. asr_tenant_id (f r) = asr_tenant_id r"
  shows "find (\<lambda>r. asr_id_hash r = j \<and> asr_tenant_id r = t) (rotate_rows (\<lambda>r. asr_id_hash r = i) f rows) = Some (f r)"
proof -
  from find_Some_mem [OF assms(3)] have r: "r \<in> set rows" "asr_id_hash r = i" "asr_tenant_id r = t" by auto
  let ?rows = "rotate_rows (\<lambda>r. asr_id_hash r = i) f rows"
  have d: "distinct (map asr_id_hash ?rows)" using assms by (intro ids_rotate) auto
  have "f r \<in> set ?rows" using r by (force simp: rotate_rows_def)
  then show ?thesis
    using find_distinct_key_and [OF d, of "f r" j "\<lambda>r. asr_tenant_id r = t"] r assms(4,5) by simp
qed

section \<open>Reachable tables\<close>

datatype flow_event =
    Started tenant_id authorization_request string
  | Exchanged handoff_exchange
  | Verified password_verification
  | Completed authentication_completion
  | Removed

text \<open>Any interleaving of the requests that write the table.  A change is built from a session a
  request loaded earlier, so nothing relates it to the present table.\<close>

inductive flow_reach :: "crypto_lib \<Rightarrow> flow_event list \<Rightarrow> auth_session_row list \<Rightarrow> bool"
  for lib :: crypto_lib where
  flow_init: "flow_reach lib [] []"
| flow_start: "flow_reach lib es rows
    \<Longrightarrow> auth_session_create db_now (fst (auth_session_start lib fh fi t q now l hl)) rows = Inr rows'
    \<Longrightarrow> flow_reach lib (Started t q fi # es) rows'"
| flow_exchange: "flow_reach lib es rows \<Longrightarrow> save_handoff_exchange lib ex rows = Inr (b, rows')
    \<Longrightarrow> flow_reach lib (Exchanged ex # es) rows'"
| flow_verify: "flow_reach lib es rows \<Longrightarrow> save_password_verification lib pv rows = Inr rows'
    \<Longrightarrow> flow_reach lib (Verified pv # es) rows'"
| flow_complete: "flow_reach lib es rows \<Longrightarrow> save_authentication lib c rows = Inr rows'
    \<Longrightarrow> flow_reach lib (Completed c # es) rows'"
| flow_delete: "flow_reach lib es rows \<Longrightarrow> flow_reach lib (Removed # es) (auth_session_delete i rows)"
| flow_expire: "flow_reach lib es rows \<Longrightarrow> flow_reach lib (Removed # es) (snd (auth_session_delete_expired now rows))"

definition request_binding :: "tenant_id \<Rightarrow> authorization_request \<Rightarrow> tenant_id \<times> string \<times> string \<times> string list \<times> string \<times> string" where
  "request_binding t q = (t, r_client_id q, r_redirect_uri q, r_scope q, r_nonce q, pk_challenge (r_pkce q))"

text \<open>The history of the session that has the identifier \<open>i\<close> after the events: the request it was started with and how far its
  sign-in has come.  It follows the identifier through every rotation, so that nothing recorded for another session counts.\<close>

fun names_session :: "string \<Rightarrow> flow_event \<Rightarrow> bool" where
  "names_session i (Verified pv) \<longleftrightarrow> ir_previous (pv_rotation pv) = i"
| "names_session i (Completed c) \<longleftrightarrow> ir_previous (ac_rotation c) = i"
| "names_session i _ \<longleftrightarrow> False"

fun password_stamp :: "authentication_progress \<Rightarrow> instant option" where
  "password_stamp Anonymous = None"
| "password_stamp (PasswordVerified u v) = Some v"
| "password_stamp (Authenticated a pva) = pva"

inductive session_history ::
  "crypto_lib \<Rightarrow> flow_event list \<Rightarrow> string \<Rightarrow> tenant_id \<Rightarrow> authorization_request \<Rightarrow> authentication_progress \<Rightarrow> bool"
  for lib :: crypto_lib where
  began: "session_history lib (Started t q fi # es) (id_hash_of_plain lib fi) t q Anonymous"
| handed_over: "session_history lib es (ir_previous (he_rotation ex)) t q p
    \<Longrightarrow> session_history lib (Exchanged ex # es) (id_hash_of_plain lib (ir_issued (he_rotation ex))) t q p"
| password: "session_history lib es (ir_previous (pv_rotation pv)) t q p
    \<Longrightarrow> session_history lib (Verified pv # es) (id_hash_of_plain lib (ir_issued (pv_rotation pv))) t q
          (PasswordVerified (pv_user_id pv) (pv_verified_at pv))"
| completed: "session_history lib es (ir_previous (ac_rotation c)) t q p
    \<Longrightarrow> session_history lib (Completed c # es) (id_hash_of_plain lib (ir_issued (ac_rotation c))) t q
          (Authenticated (ac_authentication c) (password_stamp p))"
| elsewhere: "session_history lib es i t q p \<Longrightarrow> \<not> names_session i e \<Longrightarrow> session_history lib (e # es) i t q p"

text \<open>Every row shows the request and the progress of its own session.\<close>

definition row_justified :: "crypto_lib \<Rightarrow> flow_event list \<Rightarrow> auth_session_row \<Rightarrow> bool" where
  "row_justified lib es r \<longleftrightarrow>
     (\<exists>t q. session_history lib es (asr_id_hash r) t q (row_progress r) \<and> row_binding r = request_binding t q)"

lemma row_justified_elsewhere: "row_justified lib es r \<Longrightarrow> \<not> names_session (asr_id_hash r) e \<Longrightarrow> row_justified lib (e # es) r"
  by (auto simp: row_justified_def intro: elsewhere)

lemma row_progress_set [simp]:
  "row_progress (set_exchanged j r) = row_progress r"
  "row_progress (set_password_verified j u v r) = PasswordVerified u v"
  by (cases "asr_authenticated_user_id r"; cases "asr_auth_time r"; cases "asr_password_verified_at r";
      simp add: row_progress_def set_row_defs)+

lemma row_progress_set_authenticated:
  "row_ok r \<Longrightarrow> row_progress (set_authenticated j a r) = Authenticated a (password_stamp (row_progress r))"
  by (cases a) (auto simp: row_progress_def set_row_defs row_ok_def split: option.splits)

lemma table_inv_filter: "table_inv rows \<Longrightarrow> table_inv (filter P rows)"
proof -
  have "distinct (handles (filter P rows)) \<and> set (handles (filter P rows)) \<subseteq> set (handles rows)"
    if "distinct (handles rows)" for rows
    using that by (induction rows) (auto split: option.splits)
  then show "table_inv rows \<Longrightarrow> table_inv (filter P rows)"
    by (auto simp: table_inv_def distinct_map_filter)
qed

lemma table_inv_insert:
  "table_inv rows \<Longrightarrow> row_ok row \<Longrightarrow> auth_session_insert row rows = Inr rows' \<Longrightarrow> table_inv rows' \<and> rows' = rows @ [row]"
  by (auto simp: table_inv_def auth_session_insert_def list_ex_iff handles_mem
      split: if_splits option.splits) (metis handles_mem)+

lemma start_anonymous [simp]:
  "as_progress (fst (auth_session_start lib fh fi t q now l hl)) = Anonymous"
  "as_tenant_id (fst (auth_session_start lib fh fi t q now l hl)) = t"
  "as_request (fst (auth_session_start lib fh fi t q now l hl)) = q"
  "as_id_hash (fst (auth_session_start lib fh fi t q now l hl)) = id_hash_of_plain lib fi"
  by (simp_all add: auth_session_start_def)

text \<open>A rotation moves the rows it hits and leaves the others where they are.\<close>

lemma rotated_rows_justified:
  assumes "\<forall>r \<in> set rows. row_justified lib es r"
    and "\<And>r. r \<in> set rows \<Longrightarrow> hit r \<Longrightarrow> row_justified lib es r \<Longrightarrow> row_justified lib (e # es) (f r)"
    and "\<And>r. \<not> hit r \<Longrightarrow> \<not> names_session (asr_id_hash r) e"
  shows "\<forall>r \<in> set (rotate_rows hit f rows). row_justified lib (e # es) r"
  using assms by (auto simp: rotate_rows_def row_justified_elsewhere)

lemma flow_reach_inv: "flow_reach lib es rows \<Longrightarrow> table_inv rows \<and> (\<forall>r \<in> set rows. row_justified lib es r)"
proof (induction rule: flow_reach.induct)
  case (flow_start es rows db_now fh fi t q now l hl rows')
  let ?s = "fst (auth_session_start lib fh fi t q now l hl)"
  let ?r = "auth_session_row_of db_now ?s"
  have r: "table_inv rows'" "rows' = rows @ [?r]"
    using flow_start table_inv_insert [of rows ?r rows'] row_ok_row_of [of ?s]
    by (auto simp: auth_session_create_def)
  have "row_progress ?r = Anonymous" "asr_id_hash ?r = id_hash_of_plain lib fi" "row_binding ?r = request_binding t q"
    by (simp_all add: row_progress_def row_binding_def request_binding_def auth_session_row_of_def Let_def identified_user_def)
  then have "row_justified lib (Started t q fi # es) ?r"
    using began [of lib t q fi es] by (auto simp: row_justified_def)
  then show ?case using r flow_start.IH row_justified_elsewhere by auto
next
  case (flow_exchange es rows ex b rows')
  let ?hit = "\<lambda>r. asr_id_hash r = ir_previous (he_rotation ex) \<and> asr_handle_hash r = Some (he_consumed ex)"
  let ?j = "id_hash_of_plain lib (ir_issued (he_rotation ex))"
  have nc: "\<not> id_conflict ?hit ?j rows" and rows': "rows' = rotate_rows ?hit (set_exchanged ?j) rows"
    using flow_exchange.hyps(2) unfolding save_handoff_exchange_eq Let_def by (auto split: if_splits)
  have "table_inv rows'" unfolding rows' using flow_exchange.IH nc by (intro rotate_table_inv) auto
  moreover have "\<forall>r \<in> set rows'. row_justified lib (Exchanged ex # es) r" unfolding rows'
    using flow_exchange.IH by (intro rotated_rows_justified) (auto simp: row_justified_def intro: handed_over)
  ultimately show ?case by blast
next
  case (flow_verify es rows pv rows')
  let ?hit = "\<lambda>r. asr_id_hash r = ir_previous (pv_rotation pv)"
  let ?f = "set_password_verified (id_hash_of_plain lib (ir_issued (pv_rotation pv))) (pv_user_id pv) (pv_verified_at pv)"
  have nc: "\<not> id_conflict ?hit (id_hash_of_plain lib (ir_issued (pv_rotation pv))) rows" and rows': "rows' = rotate_rows ?hit ?f rows"
    using flow_verify.hyps(2) unfolding save_password_verification_eq Let_def by (auto split: if_splits)
  have "table_inv rows'" unfolding rows' using flow_verify.IH nc by (intro rotate_table_inv) auto
  moreover have "\<forall>r \<in> set rows'. row_justified lib (Verified pv # es) r" unfolding rows'
    using flow_verify.IH by (intro rotated_rows_justified) (auto simp: row_justified_def intro: password)
  ultimately show ?case by blast
next
  case (flow_complete es rows c rows')
  let ?hit = "\<lambda>r. asr_id_hash r = ir_previous (ac_rotation c)"
  let ?f = "set_authenticated (id_hash_of_plain lib (ir_issued (ac_rotation c))) (ac_authentication c)"
  have nc: "\<not> id_conflict ?hit (id_hash_of_plain lib (ir_issued (ac_rotation c))) rows" and rows': "rows' = rotate_rows ?hit ?f rows"
    using flow_complete.hyps(2) unfolding save_authentication_eq Let_def by (auto split: if_splits)
  have ok: "row_ok r" if "r \<in> set rows" for r using flow_complete.IH that by (simp add: table_inv_def)
  have "table_inv rows'" unfolding rows' using flow_complete.IH nc by (intro rotate_table_inv) auto
  moreover have "\<forall>r \<in> set rows'. row_justified lib (Completed c # es) r" unfolding rows'
    using flow_complete.IH ok
    by (intro rotated_rows_justified) (auto simp: row_justified_def row_progress_set_authenticated intro: completed)
  ultimately show ?case by blast
next
  case (flow_delete es rows i)
  then show ?case by (auto simp: auth_session_delete_def table_inv_filter row_justified_elsewhere)
next
  case (flow_expire es rows now)
  then show ?case
    by (auto simp: auth_session_delete_expired_def row_justified_elsewhere intro: table_inv_filter)
qed (simp add: table_inv_def)

section \<open>The handoff handle is single-use\<close>

definition handle_live :: "string \<Rightarrow> auth_session_row list \<Rightarrow> bool" where
  "handle_live h rows \<longleftrightarrow> h \<in> set (handles rows)"

text \<open>The statement as the requests see it: a database error counts as a lost exchange.\<close>

definition exchange_statement :: "crypto_lib \<Rightarrow> handoff_exchange \<Rightarrow> auth_session_row list \<Rightarrow> bool \<times> auth_session_row list" where
  "exchange_statement lib ex rows = (case save_handoff_exchange lib ex rows of Inl e \<Rightarrow> (False, rows) | Inr x \<Rightarrow> x)"

text \<open>What everyone else may do to the table meanwhile, as long as the handle \<open>h\<close> is not issued again.\<close>

inductive handoff_other :: "crypto_lib \<Rightarrow> string \<Rightarrow> auth_session_row list \<Rightarrow> auth_session_row list \<Rightarrow> bool"
  for lib :: crypto_lib and h :: string where
  other_create: "handoff_hash lib fh \<noteq> h
    \<Longrightarrow> auth_session_create db_now (fst (auth_session_start lib fh fi t q now l hl)) rows = Inr rows'
    \<Longrightarrow> handoff_other lib h rows rows'"
| other_verify: "save_password_verification lib pv rows = Inr rows' \<Longrightarrow> handoff_other lib h rows rows'"
| other_complete: "save_authentication lib c rows = Inr rows' \<Longrightarrow> handoff_other lib h rows rows'"
| other_delete: "handoff_other lib h rows (auth_session_delete i rows)"
| other_expire: "handoff_other lib h rows (snd (auth_session_delete_expired now rows))"

lemma handles_filter_mono: "set (handles (filter P rows)) \<subseteq> set (handles rows)"
  by (auto simp: handles_mem)

lemma exchange_statement_step:
  assumes "table_inv rows" and "exchange_statement lib ex rows = (b, rows')"
  shows "table_inv rows'" and "set (handles rows') \<subseteq> set (handles rows)"
    and "b \<Longrightarrow> he_consumed ex \<in> set (handles rows) \<and> he_consumed ex \<notin> set (handles rows')"
proof -
  let ?hit = "\<lambda>r. asr_id_hash r = ir_previous (he_rotation ex) \<and> asr_handle_hash r = Some (he_consumed ex)"
  let ?j = "id_hash_of_plain lib (ir_issued (he_rotation ex))"
  let ?new = "rotate_rows ?hit (set_exchanged ?j) rows"
  have c: "\<not> b \<and> rows' = rows \<or> \<not> id_conflict ?hit ?j rows \<and> b = (length (filter ?hit rows) = 1) \<and> rows' = ?new"
    using assms(2) unfolding exchange_statement_def save_handoff_exchange_eq Let_def
    by (auto split: if_splits)
  have new: "\<not> id_conflict ?hit ?j rows \<Longrightarrow> table_inv ?new"
    using assms(1) by (intro rotate_table_inv) auto
  show "table_inv rows'" using c new assms(1) by auto
  have sub: "set (handles ?new) \<subseteq> set (handles rows)" by (intro handles_rotate) simp
  then show "set (handles rows') \<subseteq> set (handles rows)" using c by auto
  assume b
  with c have eq: "rows' = ?new" and one: "length (filter ?hit rows) = 1" by auto
  from one obtain r0 where "filter ?hit rows = [r0]" by (auto simp: length_Suc_conv)
  then have r0: "r0 \<in> set rows" "?hit r0" by (auto dest: filter_eq_ConsD simp: filter_eq_Cons_iff)
  have uniq: "?hit r" if "r \<in> set rows" "asr_handle_hash r = Some (he_consumed ex)" for r
  proof -
    have "distinct (handles rows)" using assms(1) by (simp add: table_inv_def)
    then have "r = r0" using that r0
      by (induction rows) (auto simp: handles_mem split: option.splits)
    with r0 show ?thesis by simp
  qed
  then have "he_consumed ex \<notin> set (handles ?new)" by (auto simp: handles_mem rotate_rows_def split: if_splits)
  then show "he_consumed ex \<in> set (handles rows) \<and> he_consumed ex \<notin> set (handles rows')"
    using r0 eq by (auto simp: handles_mem)
qed

lemma handoff_other_step:
  assumes "handoff_other lib h rows rows'" and "table_inv rows"
  shows "table_inv rows'" and "h \<notin> set (handles rows) \<Longrightarrow> h \<notin> set (handles rows')"
proof -
  have "table_inv rows' \<and> (h \<notin> set (handles rows) \<longrightarrow> h \<notin> set (handles rows'))"
    using assms
  proof cases
    case (other_create fh db_now fi t q now l hl)
    let ?r = "auth_session_row_of db_now (fst (auth_session_start lib fh fi t q now l hl))"
    have "table_inv rows' \<and> rows' = rows @ [?r]"
      using other_create assms(2) by (intro table_inv_insert) (auto simp: auth_session_create_def row_ok_row_of)
    then show ?thesis using other_create(1)
      by (auto simp: auth_session_row_of_def Let_def auth_session_start_def)
  next
    case (other_verify pv)
    let ?f = "set_password_verified (id_hash_of_plain lib (ir_issued (pv_rotation pv))) (pv_user_id pv) (pv_verified_at pv)"
    have "set (handles (rotate_rows hit ?f rows)) \<subseteq> set (handles rows)" for hit by (intro handles_rotate) simp
    then show ?thesis using other_verify assms(2) unfolding save_password_verification_eq Let_def
      by (auto split: if_splits intro!: rotate_table_inv)
  next
    case (other_complete c)
    let ?f = "set_authenticated (id_hash_of_plain lib (ir_issued (ac_rotation c))) (ac_authentication c)"
    have "set (handles (rotate_rows hit ?f rows)) \<subseteq> set (handles rows)" for hit by (intro handles_rotate) simp
    then show ?thesis using other_complete assms(2) unfolding save_authentication_eq Let_def
      by (auto split: if_splits intro!: rotate_table_inv)
  next
    case (other_delete i)
    then show ?thesis using assms(2) handles_filter_mono unfolding auth_session_delete_def
      by (auto intro: table_inv_filter)
  next
    case (other_expire now)
    then show ?thesis using assms(2) handles_filter_mono unfolding auth_session_delete_expired_def
      by (auto intro: table_inv_filter)
  qed
  then show "table_inv rows'" "h \<notin> set (handles rows) \<Longrightarrow> h \<notin> set (handles rows')" by auto
qed

interpretation handoff: single_use_store table_inv handle_live he_consumed "exchange_statement lib" "handoff_other lib" for lib
proof unfold_locales
  fix s s' :: "auth_session_row list" and x b k
  show "table_inv s \<Longrightarrow> exchange_statement lib x s = (b, s') \<Longrightarrow> table_inv s'"
    by (rule exchange_statement_step)
  show "table_inv s \<Longrightarrow> exchange_statement lib x s = (True, s') \<Longrightarrow> handle_live (he_consumed x) s \<and> \<not> handle_live (he_consumed x) s'"
    using exchange_statement_step(3) [of s lib x True s'] by (simp add: handle_live_def)
  show "table_inv s \<Longrightarrow> exchange_statement lib x s = (b, s') \<Longrightarrow> \<not> handle_live k s \<Longrightarrow> \<not> handle_live k s'"
    using exchange_statement_step(2) [of s lib x b s'] by (auto simp: handle_live_def)
  show "table_inv s \<Longrightarrow> handoff_other lib k s s' \<Longrightarrow> table_inv s'" by (rule handoff_other_step)
  show "table_inv s \<Longrightarrow> handoff_other lib k s s' \<Longrightarrow> \<not> handle_live k s \<Longrightarrow> \<not> handle_live k s'"
    using handoff_other_step(2) by (simp add: handle_live_def)
qed

section \<open>Properties\<close>

text \<open>The stored form of an authorization session is lossless: \<open>reconstitute\<close> inverts
  \<open>to_parts\<close>, and a session written by \<open>create\<close> right after \<open>start\<close> is read back unchanged (but
  for the database's own timestamps) when its \<open>max_age\<close> fits a signed 64-bit column.\<close>

theorem auth_session_storage_roundtrip:
  assumes "distinct (r_prompt q)" and "case r_max_age q of None \<Rightarrow> True | Some w \<Rightarrow> uint w < 2 ^ 63"
    and "s = fst (auth_session_start lib fh fi t q now l hl)"
  shows "auth_session_reconstitute (auth_session_to_parts s') = s'
    \<and> auth_session_map_row (auth_session_row_of db_now s) = Inr (s\<lparr>as_created_at := db_now, as_updated_at := db_now\<rparr>)"
proof -
  have "stored_request q = q" using assms(2) by (cases "r_max_age q") (auto simp: stored_request_def)
  then show ?thesis
    using assms(1,3) map_row_row_of_anonymous [of s db_now] by (simp add: reconstitute_to_parts)
qed

theorem auth_session_storage_roundtrip_witness:
  "auth_session_map_row (auth_session_row_of 7 (fst (auth_session_start toy_crypto ''h'' ''i'' 1 sample_request 5 600 60)))
   = Inr ((fst (auth_session_start toy_crypto ''h'' ''i'' 1 sample_request 5 600 60))\<lparr>as_created_at := 7, as_updated_at := 7\<rparr>)"
  using auth_session_storage_roundtrip [where q = sample_request and lib = toy_crypto and fh = "''h''" and fi = "''i''"
      and t = 1 and now = 5 and l = 600 and hl = 60 and db_now = 7, OF _ _ refl]
  by (simp add: sample_request_def)

text \<open>A requested \<open>max_age\<close> of \<open>2^63\<close> seconds or more does not survive the session table: it is
  written as a negative BIGINT and read back as 0, so the longest possible age becomes the
  shortest one.\<close>

theorem huge_max_age_becomes_zero:
  assumes "r_max_age q = Some w" and "2 ^ 63 \<le> uint w" and "distinct (r_prompt q)"
    and "s = fst (auth_session_start lib fh fi t q now l hl)"
  shows "\<exists>s'. auth_session_map_row (auth_session_row_of db_now s) = Inr s' \<and> r_max_age (as_request s') = Some 0
     \<and> authentication_is_too_old (as_request s') 0 (secs 1)"
proof -
  have "auth_session_map_row (auth_session_row_of db_now s)
      = Inr (s\<lparr>as_request := stored_request q, as_created_at := db_now, as_updated_at := db_now\<rparr>)"
    using assms(3,4) map_row_row_of_anonymous [of s db_now] by simp
  then show ?thesis
    using assms(1,2) by (auto simp: stored_request_def authentication_is_too_old_def u64_as_i64_def)
qed

theorem huge_max_age_becomes_zero_witness:
  "\<exists>s'. auth_session_map_row (auth_session_row_of 7 (fst (auth_session_start toy_crypto ''h'' ''i'' 1
       (sample_request\<lparr>r_max_age := Some 9223372036854775808\<rparr>) 5 600 60))) = Inr s' \<and> r_max_age (as_request s') = Some 0"
  using huge_max_age_becomes_zero [where q = "sample_request\<lparr>r_max_age := Some 9223372036854775808\<rparr>"
      and w = 9223372036854775808 and lib = toy_crypto and fh = "''h''" and fi = "''i''"
      and t = 1 and now = 5 and l = 600 and hl = 60 and db_now = 7, OF _ _ _ refl]
  by (auto simp: sample_request_def)

lemma find_row_of_session:
  assumes "auth_session_find t i rows = Inr (Some s)"
  shows "\<exists>r. find (\<lambda>r. asr_id_hash r = i \<and> asr_tenant_id r = t) rows = Some r \<and> auth_session_map_row r = Inr s
     \<and> r \<in> set rows \<and> asr_id_hash r = i"
  using assms
  by (auto simp: auth_session_find_def transpose_row_def rbind_Inr_iff split: option.splits dest: find_Some_mem)

lemma map_row_id: "auth_session_map_row r = Inr s \<Longrightarrow> as_id_hash s = asr_id_hash r"
  by (auto simp: map_row_eq rbind_Inr_iff)

lemma find_absent: "i \<notin> asr_id_hash ` set rows \<Longrightarrow> auth_session_find t i rows = Inr None"
  by (auto simp: auth_session_find_def transpose_row_def find_None_iff split: option.splits dest: find_Some_mem)

definition rotated ::
  "string \<Rightarrow> string \<Rightarrow> tenant_id \<Rightarrow> auth_session \<Rightarrow> auth_session_row list \<Rightarrow> auth_session_row list \<Rightarrow> bool" where
  "rotated i j t s' rows rows' \<longleftrightarrow>
     auth_session_find t j rows' = Inr (Some s')
   \<and> (\<forall>t'. auth_session_find t' i rows' = Inr None)
   \<and> (\<forall>t' x. x \<noteq> i \<and> x \<noteq> j \<longrightarrow> auth_session_find t' x rows' = auth_session_find t' x rows)
   \<and> table_inv rows'"

lemma rotate_rows_rotated:
  assumes "table_inv rows" and "auth_session_find t i rows = Inr (Some s)" and "j \<notin> asr_id_hash ` set rows"
    and f: "\<And>r. asr_id_hash (f r) = j" "\<And>r. asr_tenant_id (f r) = asr_tenant_id r"
      "\<And>r. asr_handle_hash (f r) = asr_handle_hash r \<or> asr_handle_hash (f r) = None"
      "\<And>r. row_ok r \<Longrightarrow> row_ok (f r)"
    and abs: "\<And>r. auth_session_map_row r = Inr s \<Longrightarrow> row_ok r \<Longrightarrow> auth_session_map_row (f r) = Inr s'"
  shows "as_id_hash s = i" and "\<not> id_conflict (\<lambda>r. asr_id_hash r = i) j rows"
    and "rotated i j t s' rows (rotate_rows (\<lambda>r. asr_id_hash r = i) f rows)"
proof -
  let ?hit = "\<lambda>r. asr_id_hash r = i"
  obtain r where r: "find (\<lambda>r. asr_id_hash r = i \<and> asr_tenant_id r = t) rows = Some r"
    "auth_session_map_row r = Inr s" "r \<in> set rows" "asr_id_hash r = i"
    using find_row_of_session [OF assms(2)] by blast
  show "as_id_hash s = i" using map_row_id [OF r(2)] r(4) by simp
  show nc: "\<not> id_conflict ?hit j rows" using assms(3) by (force simp: id_conflict_def list_ex_iff)
  have d: "distinct (map asr_id_hash rows)" and ok: "row_ok r" using assms(1) r(3) by (auto simp: table_inv_def)
  have new: "auth_session_find t j (rotate_rows ?hit f rows) = Inr (Some s')"
    using find_rotated [OF d nc r(1), of f] f abs [OF r(2) ok]
    by (simp add: auth_session_find_def transpose_row_def)
  have ne: "i \<noteq> j" using r(3,4) assms(3) by auto
  have "i \<notin> asr_id_hash ` set (rotate_rows ?hit f rows)"
    using ids_rotate(2) [OF d nc _ _ ne, of f] r(3,4) f by auto
  then have old: "\<forall>t'. auth_session_find t' i (rotate_rows ?hit f rows) = Inr None" using find_absent by blast
  have oth: "auth_session_find t' x (rotate_rows ?hit f rows) = auth_session_find t' x rows" if "x \<noteq> i" "x \<noteq> j" for t' x
    using ids_rotate(3) [OF d nc _ _ that, of f "\<lambda>y. y = t'"] f by (simp add: auth_session_find_def)
  have "table_inv (rotate_rows ?hit f rows)" using assms(1) nc f by (intro rotate_table_inv) auto
  then show "rotated i j t s' rows (rotate_rows ?hit f rows)" using new old oth by (simp add: rotated_def)
qed

text \<open>Saving a completed authentication implements the aggregate's transition and rotates the
  identifier in one step: the session is found under the new identifier exactly as the
  aggregate left it, in the same tenant, the identifier used before resolves to nothing in any
  tenant, and all other sessions are untouched.\<close>

theorem save_authentication_rotates:
  assumes "table_inv rows" and "auth_session_find t i rows = Inr (Some s)"
    and "complete_authentication lib fresh s a = (s', c)"
    and "id_hash_of_plain lib fresh \<notin> asr_id_hash ` set rows"
  shows "\<exists>rows'. save_authentication lib c rows = Inr rows' \<and> completed_authentication s' = Some a
     \<and> rotated i (id_hash_of_plain lib fresh) t s' rows rows'"
proof -
  let ?j = "id_hash_of_plain lib fresh"
  note rot = rotate_rows_rotated [OF assms(1,2,4), of "set_authenticated ?j a" s',
      OF _ _ _ _ map_row_authenticated [OF _ _ assms(3)], simplified]
  have "ac_authentication c = a" "ir_issued (ac_rotation c) = fresh" "ir_previous (ac_rotation c) = i"
    "completed_authentication s' = Some a"
    using assms(3) rot(1)
    by (auto simp: complete_authentication_def rotate_id_def Let_def completed_authentication_def)
  then show ?thesis using rot(2,3) by (simp add: save_authentication_eq Let_def)
qed

text \<open>Recording a verified password discards any earlier authentication of the flow and
  rotates the identifier: what is stored and found afterwards is the aggregate's state, which has
  no completed authentication, so no code can be issued for it before the second step.\<close>

theorem save_password_verification_resets:
  assumes "table_inv rows" and "auth_session_find t i rows = Inr (Some s)"
    and "record_password_verification lib fresh s u v = (s', pv)"
    and "id_hash_of_plain lib fresh \<notin> asr_id_hash ` set rows"
  shows "\<exists>rows'. save_password_verification lib pv rows = Inr rows' \<and> completed_authentication s' = None
     \<and> password_verified_user s' = Some u \<and> rotated i (id_hash_of_plain lib fresh) t s' rows rows'"
proof -
  let ?j = "id_hash_of_plain lib fresh"
  note rot = rotate_rows_rotated [OF assms(1,2,4), of "set_password_verified ?j u v" s',
      OF _ _ _ _ map_row_password_verified [OF _ assms(3)], simplified]
  have "pv_user_id pv = u" "pv_verified_at pv = v" "ir_issued (pv_rotation pv) = fresh" "ir_previous (pv_rotation pv) = i"
    "completed_authentication s' = None" "password_verified_user s' = Some u"
    using assms(3) rot(1)
    by (auto simp: record_password_verification_def rotate_id_def Let_def completed_authentication_def password_verified_user_def)
  then show ?thesis using rot(2,3) by (simp add: save_password_verification_eq Let_def)
qed

definition sample_session :: auth_session where
  "sample_session = fst (auth_session_start toy_crypto ''h'' ''i'' 1 sample_request 5 600 60)"

definition sample_rows :: "auth_session_row list" where
  "sample_rows = [auth_session_row_of 5 sample_session]"

definition sample_authentication :: authentication where
  "sample_authentication = \<lparr>au_user_id = 9, au_auth_time = 6, au_sso_sid = Some ''sid'', au_methods = Some [Password, Totp]\<rparr>"

lemmas sample_hash_simps = id_hash_of_plain_def handoff_hash_def sha256_hex_def toy_crypto_def

lemma sample_rows_facts:
  "table_inv sample_rows" "auth_session_find 1 ''i'' sample_rows = Inr (Some sample_session)"
  "id_hash_of_plain toy_crypto ''j'' \<notin> asr_id_hash ` set sample_rows"
proof -
  have [simp]: "as_progress sample_session = Anonymous" "as_request sample_session = sample_request"
    "as_id_hash sample_session = ''i''" "as_tenant_id sample_session = 1"
    "as_created_at sample_session = 5" "as_updated_at sample_session = 5"
    by (simp_all add: sample_session_def auth_session_start_def sample_hash_simps)
  have [simp]: "asr_id_hash (auth_session_row_of 5 sample_session) = ''i''" "asr_tenant_id (auth_session_row_of 5 sample_session) = 1"
    by (simp_all add: auth_session_row_of_def Let_def)
  show "table_inv sample_rows"
    by (simp add: table_inv_def sample_rows_def row_ok_row_of split: option.splits)
  have "stored_request sample_request = sample_request" by (simp add: stored_request_def sample_request_def)
  then have "auth_session_map_row (auth_session_row_of 5 sample_session) = Inr sample_session"
    using map_row_row_of_anonymous [of sample_session 5]
    by (cases sample_session) (simp add: sample_request_def)
  then show "auth_session_find 1 ''i'' sample_rows = Inr (Some sample_session)"
    by (simp add: auth_session_find_def sample_rows_def transpose_row_def)
  show "id_hash_of_plain toy_crypto ''j'' \<notin> asr_id_hash ` set sample_rows"
    by (simp add: sample_rows_def sample_hash_simps)
qed

theorem save_authentication_rotates_witness:
  "\<exists>c rows'. save_authentication toy_crypto c sample_rows = Inr rows' \<and> auth_session_find 1 ''i'' rows' = Inr None"
  using save_authentication_rotates [OF sample_rows_facts(1,2) _ sample_rows_facts(3), of sample_authentication]
  by (metis prod.collapse rotated_def)

theorem save_password_verification_resets_witness:
  "\<exists>pv rows'. save_password_verification toy_crypto pv sample_rows = Inr rows' \<and> auth_session_find 1 ''i'' rows' = Inr None"
  using save_password_verification_resets [OF sample_rows_facts(1,2) _ sample_rows_facts(3), of 9 6]
  by (metis prod.collapse rotated_def)

text \<open>(C31) A handoff handle is exchanged at most once: along every interleaving of concurrent
  exchanges with the other writers of the table (which never re-issue that handle), at most
  one exchange of the handle reports success, and after it the handle resolves to no session.\<close>

theorem handoff_single_use:
  assumes "usage_trace (exchange_statement lib) (handoff_other lib h) rows es rows'" and "table_inv rows"
  shows "successes he_consumed h es \<le> 1
     \<and> (successes he_consumed h es = 1 \<longrightarrow> (\<forall>t. auth_session_find_by_handoff t h rows' = Inr None))"
proof -
  note o = handoff.at_most_once [OF assms]
  have "auth_session_find_by_handoff t h rows' = Inr None" if "\<not> handle_live h rows'" for t
    using that by (auto simp: auth_session_find_by_handoff_def transpose_row_def handle_live_def handles_mem
        split: option.splits dest: find_Some_mem)
  with o show ?thesis by blast
qed

definition sample_exchange :: handoff_exchange where
  "sample_exchange = \<lparr>he_consumed = ''h'', he_rotation = \<lparr>ir_previous = ''i'', ir_issued = ''j''\<rparr>\<rparr>"

theorem handoff_single_use_witness:
  "\<exists>rows1 rows2. exchange_statement toy_crypto sample_exchange sample_rows = (True, rows1)
     \<and> exchange_statement toy_crypto sample_exchange rows1 = (False, rows2)
     \<and> (\<forall>t. auth_session_find_by_handoff t ''h'' rows2 = Inr None)"
proof -
  obtain b1 rows1 where e1: "exchange_statement toy_crypto sample_exchange sample_rows = (b1, rows1)" by fastforce
  obtain b2 rows2 where e2: "exchange_statement toy_crypto sample_exchange rows1 = (b2, rows2)" by fastforce
  have t: "usage_trace (exchange_statement toy_crypto) (handoff_other toy_crypto ''h'') sample_rows
      (([] @ [(sample_exchange, b1)]) @ [(sample_exchange, b2)]) rows2"
    by (rule trace_consume [where s' = rows1]) (rule trace_consume [where s' = sample_rows], rule trace_nil, rule e1, rule e2)
  have b1: "b1" using e1
    by (simp add: exchange_statement_def save_handoff_exchange_def sample_exchange_def sample_rows_def
        sample_session_def auth_session_row_of_def auth_session_start_def sample_hash_simps id_conflict_def Let_def)
  have "he_consumed sample_exchange = ''h''" by (simp add: sample_exchange_def)
  then show ?thesis
    using handoff_single_use [OF t sample_rows_facts(1)] b1 e1 e2 by (cases b2) (auto simp: successes_def)
qed

text \<open>(C32) In every table reachable by any interleaving of the writers, session identifiers and
  pending handles are unique, and every session shows its own history, followed through each rotation of its identifier: the
  tenant, client, redirect URI, scopes, nonce and PKCE challenge of the request it was started with, and the progress that the
  password verifications and completions recorded for this session have brought it to, with exactly their facts (user, time,
  sid, methods).\<close>

theorem flow_reach_justified:
  assumes "flow_reach lib es rows" and "r \<in> set rows"
  shows "table_inv rows \<and> row_justified lib es r"
  using flow_reach_inv [OF assms(1)] assms(2) by blast

theorem flow_reach_justified_witness:
  "table_inv sample_rows \<and> row_justified toy_crypto [Started 1 sample_request ''i''] (hd sample_rows)"
proof -
  have "auth_session_create 5 (fst (auth_session_start toy_crypto ''h'' ''i'' 1 sample_request 5 600 60)) [] = Inr sample_rows"
    by (simp add: auth_session_create_def auth_session_insert_def sample_rows_def sample_session_def)
  from flow_start [OF flow_init this] show ?thesis
    using flow_reach_justified by (fastforce simp: sample_rows_def)
qed

end
