(* ===== verification/Authorization_Code.thy ===== *)
theory Authorization_Code
  imports Auth_Session Single_Use
begin

text \<open>
  The authorization code (\<open>domain/authorization_code.rs\<close>) and its table
  (\<open>infrastructure/repositories/authorization_code.rs\<close>).  A row is the typed entity; \<open>db_now\<close> is the
  database clock behind \<open>created_at\<close> and \<open>updated_at\<close>.
\<close>

record code_grant =
  g_client_id :: string
  g_redirect_uri :: string
  g_scope :: "string list"
  g_nonce :: string
  g_pkce :: pkce_challenge

definition code_grant_of :: "authorization_request \<Rightarrow> code_grant" where
  "code_grant_of q = \<lparr>g_client_id = r_client_id q, g_redirect_uri = r_redirect_uri q, g_scope = r_scope q,
     g_nonce = r_nonce q, g_pkce = r_pkce q\<rparr>"

definition grant_includes :: "code_grant \<Rightarrow> scope \<Rightarrow> bool" where
  "grant_includes g sc \<longleftrightarrow> list_ex (\<lambda>s. s = enum_as_str scope_table sc) (g_scope g)"

definition grant_scope_string :: "code_grant \<Rightarrow> string" where
  "grant_scope_string g = join '' '' (g_scope g)"

datatype code_redemption_rejection = IssuedToAnotherClient | RedirectUriMismatch | PkceMismatch

record authorization_code =
  co_hash :: string
  co_tenant_id :: tenant_id
  co_grant :: code_grant
  co_authentication :: authentication
  co_expires_at :: instant
  co_used_at :: "instant option"
  co_created_at :: instant
  co_updated_at :: instant

definition code_hash :: "crypto_lib \<Rightarrow> string \<Rightarrow> string" where
  "code_hash lib v = sha256_hex lib v"

definition code_issue ::
  "crypto_lib \<Rightarrow> string \<Rightarrow> tenant_id \<Rightarrow> authorization_request \<Rightarrow> authentication \<Rightarrow> instant \<Rightarrow> duration
   \<Rightarrow> authorization_code \<times> string" where
  "code_issue lib fresh t request a now lifetime =
     (\<lparr>co_hash = code_hash lib fresh, co_tenant_id = t, co_grant = code_grant_of request, co_authentication = a,
       co_expires_at = now + lifetime, co_used_at = None, co_created_at = now, co_updated_at = now\<rparr>, fresh)"

definition code_is_used :: "authorization_code \<Rightarrow> bool" where
  "code_is_used c \<longleftrightarrow> co_used_at c \<noteq> None"

definition code_is_expired_at :: "authorization_code \<Rightarrow> instant \<Rightarrow> bool" where
  "code_is_expired_at c now \<longleftrightarrow> co_expires_at c \<le> now"

definition redeem ::
  "crypto_lib \<Rightarrow> authorization_code \<Rightarrow> string \<Rightarrow> string option \<Rightarrow> string \<Rightarrow> code_redemption_rejection + unit" where
  "redeem lib c client_id redirect_uri verifier =
     (if g_client_id (co_grant c) \<noteq> client_id then Inl IssuedToAnotherClient
      else if redirect_uri \<noteq> Some (g_redirect_uri (co_grant c)) then Inl RedirectUriMismatch
      else if \<not> verify_s256 lib verifier (pk_challenge (g_pkce (co_grant c))) then Inl PkceMismatch
      else Inr ())"

section \<open>The table\<close>

definition code_create :: "instant \<Rightarrow> authorization_code \<Rightarrow> authorization_code list \<Rightarrow> domain_error + authorization_code list" where
  "code_create db_now c rows =
     (if list_ex (\<lambda>r. co_hash r = co_hash c) rows then Inl (Repository ''duplicate entry'')
      else Inr (rows @ [c\<lparr>co_created_at := db_now, co_updated_at := db_now\<rparr>]))"

definition code_consumable :: "tenant_id \<Rightarrow> string \<Rightarrow> instant \<Rightarrow> authorization_code \<Rightarrow> bool" where
  "code_consumable t h now r \<longleftrightarrow> co_hash r = h \<and> co_tenant_id r = t \<and> co_used_at r = None \<and> co_expires_at r > now"

definition code_consume ::
  "tenant_id \<Rightarrow> string \<Rightarrow> instant \<Rightarrow> authorization_code list \<Rightarrow> authorization_code option \<times> authorization_code list" where
  "code_consume t h used_at rows =
     (let rows' = map (\<lambda>r. if code_consumable t h used_at r then r\<lparr>co_used_at := Some used_at\<rparr> else r) rows
      in if length (filter (code_consumable t h used_at) rows) = 0 then (None, rows')
         else (find (\<lambda>r. co_hash r = h) rows', rows'))"

definition code_find_used :: "tenant_id \<Rightarrow> string \<Rightarrow> authorization_code list \<Rightarrow> authorization_code option" where
  "code_find_used t h rows = find (\<lambda>r. co_hash r = h \<and> co_tenant_id r = t \<and> co_used_at r \<noteq> None) rows"

definition code_revoke_all_active_for_user :: "uuid \<Rightarrow> instant \<Rightarrow> authorization_code list \<Rightarrow> authorization_code list" where
  "code_revoke_all_active_for_user u now rows =
     map (\<lambda>r. if au_user_id (co_authentication r) = u \<and> co_used_at r = None \<and> co_expires_at r > now
              then r\<lparr>co_used_at := Some now\<rparr> else r) rows"

definition code_purge_expired :: "instant \<Rightarrow> authorization_code list \<Rightarrow> authorization_code list" where
  "code_purge_expired now rows = filter (\<lambda>r. \<not> co_expires_at r \<le> now) rows"

section \<open>Lemmas\<close>

definition codes_inv :: "authorization_code list \<Rightarrow> bool" where
  "codes_inv rows \<longleftrightarrow> distinct (map co_hash rows)"

lemma redeem_ok_iff:
  "redeem lib c client_id uri v = Inr () \<longleftrightarrow>
     g_client_id (co_grant c) = client_id \<and> uri = Some (g_redirect_uri (co_grant c))
     \<and> s256_challenge lib v = pk_challenge (g_pkce (co_grant c))"
  by (auto simp: redeem_def verify_s256_def)

lemma code_consume_Some:
  assumes "code_consume t h now rows = (Some c, rows')" and "codes_inv rows"
  shows "co_hash c = h \<and> co_tenant_id c = t \<and> co_used_at c = Some now \<and> now < co_expires_at c
     \<and> c \<in> set rows' \<and> (\<exists>r \<in> set rows. code_consumable t h now r \<and> c = r\<lparr>co_used_at := Some now\<rparr>)"
proof -
  let ?f = "\<lambda>r. if code_consumable t h now r then r\<lparr>co_used_at := Some now\<rparr> else r"
  from assms(1) have n: "length (filter (code_consumable t h now) rows) \<noteq> 0"
    and f: "find (\<lambda>r. co_hash r = h) (map ?f rows) = Some c" and e: "rows' = map ?f rows"
    by (auto simp: code_consume_def Let_def split: if_splits)
  from n obtain r where r: "r \<in> set rows" "code_consumable t h now r" by (auto simp: filter_empty_conv)
  have "map co_hash (map ?f rows) = map co_hash rows" by simp
  then have "distinct (map co_hash (map ?f rows))" using assms(2) by (simp only: codes_inv_def)
  moreover have "?f r \<in> set (map ?f rows)" unfolding set_map by (rule imageI) (rule r(1))
  moreover have "co_hash (?f r) = h" using r(2) by (simp add: code_consumable_def)
  ultimately have "find (\<lambda>r. co_hash r = h) (map ?f rows) = Some (?f r)" by (rule find_distinct_key)
  with f r e show ?thesis
    by (auto simp: code_consumable_def intro: image_eqI [of _ ?f r])
qed

lemma code_consume_None_dead:
  "code_consume t h now rows = (None, rows') \<Longrightarrow> \<not> (\<exists>r \<in> set rows. code_consumable t h now r)"
  by (auto simp: code_consume_def Let_def filter_empty_conv find_None_iff code_consumable_def split: if_splits)

lemma code_consume_used:
  "code_consume t h now rows = (res, rows') \<Longrightarrow> r \<in> set rows' \<Longrightarrow> co_used_at r = None \<Longrightarrow> r \<in> set rows"
  by (auto simp: code_consume_def Let_def split: if_splits)

lemma code_consume_hashes: "code_consume t h now rows = (res, rows') \<Longrightarrow> map co_hash rows' = map co_hash rows"
  by (auto simp: code_consume_def Let_def split: if_splits)

section \<open>A code is consumed at most once\<close>

record consume_request =
  cq_tenant :: tenant_id
  cq_hash :: string
  cq_now :: instant

definition consume_statement :: "consume_request \<Rightarrow> authorization_code list \<Rightarrow> bool \<times> authorization_code list" where
  "consume_statement x rows =
     (case code_consume (cq_tenant x) (cq_hash x) (cq_now x) rows of (res, rows') \<Rightarrow> (res \<noteq> None, rows'))"

definition code_live :: "string \<Rightarrow> authorization_code list \<Rightarrow> bool" where
  "code_live h rows \<longleftrightarrow> (\<exists>r \<in> set rows. co_hash r = h \<and> co_used_at r = None)"

inductive code_other :: "string \<Rightarrow> authorization_code list \<Rightarrow> authorization_code list \<Rightarrow> bool" for h :: string where
  code_other_create: "co_hash c \<noteq> h \<Longrightarrow> code_create db_now c rows = Inr rows' \<Longrightarrow> code_other h rows rows'"
| code_other_revoke: "code_other h rows (code_revoke_all_active_for_user u now rows)"
| code_other_purge: "code_other h rows (code_purge_expired now rows)"

lemma code_other_step:
  "code_other h rows rows' \<Longrightarrow> codes_inv rows \<Longrightarrow> codes_inv rows' \<and> (\<not> code_live h rows \<longrightarrow> \<not> code_live h rows')"
proof (induction rule: code_other.induct)
  case (code_other_create c db_now rows rows')
  then show ?case
    by (force simp: code_create_def codes_inv_def code_live_def list_ex_iff split: if_splits)
next
  case (code_other_revoke rows u now)
  have "map co_hash (code_revoke_all_active_for_user u now rows) = map co_hash rows"
    by (simp add: code_revoke_all_active_for_user_def)
  moreover have "\<not> code_live h rows \<longrightarrow> \<not> code_live h (code_revoke_all_active_for_user u now rows)"
    by (auto simp: code_live_def code_revoke_all_active_for_user_def split: if_splits)
  ultimately show ?case using code_other_revoke by (simp add: codes_inv_def)
next
  case (code_other_purge rows now)
  then show ?case by (auto simp: codes_inv_def code_live_def code_purge_expired_def distinct_map_filter)
qed

lemma consume_statement_won:
  assumes "codes_inv rows" "consume_statement x rows = (True, rows')"
  shows "code_live (cq_hash x) rows \<and> \<not> code_live (cq_hash x) rows'"
proof -
  from assms(2) obtain c where c: "code_consume (cq_tenant x) (cq_hash x) (cq_now x) rows = (Some c, rows')"
    by (auto simp: consume_statement_def split: prod.splits)
  note s = code_consume_Some [OF c assms(1)]
  have d: "distinct (map co_hash rows')" using assms(1) code_consume_hashes [OF c] by (simp add: codes_inv_def)
  have "co_used_at r \<noteq> None" if "r \<in> set rows'" "co_hash r = cq_hash x" for r
  proof -
    have "r = c" using d that s by (metis distinct_map inj_onD)
    then show ?thesis using s by simp
  qed
  then show ?thesis using s by (auto simp: code_live_def code_consumable_def)
qed

interpretation code: single_use_store codes_inv code_live cq_hash consume_statement code_other
proof unfold_locales
  fix s s' :: "authorization_code list" and x b k
  show "codes_inv s \<Longrightarrow> consume_statement x s = (b, s') \<Longrightarrow> codes_inv s'"
    by (auto simp: consume_statement_def codes_inv_def dest: code_consume_hashes split: prod.splits)
  show "codes_inv s \<Longrightarrow> consume_statement x s = (True, s') \<Longrightarrow> code_live (cq_hash x) s \<and> \<not> code_live (cq_hash x) s'"
    by (rule consume_statement_won)
  show "codes_inv s \<Longrightarrow> consume_statement x s = (b, s') \<Longrightarrow> \<not> code_live k s \<Longrightarrow> \<not> code_live k s'"
    by (auto simp: consume_statement_def code_live_def dest: code_consume_used split: prod.splits)
  show "codes_inv s \<Longrightarrow> code_other k s s' \<Longrightarrow> codes_inv s'" using code_other_step by blast
  show "codes_inv s \<Longrightarrow> code_other k s s' \<Longrightarrow> \<not> code_live k s \<Longrightarrow> \<not> code_live k s'" using code_other_step by blast
qed

text \<open>An authorization code is redeemed at most once: along every interleaving of concurrent
  \<open>consume\<close> statements, revocations of a user's codes, purges and issuance of other codes, at most
  one \<open>consume\<close> of a code returns it, and only while the code is unused.\<close>

theorem code_single_use:
  assumes "usage_trace consume_statement (code_other h) rows es rows'" and "codes_inv rows"
  shows "successes cq_hash h es \<le> 1 \<and> (successes cq_hash h es = 1 \<longrightarrow> code_live h rows \<and> \<not> code_live h rows')"
  by (rule code.at_most_once [OF assms])

definition sample_code :: authorization_code where
  "sample_code = fst (code_issue toy_crypto ''c'' 1 sample_request
     \<lparr>au_user_id = 9, au_auth_time = 6, au_sso_sid = None, au_methods = Some [Password]\<rparr> 100 60)"

theorem code_single_use_witness:
  "fst (consume_statement \<lparr>cq_tenant = 1, cq_hash = ''c'', cq_now = 120\<rparr> [sample_code])
   \<and> (\<exists>rows'. snd (consume_statement \<lparr>cq_tenant = 1, cq_hash = ''c'', cq_now = 120\<rparr> [sample_code]) = rows' \<and> \<not> code_live ''c'' rows')"
proof -
  let ?x = "\<lparr>cq_tenant = 1, cq_hash = ''c'', cq_now = 120\<rparr>"
  obtain b rows' where e: "consume_statement ?x [sample_code] = (b, rows')" by fastforce
  then have b: b
    by (simp add: consume_statement_def code_consume_def code_consumable_def sample_code_def code_issue_def
        code_hash_def sha256_hex_def toy_crypto_def Let_def split: if_splits)
  have "usage_trace consume_statement (code_other ''c'') [sample_code] ([] @ [(?x, b)]) rows'"
    by (rule trace_consume [where s' = "[sample_code]"], rule trace_nil, rule e)
  moreover have "codes_inv [sample_code]" by (simp add: codes_inv_def)
  ultimately show ?thesis
    using code_single_use [of "''c''" "[sample_code]" "[] @ [(?x, b)]" rows'] b e by (simp add: successes_def)
qed

end
