(* ===== verification/Refresh_Token.thy ===== *)
theory Refresh_Token
  imports Entities Single_Use
begin

text \<open>
  Refresh tokens (\<open>domain/refresh_token.rs\<close>) and their table
  (\<open>infrastructure/repositories/refresh_token.rs\<close>).  All tokens that descend from one grant share the
  family hash; \<open>revoke_family\<close> is the reaction to reuse, the conditional \<open>revoke\<close> decides
  concurrent rotations.
\<close>

record refresh_token =
  rt_token_hash :: string
  rt_parent_hash :: "string option"
  rt_grant_hash :: "string option"
  rt_tenant_id :: tenant_id
  rt_user_id :: uuid
  rt_client_id :: string
  rt_scope :: "string list"
  rt_sid :: "string option"
  rt_authentication_methods :: "authentication_method list option"
  rt_auth_time :: "instant option"
  rt_dpop_jkt :: "string option"
  rt_expires_at :: instant
  rt_revoked_at :: "instant option"
  rt_created_at :: instant

definition rt_is_revoked :: "refresh_token \<Rightarrow> bool" where
  "rt_is_revoked t \<longleftrightarrow> rt_revoked_at t \<noteq> None"

definition rt_is_expired_at :: "refresh_token \<Rightarrow> instant \<Rightarrow> bool" where
  "rt_is_expired_at t now \<longleftrightarrow> rt_expires_at t \<le> now"

definition rt_is_valid_at :: "refresh_token \<Rightarrow> instant \<Rightarrow> bool" where
  "rt_is_valid_at t now \<longleftrightarrow> \<not> rt_is_revoked t \<and> \<not> rt_is_expired_at t now"

definition auth_time_or_issued :: "refresh_token \<Rightarrow> instant" where
  "auth_time_or_issued t = (case rt_auth_time t of Some x \<Rightarrow> x | None \<Rightarrow> rt_created_at t)"

definition family_hash :: "refresh_token \<Rightarrow> string" where
  "family_hash t = (case rt_grant_hash t of Some g \<Rightarrow> g | None \<Rightarrow> rt_token_hash t)"

section \<open>The table\<close>

text \<open>\<open>created_at\<close> is not part of the INSERT: the database clock \<open>db_now\<close> fills it.\<close>

definition rt_create :: "instant \<Rightarrow> refresh_token \<Rightarrow> refresh_token list \<Rightarrow> domain_error + refresh_token list" where
  "rt_create db_now t rows =
     (if list_ex (\<lambda>r. rt_token_hash r = rt_token_hash t) rows then Inl (Repository ''duplicate entry'')
      else Inr (rows @ [t\<lparr>rt_created_at := db_now\<rparr>]))"

definition rt_find_by_hash :: "tenant_id \<Rightarrow> string \<Rightarrow> refresh_token list \<Rightarrow> refresh_token option" where
  "rt_find_by_hash t h rows = find (\<lambda>r. rt_token_hash r = h \<and> rt_tenant_id r = t) rows"

text \<open>The common shape of the revocations: set \<open>revoked_at\<close> where \<open>hit\<close> holds and count the rows.\<close>

definition rt_update_revoked ::
  "(refresh_token \<Rightarrow> bool) \<Rightarrow> instant \<Rightarrow> refresh_token list \<Rightarrow> nat \<times> refresh_token list" where
  "rt_update_revoked hit at rows =
     (length (filter hit rows), map (\<lambda>r. if hit r then r\<lparr>rt_revoked_at := Some at\<rparr> else r) rows)"

definition rt_revoke :: "string \<Rightarrow> instant \<Rightarrow> refresh_token list \<Rightarrow> nat \<times> refresh_token list" where
  "rt_revoke h at rows = rt_update_revoked (\<lambda>r. rt_token_hash r = h \<and> rt_revoked_at r = None) at rows"

definition rt_revoke_family :: "tenant_id \<Rightarrow> string \<Rightarrow> instant \<Rightarrow> refresh_token list \<Rightarrow> nat \<times> refresh_token list" where
  "rt_revoke_family t f at rows =
     rt_update_revoked (\<lambda>r. rt_tenant_id r = t \<and> (rt_grant_hash r = Some f \<or> rt_token_hash r = f) \<and> rt_revoked_at r = None) at rows"

definition rt_exists_by_parent_hash :: "string \<Rightarrow> refresh_token list \<Rightarrow> bool" where
  "rt_exists_by_parent_hash p rows \<longleftrightarrow> length (filter (\<lambda>r. rt_parent_hash r = Some p) rows) > 0"

definition rt_revoke_all_for_session :: "uuid \<Rightarrow> string \<Rightarrow> instant \<Rightarrow> refresh_token list \<Rightarrow> nat \<times> refresh_token list" where
  "rt_revoke_all_for_session u sid at rows =
     rt_update_revoked (\<lambda>r. rt_user_id r = u \<and> rt_sid r = Some sid \<and> rt_revoked_at r = None) at rows"

definition rt_revoke_all_for_user_in_tenant :: "tenant_id \<Rightarrow> uuid \<Rightarrow> instant \<Rightarrow> refresh_token list \<Rightarrow> refresh_token list" where
  "rt_revoke_all_for_user_in_tenant t u at rows =
     snd (rt_update_revoked (\<lambda>r. rt_tenant_id r = t \<and> rt_user_id r = u \<and> rt_revoked_at r = None) at rows)"

text \<open>\<open>ci\<close> is the collation key of the database's text columns (\<open>utf8mb4_unicode_ci\<close>): two
  strings are equal in SQL when their keys are.\<close>

definition rt_revoke_all_for_user_and_client ::
  "(string \<Rightarrow> string) \<Rightarrow> tenant_id \<Rightarrow> uuid \<Rightarrow> string \<Rightarrow> instant \<Rightarrow> refresh_token list \<Rightarrow> refresh_token list" where
  "rt_revoke_all_for_user_and_client ci t u c at rows =
     snd (rt_update_revoked (\<lambda>r. rt_tenant_id r = t \<and> rt_user_id r = u \<and> ci (rt_client_id r) = ci c \<and> rt_revoked_at r = None) at rows)"

definition active_for_user :: "uuid \<Rightarrow> instant \<Rightarrow> refresh_token \<Rightarrow> bool" where
  "active_for_user u now r \<longleftrightarrow> rt_user_id r = u \<and> rt_revoked_at r = None \<and> rt_expires_at r > now"

definition rt_revoke_all_for_user :: "uuid \<Rightarrow> instant \<Rightarrow> refresh_token list \<Rightarrow> nat \<times> refresh_token list" where
  "rt_revoke_all_for_user u at rows = rt_update_revoked (active_for_user u at) at rows"

definition rt_count_active_for_user :: "uuid \<Rightarrow> instant \<Rightarrow> refresh_token list \<Rightarrow> nat" where
  "rt_count_active_for_user u now rows = length (filter (active_for_user u now) rows)"

definition rt_purge_expired :: "instant \<Rightarrow> refresh_token list \<Rightarrow> refresh_token list" where
  "rt_purge_expired now rows = filter (\<lambda>r. \<not> rt_expires_at r \<le> now) rows"

section \<open>Lemmas\<close>

definition rt_inv :: "refresh_token list \<Rightarrow> bool" where
  "rt_inv rows \<longleftrightarrow> distinct (map rt_token_hash rows)"

definition rt_live :: "string \<Rightarrow> refresh_token list \<Rightarrow> bool" where
  "rt_live h rows \<longleftrightarrow> (\<exists>r \<in> set rows. rt_token_hash r = h \<and> rt_revoked_at r = None)"

text \<open>The tokens of a family that are not revoked.\<close>

definition live_family :: "string \<Rightarrow> refresh_token list \<Rightarrow> refresh_token list" where
  "live_family f rows = filter (\<lambda>r. family_hash r = f \<and> rt_revoked_at r = None) rows"

lemma update_revoked_hashes [simp]: "map rt_token_hash (snd (rt_update_revoked hit at rows)) = map rt_token_hash rows"
  by (simp add: rt_update_revoked_def)

lemma update_revoked_family [simp]: "family_hash (r\<lparr>rt_revoked_at := x\<rparr>) = family_hash r"
  by (cases "rt_grant_hash r") (simp_all add: family_hash_def)

lemma update_revoked_inv [simp]: "rt_inv (snd (rt_update_revoked hit at rows)) \<longleftrightarrow> rt_inv rows"
  by (simp only: rt_inv_def update_revoked_hashes)

lemma update_revoked_member:
  "r' \<in> set (snd (rt_update_revoked hit at rows)) \<Longrightarrow> rt_revoked_at r' = None \<Longrightarrow> r' \<in> set rows \<and> \<not> hit r'"
  by (auto simp: rt_update_revoked_def split: if_splits)

lemma live_family_update_revoked:
  "live_family f (snd (rt_update_revoked hit at rows)) = filter (\<lambda>r. \<not> hit r) (live_family f rows)"
  by (induction rows) (auto simp: live_family_def rt_update_revoked_def)

lemma live_family_revoke_family:
  assumes "\<forall>r \<in> set rows. family_hash r = f \<longrightarrow> rt_tenant_id r = t"
  shows "live_family f (snd (rt_revoke_family t f at rows)) = []"
  using assms unfolding rt_revoke_family_def live_family_update_revoked
  by (auto simp: live_family_def filter_empty_conv family_hash_def split: option.splits)

lemma family_hash_legacy: "rt_grant_hash r = None \<Longrightarrow> family_hash r = rt_token_hash r"
  by (simp add: family_hash_def)

lemma revoke_exact:
  assumes "rt_inv rows" and "rt_revoke h at rows = (n, rows')"
  shows "n = (if rt_live h rows then 1 else 0)" and "\<not> rt_live h rows'"
    and "k \<noteq> h \<Longrightarrow> rt_live k rows' = rt_live k rows" and "rt_inv rows'"
proof -
  let ?hit = "\<lambda>r. rt_token_hash r = h \<and> rt_revoked_at r = None"
  from assms(2) have n: "n = length (filter ?hit rows)" and r: "rows' = snd (rt_update_revoked ?hit at rows)"
    by (auto simp: rt_revoke_def rt_update_revoked_def)
  have "distinct (map rt_token_hash rows) \<Longrightarrow> length (filter ?hit rows) = (if rt_live h rows then 1 else 0)"
  proof (induction rows)
    case (Cons x xs)
    have "rt_live h (x # xs) \<longleftrightarrow> ?hit x \<or> rt_live h xs" by (auto simp: rt_live_def)
    moreover have "\<not> rt_live h xs" if "?hit x" using Cons.prems that by (auto simp: rt_live_def image_iff)
    ultimately show ?case using Cons by auto
  qed (simp add: rt_live_def)
  with assms(1) n show "n = (if rt_live h rows then 1 else 0)" by (simp add: rt_inv_def)
  show "\<not> rt_live h rows'" using r by (auto simp: rt_live_def dest: update_revoked_member)
  show "rt_live k rows' = rt_live k rows" if "k \<noteq> h"
    using r that by (auto simp: rt_live_def rt_update_revoked_def split: if_splits)
  show "rt_inv rows'" using r assms(1) by simp
qed

lemma rt_create_inv: "rt_inv rows \<Longrightarrow> rt_create db_now t rows = Inr rows' \<Longrightarrow> rt_inv rows' \<and> rows' = rows @ [t\<lparr>rt_created_at := db_now\<rparr>]"
  by (force simp: rt_create_def rt_inv_def list_ex_iff split: if_splits)

section \<open>One rotation per token\<close>

definition revoke_statement :: "string \<times> instant \<Rightarrow> refresh_token list \<Rightarrow> bool \<times> refresh_token list" where
  "revoke_statement x rows = (case rt_revoke (fst x) (snd x) rows of (n, rows') \<Rightarrow> (n \<ge> 1, rows'))"

inductive rt_other :: "string \<Rightarrow> refresh_token list \<Rightarrow> refresh_token list \<Rightarrow> bool" for h :: string where
  rt_other_create: "rt_token_hash t \<noteq> h \<Longrightarrow> rt_create db_now t rows = Inr rows' \<Longrightarrow> rt_other h rows rows'"
| rt_other_revoke: "rt_other h rows (snd (rt_update_revoked hit at rows))"
| rt_other_purge: "rt_other h rows (rt_purge_expired now rows)"

lemma rt_other_step:
  "rt_other h rows rows' \<Longrightarrow> rt_inv rows \<Longrightarrow> rt_inv rows' \<and> (\<not> rt_live h rows \<longrightarrow> \<not> rt_live h rows')"
proof (induction rule: rt_other.induct)
  case (rt_other_create t db_now rows rows')
  then have "rows' = rows @ [t\<lparr>rt_created_at := db_now\<rparr>]" "rt_inv rows'" using rt_create_inv by blast+
  then show ?case using rt_other_create.hyps(1) by (auto simp: rt_live_def)
next
  case (rt_other_revoke rows hit at)
  have "\<not> rt_live h rows \<Longrightarrow> \<not> rt_live h (snd (rt_update_revoked hit at rows))"
    by (auto simp: rt_live_def dest: update_revoked_member)
  then show ?case using rt_other_revoke by simp
next
  case (rt_other_purge rows now)
  then show ?case by (auto simp: rt_inv_def rt_live_def rt_purge_expired_def distinct_map_filter)
qed

interpretation rotation: single_use_store rt_inv rt_live fst revoke_statement rt_other
proof unfold_locales
  fix s s' :: "refresh_token list" and x :: "string \<times> instant" and b k
  assume inv: "rt_inv s"
  { fix b assume "revoke_statement x s = (b, s')"
    then obtain n where n: "rt_revoke (fst x) (snd x) s = (n, s')" "b \<longleftrightarrow> n \<ge> 1"
      by (auto simp: revoke_statement_def split: prod.splits)
    note e = revoke_exact [OF inv n(1)]
    have "rt_inv s' \<and> (b \<longrightarrow> rt_live (fst x) s \<and> \<not> rt_live (fst x) s') \<and> (\<not> rt_live k s \<longrightarrow> \<not> rt_live k s')"
      using e n(2) e(3) [of k] by (cases "k = fst x") (auto split: if_splits) }
  note st = this
  show "revoke_statement x s = (b, s') \<Longrightarrow> rt_inv s'" using st by blast
  show "revoke_statement x s = (True, s') \<Longrightarrow> rt_live (fst x) s \<and> \<not> rt_live (fst x) s'" using st [of True] by simp
  show "revoke_statement x s = (b, s') \<Longrightarrow> \<not> rt_live k s \<Longrightarrow> \<not> rt_live k s'" using st by blast
  show "rt_other k s s' \<Longrightarrow> rt_inv s'" using rt_other_step inv by blast
  show "rt_other k s s' \<Longrightarrow> \<not> rt_live k s \<Longrightarrow> \<not> rt_live k s'" using rt_other_step inv by blast
qed

text \<open>What the administrator is shown is what gets revoked (\<open>ACTIVE_FOR_USER\<close> in one place).\<close>

lemma revoke_all_for_user_count:
  "fst (rt_revoke_all_for_user u now rows) = rt_count_active_for_user u now rows
   \<and> rt_count_active_for_user u now (snd (rt_revoke_all_for_user u now rows)) = 0"
  by (auto simp: rt_revoke_all_for_user_def rt_count_active_for_user_def rt_update_revoked_def filter_empty_conv
      active_for_user_def split: if_splits)

end
