(* ===== verification/Proof_Tokens.thy ===== *)
theory Proof_Tokens
  imports Entities Single_Use
begin

text \<open>
  Client assertions (\<open>domain/client_assertion.rs\<close>), DPoP proofs (\<open>domain/dpop.rs\<close>) and the tables that
  stop their replay (\<open>infrastructure/repositories/client_assertion.rs\<close>, \<open>dpop_proof.rs\<close>) with the
  purge of \<open>expired_records.rs\<close>.

  The JWT, base64, JSON and URL libraries and the range of \<open>chrono\<close> timestamps are the fields of
  \<open>jwt_lib\<close>.  \<open>jl_decode_assertion\<close> and \<open>jl_decode_proof\<close> stand for \<open>jsonwebtoken::decode\<close> with
  the validation the code configures (signature only).
\<close>

section \<open>Library interface\<close>

datatype audience = AudOne string | AudMany "string list"

record assertion_claims =
  cl_iss :: string
  cl_sub :: string
  cl_aud :: audience
  cl_exp :: int
  cl_jti :: "string option"

datatype json_val = JString string | JOther

record proof_header =
  ph_typ :: "string option"
  ph_alg :: "string option"
  ph_jwk :: "(string \<times> json_val) list option"

record proof_claims =
  pc_jti :: "string option"
  pc_htm :: "string option"
  pc_htu :: "string option"
  pc_iat :: "int option"
  pc_ath :: "string option"

datatype jwt_error = JwtInvalidSignature | JwtMissingRequiredClaim | JwtJson | JwtOther

record jwt_lib =
  jl_decode_header_kid :: "string \<Rightarrow> string option option"
  jl_decode_assertion :: "string \<Rightarrow> decoding_key \<Rightarrow> signing_algorithm \<Rightarrow> jwt_error + assertion_claims"
  jl_base64url_decode :: "string \<Rightarrow> string option"
  jl_json_sub :: "string \<Rightarrow> string option"
  jl_json_proof_header :: "string \<Rightarrow> proof_header option"
  jl_decode_proof :: "string \<Rightarrow> decoding_key \<Rightarrow> jwt_error + proof_claims"
  jl_url_parse :: "string \<Rightarrow> (string \<times> string) option"
  jl_timestamp_in_range :: "int \<Rightarrow> bool"

text \<open>\<open>DateTime::from_timestamp(secs, 0)\<close>.\<close>

definition from_timestamp :: "jwt_lib \<Rightarrow> int \<Rightarrow> instant option" where
  "from_timestamp jl n = (if jl_timestamp_in_range jl n then Some (secs n) else None)"

section \<open>Client assertions\<close>

definition jwt_bearer_assertion_type :: string where
  "jwt_bearer_assertion_type = ''urn:ietf:params:oauth:client-assertion-type:jwt-bearer''"

definition max_assertion_lifetime :: duration where
  "max_assertion_lifetime = secs 300"

definition clock_skew_leeway :: duration where
  "clock_skew_leeway = secs 60"

definition max_jti_length :: nat where
  "max_jti_length = 255"

record verified_client_assertion =
  va_jti :: string
  va_expires_at :: instant
  va_replay_guard_until :: instant

datatype client_assertion_failure =
    UnsupportedAssertionType | AssertionMalformed | UnknownKey | AssertionInvalidSignature | AssertionExpired
  | LifetimeTooLong | AudienceMismatch | SubjectMismatch | MissingJti | JtiTooLong

fun client_assertion_failure_str :: "client_assertion_failure \<Rightarrow> string" where
  "client_assertion_failure_str UnsupportedAssertionType = ''unsupported_assertion_type''"
| "client_assertion_failure_str AssertionMalformed = ''malformed_client_assertion''"
| "client_assertion_failure_str UnknownKey = ''unknown_assertion_key''"
| "client_assertion_failure_str AssertionInvalidSignature = ''invalid_assertion_signature''"
| "client_assertion_failure_str AssertionExpired = ''expired_client_assertion''"
| "client_assertion_failure_str LifetimeTooLong = ''assertion_lifetime_too_long''"
| "client_assertion_failure_str AudienceMismatch = ''assertion_audience_mismatch''"
| "client_assertion_failure_str SubjectMismatch = ''assertion_subject_mismatch''"
| "client_assertion_failure_str MissingJti = ''missing_assertion_jti''"
| "client_assertion_failure_str JtiTooLong = ''assertion_jti_too_long''"

fun audience_contains :: "audience \<Rightarrow> string \<Rightarrow> bool" where
  "audience_contains (AudOne one) v = (one = v)"
| "audience_contains (AudMany many) v = list_ex (\<lambda>a. a = v) many"

definition unverified_subject :: "jwt_lib \<Rightarrow> string \<Rightarrow> string option" where
  "unverified_subject jl assertion =
     (case split_on CHR ''.'' assertion of
        h # payload # sig # rest \<Rightarrow>
          (case jl_base64url_decode jl payload of
             None \<Rightarrow> None
           | Some decoded \<Rightarrow> (case jl_json_sub jl decoded of None \<Rightarrow> None | Some s \<Rightarrow> if s = [] then None else Some s))
      | _ \<Rightarrow> None)"

definition assertion_algorithm :: "jwk \<Rightarrow> signing_algorithm option" where
  "assertion_algorithm k = (if jwk_alg k = ''RS256'' then Some Rs256 else if jwk_alg k = ''ES256'' then Some Es256 else None)"

fun assertion_decode_failure :: "jwt_error \<Rightarrow> client_assertion_failure" where
  "assertion_decode_failure JwtInvalidSignature = AssertionInvalidSignature"
| "assertion_decode_failure JwtMissingRequiredClaim = AssertionMalformed"
| "assertion_decode_failure JwtJson = AssertionMalformed"
| "assertion_decode_failure JwtOther = AssertionInvalidSignature"

definition check_assertion_claims ::
  "jwt_lib \<Rightarrow> string \<Rightarrow> string list \<Rightarrow> instant \<Rightarrow> assertion_claims \<Rightarrow> client_assertion_failure + verified_client_assertion" where
  "check_assertion_claims jl client_id accepted now claims =
     (if cl_iss claims \<noteq> client_id \<or> cl_sub claims \<noteq> client_id then Inl SubjectMismatch
      else if \<not> list_ex (audience_contains (cl_aud claims)) accepted then Inl AudienceMismatch
      else rbind (ok_or AssertionMalformed (from_timestamp jl (cl_exp claims))) (\<lambda>expires_at.
        if expires_at + clock_skew_leeway < now then Inl AssertionExpired
        else if expires_at - now > max_assertion_lifetime + clock_skew_leeway then Inl LifetimeTooLong
        else rbind (ok_or MissingJti (opt_filter_ne (cl_jti claims))) (\<lambda>jti.
          if length jti > max_jti_length then Inl JtiTooLong
          else Inr \<lparr>va_jti = jti, va_expires_at = expires_at, va_replay_guard_until = expires_at + clock_skew_leeway\<rparr>)))"

definition verify_client_assertion ::
  "crypto_lib \<Rightarrow> jwt_lib \<Rightarrow> string option \<Rightarrow> string \<Rightarrow> string \<Rightarrow> client_jwks \<Rightarrow> string list \<Rightarrow> instant
   \<Rightarrow> client_assertion_failure + verified_client_assertion" where
  "verify_client_assertion lib jl assertion_type assertion client_id jwks accepted now =
     (if assertion_type \<noteq> Some jwt_bearer_assertion_type then Inl UnsupportedAssertionType
      else rbind (ok_or AssertionMalformed (jl_decode_header_kid jl assertion)) (\<lambda>kid.
        rbind (ok_or UnknownKey (jwks_select jwks kid)) (\<lambda>k.
        rbind (map_err (\<lambda>_. UnknownKey) (decoding_key_from_jwk lib k)) (\<lambda>key.
        rbind (ok_or UnknownKey (assertion_algorithm k)) (\<lambda>alg.
        rbind (map_err assertion_decode_failure (jl_decode_assertion jl assertion key alg)) (\<lambda>claims.
          check_assertion_claims jl client_id accepted now claims))))))"

section \<open>DPoP proofs\<close>

definition max_proof_age_secs :: int where
  "max_proof_age_secs = 120"

definition max_clock_ahead_secs :: int where
  "max_clock_ahead_secs = 60"

definition proof_type :: string where
  "proof_type = ''dpop+jwt''"

definition max_proof_jti_len :: nat where
  "max_proof_jti_len = 256"

record dpop_proof_requirements =
  dr_method :: string
  dr_uri :: string
  dr_access_token :: "string option"
  dr_now :: instant

record verified_dpop_proof =
  vd_jkt :: string
  vd_jti :: string
  vd_issued_at :: instant

definition replay_key :: "crypto_lib \<Rightarrow> verified_dpop_proof \<Rightarrow> string" where
  "replay_key lib p = sha256_hex lib (vd_jkt p @ '':'' @ vd_jti p)"

definition retain_until :: "verified_dpop_proof \<Rightarrow> instant" where
  "retain_until p = vd_issued_at p + secs max_proof_age_secs"

datatype dpop_proof_rejection =
    DpopMalformed | DpopWrongType | DpopUnsupportedAlgorithm | DpopInvalidKey | DpopInvalidSignature
  | DpopMissingClaim | DpopMethodMismatch | DpopUriMismatch | DpopTooOld | DpopFromTheFuture
  | DpopAccessTokenHashMismatch | DpopReplayed

fun dpop_reason :: "dpop_proof_rejection \<Rightarrow> string" where
  "dpop_reason DpopMalformed = ''DPoP proof is not a well-formed JWT''"
| "dpop_reason DpopWrongType = ''DPoP proof typ must be dpop+jwt''"
| "dpop_reason DpopUnsupportedAlgorithm = ''DPoP proof alg must be ES256''"
| "dpop_reason DpopInvalidKey = ''DPoP proof jwk must be a public P-256 key''"
| "dpop_reason DpopInvalidSignature = ''DPoP proof signature does not verify''"
| "dpop_reason DpopMissingClaim = ''DPoP proof lacks jti, htm, htu or iat''"
| "dpop_reason DpopMethodMismatch = ''DPoP proof htm does not match the request''"
| "dpop_reason DpopUriMismatch = ''DPoP proof htu does not match the endpoint''"
| "dpop_reason DpopTooOld = ''DPoP proof iat is too old''"
| "dpop_reason DpopFromTheFuture = ''DPoP proof iat is in the future''"
| "dpop_reason DpopAccessTokenHashMismatch = ''DPoP proof ath does not match the access token''"
| "dpop_reason DpopReplayed = ''DPoP proof has already been used''"

definition json_text :: "(string \<times> json_val) list \<Rightarrow> string \<Rightarrow> string option" where
  "json_text m name = (case map_of m name of Some (JString s) \<Rightarrow> Some s | _ \<Rightarrow> None)"

definition p256_coordinate :: "jwt_lib \<Rightarrow> (string \<times> json_val) list \<Rightarrow> string \<Rightarrow> string option" where
  "p256_coordinate jl m name =
     (case json_text m name of None \<Rightarrow> None
      | Some v \<Rightarrow> (case jl_base64url_decode jl v of None \<Rightarrow> None
                 | Some bs \<Rightarrow> if length bs = 32 then Some v else None))"

definition public_p256_from_jwk :: "jwt_lib \<Rightarrow> (string \<times> json_val) list \<Rightarrow> (string \<times> string) option" where
  "public_p256_from_jwk jl m =
     (if map_of m ''d'' \<noteq> None then None
      else if json_text m ''kty'' \<noteq> Some ''EC'' \<or> json_text m ''crv'' \<noteq> Some ''P-256'' then None
      else case p256_coordinate jl m ''x'' of None \<Rightarrow> None
        | Some x \<Rightarrow> (case p256_coordinate jl m ''y'' of None \<Rightarrow> None | Some y \<Rightarrow> Some (x, y)))"

definition jwk_thumbprint_p256 :: "crypto_lib \<Rightarrow> string \<Rightarrow> string \<Rightarrow> string" where
  \<open>jwk_thumbprint_p256 lib x y =
     base64url lib (lib_sha256 lib (''{"crv":"P-256","kty":"EC","x":"'' @ x @ ''","y":"'' @ y @ ''"}''))\<close>

definition access_token_hash :: "crypto_lib \<Rightarrow> string \<Rightarrow> string" where
  "access_token_hash lib tok = base64url lib (lib_sha256 lib tok)"

text \<open>\<open>jl_url_parse\<close> gives the scheme and the URL without query and fragment.\<close>

definition comparable_uri :: "jwt_lib \<Rightarrow> string \<Rightarrow> string option" where
  "comparable_uri jl uri = (case jl_url_parse jl uri of None \<Rightarrow> None
     | Some (scheme, rest) \<Rightarrow> if scheme = ''https'' \<or> scheme = ''http'' then Some rest else None)"

definition ascii_lower :: "char \<Rightarrow> char" where
  "ascii_lower c = (if 65 \<le> byte_val c \<and> byte_val c \<le> 90 then char_of (byte_val c + 32) else c)"

definition eq_ignore_ascii_case :: "string \<Rightarrow> string \<Rightarrow> bool" where
  "eq_ignore_ascii_case a b \<longleftrightarrow> map ascii_lower a = map ascii_lower b"

definition check_proof_claims ::
  "crypto_lib \<Rightarrow> jwt_lib \<Rightarrow> dpop_proof_requirements \<Rightarrow> string \<Rightarrow> proof_claims \<Rightarrow> dpop_proof_rejection + verified_dpop_proof" where
  "check_proof_claims lib jl expected jkt claims =
     (case (pc_jti claims, pc_htm claims, pc_htu claims, pc_iat claims) of
        (Some jti, Some htm, Some htu, Some iat) \<Rightarrow>
          if jti = [] \<or> length jti > max_proof_jti_len then Inl DpopMissingClaim
          else if htm \<noteq> dr_method expected then Inl DpopMethodMismatch
          else if (case (comparable_uri jl htu, comparable_uri jl (dr_uri expected)) of
                     (Some presented, Some endpoint) \<Rightarrow> presented \<noteq> endpoint | _ \<Rightarrow> True) then Inl DpopUriMismatch
          else rbind (ok_or DpopMissingClaim (from_timestamp jl iat)) (\<lambda>issued_at.
            if issued_at < dr_now expected - secs max_proof_age_secs then Inl DpopTooOld
            else if issued_at > dr_now expected + secs max_clock_ahead_secs then Inl DpopFromTheFuture
            else if (case dr_access_token expected of None \<Rightarrow> False
                     | Some tok \<Rightarrow> pc_ath claims \<noteq> Some (access_token_hash lib tok)) then Inl DpopAccessTokenHashMismatch
            else Inr \<lparr>vd_jkt = jkt, vd_jti = jti, vd_issued_at = issued_at\<rparr>)
      | _ \<Rightarrow> Inl DpopMissingClaim)"

definition verify_proof ::
  "crypto_lib \<Rightarrow> jwt_lib \<Rightarrow> string \<Rightarrow> dpop_proof_requirements \<Rightarrow> dpop_proof_rejection + verified_dpop_proof" where
  "verify_proof lib jl proof expected =
     (let segments = split_on CHR ''.'' proof in
      if length segments \<noteq> 3 then Inl DpopMalformed
      else rbind (ok_or DpopMalformed (Option.bind (jl_base64url_decode jl (hd segments)) (jl_json_proof_header jl))) (\<lambda>header.
        if \<not> (case ph_typ header of None \<Rightarrow> False | Some t \<Rightarrow> eq_ignore_ascii_case t proof_type) then Inl DpopWrongType
        else if ph_alg header \<noteq> Some ''ES256'' then Inl DpopUnsupportedAlgorithm
        else rbind (ok_or DpopInvalidKey (Option.bind (ph_jwk header) (public_p256_from_jwk jl))) (\<lambda>(x, y).
          if \<not> lib_ec_components_ok lib x y then Inl DpopInvalidKey
          else rbind (map_err (\<lambda>_. DpopInvalidSignature) (jl_decode_proof jl proof (EcKey x y))) (\<lambda>claims.
            check_proof_claims lib jl expected (jwk_thumbprint_p256 lib x y) claims))))"

section \<open>Replay tables\<close>

type_synonym 'k replay_table = "('k \<times> instant) list"

text \<open>\<open>record_if_unused\<close>: an INSERT whose primary-key violation means "already used".\<close>

definition record_if_unused :: "'k \<Rightarrow> instant \<Rightarrow> 'k replay_table \<Rightarrow> bool \<times> 'k replay_table" where
  "record_if_unused k until tab = (if k \<in> fst ` set tab then (False, tab) else (True, tab @ [(k, until)]))"

text \<open>The key of \<open>client_assertion_jtis\<close>: tenant, client and \<open>jti\<close> under the collation of the columns.\<close>

definition assertion_jti_key :: "(string \<Rightarrow> string) \<Rightarrow> tenant_id \<Rightarrow> string \<Rightarrow> string \<Rightarrow> tenant_id \<times> string \<times> string" where
  "assertion_jti_key ci t c j = (t, ci c, ci j)"

definition delete_by_expires_at :: "instant \<Rightarrow> 'k replay_table \<Rightarrow> 'k replay_table" where
  "delete_by_expires_at now tab = filter (\<lambda>(k, e). \<not> e \<le> now) tab"

section \<open>Lemmas\<close>

lemma check_assertion_claims_ok:
  "check_assertion_claims jl c auds now claims = Inr v \<Longrightarrow>
     cl_iss claims = c \<and> cl_sub claims = c \<and> (\<exists>a \<in> set auds. audience_contains (cl_aud claims) a)
     \<and> cl_jti claims = Some (va_jti v) \<and> va_jti v \<noteq> [] \<and> length (va_jti v) \<le> 255
     \<and> va_expires_at v = secs (cl_exp claims) \<and> va_replay_guard_until v = va_expires_at v + secs 60
     \<and> now \<le> va_replay_guard_until v \<and> va_expires_at v \<le> now + secs 360"
  by (auto simp: check_assertion_claims_def rbind_Inr_iff from_timestamp_def list_ex_iff max_jti_length_def
      clock_skew_leeway_def max_assertion_lifetime_def secs_def nanos_per_sec_def split: if_splits)

lemma verify_client_assertion_ok:
  "verify_client_assertion lib jl ty a c jwks auds now = Inr v \<Longrightarrow>
     \<exists>k key alg claims. k \<in> set jwks \<and> decoding_key_from_jwk lib k = Inr key \<and> assertion_algorithm k = Some alg
       \<and> jl_decode_assertion jl a key alg = Inr claims \<and> check_assertion_claims jl c auds now claims = Inr v"
  by (auto simp: verify_client_assertion_def rbind_Inr_iff dest: jwks_select_mem split: if_splits)

lemma check_proof_claims_ok:
  "check_proof_claims lib jl ex jkt claims = Inr p \<Longrightarrow>
     vd_jkt p = jkt \<and> vd_jti p \<noteq> [] \<and> length (vd_jti p) \<le> 256 \<and> pc_htm claims = Some (dr_method ex)
     \<and> dr_now ex \<le> retain_until p \<and> vd_issued_at p \<le> dr_now ex + secs 60
     \<and> (\<forall>tok. dr_access_token ex = Some tok \<longrightarrow> pc_ath claims = Some (access_token_hash lib tok))"
  by (auto simp: check_proof_claims_def rbind_Inr_iff max_proof_jti_len_def retain_until_def
      max_proof_age_secs_def max_clock_ahead_secs_def split: option.splits if_splits)

lemma verify_proof_ok:
  "verify_proof lib jl proof ex = Inr p \<Longrightarrow>
     \<exists>x y claims. lib_ec_components_ok lib x y \<and> jl_decode_proof jl proof (EcKey x y) = Inr claims
       \<and> check_proof_claims lib jl ex (jwk_thumbprint_p256 lib x y) claims = Inr p"
  by (auto simp: verify_proof_def Let_def rbind_Inr_iff split: if_splits)

lemma replay_key_inj:
  assumes "digest_injective lib" "CHR '':'' \<notin> set (vd_jkt p)" "CHR '':'' \<notin> set (vd_jkt q)"
    and "replay_key lib p = replay_key lib q"
  shows "vd_jkt p = vd_jkt q \<and> vd_jti p = vd_jti q"
proof -
  have "vd_jkt p @ CHR '':'' # vd_jti p = vd_jkt q @ CHR '':'' # vd_jti q"
    using assms(1,4) by (auto simp: replay_key_def digest_injective_def dest: injD)
  then show ?thesis using assms(2,3)
    by (metis append_Cons append_Nil list.inject split_on_append split_on_join)
qed

definition not_recorded :: "'k \<Rightarrow> 'k replay_table \<Rightarrow> bool" where
  "not_recorded k tab \<longleftrightarrow> k \<notin> fst ` set tab"

definition record_statement :: "'k \<times> instant \<Rightarrow> 'k replay_table \<Rightarrow> bool \<times> 'k replay_table" where
  "record_statement x tab = record_if_unused (fst x) (snd x) tab"

text \<open>A purge that runs strictly before the record of \<open>k\<close> is due.\<close>

definition purge_before_due :: "'k \<Rightarrow> 'k replay_table \<Rightarrow> 'k replay_table \<Rightarrow> bool" where
  "purge_before_due k tab tab' \<longleftrightarrow> (\<exists>now. tab' = delete_by_expires_at now tab \<and> (\<forall>e. (k, e) \<in> set tab \<longrightarrow> now < e))"

interpretation replay: single_use_store "\<lambda>_. True" not_recorded fst record_statement purge_before_due
  by unfold_locales
    (auto simp: not_recorded_def record_statement_def record_if_unused_def purge_before_due_def
      delete_by_expires_at_def image_iff split: if_splits, force simp: not_le)

section \<open>Properties\<close>

text \<open>(C34) A client assertion is accepted only when it is signed by a key registered for that client
  under the algorithm of the key, names the client as issuer and subject and this tenant as
  audience, and \<open>now\<close> lies between six minutes before its expiry and one minute after it; its
  record is kept up to exactly that last instant.\<close>

theorem client_assertion_sound:
  assumes "verify_client_assertion lib jl ty a client_id jwks auds now = Inr v"
  shows "ty = Some jwt_bearer_assertion_type
    \<and> (\<exists>k key alg claims. k \<in> set jwks \<and> decoding_key_from_jwk lib k = Inr key \<and> assertion_algorithm k = Some alg
         \<and> jl_decode_assertion jl a key alg = Inr claims \<and> cl_iss claims = client_id \<and> cl_sub claims = client_id
         \<and> (\<exists>aud \<in> set auds. audience_contains (cl_aud claims) aud) \<and> cl_jti claims = Some (va_jti v)
         \<and> va_expires_at v = secs (cl_exp claims))
    \<and> va_expires_at v - secs 360 \<le> now \<and> now \<le> va_expires_at v + secs 60
    \<and> va_replay_guard_until v = va_expires_at v + secs 60 \<and> va_jti v \<noteq> [] \<and> length (va_jti v) \<le> 255"
proof -
  have ty: "ty = Some jwt_bearer_assertion_type"
    using assms by (auto simp: verify_client_assertion_def split: if_splits)
  obtain k key alg claims where k: "k \<in> set jwks" "decoding_key_from_jwk lib k = Inr key" "assertion_algorithm k = Some alg"
    "jl_decode_assertion jl a key alg = Inr claims" "check_assertion_claims jl client_id auds now claims = Inr v"
    using verify_client_assertion_ok [OF assms] by blast
  note c = check_assertion_claims_ok [OF k(5)]
  have "va_expires_at v - secs 360 \<le> now" using c by linarith
  moreover have "\<exists>k key alg claims. k \<in> set jwks \<and> decoding_key_from_jwk lib k = Inr key \<and> assertion_algorithm k = Some alg
         \<and> jl_decode_assertion jl a key alg = Inr claims \<and> cl_iss claims = client_id \<and> cl_sub claims = client_id
         \<and> (\<exists>aud \<in> set auds. audience_contains (cl_aud claims) aud) \<and> cl_jti claims = Some (va_jti v)
         \<and> va_expires_at v = secs (cl_exp claims)"
    using k(1-4) c by blast
  ultimately show ?thesis using ty c by simp
qed

definition sample_jwt :: jwt_lib where
  "sample_jwt = \<lparr>jl_decode_header_kid = (\<lambda>_. Some (Some ''k1'')),
     jl_decode_assertion = (\<lambda>_ _ _. Inr \<lparr>cl_iss = ''svc'', cl_sub = ''svc'', cl_aud = AudOne ''https://idp/1'', cl_exp = 1000,
        cl_jti = Some ''j1''\<rparr>),
     jl_base64url_decode = Some, jl_json_sub = (\<lambda>_. Some ''svc''), jl_json_proof_header = (\<lambda>_. None),
     jl_decode_proof = (\<lambda>_ _. Inl JwtOther), jl_url_parse = (\<lambda>u. Some (''https'', u)), jl_timestamp_in_range = (\<lambda>_. True)\<rparr>"

lemma sample_assertion_verifies:
  "700 \<le> n \<Longrightarrow> n \<le> 1060 \<Longrightarrow>
   verify_client_assertion toy_crypto sample_jwt (Some jwt_bearer_assertion_type) ''a.b.c'' ''svc'' [sample_jwk] [''https://idp/1''] (secs n)
   = Inr \<lparr>va_jti = ''j1'', va_expires_at = secs 1000, va_replay_guard_until = secs 1060\<rparr>"
  by (simp add: verify_client_assertion_def sample_jwt_def sample_jwk_def toy_crypto_def decoding_key_from_jwk_def
      assertion_algorithm_def check_assertion_claims_def from_timestamp_def clock_skew_leeway_def
      max_assertion_lifetime_def max_jti_length_def opt_filter_ne_def secs_def nanos_per_sec_def)

theorem client_assertion_sound_witness:
  "secs 1000 - secs 360 \<le> secs 900 \<and> secs 900 \<le> secs 1000 + secs 60"
  using client_assertion_sound [OF sample_assertion_verifies [of 900]] by simp

text \<open>A one-time identifier (the \<open>jti\<close> of an assertion, the key of a DPoP proof) is accepted at
  most once along every interleaving of requests and purges, as long as no purge runs at or
  after the end of its retention.\<close>

theorem replay_blocked:
  assumes "usage_trace record_statement (purge_before_due k) tab es tab'"
  shows "successes fst k es \<le> 1 \<and> (successes fst k es = 1 \<longrightarrow> not_recorded k tab \<and> \<not> not_recorded k tab')"
  using replay.at_most_once [OF assms] by simp

theorem replay_blocked_witness:
  "\<not> fst (record_statement (''j1'', 1060) (delete_by_expires_at 1000 (snd (record_statement (''j1'', 1060) []))))"
proof -
  let ?t1 = "snd (record_statement (''j1'', 1060) [])"
  let ?t2 = "delete_by_expires_at 1000 ?t1"
  obtain b t3 where b: "record_statement (''j1'', 1060) ?t2 = (b, t3)" by fastforce
  have "usage_trace record_statement (purge_before_due ''j1'') [] ([] @ [((''j1'', 1060), True)]) ?t1"
    by (rule trace_consume [where s' = "[]"]) (auto intro: trace_nil simp: record_statement_def record_if_unused_def)
  then have "usage_trace record_statement (purge_before_due ''j1'') [] ([] @ [((''j1'', 1060), True)]) ?t2"
    by (rule trace_other) (auto simp: purge_before_due_def record_statement_def record_if_unused_def)
  then have "usage_trace record_statement (purge_before_due ''j1'') [] (([] @ [((''j1'', 1060), True)]) @ [((''j1'', 1060), b)]) t3"
    by (rule trace_consume) (rule b)
  from replay_blocked [OF this] have "\<not> b" by (auto simp: successes_def)
  then show ?thesis using b by simp
qed

text \<open>The retention of a client assertion ends one instant too early: at \<open>exp + 60 s\<close> exactly
  the assertion still verifies while the purge (\<open>expires_at <= now\<close>) already removes its record, so
  at that instant a used assertion is recorded as unused again.\<close>

theorem assertion_replay_gap:
  assumes "verify_client_assertion lib jl ty a client_id jwks auds now = Inr v" and "now = va_replay_guard_until v"
    and "k = assertion_jti_key ci t client_id (va_jti v)" and "not_recorded k tab"
  shows "\<exists>tab1 tab2. record_if_unused k (va_replay_guard_until v) tab = (True, tab1)
     \<and> record_if_unused k (va_replay_guard_until v) (delete_by_expires_at now tab1) = (True, tab2)"
  using assms(2,4) by (auto simp: record_if_unused_def delete_by_expires_at_def not_recorded_def)

theorem assertion_replay_gap_witness:
  "\<exists>tab1 tab2. record_if_unused (assertion_jti_key id 1 ''svc'' ''j1'') (secs 1060) [] = (True, tab1)
     \<and> record_if_unused (assertion_jti_key id 1 ''svc'' ''j1'') (secs 1060) (delete_by_expires_at (secs 1060) tab1) = (True, tab2)"
  using assertion_replay_gap [OF sample_assertion_verifies [of 1060] _ refl, of id 1 "[]"] by (simp add: not_recorded_def)

end
