(* ===== verification/Sso_Session.thy ===== *)
theory Sso_Session
  imports Entities "HOL-Library.AList"
begin

text \<open>
  Single sign-on sessions (\<open>domain/sso_session.rs\<close>) and their table
  (\<open>infrastructure/repositories/sso_session.rs\<close>).  \<open>Duration::seconds\<close> panics outside its range;
  the two age checks give \<open>None\<close> there.  The side table \<open>sso_session_contexts\<close> is a list of
  \<open>(session_hash, passkey_verified_at)\<close>.
\<close>

record sso_session =
  ss_session_hash :: string
  ss_user_id :: uuid
  ss_auth_time :: instant
  ss_idle_expires_at :: instant
  ss_absolute_expires_at :: instant
  ss_authentication_methods :: "authentication_method list"
  ss_authentication_strength :: authentication_strength
  ss_mfa_completed_at :: "instant option"
  ss_step_up_at :: "instant option"
  ss_user_agent :: "string option"
  ss_ip_address :: "string option"
  ss_created_at :: instant
  ss_updated_at :: instant

definition sso_establish ::
  "string \<Rightarrow> uuid \<Rightarrow> instant \<Rightarrow> duration \<Rightarrow> duration \<Rightarrow> authentication_method list \<Rightarrow> string option \<Rightarrow> string option
   \<Rightarrow> sso_session" where
  "sso_establish h u now idle_ttl absolute_ttl methods user_agent ip_address =
     (let strength = from_methods methods in
      \<lparr>ss_session_hash = h, ss_user_id = u, ss_auth_time = now, ss_idle_expires_at = now + idle_ttl,
       ss_absolute_expires_at = now + absolute_ttl, ss_authentication_methods = methods,
       ss_authentication_strength = strength,
       ss_mfa_completed_at = (if strength = MultiFactor then Some now else None),
       ss_step_up_at = Some now, ss_user_agent = user_agent, ss_ip_address = ip_address,
       ss_created_at = now, ss_updated_at = now\<rparr>)"

definition absolute_ttl_secs :: "sso_session \<Rightarrow> nat" where
  "absolute_ttl_secs s = nat (num_seconds (ss_absolute_expires_at s - ss_created_at s))"

definition sso_is_valid_at :: "sso_session \<Rightarrow> instant \<Rightarrow> bool" where
  "sso_is_valid_at s now \<longleftrightarrow> ss_idle_expires_at s > now \<and> ss_absolute_expires_at s > now"

definition sso_is_multi_factor :: "sso_session \<Rightarrow> bool" where
  "sso_is_multi_factor s \<longleftrightarrow> ss_authentication_strength s = MultiFactor"

definition sso_used_method :: "sso_session \<Rightarrow> authentication_method \<Rightarrow> bool" where
  "sso_used_method s m \<longleftrightarrow> m \<in> set (ss_authentication_methods s)"

definition satisfies_max_age :: "sso_session \<Rightarrow> 64 word \<Rightarrow> instant \<Rightarrow> bool option" where
  "satisfies_max_age s max_age now =
     map_option (\<lambda>d. now - ss_auth_time s \<le> d) (duration_seconds (u64_as_i64 max_age))"

definition satisfies_mfa_age :: "sso_session \<Rightarrow> 64 word \<Rightarrow> instant \<Rightarrow> bool option" where
  "satisfies_mfa_age s max_age now =
     (case ss_mfa_completed_at s of None \<Rightarrow> Some False
      | Some at \<Rightarrow> map_option (\<lambda>d. now - at \<le> d) (duration_seconds (u64_as_i64 max_age)))"

definition display_id_of :: "crypto_lib \<Rightarrow> string \<Rightarrow> string" where
  "display_id_of lib h = take 32 (sha256_hex lib (''sso-session-display:'' @ h))"

definition sid_of :: "crypto_lib \<Rightarrow> string \<Rightarrow> string" where
  "sid_of lib h = take 32 (sha256_hex lib (''sso-session-sid:'' @ h))"

section \<open>The table\<close>

definition sso_create :: "instant \<Rightarrow> sso_session \<Rightarrow> sso_session list \<Rightarrow> domain_error + sso_session list" where
  "sso_create db_now s rows =
     (if list_ex (\<lambda>r. ss_session_hash r = ss_session_hash s) rows then Inl (Repository ''duplicate entry'')
      else Inr (rows @ [s\<lparr>ss_created_at := db_now, ss_updated_at := db_now\<rparr>]))"

definition sso_find_by_hash :: "string \<Rightarrow> sso_session list \<Rightarrow> sso_session option" where
  "sso_find_by_hash h rows = find (\<lambda>r. ss_session_hash r = h) rows"

definition sso_update_where :: "string \<Rightarrow> (sso_session \<Rightarrow> sso_session) \<Rightarrow> sso_session list \<Rightarrow> sso_session list" where
  "sso_update_where h f rows = map (\<lambda>r. if ss_session_hash r = h then f r else r) rows"

definition sso_extend_idle :: "string \<Rightarrow> instant \<Rightarrow> sso_session list \<Rightarrow> sso_session list" where
  "sso_extend_idle h t rows = sso_update_where h (\<lambda>r. r\<lparr>ss_idle_expires_at := max (ss_idle_expires_at r) t\<rparr>) rows"

definition sso_set_lifetime :: "string \<Rightarrow> instant \<Rightarrow> instant \<Rightarrow> sso_session list \<Rightarrow> sso_session list" where
  "sso_set_lifetime h idle absolute rows =
     sso_update_where h (\<lambda>r. r\<lparr>ss_idle_expires_at := idle, ss_absolute_expires_at := absolute\<rparr>) rows"

definition sso_record_second_factor :: "string \<Rightarrow> authentication_method list \<Rightarrow> instant \<Rightarrow> sso_session list \<Rightarrow> sso_session list" where
  "sso_record_second_factor h methods completed_at rows =
     sso_update_where h (\<lambda>r. r\<lparr>ss_authentication_methods := methods, ss_authentication_strength := from_methods methods,
                              ss_mfa_completed_at := Some completed_at\<rparr>) rows"

definition sso_record_step_up ::
  "string \<Rightarrow> authentication_method list \<Rightarrow> instant \<Rightarrow> sso_session list \<times> (string \<times> instant) list
   \<Rightarrow> sso_session list \<times> (string \<times> instant) list" where
  "sso_record_step_up h methods verified_at st =
     (let strength = from_methods methods;
          rows = (if strength = MultiFactor
            then sso_update_where h (\<lambda>r. r\<lparr>ss_authentication_methods := methods, ss_authentication_strength := strength,
                   ss_mfa_completed_at := Some verified_at, ss_step_up_at := Some verified_at\<rparr>) (fst st)
            else sso_update_where h (\<lambda>r. r\<lparr>ss_step_up_at := Some verified_at\<rparr>) (fst st));
          contexts = (if WebAuthn \<in> set methods then AList.update h verified_at (snd st) else snd st)
      in (rows, contexts))"

definition sso_passkey_verified_at :: "string \<Rightarrow> (string \<times> instant) list \<Rightarrow> instant option" where
  "sso_passkey_verified_at h contexts = map_of contexts h"

definition sso_delete :: "string \<Rightarrow> sso_session list \<Rightarrow> sso_session list" where
  "sso_delete h rows = filter (\<lambda>r. ss_session_hash r \<noteq> h) rows"

definition sso_delete_all_for_user :: "uuid \<Rightarrow> sso_session list \<Rightarrow> sso_session list" where
  "sso_delete_all_for_user u rows = filter (\<lambda>r. ss_user_id r \<noteq> u) rows"

definition sso_delete_all_for_user_except :: "uuid \<Rightarrow> string \<Rightarrow> sso_session list \<Rightarrow> nat \<times> sso_session list" where
  "sso_delete_all_for_user_except u keep rows =
     (let hit = (\<lambda>r. ss_user_id r = u \<and> ss_session_hash r \<noteq> keep)
      in (length (filter hit rows), filter (\<lambda>r. \<not> hit r) rows))"

definition sso_delete_expired :: "instant \<Rightarrow> sso_session list \<Rightarrow> nat \<times> sso_session list" where
  "sso_delete_expired now rows =
     (let hit = (\<lambda>r. ss_idle_expires_at r \<le> now \<or> ss_absolute_expires_at r \<le> now)
      in (length (filter hit rows), filter (\<lambda>r. \<not> hit r) rows))"

section \<open>Lemmas\<close>

text \<open>The stored strength is the derived one, and an MFA time is present whenever a second factor
  was used.\<close>

definition sso_ok :: "sso_session \<Rightarrow> bool" where
  "sso_ok s \<longleftrightarrow> ss_authentication_strength s = from_methods (ss_authentication_methods s)
     \<and> (ss_authentication_strength s = MultiFactor \<longrightarrow> ss_mfa_completed_at s \<noteq> None)"

inductive sso_reach :: "sso_session list \<Rightarrow> bool" where
  sso_init: "sso_reach []"
| sso_login: "sso_reach rows \<Longrightarrow> sso_create db_now (sso_establish h u now i a ms ua ip) rows = Inr rows' \<Longrightarrow> sso_reach rows'"
| sso_extend: "sso_reach rows \<Longrightarrow> sso_reach (sso_extend_idle h t rows)"
| sso_lifetime: "sso_reach rows \<Longrightarrow> sso_reach (sso_set_lifetime h i a rows)"
| sso_second: "sso_reach rows \<Longrightarrow> sso_reach (sso_record_second_factor h ms t rows)"
| sso_step: "sso_reach rows \<Longrightarrow> sso_reach (fst (sso_record_step_up h ms t (rows, ctxs)))"
| sso_del: "sso_reach rows \<Longrightarrow> sso_reach (filter P rows)"

lemma sso_ok_establish: "sso_ok ((sso_establish h u now i a ms ua ip)\<lparr>ss_created_at := x, ss_updated_at := y\<rparr>)"
  by (simp add: sso_ok_def sso_establish_def Let_def)

lemma sso_reach_ok: "sso_reach rows \<Longrightarrow> \<forall>s \<in> set rows. sso_ok s"
proof (induction rule: sso_reach.induct)
  case (sso_login rows db_now h u now i a ms ua ip rows')
  then show ?case by (auto simp: sso_create_def sso_ok_establish split: if_splits)
next
  case (sso_step rows h ms t ctxs)
  then show ?case by (auto simp: sso_record_step_up_def sso_update_where_def sso_ok_def Let_def split: if_splits)
qed (auto simp: sso_ok_def sso_extend_idle_def sso_set_lifetime_def sso_record_second_factor_def sso_update_where_def
    split: if_splits)

lemma sso_valid_antimono: "sso_is_valid_at s now \<Longrightarrow> before \<le> now \<Longrightarrow> sso_is_valid_at s before"
  by (auto simp: sso_is_valid_at_def)

lemma max_duration_fits_i64: "max_duration_secs < 2 ^ 63"
  by (simp add: max_duration_secs_def)

lemma satisfies_max_age_value:
  assumes "uint w \<le> max_duration_secs"
  shows "satisfies_max_age s w now = Some (now - ss_auth_time s \<le> secs (uint w))"
  using assms max_duration_fits_i64
  by (simp add: satisfies_max_age_def u64_as_i64_def sint64_cases duration_seconds_def secs_def)

lemma satisfies_max_age_panics:
  "satisfies_max_age s w now = None \<longleftrightarrow> max_duration_secs < uint w \<and> uint w < 2 ^ 64 - max_duration_secs"
  using uint64_less [of w]
  by (auto simp: satisfies_max_age_def u64_as_i64_def sint64_cases duration_seconds_def max_duration_secs_def)

text \<open>In every reachable table of SSO sessions the stored strength equals the one derived from
  the recorded methods and a multi-factor session has an MFA time, so that step-up and re-authentication
  decisions rest on verified factors; validity ends at the earlier of the two expiries and never returns.\<close>

theorem sso_strength_invariant:
  assumes "sso_reach rows" and "s \<in> set rows"
  shows "(sso_is_multi_factor s \<longleftrightarrow> (\<exists>m \<in> set (ss_authentication_methods s). is_second_factor m))
     \<and> (sso_is_multi_factor s \<longrightarrow> ss_mfa_completed_at s \<noteq> None)
     \<and> (sso_is_valid_at s now \<longleftrightarrow> now < min (ss_idle_expires_at s) (ss_absolute_expires_at s))"
  using sso_reach_ok [OF assms(1)] assms(2)
  by (auto simp: sso_ok_def sso_is_multi_factor_def sso_is_valid_at_def from_methods_MultiFactor_iff)

theorem sso_strength_invariant_witness:
  "sso_is_multi_factor (hd (sso_record_second_factor ''s'' [Password, Totp] 30
      [(sso_establish ''s'' 9 10 600 3600 [Password] None None)\<lparr>ss_created_at := 10, ss_updated_at := 10\<rparr>]))"
proof -
  let ?s = "sso_establish ''s'' 9 10 600 3600 [Password] None None"
  let ?r = "?s\<lparr>ss_created_at := 10, ss_updated_at := 10\<rparr>"
  have "sso_reach [?r]" by (rule sso_login [OF sso_init]) (simp add: sso_create_def)
  then have "sso_reach (sso_record_second_factor ''s'' [Password, Totp] 30 [?r])" by (rule sso_second)
  from sso_strength_invariant [OF this] show ?thesis
    by (simp add: sso_record_second_factor_def sso_update_where_def sso_establish_def is_second_factor_def Let_def)
qed

end
