(* ===== verification/Applications.thy ===== *)
theory Applications
  imports Entities
begin

text \<open>
  Applications and protected resources: \<open>domain/application.rs\<close>, \<open>domain/resource.rs\<close> and the
  queries of \<open>infrastructure/repositories/application.rs\<close>, \<open>protected_resource.rs\<close> and
  \<open>client_permission.rs\<close> that the token and authorization use cases call.
\<close>

record application =
  ap_id :: uuid
  ap_tenant :: tenant_id
  ap_display_name :: string
  ap_status :: application_status
  ap_assignment_mode :: assignment_mode
  ap_created :: instant
  ap_updated :: instant

datatype application_access = AccessAllowed | AccessDisabled | AccessNotAssigned

definition access_is_allowed :: "application_access \<Rightarrow> bool" where
  "access_is_allowed a \<longleftrightarrow> a = AccessAllowed"

fun access_reason :: "application_access \<Rightarrow> string" where
  "access_reason AccessAllowed = ''allowed''"
| "access_reason AccessDisabled = ''application_disabled''"
| "access_reason AccessNotAssigned = ''not_assigned''"

definition admits :: "application \<Rightarrow> bool \<Rightarrow> application_access" where
  "admits a assigned =
     (if ap_status a \<noteq> ApplicationActive then AccessDisabled
      else case ap_assignment_mode a of
        Everyone \<Rightarrow> AccessAllowed
      | Individual \<Rightarrow> (if assigned then AccessAllowed else AccessNotAssigned))"

definition admits_service_account :: "application \<Rightarrow> bool \<Rightarrow> application_access" where
  "admits_service_account a assigned =
     (if ap_status a \<noteq> ApplicationActive then AccessDisabled
      else if assigned then AccessAllowed else AccessNotAssigned)"

definition needs_assignment_lookup :: "application \<Rightarrow> bool" where
  "needs_assignment_lookup a \<longleftrightarrow> ap_assignment_mode a = Individual"

definition application_is_active :: "application \<Rightarrow> bool" where
  "application_is_active a \<longleftrightarrow> ap_status a = ApplicationActive"

definition application_display_name_max_len :: nat where
  "application_display_name_max_len = 255"

definition validate_application_name :: "string \<Rightarrow> message_key + string" where
  "validate_application_name raw =
     (let v = trim raw in
      if v = [] then Inl (message_new ''api-application-name-required'')
      else if chars_count v > application_display_name_max_len
      then Inl (message_with_value ''api-application-name-too-long'' (nat_to_string application_display_name_max_len))
      else Inr v)"

datatype binding_target = OidcTarget uuid | SamlTarget uuid | ServiceAccountTarget uuid | ResourceTarget uuid

fun binding_kind :: "binding_target \<Rightarrow> string" where
  "binding_kind (OidcTarget i) = ''oidc''"
| "binding_kind (SamlTarget i) = ''saml''"
| "binding_kind (ServiceAccountTarget i) = ''service_account''"
| "binding_kind (ResourceTarget i) = ''resource''"

fun binding_target_id :: "binding_target \<Rightarrow> uuid" where
  "binding_target_id (OidcTarget i) = i"
| "binding_target_id (SamlTarget i) = i"
| "binding_target_id (ServiceAccountTarget i) = i"
| "binding_target_id (ResourceTarget i) = i"

record application_binding =
  bi_id :: uuid
  bi_application_id :: uuid
  bi_target :: binding_target
  bi_created_at :: instant

datatype account_ref = UserAccount uuid | ServiceAccount uuid

record application_assignment =
  asg_id :: uuid
  asg_application_id :: uuid
  asg_principal :: account_ref
  asg_assigned_at :: instant
  asg_assigned_by :: "uuid option"

datatype application_user_state = UserAllowed | UserBlocked | UserUnknown

record application_user_facts =
  af_user_status :: user_status
  af_pending_setup :: bool
  af_active_member :: bool
  af_assigned :: bool

definition roster_state :: "application \<Rightarrow> application_user_facts \<Rightarrow> application_user_state" where
  "roster_state a f =
     (if af_user_status f \<noteq> UserActive \<or> af_pending_setup f then UserBlocked
      else if ap_assignment_mode a = Everyone \<and> \<not> af_active_member f then UserBlocked
      else if access_is_allowed (admits a (af_assigned f)) then UserAllowed
      else UserBlocked)"

record protected_resource =
  pr_id :: uuid
  pr_tenant_id :: tenant_id
  pr_resource_uri :: string
  pr_display_name :: string
  pr_status :: resource_status
  pr_created_at :: instant
  pr_updated_at :: instant

definition resource_is_active :: "protected_resource \<Rightarrow> bool" where
  "resource_is_active r \<longleftrightarrow> pr_status r = ResourceActive"

section \<open>Queries\<close>

definition app_find_by_oidc_client_id ::
  "(string \<Rightarrow> string) \<Rightarrow> tenant_id \<Rightarrow> string \<Rightarrow> application list \<Rightarrow> application_binding list \<Rightarrow> client list \<Rightarrow> application option" where
  "app_find_by_oidc_client_id ci t client_id apps bindings clients =
     find (\<lambda>a. ap_tenant a = t \<and> list_ex (\<lambda>b. bi_application_id b = ap_id a
         \<and> list_ex (\<lambda>c. bi_target b = OidcTarget (c_id c) \<and> c_tenant_id c = t \<and> ci (c_client_id c) = ci client_id) clients)
       bindings) apps"

definition app_find_by_binding_target ::
  "tenant_id \<Rightarrow> binding_target \<Rightarrow> application list \<Rightarrow> application_binding list \<Rightarrow> application option" where
  "app_find_by_binding_target t target apps bindings =
     find (\<lambda>a. ap_tenant a = t \<and> list_ex (\<lambda>b. bi_application_id b = ap_id a
         \<and> binding_kind (bi_target b) = binding_kind target \<and> binding_target_id (bi_target b) = binding_target_id target) bindings) apps"

definition app_is_assigned :: "uuid \<Rightarrow> uuid \<Rightarrow> application_assignment list \<Rightarrow> bool" where
  "app_is_assigned app u assignments \<longleftrightarrow>
     list_ex (\<lambda>x. asg_application_id x = app \<and> asg_principal x = UserAccount u) assignments"

definition app_is_service_account_assigned :: "uuid \<Rightarrow> uuid \<Rightarrow> application_assignment list \<Rightarrow> bool" where
  "app_is_service_account_assigned app c assignments \<longleftrightarrow>
     list_ex (\<lambda>x. asg_application_id x = app \<and> asg_principal x = ServiceAccount c) assignments"

definition resource_find_by_uri ::
  "(string \<Rightarrow> string) \<Rightarrow> tenant_id \<Rightarrow> string \<Rightarrow> protected_resource list \<Rightarrow> protected_resource option" where
  "resource_find_by_uri ci t uri rows = find (\<lambda>r. pr_tenant_id r = t \<and> ci (pr_resource_uri r) = ci uri) rows"

definition list_codes_for_client :: "uuid \<Rightarrow> (uuid \<times> string) list \<Rightarrow> string list" where
  "list_codes_for_client c perms = map snd (filter (\<lambda>p. fst p = c) perms)"

definition client_find_by_client_id ::
  "(string \<Rightarrow> string) \<Rightarrow> tenant_id \<Rightarrow> string \<Rightarrow> client list \<Rightarrow> client option" where
  "client_find_by_client_id ci t client_id clients =
     find (\<lambda>c. c_tenant_id c = t \<and> ci (c_client_id c) = ci client_id) clients"

definition user_find_by_id :: "uuid \<Rightarrow> user list \<Rightarrow> user option" where
  "user_find_by_id u users = find (\<lambda>x. u_id x = u) users"

definition tenant_find_by_id :: "tenant_id \<Rightarrow> tenant list \<Rightarrow> tenant option" where
  "tenant_find_by_id t tenants = find (\<lambda>x. t_id x = t) tenants"

section \<open>Lemmas\<close>

lemma binding_target_eq_iff:
  "binding_kind a = binding_kind b \<and> binding_target_id a = binding_target_id b \<longleftrightarrow> a = b"
  by (cases a; cases b) auto

lemma admits_allowed_iff:
  "admits a assigned = AccessAllowed \<longleftrightarrow> application_is_active a \<and> (ap_assignment_mode a = Everyone \<or> assigned)"
  by (cases "ap_assignment_mode a") (auto simp: admits_def application_is_active_def)

lemma admits_service_account_allowed_iff:
  "admits_service_account a assigned = AccessAllowed \<longleftrightarrow> application_is_active a \<and> assigned"
  by (auto simp: admits_service_account_def application_is_active_def)

lemma roster_allowed_iff:
  "roster_state a f = UserAllowed \<longleftrightarrow>
     af_user_status f = UserActive \<and> \<not> af_pending_setup f \<and> application_is_active a
     \<and> (case ap_assignment_mode a of Everyone \<Rightarrow> af_active_member f | Individual \<Rightarrow> af_assigned f)"
  by (cases "ap_assignment_mode a")
    (auto simp: roster_state_def access_is_allowed_def admits_allowed_iff)

end
