(* ===== verification/Token_Claims.thy ===== *)
theory Token_Claims
  imports Entities
begin

text \<open>
  The claims of ID and access tokens (\<open>application/token.rs\<close>) and the audiences of the provider's own
  endpoints.
\<close>

record id_token_claims =
  it_iss :: string
  it_sub :: string
  it_aud :: string
  it_exp :: int
  it_iat :: int
  it_auth_time :: int
  it_nonce :: string
  it_jti :: string
  it_sid :: "string option"
  it_acr :: "string option"
  it_amr :: "string list option"
  it_email :: "string option"
  it_email_verified :: "bool option"
  it_preferred_username :: "string option"
  it_name :: "string option"

fun dedup_amr :: "string list \<Rightarrow> authentication_method list \<Rightarrow> string list" where
  "dedup_amr acc [] = acc"
| "dedup_amr acc (m # ms) = dedup_amr (if amr m \<in> set acc then acc else acc @ [amr m]) ms"

definition authentication_claims :: "authentication_method list option \<Rightarrow> string option \<times> string list option" where
  "authentication_claims methods =
     (case methods of
        None \<Rightarrow> (None, None)
      | Some ms \<Rightarrow> if ms = [] then (None, None)
          else (Some (strength_acr (from_methods ms)), Some (dedup_amr [] ms)))"

definition subject_type_client :: string where
  "subject_type_client = ''client''"

record access_token_claims =
  at_iss :: string
  at_sub :: string
  at_aud :: string
  at_client_id :: string
  at_scope :: string
  at_exp :: int
  at_iat :: int
  at_jti :: string
  at_sub_type :: "string option"
  at_perms :: "string option"
  at_cnf_jkt :: "string option"

definition claims_dpop_jkt :: "access_token_claims \<Rightarrow> string option" where
  "claims_dpop_jkt c = at_cnf_jkt c"

definition subject_is_client :: "access_token_claims \<Rightarrow> bool" where
  "subject_is_client c \<longleftrightarrow> at_sub_type c = Some subject_type_client"

definition userinfo_audience :: "string \<Rightarrow> string" where
  "userinfo_audience issuer = issuer @ ''/userinfo''"

definition management_audience :: "string \<Rightarrow> string" where
  "management_audience issuer = issuer @ ''/admin''"

datatype jwt_claims = IdClaims id_token_claims | AccessClaims access_token_claims

section \<open>Lemmas\<close>

lemma dedup_amr_set: "set (dedup_amr acc ms) = set acc \<union> amr ` set ms"
  by (induction ms arbitrary: acc) auto

lemma dedup_amr_distinct: "distinct acc \<Longrightarrow> distinct (dedup_amr acc ms)"
  by (induction ms arbitrary: acc) auto

lemma audiences_differ: "userinfo_audience i \<noteq> management_audience j"
proof
  assume "userinfo_audience i = management_audience j"
  then have "last (userinfo_audience i) = last (management_audience j)" by simp
  then show False by (simp add: userinfo_audience_def management_audience_def)
qed

text \<open>The \<open>acr\<close> and \<open>amr\<close> claims never overstate an authentication: they are absent exactly when
  no method was recorded, \<open>acr\<close> names multi-factor exactly when a second factor was verified, and
  \<open>amr\<close> lists exactly the references of the verified methods, without repetition.\<close>

theorem authentication_claims_exact:
  "case authentication_claims methods of
     (None, None) \<Rightarrow> methods = None \<or> methods = Some []
   | (Some acr, Some amrs) \<Rightarrow> (\<exists>ms. methods = Some ms \<and> ms \<noteq> []
        \<and> (acr = acr_multi_factor \<longleftrightarrow> (\<exists>m \<in> set ms. is_second_factor m))
        \<and> (acr = acr_single_factor \<longleftrightarrow> \<not> (\<exists>m \<in> set ms. is_second_factor m))
        \<and> set amrs = amr ` set ms \<and> distinct amrs)
   | _ \<Rightarrow> False"
proof -
  have "strength_acr s = acr_multi_factor \<longleftrightarrow> s = MultiFactor" "strength_acr s = acr_single_factor \<longleftrightarrow> s = SingleFactor" for s
    by (cases s; simp add: acr_multi_factor_def acr_single_factor_def)+
  moreover have "from_methods ms = SingleFactor \<longleftrightarrow> \<not> (\<exists>m \<in> set ms. is_second_factor m)" for ms
    by (auto simp: from_methods_def list_ex_iff)
  ultimately show ?thesis
    by (auto simp: authentication_claims_def dedup_amr_set dedup_amr_distinct from_methods_MultiFactor_iff split: option.splits)
qed

end
