(* ===== verification/Network_Zone.thy ===== *)
theory Network_Zone
  imports Values
begin

text \<open>
  Network zones of authentication policies (\<open>domain/authentication_policy.rs\<close>: \<open>IpRange\<close>,
  \<open>prefix_matches\<close>), with the parser of \<open>std::net::IpAddr\<close> they rest on.

  An address is the list of its octets, as \<open>octets()\<close> gives them.  The parser follows the
  standard library's: greedy decimal or hexadecimal numbers with a bound on their digits, no
  leading zero in a decimal octet, at most one \<open>::\<close> that stands for at least one group, and a
  dotted IPv4 tail in the last two groups.  The theorem shows that the byte-and-mask test of
  \<open>prefix_matches\<close> is the comparison of the leading bits of the two addresses read as numbers,
  for every range that \<open>IpRange::parse\<close> can produce, so no slice index is out of range.
\<close>

unbundle bit_operations_syntax

section \<open>Addresses and their parser\<close>

datatype ip_addr = V4 "8 word list" | V6 "8 word list"

fun ip_octets :: "ip_addr \<Rightarrow> 8 word list" where
  "ip_octets (V4 os) = os"
| "ip_octets (V6 os) = os"

fun is_ipv4 :: "ip_addr \<Rightarrow> bool" where
  "is_ipv4 (V4 _) = True"
| "is_ipv4 (V6 _) = False"

type_synonym 'a reader = "string \<Rightarrow> ('a \<times> string) option"

definition to_digit :: "nat \<Rightarrow> char \<Rightarrow> nat option" where
  "to_digit radix c =
     (let b = byte_val c;
          d = (if 48 \<le> b \<and> b \<le> 57 then b - 48
               else if 97 \<le> b \<and> b \<le> 122 then b - 87
               else if 65 \<le> b \<and> b \<le> 90 then b - 55 else radix)
      in if d < radix then Some d else None)"

fun take_digits :: "nat \<Rightarrow> string \<Rightarrow> nat list \<times> string" where
  "take_digits radix [] = ([], [])"
| "take_digits radix (c # cs) =
     (case to_digit radix c of
        None \<Rightarrow> ([], c # cs)
      | Some d \<Rightarrow> (let (ds, rest) = take_digits radix cs in (d # ds, rest)))"

definition digits_val :: "nat \<Rightarrow> nat list \<Rightarrow> nat" where
  "digits_val radix ds = foldl (\<lambda>a d. a * radix + d) 0 ds"

definition read_number :: "nat \<Rightarrow> nat \<Rightarrow> bool \<Rightarrow> nat \<Rightarrow> nat reader" where
  "read_number radix max_digits allow_zero_prefix max_value s =
     (let (ds, rest) = take_digits radix s; v = digits_val radix ds
      in if ds = [] \<or> length ds > max_digits then None
         else if \<not> allow_zero_prefix \<and> hd ds = 0 \<and> length ds > 1 then None
         else if v > max_value then None else Some (v, rest))"

fun read_given_char :: "char \<Rightarrow> unit reader" where
  "read_given_char c [] = None"
| "read_given_char c (d # ds) = (if c = d then Some ((), ds) else None)"

definition read_separator :: "char \<Rightarrow> nat \<Rightarrow> 'a reader \<Rightarrow> 'a reader" where
  "read_separator sep i f s =
     (if i > 0 then (case read_given_char sep s of None \<Rightarrow> None | Some (_, r) \<Rightarrow> f r) else f s)"

fun read_octets :: "nat \<Rightarrow> nat \<Rightarrow> 8 word list reader" where
  "read_octets i 0 s = Some ([], s)"
| "read_octets i (Suc n) s =
     (case read_separator CHR ''.'' i (read_number 10 3 False 255) s of
        None \<Rightarrow> None
      | Some (v, r) \<Rightarrow>
          (case read_octets (Suc i) n r of None \<Rightarrow> None | Some (vs, r') \<Rightarrow> Some (of_nat v # vs, r')))"

definition read_ipv4_addr :: "8 word list reader" where
  "read_ipv4_addr = read_octets 0 4"

definition group_octets :: "nat \<Rightarrow> 8 word list" where
  "group_octets g = [of_nat (g div 256), of_nat (g mod 256)]"

text \<open>\<open>read_groups i n\<close>: at slot \<open>i\<close> with \<open>n\<close> slots left; the flag says that an IPv4 tail was read.\<close>

fun read_groups :: "nat \<Rightarrow> nat \<Rightarrow> string \<Rightarrow> 8 word list \<times> bool \<times> string" where
  "read_groups i 0 s = ([], False, s)"
| "read_groups i (Suc n) s =
     (case (if n > 0 then read_separator CHR '':'' i read_ipv4_addr s else None) of
        Some (os, r) \<Rightarrow> (os, True, r)
      | None \<Rightarrow>
          (case read_separator CHR '':'' i (read_number 16 4 True 65535) s of
             None \<Rightarrow> ([], False, s)
           | Some (g, r) \<Rightarrow>
               (let (os, v4, r') = read_groups (Suc i) n r in (group_octets g @ os, v4, r'))))"

definition read_ipv6_addr :: "8 word list reader" where
  "read_ipv6_addr s =
     (let (head, head_ipv4, r) = read_groups 0 8 s
      in if length head = 16 then Some (head, r)
         else if head_ipv4 then None
         else (case read_given_char CHR '':'' r of
             None \<Rightarrow> None
           | Some (_, r1) \<Rightarrow>
               (case read_given_char CHR '':'' r1 of
                  None \<Rightarrow> None
                | Some (_, r2) \<Rightarrow>
                    (let (tail, _, r3) = read_groups 0 (8 - (length head div 2 + 1)) r2
                     in Some (head @ replicate (16 - length head - length tail) 0 @ tail, r3)))))"

definition parse_ip_addr :: "string \<Rightarrow> ip_addr option" where
  "parse_ip_addr s =
     (case (case read_ipv4_addr s of
              Some (os, r) \<Rightarrow> Some (V4 os, r)
            | None \<Rightarrow> (case read_ipv6_addr s of Some (os, r) \<Rightarrow> Some (V6 os, r) | None \<Rightarrow> None)) of
        Some (ip, []) \<Rightarrow> Some ip
      | _ \<Rightarrow> None)"

text \<open>\<open>str::parse::<u8>\<close>: an optional plus sign and at least one decimal digit, at most 255.\<close>

definition parse_u8 :: "string \<Rightarrow> nat option" where
  "parse_u8 s =
     (let (ds, rest) = take_digits 10 (case s of c # cs \<Rightarrow> if c = CHR ''+'' then cs else s | [] \<Rightarrow> [])
      in if ds = [] \<or> rest \<noteq> [] \<or> digits_val 10 ds > 255 then None else Some (digits_val 10 ds))"

fun split_once :: "char \<Rightarrow> string \<Rightarrow> (string \<times> string) option" where
  "split_once sep [] = None"
| "split_once sep (c # cs) =
     (if c = sep then Some ([], cs)
      else map_option (\<lambda>(a, b). (c # a, b)) (split_once sep cs))"

section \<open>Ranges\<close>

record ip_range =
  ir_network :: ip_addr
  ir_prefix_len :: nat

definition ip_range_parse :: "string \<Rightarrow> domain_error + ip_range" where
  "ip_range_parse v =
     (let invalid = InvalidValue (''invalid CIDR or IP address: '' @ v);
          (addr_part, prefix_part) =
            (case split_once CHR ''/'' v of Some (a, p) \<Rightarrow> (a, Some p) | None \<Rightarrow> (v, None))
      in rbind (ok_or invalid (parse_ip_addr addr_part)) (\<lambda>network.
         let max_len = (if is_ipv4 network then 32 else 128) in
         rbind (case prefix_part of Some p \<Rightarrow> ok_or invalid (parse_u8 p) | None \<Rightarrow> Inr max_len) (\<lambda>prefix_len.
         if prefix_len > max_len then Inl invalid
         else Inr \<lparr>ir_network = network, ir_prefix_len = prefix_len\<rparr>)))"

text \<open>Slicing and indexing are in range when \<open>prefix_len\<close> is at most eight times the length
  (\<open>ip_range_wf\<close> below), which the callers guarantee.\<close>

definition prefix_matches :: "8 word list \<Rightarrow> 8 word list \<Rightarrow> nat \<Rightarrow> bool" where
  "prefix_matches network addr prefix_len =
     (let full_bytes = prefix_len div 8;
          remaining_bits = prefix_len mod 8
      in if take full_bytes network \<noteq> take full_bytes addr then False
         else if remaining_bits = 0 then True
         else let m = push_bit (8 - remaining_bits) (255 :: 8 word)
              in network ! full_bytes AND m = addr ! full_bytes AND m)"

fun ip_range_contains :: "ip_range \<Rightarrow> ip_addr \<Rightarrow> bool" where
  "ip_range_contains r ip =
     (case (ir_network r, ip) of
        (V4 net, V4 addr) \<Rightarrow> prefix_matches net addr (ir_prefix_len r)
      | (V6 net, V6 addr) \<Rightarrow> prefix_matches net addr (ir_prefix_len r)
      | _ \<Rightarrow> False)"

section \<open>Well-formed addresses and ranges\<close>

definition addr_bits :: "ip_addr \<Rightarrow> nat" where
  "addr_bits ip = (if is_ipv4 ip then 32 else 128)"

definition ip_wf :: "ip_addr \<Rightarrow> bool" where
  "ip_wf ip \<longleftrightarrow> 8 * length (ip_octets ip) = addr_bits ip"

definition ip_range_wf :: "ip_range \<Rightarrow> bool" where
  "ip_range_wf r \<longleftrightarrow> ip_wf (ir_network r) \<and> ir_prefix_len r \<le> addr_bits (ir_network r)"

lemma read_octets_length: "read_octets i n s = Some (os, r) \<Longrightarrow> length os = n"
  by (induction i n s arbitrary: os r rule: read_octets.induct) (auto split: option.splits)

lemma read_ipv4_length: "read_ipv4_addr s = Some (os, r) \<Longrightarrow> length os = 4"
  unfolding read_ipv4_addr_def by (rule read_octets_length)

lemma read_separator_ipv4_length: "read_separator c i read_ipv4_addr s = Some (os, r) \<Longrightarrow> length os = 4"
  by (auto simp: read_separator_def split: if_splits option.splits dest: read_ipv4_length)

lemma read_groups_length: "read_groups i n s = (os, v4, r) \<Longrightarrow> length os \<le> 2 * n \<and> even (length os)"
proof (induction i n s arbitrary: os v4 r rule: read_groups.induct)
  case (2 i n s)
  show ?case
  proof (cases "if n > 0 then read_separator CHR '':'' i read_ipv4_addr s else None")
    case None
    then show ?thesis
      using "2.prems" "2.IH" by (fastforce simp: group_octets_def split: option.splits prod.splits)
  next
    case (Some p)
    then show ?thesis
      using "2.prems" by (cases p) (auto split: if_splits dest!: read_separator_ipv4_length)
  qed
qed simp

lemma read_ipv6_length:
  assumes "read_ipv6_addr s = Some (os, r)"
  shows "length os = 16"
proof -
  obtain head v4 r0 where h: "read_groups 0 8 s = (head, v4, r0)"
    using prod_cases3 by blast
  note hl = read_groups_length [OF h]
  show ?thesis
  proof (cases "length head = 16")
    case True
    then show ?thesis
      using assms h by (simp add: read_ipv6_addr_def)
  next
    case False
    then obtain r2 tail b r3 where t: "read_groups 0 (8 - (length head div 2 + 1)) r2 = (tail, b, r3)"
      and os: "os = head @ replicate (16 - length head - length tail) 0 @ tail"
      using assms h by (auto simp: read_ipv6_addr_def split: if_splits option.splits prod.splits)
    have "length head + length tail \<le> 16"
      using hl read_groups_length [OF t] False by auto
    then show ?thesis
      using os by simp
  qed
qed

lemma parse_ip_wf: "parse_ip_addr s = Some ip \<Longrightarrow> ip_wf ip"
  by (auto simp: parse_ip_addr_def ip_wf_def addr_bits_def dest!: read_ipv4_length read_ipv6_length
      split: option.splits list.splits)

lemma ip_range_parse_wf: "ip_range_parse v = Inr r \<Longrightarrow> ip_range_wf r"
  by (auto simp: ip_range_parse_def ip_range_wf_def addr_bits_def rbind_Inr_iff Inr_eq_iff Let_def dest: parse_ip_wf
      split: prod.splits if_splits option.splits)

section \<open>Ranges as numbers\<close>

definition octets_val :: "8 word list \<Rightarrow> nat" where
  "octets_val os = foldl (\<lambda>a b. a * 256 + unat b) 0 os"

definition ip_val :: "ip_addr \<Rightarrow> nat" where
  "ip_val ip = octets_val (ip_octets ip)"

lemma octets_val_Nil [simp]: "octets_val [] = 0"
  by (simp add: octets_val_def)

lemma octets_val_snoc [simp]: "octets_val (os @ [b]) = octets_val os * 256 + unat b"
  by (simp add: octets_val_def)

lemma octets_val_append: "octets_val (xs @ ys) = octets_val xs * 256 ^ length ys + octets_val ys"
  by (induction ys rule: rev_induct) (auto simp: append_assoc [symmetric] algebra_simps simp del: append_assoc)

lemma octet_bound: "unat (b :: 8 word) < 256"
  by (rule order_less_le_trans [OF unsigned_less]) simp

lemma octets_val_bound: "octets_val os < 256 ^ length os"
proof (induction os rule: rev_induct)
  case (snoc b os)
  have "octets_val os * 256 + unat b < (octets_val os + 1) * 256"
    using octet_bound [of b] by simp
  also have "\<dots> \<le> 256 ^ length os * 256"
    using snoc by (intro mult_right_mono) auto
  finally show ?case
    by (simp add: mult.commute)
qed simp

lemma positional_eq:
  fixes a a' x y B :: nat
  assumes "x < B" "y < B"
  shows "a * B + x = a' * B + y \<longleftrightarrow> a = a' \<and> x = y"
proof
  assume *: "a * B + x = a' * B + y"
  then have "(a * B + x) div B = (a' * B + y) div B"
    by simp
  then have "a = a'"
    using assms by simp
  with * show "a = a' \<and> x = y"
    by simp
qed simp

lemma octets_val_inj: "length xs = length ys \<Longrightarrow> octets_val xs = octets_val ys \<longleftrightarrow> xs = ys"
proof (induction xs arbitrary: ys rule: rev_induct)
  case (snoc b xs)
  then obtain ys' c where ys: "ys = ys' @ [c]"
    by (cases ys rule: rev_cases) auto
  have "octets_val xs * 256 + unat b = octets_val ys' * 256 + unat c \<longleftrightarrow>
        octets_val xs = octets_val ys' \<and> unat b = unat c"
    by (rule positional_eq [OF octet_bound octet_bound])
  moreover have "unat b = unat c \<longleftrightarrow> b = c"
    by (rule word_unat_eq_iff [symmetric])
  ultimately show ?case
    using snoc ys by auto
qed simp

lemma octets_val_div: "octets_val (xs @ ys) div 2 ^ (8 * length ys) = octets_val xs"
proof -
  have "(2::nat) ^ (8 * length ys) = 256 ^ length ys"
    by (simp add: power_mult)
  then show ?thesis
    using octets_val_bound [of ys] by (simp add: octets_val_append)
qed

lemma div_pow_split: "(a * 256 + b) div 2 ^ (8 - r) = a * 2 ^ r + b div 2 ^ (8 - r)" if "r \<le> 8" for a b r :: nat
proof -
  have "(2::nat) ^ r * 2 ^ (8 - r) = 256"
    using that by (simp add: power_add [symmetric])
  then have "a * 256 + b = b + a * 2 ^ r * 2 ^ (8 - r)"
    by (metis add.commute mult.assoc)
  then show ?thesis
    by (simp only: div_mult_self1 [of "2 ^ (8 - r)"]) simp
qed

lemma bit_masked_octet: "bit (b AND push_bit n 255) j \<longleftrightarrow> n \<le> j \<and> bit b j" for b :: "8 word"
proof -
  have m: "(255 :: 8 word) = mask 8"
    by (simp add: mask_eq_exp_minus_1)
  show ?thesis
    unfolding m using bit_imp_le_length [of b j] by (auto simp: bit_and_iff bit_push_bit_iff bit_mask_iff)
qed

lemma masked_octet_eq:
  fixes b c :: "8 word"
  shows "b AND push_bit n 255 = c AND push_bit n 255 \<longleftrightarrow> unat b div 2 ^ n = unat c div 2 ^ n"
proof -
  have "b AND push_bit n 255 = c AND push_bit n 255 \<longleftrightarrow> (\<forall>i. bit b (n + i) = bit c (n + i))"
  proof
    assume *: "b AND push_bit n 255 = c AND push_bit n 255"
    show "\<forall>i. bit b (n + i) = bit c (n + i)"
    proof
      fix i
      have "bit (b AND push_bit n 255) (n + i) = bit (c AND push_bit n 255) (n + i)"
        unfolding * ..
      then show "bit b (n + i) = bit c (n + i)"
        by (simp only: bit_masked_octet le_add1 simp_thms)
    qed
  next
    assume *: "\<forall>i. bit b (n + i) = bit c (n + i)"
    show "b AND push_bit n 255 = c AND push_bit n 255"
      by (rule bit_word_eqI) (use * in \<open>auto simp only: bit_masked_octet le_iff_add\<close>)
  qed
  also have "\<dots> \<longleftrightarrow> drop_bit n b = drop_bit n c"
  proof
    assume "drop_bit n b = drop_bit n c"
    then show "\<forall>i. bit b (n + i) = bit c (n + i)"
      by (metis bit_drop_bit_eq comp_apply)
  qed (rule bit_word_eqI, simp add: bit_drop_bit_eq)
  also have "\<dots> \<longleftrightarrow> unat (drop_bit n b) = unat (drop_bit n c)"
    by (rule word_unat_eq_iff)
  finally show ?thesis
    by (simp add: unat_drop_bit_eq) (simp add: drop_bit_eq_div)
qed

lemma prefix_matches_leading_bits:
  assumes len: "length xs = length ys" and p: "p \<le> 8 * length xs"
  shows "prefix_matches xs ys p \<longleftrightarrow>
    octets_val xs div 2 ^ (8 * length xs - p) = octets_val ys div 2 ^ (8 * length xs - p)"
proof (cases "p mod 8 = 0")
  case True
  define k where "k = p div 8"
  have pk: "p = 8 * k" and kl: "k \<le> length xs"
    using True p by (auto simp: k_def)
  have "octets_val zs div 2 ^ (8 * length xs - p) = octets_val (take k zs)" if "length zs = length xs" for zs
    using octets_val_div [of "take k zs" "drop k zs"] that by (simp add: pk right_diff_distrib')
  then show ?thesis
    using True len kl by (simp add: prefix_matches_def k_def [symmetric] octets_val_inj)
next
  case False
  define k r where "k = p div 8" and "r = p mod 8"
  have pk: "p = 8 * k + r" and r: "0 < r" "r < 8" and kl: "k < length xs"
    using False p by (auto simp: k_def r_def) presburger
  have e: "8 * length xs - p = 8 * (length xs - Suc k) + (8 - r)"
    using pk r kl by simp
  have val: "octets_val zs div 2 ^ (8 * length xs - p) =
      octets_val (take k zs) * 2 ^ r + unat (zs ! k) div 2 ^ (8 - r)" if "length zs = length xs" for zs
  proof -
    have "octets_val zs div 2 ^ (8 * (length xs - Suc k)) = octets_val (take (Suc k) zs)"
      using octets_val_div [of "take (Suc k) zs" "drop (Suc k) zs"] that by simp
    then show ?thesis
      unfolding e power_add div_mult2_eq using that kl r by (simp add: take_Suc_conv_app_nth div_pow_split)
  qed
  have small: "unat (z :: 8 word) div 2 ^ (8 - r) < 2 ^ r" for z
    using octet_bound [of z] r by (simp add: less_mult_imp_div_less power_add [symmetric])
  show ?thesis
    unfolding val [OF refl] val [OF len [symmetric]] positional_eq [OF small small]
    using False len kl by (simp add: prefix_matches_def octets_val_inj masked_octet_eq k_def [symmetric] r_def [symmetric])
qed

text \<open>A CIDR range that the configuration parser accepts contains an address exactly when
  both are of the same family and the leading \<open>prefix_len\<close> bits of the two addresses, read as
  32- or 128-bit numbers, are the same: the byte comparison with a masked last octet never reads
  outside the octets and agrees with the definition of CIDR.\<close>

theorem ip_range_contains_leading_bits:
  assumes "ip_range_parse v = Inr r" and "parse_ip_addr s = Some ip"
  shows "ir_prefix_len r \<le> addr_bits (ir_network r) \<and>
    (ip_range_contains r ip \<longleftrightarrow> is_ipv4 (ir_network r) = is_ipv4 ip \<and>
      ip_val (ir_network r) div 2 ^ (addr_bits ip - ir_prefix_len r) = ip_val ip div 2 ^ (addr_bits ip - ir_prefix_len r))"
proof -
  have wf: "ip_range_wf r" "ip_wf ip"
    using assms by (auto intro: ip_range_parse_wf parse_ip_wf)
  then show ?thesis
    using prefix_matches_leading_bits [of "ip_octets (ir_network r)" "ip_octets ip" "ir_prefix_len r"]
    by (cases "ir_network r"; cases ip) (auto simp: ip_range_wf_def ip_wf_def addr_bits_def ip_val_def)
qed

theorem ip_range_contains_leading_bits_witness:
  "\<exists>r ip. ip_range_parse ''10.20.0.0/14'' = Inr r \<and> parse_ip_addr ''10.23.255.1'' = Some ip \<and> ip_range_contains r ip \<and>
     ip_val (ir_network r) div 2 ^ 18 = ip_val ip div 2 ^ 18"
proof -
  have r: "ip_range_parse ''10.20.0.0/14'' = Inr \<lparr>ir_network = V4 [10, 20, 0, 0], ir_prefix_len = 14\<rparr>"
    by code_simp
  have ip: "parse_ip_addr ''10.23.255.1'' = Some (V4 [10, 23, 255, 1])"
    by code_simp
  have "ip_range_contains \<lparr>ir_network = V4 [10, 20, 0, 0], ir_prefix_len = 14\<rparr> (V4 [10, 23, 255, 1])"
    by code_simp
  with ip_range_contains_leading_bits [OF r ip] r ip show ?thesis
    by (auto simp: addr_bits_def)
qed

end
