(* ===== verification/Authentication_Policy.thy ===== *)
theory Authentication_Policy
  imports Network_Zone "HOL-Library.Product_Lexorder" "HOL-Library.List_Lexorder" "HOL-Library.Char_ord"
begin

text \<open>
  Authentication policies (\<open>domain/authentication_policy.rs\<close>): conditions over application, user,
  network zone, time window and requested \<open>acr\<close>, and the evaluation \<open>evaluate_policies\<close> that every
  sign-in path uses.

  A decision is characterised independently of the order in which the repository returns the
  policies: a matching \<open>deny\<close> always wins; otherwise all matching method requirements are imposed, with the
  relying party's request for multi-factor added; then \<open>require_mfa\<close>, then \<open>allow\<close>, then the default.
  Time windows are compared with a reference that opens the window on a calendar day.

  The conversions of \<open>chrono\<close> used here are written out on nanoseconds since 1970-01-01, a Thursday.
  Fields of types \<open>u8\<close>, \<open>u16\<close>, \<open>i16\<close> and \<open>i32\<close> are integers: nothing is computed with them that
  could leave their range.
\<close>

section \<open>Effects and required methods\<close>

datatype policy_effect = Allow | Deny | RequireMfa | RequireSpecificMethod

definition policy_effect_table :: "policy_effect enum_table" where
  "policy_effect_table =
     [(Allow, ''allow''), (Deny, ''deny''), (RequireMfa, ''require_mfa''), (RequireSpecificMethod, ''require_specific_method'')]"

definition policy_effect_parse :: "string \<Rightarrow> domain_error + policy_effect" where
  "policy_effect_parse s = enum_parse ''unknown policy effect'' policy_effect_table s"

interpretation policy_effect_enum: string_enum policy_effect_table
proof unfold_locales
  show "table_ok policy_effect_table" by (simp add: policy_effect_table_def enum_table_simps)
  show "v \<in> fst ` set policy_effect_table" for v by (cases v) (simp_all add: policy_effect_table_def)
qed

record required_methods =
  rm_methods :: "authentication_method list"
  rm_user_verification :: bool

definition required_methods_default :: required_methods where
  "required_methods_default = \<lparr>rm_methods = [], rm_user_verification = False\<rparr>"

definition satisfied_by :: "required_methods \<Rightarrow> authentication_method list \<Rightarrow> bool \<Rightarrow> bool" where
  "satisfied_by r used user_verified =
     (let method_ok = rm_methods r = [] \<or> list_ex (\<lambda>m. m \<in> set (rm_methods r)) used;
          uv_ok = \<not> rm_user_verification r \<or> user_verified
      in method_ok \<and> uv_ok)"

definition required_methods_describe :: "required_methods \<Rightarrow> string" where
  "required_methods_describe r =
     (let methods = map (enum_as_str authentication_method_table) (rm_methods r)
      in case (methods = [], rm_user_verification r) of
           (True, True) \<Rightarrow> ''user_verification''
         | (True, False) \<Rightarrow> ''(none)''
         | (False, True) \<Rightarrow> join ''|'' methods @ ''+user_verification''
         | (False, False) \<Rightarrow> join ''|'' methods)"

section \<open>Time windows\<close>

record time_window =
  tw_days :: "int list"
  tw_start_minute :: int
  tw_end_minute :: int
  tw_utc_offset_minutes :: int

definition time_window_validate :: "time_window \<Rightarrow> domain_error + unit" where
  "time_window_validate w =
     (if tw_start_minute w > 1439 \<or> tw_end_minute w > 1439
      then Inl (InvalidValue ''time window minutes must be 0-1439'')
      else if list_ex (\<lambda>d. d > 6) (tw_days w)
      then Inl (InvalidValue ''time window days must be 0 (Sunday) - 6 (Saturday)'')
      else if tw_utc_offset_minutes w < -840 \<or> tw_utc_offset_minutes w > 840
      then Inl (InvalidValue ''time window UTC offset must be within +/-14:00'')
      else Inr ())"

definition local_minute :: "instant \<Rightarrow> int" where
  "local_minute t = t div (60 * nanos_per_sec)"

definition minute_of_day :: "instant \<Rightarrow> int" where
  "minute_of_day t = local_minute t mod 1440"

definition weekday_from_sunday :: "instant \<Rightarrow> int" where
  "weekday_from_sunday t = (local_minute t div 1440 + 4) mod 7"

definition time_window_contains :: "time_window \<Rightarrow> instant \<Rightarrow> bool" where
  "time_window_contains w now =
     (let local = now + secs (60 * tw_utc_offset_minutes w);
          minute = minute_of_day local;
          wd = weekday_from_sunday local;
          (in_range, day) =
            (if tw_start_minute w \<le> tw_end_minute w
             then (minute \<ge> tw_start_minute w \<and> minute < tw_end_minute w, wd)
             else if minute \<ge> tw_start_minute w then (True, wd)
             else if minute < tw_end_minute w then (True, (wd + 6) mod 7)
             else (False, 0))
      in in_range \<and> (tw_days w = [] \<or> day \<in> set (tw_days w)))"

section \<open>Conditions\<close>

record policy_conditions =
  pc_application_ids :: "uuid list"
  pc_user_ids :: "uuid list"
  pc_ip_cidrs :: "string list"
  pc_time_windows :: "time_window list"
  pc_requested_acr :: "string list"

record authentication_context =
  ac_application_id :: "uuid option"
  ac_user_id :: uuid
  ac_ip_address :: "string option"
  ac_now :: instant
  ac_requested_acr :: "string list"

definition context_for_user :: "uuid \<Rightarrow> instant \<Rightarrow> authentication_context" where
  "context_for_user uid now =
     \<lparr>ac_application_id = None, ac_user_id = uid, ac_ip_address = None, ac_now = now, ac_requested_acr = []\<rparr>"

fun validate_all :: "('a \<Rightarrow> 'e + 'b) \<Rightarrow> 'a list \<Rightarrow> 'e + unit" where
  "validate_all f [] = Inr ()"
| "validate_all f (x # xs) = rbind (f x) (\<lambda>_. validate_all f xs)"

definition conditions_validate :: "policy_conditions \<Rightarrow> domain_error + unit" where
  "conditions_validate c =
     rbind (validate_all ip_range_parse (pc_ip_cidrs c)) (\<lambda>_.
     validate_all time_window_validate (pc_time_windows c))"

definition matches_network :: "policy_conditions \<Rightarrow> string option \<Rightarrow> bool" where
  "matches_network c ip_address =
     (case Option.bind ip_address parse_ip_addr of
        None \<Rightarrow> False
      | Some ip \<Rightarrow> list_ex (\<lambda>r. ip_range_contains r ip) (List.map_filter (\<lambda>s. res_ok (ip_range_parse s)) (pc_ip_cidrs c)))"

definition conditions_match :: "policy_conditions \<Rightarrow> authentication_context \<Rightarrow> bool" where
  "conditions_match c ctx =
     (let application_ok = pc_application_ids c = [] \<or>
            (case ac_application_id ctx of Some a \<Rightarrow> a \<in> set (pc_application_ids c) | None \<Rightarrow> False);
          user_ok = pc_user_ids c = [] \<or> ac_user_id ctx \<in> set (pc_user_ids c);
          network_ok = pc_ip_cidrs c = [] \<or> matches_network c (ac_ip_address ctx);
          time_ok = pc_time_windows c = [] \<or> list_ex (\<lambda>w. time_window_contains w (ac_now ctx)) (pc_time_windows c);
          acr_ok = pc_requested_acr c = [] \<or>
            list_ex (\<lambda>requested. list_ex (\<lambda>v. v = requested) (pc_requested_acr c)) (ac_requested_acr ctx)
      in application_ok \<and> user_ok \<and> network_ok \<and> time_ok \<and> acr_ok)"

section \<open>Policies and their evaluation\<close>

record authentication_policy =
  po_id :: uuid
  po_tenant_id :: tenant_id
  po_policy_code :: string
  po_policy_name :: string
  po_priority :: int
  po_enabled :: bool
  po_effect :: policy_effect
  po_effect_params :: "required_methods option"
  po_conditions :: policy_conditions
  po_created_at :: instant
  po_updated_at :: instant

definition is_code_byte :: "char \<Rightarrow> bool" where
  "is_code_byte c =
     (let b = byte_val c in (48 \<le> b \<and> b \<le> 57) \<or> (65 \<le> b \<and> b \<le> 90) \<or> (97 \<le> b \<and> b \<le> 122)
        \<or> c = CHR ''-'' \<or> c = CHR ''_'' \<or> c = CHR ''.'')"

definition validate_code :: "string \<Rightarrow> domain_error + unit" where
  "validate_code code =
     (if code = [] \<or> length code > 100 then Inl (InvalidValue ''policy code must be 1-100 characters'')
      else if \<not> list_all is_code_byte code
      then Inl (InvalidValue (''policy code must contain only ASCII alphanumerics, '' @ [CHR 0x27] @ ''-'' @ [CHR 0x27] @ '', '' @ [CHR 0x27] @ ''_''
             @ [CHR 0x27] @ '' or '' @ [CHR 0x27] @ ''.'' @ [CHR 0x27]))
      else Inr ())"

definition validate_effect_params :: "policy_effect \<Rightarrow> required_methods option \<Rightarrow> domain_error + unit" where
  "validate_effect_params effect params =
     (case (effect, params) of
        (RequireSpecificMethod, Some p) \<Rightarrow>
          if rm_methods p \<noteq> [] \<or> rm_user_verification p then Inr ()
          else Inl (InvalidValue ''require_specific_method needs at least one method or user_verification'')
      | (RequireSpecificMethod, None) \<Rightarrow>
          Inl (InvalidValue ''require_specific_method needs at least one method or user_verification'')
      | (_, Some _) \<Rightarrow> Inl (InvalidValue ''effect parameters are only valid for require_specific_method'')
      | (_, None) \<Rightarrow> Inr ())"

definition validate_policy_name :: "string \<Rightarrow> domain_error + unit" where
  "validate_policy_name name =
     (if trim name = [] \<or> chars_count name > 200 then Inl (InvalidValue ''policy name must be 1-200 characters'')
      else Inr ())"

record method_requirement =
  mr_policy_code :: string
  mr_requirement :: required_methods

datatype policy_decision =
    AllowDecision "string option"
  | DenyDecision string
  | RequireMfaDecision string
  | RequireMethodsDecision "method_requirement list"

fun unmet_method_requirement :: "policy_decision \<Rightarrow> authentication_method list \<Rightarrow> bool \<Rightarrow> method_requirement option" where
  "unmet_method_requirement (RequireMethodsDecision requirements) used user_verified =
     find (\<lambda>m. \<not> satisfied_by (mr_requirement m) used user_verified) requirements"
| "unmet_method_requirement _ used user_verified = None"

definition satisfied_by_adding ::
  "policy_decision \<Rightarrow> authentication_method list \<Rightarrow> authentication_method \<Rightarrow> bool \<Rightarrow> bool" where
  "satisfied_by_adding d used candidate user_verified =
     (unmet_method_requirement d (used @ [candidate]) user_verified = None)"

definition builtin_acr_policy_code :: string where
  "builtin_acr_policy_code = ''builtin:acr_values''"

datatype default_policy_effect = DefaultAllow | DefaultDeny

definition default_policy_effect_table :: "default_policy_effect enum_table" where
  "default_policy_effect_table = [(DefaultAllow, ''allow''), (DefaultDeny, ''deny'')]"

definition default_policy_effect_parse :: "string \<Rightarrow> domain_error + default_policy_effect" where
  "default_policy_effect_parse s = enum_parse ''unknown default policy effect'' default_policy_effect_table s"

definition requests_mfa :: "string list \<Rightarrow> bool" where
  "requests_mfa requested_acr = list_ex (\<lambda>v. v = acr_multi_factor) requested_acr"

definition policy_order :: "authentication_policy \<Rightarrow> int \<times> string" where
  "policy_order p = (po_priority p, po_policy_code p)"

definition matched_policies :: "authentication_policy list \<Rightarrow> authentication_context \<Rightarrow> authentication_policy list" where
  "matched_policies policies ctx =
     sort_key policy_order (filter (\<lambda>p. po_enabled p \<and> conditions_match (po_conditions p) ctx) policies)"

definition method_requirement_of :: "authentication_policy \<Rightarrow> method_requirement" where
  "method_requirement_of p =
     \<lparr>mr_policy_code = po_policy_code p,
      mr_requirement = (case po_effect_params p of Some r \<Rightarrow> r | None \<Rightarrow> required_methods_default)\<rparr>"

definition acr_requirement :: method_requirement where
  "acr_requirement =
     \<lparr>mr_policy_code = builtin_acr_policy_code,
      mr_requirement = \<lparr>rm_methods = second_factors, rm_user_verification = False\<rparr>\<rparr>"

definition evaluate_policies ::
  "authentication_policy list \<Rightarrow> authentication_context \<Rightarrow> default_policy_effect \<Rightarrow> policy_decision" where
  "evaluate_policies policies ctx default_effect =
     (let matched = matched_policies policies ctx;
          requirements = map method_requirement_of (filter (\<lambda>p. po_effect p = RequireSpecificMethod) matched)
      in case find (\<lambda>p. po_effect p = Deny) matched of
           Some deny \<Rightarrow> DenyDecision (po_policy_code deny)
         | None \<Rightarrow>
         if requirements \<noteq> [] then
           RequireMethodsDecision (requirements @ (if requests_mfa (ac_requested_acr ctx) then [acr_requirement] else []))
         else case find (\<lambda>p. po_effect p = RequireMfa) matched of
           Some mfa \<Rightarrow> RequireMfaDecision (po_policy_code mfa)
         | None \<Rightarrow>
         if requests_mfa (ac_requested_acr ctx) then RequireMfaDecision builtin_acr_policy_code
         else case find (\<lambda>p. po_effect p = Allow) matched of
           Some allow \<Rightarrow> AllowDecision (Some (po_policy_code allow))
         | None \<Rightarrow> (case default_effect of DefaultAllow \<Rightarrow> AllowDecision None | DefaultDeny \<Rightarrow> DenyDecision ''(default)''))"

section \<open>Time windows as intervals\<close>

text \<open>Reference: on day \<open>d\<close> (counted from the epoch in local time) the window opens at its start minute and
  closes at the next occurrence of its end minute.\<close>

definition window_opens_on :: "time_window \<Rightarrow> int \<Rightarrow> int \<Rightarrow> bool" where
  "window_opens_on w d m \<longleftrightarrow>
     1440 * d + tw_start_minute w \<le> m \<and>
     m < 1440 * d + tw_end_minute w + (if tw_end_minute w < tw_start_minute w then 1440 else 0) \<and>
     (tw_days w = [] \<or> (d + 4) mod 7 \<in> set (tw_days w))"

lemma day_split:
  fixes m :: int
  obtains q r where "m = 1440 * q + r" "0 \<le> r" "r < 1440" "m div 1440 = q" "m mod 1440 = r"
  by (metis mult_div_mod_eq pos_mod_bound pos_mod_sign zero_less_numeral)

lemma previous_weekday: "((q + 4) mod 7 + 6) mod 7 = (q - 1 + 4) mod (7::int)"
  by presburger

text \<open>A valid time window contains an instant exactly when the window opened on some permitted local day and
  has not yet closed: windows that cross midnight belong to the day they open on, and a window that starts
  when it ends is empty.\<close>

theorem time_window_contains_iff:
  assumes "time_window_validate w = Inr ()" "0 \<le> tw_start_minute w" "0 \<le> tw_end_minute w"
  shows "time_window_contains w now \<longleftrightarrow> (\<exists>d. window_opens_on w d (local_minute (now + secs (60 * tw_utc_offset_minutes w))))"
proof -
  obtain q r where m: "local_minute (now + secs (60 * tw_utc_offset_minutes w)) = 1440 * q + r"
    and r: "0 \<le> r" "r < 1440"
    and dm: "local_minute (now + secs (60 * tw_utc_offset_minutes w)) div 1440 = q"
      "local_minute (now + secs (60 * tw_utc_offset_minutes w)) mod 1440 = r"
    by (rule day_split)
  have b: "tw_start_minute w < 1440" "tw_end_minute w < 1440"
    using assms(1) by (auto simp: time_window_validate_def split: if_splits)
  have day: "d = q \<or> d = q - 1 \<and> tw_end_minute w < tw_start_minute w" if "window_opens_on w d (1440 * q + r)" for d
  proof -
    have "1440 * d + tw_start_minute w \<le> 1440 * q + r"
      "1440 * q + r < 1440 * d + tw_end_minute w + (if tw_end_minute w < tw_start_minute w then 1440 else 0)"
      using that by (simp_all add: window_opens_on_def)
    then show ?thesis
      using r b assms(2,3) by (cases "tw_end_minute w < tw_start_minute w") (simp_all, linarith+)
  qed
  have ex: "(\<exists>d. window_opens_on w d (1440 * q + r)) \<longleftrightarrow>
      window_opens_on w q (1440 * q + r) \<or> (tw_end_minute w < tw_start_minute w \<and> window_opens_on w (q - 1) (1440 * q + r))"
    using day by blast
  show ?thesis
    unfolding m ex using r b assms(2,3)
    by (auto simp: time_window_contains_def window_opens_on_def minute_of_day_def weekday_from_sunday_def dm previous_weekday
        Let_def split: if_splits)
qed

definition night_window :: time_window where
  "night_window = \<lparr>tw_days = [5], tw_start_minute = 1320, tw_end_minute = 360, tw_utc_offset_minutes = 540\<rparr>"

theorem time_window_contains_iff_witness:
  "time_window_validate night_window = Inr () \<and> time_window_contains night_window (secs 147600)
     \<and> window_opens_on night_window 1 (local_minute (secs 147600 + secs (60 * 540)))"
proof -
  have v: "time_window_validate night_window = Inr ()" "0 \<le> tw_start_minute night_window" "0 \<le> tw_end_minute night_window"
    by (simp_all add: time_window_validate_def night_window_def)
  have w: "window_opens_on night_window 1 (local_minute (secs 147600 + secs (60 * 540)))"
    by (simp add: window_opens_on_def night_window_def local_minute_def secs_def nanos_per_sec_def)
  moreover from w have "time_window_contains night_window (secs 147600)"
    unfolding time_window_contains_iff [OF v] by (auto simp: night_window_def)
  ultimately show ?thesis
    using v by simp
qed

section \<open>The decision\<close>

definition matching :: "authentication_policy list \<Rightarrow> authentication_context \<Rightarrow> policy_effect \<Rightarrow> authentication_policy set" where
  "matching policies ctx effect =
     {p \<in> set policies. po_enabled p \<and> conditions_match (po_conditions p) ctx \<and> po_effect p = effect}"

lemma set_matched: "p \<in> set (matched_policies policies ctx) \<longleftrightarrow>
    p \<in> set policies \<and> po_enabled p \<and> conditions_match (po_conditions p) ctx"
  by (auto simp: matched_policies_def)

definition first_of :: "authentication_policy set \<Rightarrow> authentication_policy \<Rightarrow> bool" where
  "first_of M p \<longleftrightarrow> p \<in> M \<and> (\<forall>q \<in> M. policy_order p \<le> policy_order q)"

lemma find_matched_None:
  "find (\<lambda>p. po_effect p = e) (matched_policies policies ctx) = None \<longleftrightarrow> matching policies ctx e = {}"
  by (auto simp: find_None_iff set_matched matching_def)

lemma find_matched_Some:
  assumes "find (\<lambda>p. po_effect p = e) (matched_policies policies ctx) = Some p"
  shows "first_of (matching policies ctx e) p"
proof -
  let ?xs = "matched_policies policies ctx"
  obtain i where i: "i < length ?xs" "po_effect (?xs ! i) = e" "p = ?xs ! i" "\<forall>j < i. po_effect (?xs ! j) \<noteq> e"
    using assms by (auto simp: find_Some_iff)
  have s: "sorted (map policy_order ?xs)"
    by (simp add: matched_policies_def)
  have "policy_order p \<le> policy_order q" if q: "q \<in> matching policies ctx e" for q
  proof -
    have "q \<in> set ?xs" "po_effect q = e"
      using q by (auto simp: matching_def set_matched)
    then obtain j where j: "j < length ?xs" "q = ?xs ! j" "\<not> j < i"
      using i by (metis in_set_conv_nth)
    then show ?thesis
      using sorted_nth_mono [OF s, of i j] i by simp
  qed
  moreover have "p \<in> set ?xs"
    using i by simp
  ultimately show ?thesis
    using i by (auto simp: first_of_def matching_def set_matched)
qed

lemma requirements_empty:
  "filter (\<lambda>p. po_effect p = RequireSpecificMethod) (matched_policies policies ctx) = [] \<longleftrightarrow>
   matching policies ctx RequireSpecificMethod = {}"
  by (auto simp: filter_empty_conv set_matched matching_def)

lemmas no_match = find_matched_None [THEN iffD2]

lemmas evaluate_cases = evaluate_policies_def Let_def map_is_Nil_conv requirements_empty no_match

lemma evaluate_deny:
  assumes "matching ps ctx Deny \<noteq> {}"
  shows "\<exists>p. first_of (matching ps ctx Deny) p \<and> evaluate_policies ps ctx def = DenyDecision (po_policy_code p)"
proof -
  obtain p where "find (\<lambda>p. po_effect p = Deny) (matched_policies ps ctx) = Some p"
    using assms find_matched_None by blast
  then show ?thesis
    using find_matched_Some [of Deny ps ctx p] by (auto simp: evaluate_cases)
qed

lemma evaluate_methods:
  assumes "matching ps ctx Deny = {}" "matching ps ctx RequireSpecificMethod \<noteq> {}"
  shows "\<exists>rs. evaluate_policies ps ctx def = RequireMethodsDecision rs \<and>
    set rs = method_requirement_of ` matching ps ctx RequireSpecificMethod \<union>
      (if requests_mfa (ac_requested_acr ctx) then {acr_requirement} else {})"
proof -
  have "{p \<in> set (matched_policies ps ctx). po_effect p = RequireSpecificMethod} = matching ps ctx RequireSpecificMethod"
    by (auto simp: set_matched matching_def)
  then show ?thesis
    using assms by (simp add: evaluate_cases)
qed

lemma evaluate_mfa:
  assumes "matching ps ctx Deny = {}" "matching ps ctx RequireSpecificMethod = {}" "matching ps ctx RequireMfa \<noteq> {}"
  shows "\<exists>p. first_of (matching ps ctx RequireMfa) p \<and> evaluate_policies ps ctx def = RequireMfaDecision (po_policy_code p)"
proof -
  obtain p where "find (\<lambda>p. po_effect p = RequireMfa) (matched_policies ps ctx) = Some p"
    using assms find_matched_None by blast
  then show ?thesis
    using find_matched_Some [of RequireMfa ps ctx p] assms by (auto simp: evaluate_cases)
qed

lemma evaluate_acr:
  assumes "matching ps ctx Deny = {}" "matching ps ctx RequireSpecificMethod = {}" "matching ps ctx RequireMfa = {}"
    and "requests_mfa (ac_requested_acr ctx)"
  shows "evaluate_policies ps ctx def = RequireMfaDecision builtin_acr_policy_code"
  using assms by (simp add: evaluate_cases)

lemma evaluate_allow:
  assumes "matching ps ctx Deny = {}" "matching ps ctx RequireSpecificMethod = {}" "matching ps ctx RequireMfa = {}"
    and "\<not> requests_mfa (ac_requested_acr ctx)" "matching ps ctx Allow \<noteq> {}"
  shows "\<exists>p. first_of (matching ps ctx Allow) p \<and> evaluate_policies ps ctx def = AllowDecision (Some (po_policy_code p))"
proof -
  obtain p where "find (\<lambda>p. po_effect p = Allow) (matched_policies ps ctx) = Some p"
    using assms find_matched_None by blast
  then show ?thesis
    using find_matched_Some [of Allow ps ctx p] assms by (auto simp: evaluate_cases)
qed

lemma evaluate_default:
  assumes "\<forall>e. matching ps ctx e = {}" "\<not> requests_mfa (ac_requested_acr ctx)"
  shows "evaluate_policies ps ctx def = (case def of DefaultAllow \<Rightarrow> AllowDecision None | DefaultDeny \<Rightarrow> DenyDecision ''(default)'')"
  using assms by (simp add: evaluate_cases)

text \<open>The decision is determined by which enabled policies match, whatever order the repository lists them in: a
  matching \<open>deny\<close> refuses, with the code of the first one by priority and code; otherwise the requirements of all
  matching method policies are imposed together, with a second factor added when the relying party asked for
  multi-factor by \<open>acr\<close>; otherwise a matching \<open>require_mfa\<close> or such a request demands a second factor; otherwise the
  first matching \<open>allow\<close> admits, and with no match at all the tenant's default applies.\<close>

theorem evaluate_policies_spec:
  "(matching ps ctx Deny \<noteq> {} \<longrightarrow>
      (\<exists>p. first_of (matching ps ctx Deny) p \<and> evaluate_policies ps ctx def = DenyDecision (po_policy_code p)))
   \<and> (matching ps ctx Deny = {} \<and> matching ps ctx RequireSpecificMethod \<noteq> {} \<longrightarrow>
      (\<exists>rs. evaluate_policies ps ctx def = RequireMethodsDecision rs \<and>
         set rs = method_requirement_of ` matching ps ctx RequireSpecificMethod \<union>
           (if requests_mfa (ac_requested_acr ctx) then {acr_requirement} else {})))
   \<and> (matching ps ctx Deny = {} \<and> matching ps ctx RequireSpecificMethod = {} \<and> matching ps ctx RequireMfa \<noteq> {} \<longrightarrow>
      (\<exists>p. first_of (matching ps ctx RequireMfa) p \<and> evaluate_policies ps ctx def = RequireMfaDecision (po_policy_code p)))
   \<and> (matching ps ctx Deny = {} \<and> matching ps ctx RequireSpecificMethod = {} \<and> matching ps ctx RequireMfa = {}
        \<and> requests_mfa (ac_requested_acr ctx) \<longrightarrow>
      evaluate_policies ps ctx def = RequireMfaDecision builtin_acr_policy_code)
   \<and> (matching ps ctx Deny = {} \<and> matching ps ctx RequireSpecificMethod = {} \<and> matching ps ctx RequireMfa = {}
        \<and> \<not> requests_mfa (ac_requested_acr ctx) \<and> matching ps ctx Allow \<noteq> {} \<longrightarrow>
      (\<exists>p. first_of (matching ps ctx Allow) p \<and> evaluate_policies ps ctx def = AllowDecision (Some (po_policy_code p))))
   \<and> ((\<forall>e. matching ps ctx e = {}) \<and> \<not> requests_mfa (ac_requested_acr ctx) \<longrightarrow>
      evaluate_policies ps ctx def = (case def of DefaultAllow \<Rightarrow> AllowDecision None | DefaultDeny \<Rightarrow> DenyDecision ''(default)''))"
  by (intro conjI impI; (elim conjE)?)
    (rule evaluate_deny evaluate_methods evaluate_mfa evaluate_acr evaluate_allow evaluate_default; assumption)+

definition no_conditions :: policy_conditions where
  "no_conditions = \<lparr>pc_application_ids = [], pc_user_ids = [], pc_ip_cidrs = [], pc_time_windows = [], pc_requested_acr = []\<rparr>"

definition policy_for_everyone :: "string \<Rightarrow> policy_effect \<Rightarrow> required_methods option \<Rightarrow> authentication_policy" where
  "policy_for_everyone code effect params =
     \<lparr>po_id = 1, po_tenant_id = 1, po_policy_code = code, po_policy_name = code, po_priority = 10, po_enabled = True,
      po_effect = effect, po_effect_params = params, po_conditions = no_conditions, po_created_at = 0, po_updated_at = 0\<rparr>"

lemma no_conditions_match [simp]: "conditions_match no_conditions ctx"
  by (simp add: conditions_match_def no_conditions_def)

lemma policy_for_everyone_fields [simp]:
  "po_effect (policy_for_everyone code effect params) = effect" "po_enabled (policy_for_everyone code effect params)"
  "po_conditions (policy_for_everyone code effect params) = no_conditions"
  "po_effect_params (policy_for_everyone code effect params) = params"
  "po_policy_code (policy_for_everyone code effect params) = code"
  by (simp_all add: policy_for_everyone_def)

theorem evaluate_policies_spec_witness:
  "evaluate_policies [policy_for_everyone ''b'' Allow None, policy_for_everyone ''a'' Deny None] (context_for_user 7 0) DefaultAllow
     = DenyDecision ''a''"
proof -
  let ?ps = "[policy_for_everyone ''b'' Allow None, policy_for_everyone ''a'' Deny None]" and ?ctx = "context_for_user 7 0"
  have m: "matching ?ps ?ctx Deny = {policy_for_everyone ''a'' Deny None}"
    by (auto simp: matching_def)
  from evaluate_policies_spec [of ?ps ?ctx DefaultAllow]
  have "matching ?ps ?ctx Deny \<noteq> {} \<longrightarrow>
      (\<exists>p. first_of (matching ?ps ?ctx Deny) p \<and> evaluate_policies ?ps ?ctx DefaultAllow = DenyDecision (po_policy_code p))"
    by (rule conjunct1)
  then show ?thesis
    by (simp add: m first_of_def)
qed

section \<open>What a decision enforces\<close>

text \<open>A sign-in meets a decision when it is not refused, leaves no method requirement unmet, and has used a second
  factor where one is demanded.\<close>

fun meets_decision :: "policy_decision \<Rightarrow> authentication_method list \<Rightarrow> bool \<Rightarrow> bool" where
  "meets_decision (DenyDecision _) used uv = False"
| "meets_decision (RequireMfaDecision _) used uv = (from_methods used = MultiFactor)"
| "meets_decision d used uv = (unmet_method_requirement d used uv = None)"

lemma second_factors_iff: "m \<in> set second_factors \<longleftrightarrow> is_second_factor m"
  by (cases m) (simp_all add: second_factors_def is_second_factor_def)

lemma acr_requirement_satisfied: "satisfied_by (mr_requirement acr_requirement) used uv \<Longrightarrow> from_methods used = MultiFactor"
  by (auto simp: satisfied_by_def acr_requirement_def from_methods_def list_ex_iff second_factors_iff)
    (auto simp: second_factors_def)

text \<open>(C29) Policies are enforced: a sign-in that meets the decision matched no \<open>deny\<close> policy, satisfies every matching
  method policy (the methods of one policy are alternatives, several policies are cumulative), has used a
  second factor whenever the relying party asked for multi-factor, and has used one whenever a \<open>require_mfa\<close>
  policy matched and no method policy did.\<close>

theorem policies_enforced:
  assumes "meets_decision (evaluate_policies ps ctx def) used uv"
  shows "matching ps ctx Deny = {}
    \<and> (\<forall>p \<in> matching ps ctx RequireSpecificMethod. satisfied_by (mr_requirement (method_requirement_of p)) used uv)
    \<and> (requests_mfa (ac_requested_acr ctx) \<longrightarrow> from_methods used = MultiFactor)
    \<and> (matching ps ctx RequireSpecificMethod = {} \<and> matching ps ctx RequireMfa \<noteq> {} \<longrightarrow> from_methods used = MultiFactor)"
proof -
  have nd: "matching ps ctx Deny = {}"
    using evaluate_deny [of ps ctx def] assms by (metis meets_decision.simps(1))
  show ?thesis
  proof (cases "matching ps ctx RequireSpecificMethod = {}")
    case True
    then show ?thesis
      using evaluate_mfa [of ps ctx def] evaluate_acr [of ps ctx def] assms nd
      by (cases "matching ps ctx RequireMfa = {}") auto
  next
    case False
    then obtain rs where rs: "evaluate_policies ps ctx def = RequireMethodsDecision rs"
      "set rs = method_requirement_of ` matching ps ctx RequireSpecificMethod \<union>
           (if requests_mfa (ac_requested_acr ctx) then {acr_requirement} else {})"
      using evaluate_methods [of ps ctx def] nd by blast
    have sat: "satisfied_by (mr_requirement m) used uv" if "m \<in> set rs" for m
      using assms that by (simp add: rs(1) find_None_iff)
    have "from_methods used = MultiFactor" if "requests_mfa (ac_requested_acr ctx)"
      by (rule acr_requirement_satisfied [of _ uv], rule sat) (simp add: rs(2) that)
    then show ?thesis
      using nd False sat by (auto simp: rs(2))
  qed
qed

theorem policies_enforced_witness:
  "meets_decision (evaluate_policies [policy_for_everyone ''m'' RequireMfa None] (context_for_user 7 0) DefaultAllow) [Password, Totp] False
     \<and> from_methods [Password, Totp] = MultiFactor"
proof -
  let ?ps = "[policy_for_everyone ''m'' RequireMfa None]" and ?ctx = "context_for_user 7 0"
  have m: "matching ?ps ?ctx Deny = {}" "matching ?ps ?ctx RequireSpecificMethod = {}" "matching ?ps ?ctx RequireMfa \<noteq> {}"
    by (auto simp: matching_def)
  have d: "meets_decision (evaluate_policies ?ps ?ctx DefaultAllow) [Password, Totp] False"
    using evaluate_mfa [OF m, of DefaultAllow] by (auto simp: from_methods_def is_second_factor_def)
  with policies_enforced [OF d] m show ?thesis
    by blast
qed

text \<open>A method policy hides a \<open>require_mfa\<close> policy: when both match, only the method requirement is imposed.  With
  \<open>require_mfa\<close> for everyone beside a policy that requires the password, a sign-in by password alone leaves
  nothing unmet, although the decision for the \<open>require_mfa\<close> policy by itself demands a second factor.\<close>

theorem method_policy_hides_mfa:
  "let mfa = policy_for_everyone ''mfa'' RequireMfa None;
       pw = policy_for_everyone ''pw'' RequireSpecificMethod (Some \<lparr>rm_methods = [Password], rm_user_verification = False\<rparr>);
       ctx = context_for_user uid now
   in evaluate_policies [mfa] ctx def = RequireMfaDecision ''mfa''
    \<and> \<not> meets_decision (evaluate_policies [mfa] ctx def) [Password] False
    \<and> meets_decision (evaluate_policies [mfa, pw] ctx def) [Password] False"
proof -
  have one: "matched_policies [policy_for_everyone c e r] ctx = [policy_for_everyone c e r]" for c e r ctx
    by (simp add: matched_policies_def)
  have two: "matched_policies [policy_for_everyone ''mfa'' e r, policy_for_everyone ''pw'' e' r'] ctx =
      [policy_for_everyone ''mfa'' e r, policy_for_everyone ''pw'' e' r']" for e r e' r' ctx
    by (simp add: matched_policies_def policy_order_def) (simp add: policy_for_everyone_def)
  show ?thesis
    by (simp add: Let_def evaluate_policies_def one two from_methods_def is_second_factor_def method_requirement_of_def
        satisfied_by_def context_for_user_def requests_mfa_def)
qed

end
