(* ===== verification/Tenant_Tables.thy ===== *)
theory Tenant_Tables
  imports Entities Authentication_Policy
begin

text \<open>
  Tables the sign-in reads for a tenant: memberships (\<open>domain/tenant_membership.rs\<close>,
  \<open>infrastructure/repositories/tenant_membership.rs\<close>), consents (\<open>domain/consent.rs\<close>,
  \<open>infrastructure/repositories/consent.rs\<close>) and authentication policies
  (\<open>infrastructure/repositories/authentication_policy.rs\<close>).  A table is the list of its rows; \<open>ci\<close> is
  the key under which the collation compares strings.  A unique key that is violated leaves the table as it is.
\<close>

section \<open>Memberships\<close>

record tenant_membership =
  tm_tenant_id :: tenant_id
  tm_user_id :: uuid
  tm_membership_type :: membership_type
  tm_status :: membership_status
  tm_invited_by :: "uuid option"
  tm_invitation_token_hash :: "string option"
  tm_invitation_expires_at :: "instant option"
  tm_created_at :: instant
  tm_updated_at :: instant

definition new_home :: "tenant_id \<Rightarrow> uuid \<Rightarrow> instant \<Rightarrow> tenant_membership" where
  "new_home t u now = \<lparr>tm_tenant_id = t, tm_user_id = u, tm_membership_type = Home, tm_status = MemberActive, tm_invited_by = None,
     tm_invitation_token_hash = None, tm_invitation_expires_at = None, tm_created_at = now, tm_updated_at = now\<rparr>"

definition new_active_guest :: "tenant_id \<Rightarrow> uuid \<Rightarrow> instant \<Rightarrow> tenant_membership" where
  "new_active_guest t u now = \<lparr>tm_tenant_id = t, tm_user_id = u, tm_membership_type = Guest, tm_status = MemberActive, tm_invited_by = None,
     tm_invitation_token_hash = None, tm_invitation_expires_at = None, tm_created_at = now, tm_updated_at = now\<rparr>"

definition is_home :: "tenant_membership \<Rightarrow> bool" where
  "is_home m \<longleftrightarrow> tm_membership_type m = Home"

definition membership_is_active :: "tenant_membership \<Rightarrow> bool" where
  "membership_is_active m \<longleftrightarrow> tm_status m = MemberActive"

definition is_suspended :: "tenant_membership \<Rightarrow> bool" where
  "is_suspended m \<longleftrightarrow> tm_status m = Suspended"

definition can_be_suspended :: "tenant_membership \<Rightarrow> bool" where
  "can_be_suspended m \<longleftrightarrow> \<not> is_home m \<and> tm_status m = MemberActive"

definition can_be_resumed :: "tenant_membership \<Rightarrow> bool" where
  "can_be_resumed m \<longleftrightarrow> \<not> is_home m \<and> tm_status m = Suspended"

definition membership_key :: "tenant_id \<Rightarrow> uuid \<Rightarrow> tenant_membership \<Rightarrow> bool" where
  "membership_key t u m \<longleftrightarrow> tm_tenant_id m = t \<and> tm_user_id m = u"

definition membership_create ::
  "instant \<Rightarrow> tenant_membership \<Rightarrow> tenant_membership list \<Rightarrow> domain_error + tenant_membership list" where
  "membership_create db_now m rows =
     (if list_ex (membership_key (tm_tenant_id m) (tm_user_id m)) rows then Inl (Conflict ''membership already exists'')
      else Inr (rows @ [m\<lparr>tm_created_at := db_now, tm_updated_at := db_now\<rparr>]))"

definition membership_find :: "tenant_id \<Rightarrow> uuid \<Rightarrow> tenant_membership list \<Rightarrow> tenant_membership option" where
  "membership_find t u rows = find (membership_key t u) rows"

definition list_active_for_user :: "uuid \<Rightarrow> tenant_membership list \<Rightarrow> tenant_membership list" where
  "list_active_for_user u rows =
     sort_key (\<lambda>m. (enum_as_str membership_type_table (tm_membership_type m), tm_created_at m))
       (filter (\<lambda>m. tm_user_id m = u \<and> tm_status m = MemberActive) rows)"

definition is_active_member ::
  "tenant_id \<Rightarrow> uuid \<Rightarrow> tenant_membership list \<Rightarrow> user list \<Rightarrow> tenant list \<Rightarrow> bool" where
  "is_active_member t u rows users tenants =
     list_ex (\<lambda>m. tm_tenant_id m = t \<and> tm_user_id m = u \<and> tm_status m = MemberActive
       \<and> list_ex (\<lambda>x. u_id x = tm_user_id m
            \<and> list_ex (\<lambda>home. t_id home = u_tenant_id x \<and> t_status home = TenantActive) tenants) users) rows"

definition find_by_invitation_token_hash :: "(string \<Rightarrow> string) \<Rightarrow> string \<Rightarrow> tenant_membership list \<Rightarrow> tenant_membership option" where
  "find_by_invitation_token_hash ci h rows =
     find (\<lambda>m. map_option ci (tm_invitation_token_hash m) = Some (ci h) \<and> tm_status m = Invited) rows"

definition membership_update :: "tenant_id \<Rightarrow> uuid \<Rightarrow> (tenant_membership \<Rightarrow> tenant_membership) \<Rightarrow> tenant_membership list \<Rightarrow> tenant_membership list" where
  "membership_update t u f rows = map (\<lambda>m. if membership_key t u m then f m else m) rows"

definition membership_update_status :: "tenant_id \<Rightarrow> uuid \<Rightarrow> membership_status \<Rightarrow> tenant_membership list \<Rightarrow> tenant_membership list" where
  "membership_update_status t u s rows = membership_update t u (\<lambda>m. m\<lparr>tm_status := s\<rparr>) rows"

definition membership_activate :: "tenant_id \<Rightarrow> uuid \<Rightarrow> tenant_membership list \<Rightarrow> tenant_membership list" where
  "membership_activate t u rows =
     membership_update t u (\<lambda>m. m\<lparr>tm_status := MemberActive, tm_invitation_token_hash := None, tm_invitation_expires_at := None\<rparr>) rows"

definition membership_delete :: "tenant_id \<Rightarrow> uuid \<Rightarrow> tenant_membership list \<Rightarrow> tenant_membership list" where
  "membership_delete t u rows = filter (\<lambda>m. \<not> membership_key t u m) rows"

section \<open>Consents\<close>

record client_consent =
  cs_user_id :: uuid
  cs_tenant_id :: tenant_id
  cs_client_id :: string
  cs_scopes :: "string list"
  cs_granted_at :: instant
  cs_updated_at :: instant

definition consent_covers :: "client_consent \<Rightarrow> string list \<Rightarrow> bool" where
  "consent_covers c required_scopes = list_all (\<lambda>s. s \<in> set (cs_scopes c)) required_scopes"

definition consent_key :: "(string \<Rightarrow> string) \<Rightarrow> tenant_id \<Rightarrow> uuid \<Rightarrow> string \<Rightarrow> client_consent \<Rightarrow> bool" where
  "consent_key ci t u client_id c \<longleftrightarrow> cs_user_id c = u \<and> cs_tenant_id c = t \<and> ci (cs_client_id c) = ci client_id"

definition consent_find :: "(string \<Rightarrow> string) \<Rightarrow> tenant_id \<Rightarrow> uuid \<Rightarrow> string \<Rightarrow> client_consent list \<Rightarrow> client_consent option" where
  "consent_find ci t u client_id rows = find (consent_key ci t u client_id) rows"

definition consent_upsert :: "(string \<Rightarrow> string) \<Rightarrow> client_consent \<Rightarrow> client_consent list \<Rightarrow> client_consent list" where
  "consent_upsert ci c rows =
     (let hit = consent_key ci (cs_tenant_id c) (cs_user_id c) (cs_client_id c) in
      if list_ex hit rows
      then map (\<lambda>r. if hit r then r\<lparr>cs_scopes := cs_scopes c, cs_updated_at := cs_updated_at c\<rparr> else r) rows
      else rows @ [c])"

definition consent_revoke :: "(string \<Rightarrow> string) \<Rightarrow> tenant_id \<Rightarrow> uuid \<Rightarrow> string \<Rightarrow> client_consent list \<Rightarrow> client_consent list" where
  "consent_revoke ci t u client_id rows = filter (\<lambda>c. \<not> consent_key ci t u client_id c) rows"

definition consent_list_for_user :: "tenant_id \<Rightarrow> uuid \<Rightarrow> client_consent list \<Rightarrow> client_consent list" where
  "consent_list_for_user t u rows =
     rev (sort_key cs_updated_at (rev (filter (\<lambda>c. cs_user_id c = u \<and> cs_tenant_id c = t) rows)))"

section \<open>Authentication policies\<close>

definition policy_code_taken :: "(string \<Rightarrow> string) \<Rightarrow> authentication_policy \<Rightarrow> authentication_policy \<Rightarrow> bool" where
  "policy_code_taken ci p r \<longleftrightarrow> po_tenant_id r = po_tenant_id p \<and> ci (po_policy_code r) = ci (po_policy_code p)"

definition policy_create ::
  "(string \<Rightarrow> string) \<Rightarrow> authentication_policy \<Rightarrow> authentication_policy list \<Rightarrow> domain_error + authentication_policy list" where
  "policy_create ci p rows =
     (if list_ex (\<lambda>r. po_id r = po_id p \<or> policy_code_taken ci p r) rows
      then Inl (Conflict ''policy code already exists in this tenant'') else Inr (rows @ [p]))"

definition policy_list_for_tenant :: "(string \<Rightarrow> string) \<Rightarrow> tenant_id \<Rightarrow> authentication_policy list \<Rightarrow> authentication_policy list" where
  "policy_list_for_tenant ci t rows =
     sort_key (\<lambda>p. (po_priority p, ci (po_policy_code p))) (filter (\<lambda>p. po_tenant_id p = t) rows)"

definition policy_list_enabled_for_tenant ::
  "(string \<Rightarrow> string) \<Rightarrow> tenant_id \<Rightarrow> authentication_policy list \<Rightarrow> authentication_policy list" where
  "policy_list_enabled_for_tenant ci t rows =
     sort_key (\<lambda>p. (po_priority p, ci (po_policy_code p))) (filter (\<lambda>p. po_tenant_id p = t \<and> po_enabled p) rows)"

definition policy_find_by_id :: "tenant_id \<Rightarrow> uuid \<Rightarrow> authentication_policy list \<Rightarrow> authentication_policy option" where
  "policy_find_by_id t i rows = find (\<lambda>p. po_tenant_id p = t \<and> po_id p = i) rows"

definition policy_update ::
  "(string \<Rightarrow> string) \<Rightarrow> authentication_policy \<Rightarrow> authentication_policy list \<Rightarrow> domain_error + bool \<times> authentication_policy list" where
  "policy_update ci p rows =
     (let hit = (\<lambda>r. po_tenant_id r = po_tenant_id p \<and> po_id r = po_id p) in
      if list_ex hit rows \<and> list_ex (\<lambda>r. \<not> hit r \<and> policy_code_taken ci p r) rows
      then Inl (Conflict ''policy code already exists in this tenant'')
      else Inr (list_ex hit rows,
        map (\<lambda>r. if hit r then p\<lparr>po_created_at := po_created_at r\<rparr> else r) rows))"

definition policy_delete :: "tenant_id \<Rightarrow> uuid \<Rightarrow> authentication_policy list \<Rightarrow> bool \<times> authentication_policy list" where
  "policy_delete t i rows =
     (let hit = (\<lambda>p. po_tenant_id p = t \<and> po_id p = i) in (list_ex hit rows, filter (\<lambda>p. \<not> hit p) rows))"

section \<open>Lemmas\<close>

lemma find_map_updated:
  assumes "\<And>r. P (f r) = P r"
  shows "find P (map (\<lambda>r. if P r then f r else r) rows) = map_option f (find P rows)"
  using assms by (induction rows) auto

lemma find_append: "find P (xs @ ys) = (case find P xs of Some x \<Rightarrow> Some x | None \<Rightarrow> find P ys)"
  by (induction xs) auto

lemma find_map_other:
  assumes "\<And>r. Q r \<Longrightarrow> \<not> P r \<and> \<not> P (f r)"
  shows "find P (map (\<lambda>r. if Q r then f r else r) rows) = find P rows"
  using assms by (induction rows) auto

text \<open>A recorded consent is found again with exactly the scopes of the last approval, and other keys keep theirs.\<close>

lemma consent_find_upsert:
  "consent_find ci t u cl (consent_upsert ci c rows) =
     (if consent_key ci t u cl c
      then Some (case consent_find ci t u cl rows of
          Some r \<Rightarrow> r\<lparr>cs_scopes := cs_scopes c, cs_updated_at := cs_updated_at c\<rparr> | None \<Rightarrow> c)
      else consent_find ci t u cl rows)"
proof -
  let ?hit = "consent_key ci (cs_tenant_id c) (cs_user_id c) (cs_client_id c)"
  have upd: "consent_key ci t u cl (r\<lparr>cs_scopes := s, cs_updated_at := v\<rparr>) = consent_key ci t u cl r" for r s v
    by (simp add: consent_key_def)
  show ?thesis
  proof (cases "consent_key ci t u cl c")
    case True
    then have "?hit = consent_key ci t u cl" by (auto simp: consent_key_def)
    with True show ?thesis
    proof (cases "find (consent_key ci t u cl) rows")
      case None
      then have "\<not> list_ex (consent_key ci t u cl) rows" by (auto simp: find_None_iff list_ex_iff)
      with None True \<open>?hit = _\<close> show ?thesis by (simp add: consent_upsert_def consent_find_def Let_def find_append)
    next
      case (Some r)
      then have "list_ex (consent_key ci t u cl) rows" by (auto simp: list_ex_iff dest: find_Some_mem)
      with Some True \<open>?hit = _\<close> show ?thesis by (simp add: consent_upsert_def consent_find_def Let_def find_map_updated upd)
    qed
  next
    case False
    then have "\<not> consent_key ci t u cl r \<and> \<not> consent_key ci t u cl (r\<lparr>cs_scopes := s, cs_updated_at := v\<rparr>)" if "?hit r" for r s v
      using that by (auto simp: consent_key_def)
    with False show ?thesis
      by (auto simp: consent_upsert_def consent_find_def Let_def find_map_other find_append split: option.splits)
  qed
qed

lemma consent_find_revoke [simp]: "consent_find ci t u cl (consent_revoke ci t u cl rows) = None"
  by (auto simp: consent_find_def consent_revoke_def find_None_iff)

lemma is_active_member_iff:
  "is_active_member t u rows users tenants \<longleftrightarrow>
     (\<exists>m \<in> set rows. membership_key t u m \<and> membership_is_active m)
     \<and> (\<exists>x \<in> set users. u_id x = u \<and> (\<exists>home \<in> set tenants. t_id home = u_tenant_id x \<and> t_status home = TenantActive))"
  unfolding is_active_member_def list_ex_iff membership_key_def membership_is_active_def by blast

text \<open>The policies handed to the evaluation are exactly the enabled ones of the tenant.\<close>

lemma set_policy_list_enabled [simp]:
  "set (policy_list_enabled_for_tenant ci t rows) = {p \<in> set rows. po_tenant_id p = t \<and> po_enabled p}"
  by (auto simp: policy_list_enabled_for_tenant_def)

end
