(* ===== verification/Authenticators.thy ===== *)
theory Authenticators
  imports Entities Single_Use
begin

text \<open>
  The registry of authenticators: \<open>domain/user_authenticator.rs\<close>, \<open>domain/totp_secret.rs\<close>, the statements of
  \<open>infrastructure/repositories/user_authenticator.rs\<close> and \<open>infrastructure/repositories/totp_secret.rs\<close> on the one
  table \<open>user_authenticators\<close>, and \<open>verify_totp_code\<close> of \<open>application/totp_registration.rs\<close>.

  A row carries the columns of \<open>UserAuthenticator\<close> and \<open>totp_last_used_step\<close>.  An \<open>UPDATE\<close> returns the
  number of rows it matched.  The one-time password algorithm itself (\<open>totp-rs\<close>) is the argument \<open>build\<close>:
  it makes a checker of code and time from the secret, or fails.
\<close>

section \<open>Kinds and states\<close>

datatype authenticator_type = AtTotp | AtWebAuthn | AtRecoveryCode | AtEmailOtp | AtSmsOtp

definition authenticator_type_table :: "authenticator_type enum_table" where
  "authenticator_type_table = [(AtTotp, ''totp''), (AtWebAuthn, ''webauthn''), (AtRecoveryCode, ''recovery_code''),
     (AtEmailOtp, ''email_otp''), (AtSmsOtp, ''sms_otp'')]"

fun authenticator_method :: "authenticator_type \<Rightarrow> authentication_method" where
  "authenticator_method AtTotp = Totp"
| "authenticator_method AtWebAuthn = WebAuthn"
| "authenticator_method AtRecoveryCode = RecoveryCode"
| "authenticator_method AtEmailOtp = EmailOtp"
| "authenticator_method AtSmsOtp = SmsOtp"

definition allows_multiple :: "authenticator_type \<Rightarrow> bool" where
  "allows_multiple t \<longleftrightarrow> t \<noteq> AtTotp"

definition is_single_use :: "authenticator_type \<Rightarrow> bool" where
  "is_single_use t \<longleftrightarrow> t \<in> {AtRecoveryCode, AtEmailOtp, AtSmsOtp}"

datatype authenticator_status = StPending | StActive | StSuspended | StRevoked

definition authenticator_status_table :: "authenticator_status enum_table" where
  "authenticator_status_table = [(StPending, ''pending''), (StActive, ''active''), (StSuspended, ''suspended''), (StRevoked, ''revoked'')]"

definition status_is_usable :: "authenticator_status \<Rightarrow> bool" where
  "status_is_usable s \<longleftrightarrow> s = StActive"

definition status_is_terminal :: "authenticator_status \<Rightarrow> bool" where
  "status_is_terminal s \<longleftrightarrow> s = StRevoked"

definition can_transition_to :: "authenticator_status \<Rightarrow> authenticator_status \<Rightarrow> bool" where
  "can_transition_to s s' =
     (if s = s' then True
      else case (s, s') of
        (StRevoked, _) \<Rightarrow> False
      | (_, StRevoked) \<Rightarrow> True
      | (StPending, StActive) \<Rightarrow> True
      | (StActive, StSuspended) \<Rightarrow> True
      | (StSuspended, StActive) \<Rightarrow> True
      | _ \<Rightarrow> False)"

definition otp_send_window_secs :: int where
  "otp_send_window_secs = 3600"

section \<open>Rows\<close>

record user_authenticator =
  ua_id :: uuid
  ua_user_id :: uuid
  ua_type :: authenticator_type
  ua_status :: authenticator_status
  ua_label :: string
  ua_secret_encrypted :: "string option"
  ua_target :: "string option"
  ua_confirmed_at :: "instant option"
  ua_last_used_at :: "instant option"
  ua_expires_at :: "instant option"
  ua_revoked_at :: "instant option"
  ua_created_at :: instant
  ua_updated_at :: instant
  ua_totp_last_used_step :: "int option"

definition is_blocked :: "user_authenticator \<Rightarrow> bool" where
  "is_blocked a \<longleftrightarrow> ua_status a \<in> {StSuspended, StRevoked}"

definition is_usable_at :: "user_authenticator \<Rightarrow> instant \<Rightarrow> bool" where
  "is_usable_at a now \<longleftrightarrow> status_is_usable (ua_status a) \<and> (case ua_expires_at a of None \<Rightarrow> True | Some e \<Rightarrow> e > now)"

definition counts_as_second_factor :: "user_authenticator \<Rightarrow> bool" where
  "counts_as_second_factor a \<longleftrightarrow> is_second_factor (authenticator_method (ua_type a))"

section \<open>The repository\<close>

definition authn_create :: "instant \<Rightarrow> user_authenticator \<Rightarrow> user_authenticator list \<Rightarrow> domain_error + user_authenticator list" where
  "authn_create db_now a rows =
     (if list_ex (\<lambda>r. ua_id r = ua_id a) rows then Inl (Conflict ''authenticator already registered'')
      else Inr (rows @ [a\<lparr>ua_created_at := db_now, ua_updated_at := db_now, ua_totp_last_used_step := None\<rparr>]))"

definition authn_find_by_id :: "uuid \<Rightarrow> user_authenticator list \<Rightarrow> user_authenticator option" where
  "authn_find_by_id i rows = find (\<lambda>r. ua_id r = i) rows"

definition newest_first :: "(user_authenticator \<Rightarrow> instant) \<Rightarrow> user_authenticator list \<Rightarrow> user_authenticator list" where
  "newest_first key rows = rev (sort_key key (rev rows))"

definition authn_list_for_user :: "uuid \<Rightarrow> user_authenticator list \<Rightarrow> user_authenticator list" where
  "authn_list_for_user u rows = newest_first ua_created_at (filter (\<lambda>r. ua_user_id r = u) rows)"

definition authn_list_usable ::
  "uuid \<Rightarrow> authenticator_type option \<Rightarrow> instant \<Rightarrow> user_authenticator list \<Rightarrow> user_authenticator list" where
  "authn_list_usable u ty now rows = newest_first ua_created_at
     (filter (\<lambda>r. ua_user_id r = u \<and> ua_status r = StActive \<and> (case ua_expires_at r of None \<Rightarrow> True | Some e \<Rightarrow> e > now)
        \<and> (case ty of None \<Rightarrow> True | Some t \<Rightarrow> ua_type r = t)) rows)"

definition authn_update ::
  "(user_authenticator \<Rightarrow> bool) \<Rightarrow> (user_authenticator \<Rightarrow> user_authenticator) \<Rightarrow> user_authenticator list
   \<Rightarrow> nat \<times> user_authenticator list" where
  "authn_update hit f rows = (length (filter hit rows), map (\<lambda>r. if hit r then f r else r) rows)"

definition coalesce :: "'a option \<Rightarrow> 'a option \<Rightarrow> 'a option" where
  "coalesce x y = (case x of None \<Rightarrow> y | Some _ \<Rightarrow> x)"

definition authn_update_status ::
  "uuid \<Rightarrow> uuid \<Rightarrow> authenticator_status \<Rightarrow> instant \<Rightarrow> user_authenticator list \<Rightarrow> bool \<times> user_authenticator list" where
  "authn_update_status i u s at rows =
     (let (n, rows') = authn_update (\<lambda>r. ua_id r = i \<and> ua_user_id r = u)
        (\<lambda>r. r\<lparr>ua_status := s, ua_revoked_at := (if s = StRevoked then Some at else None),
              ua_confirmed_at := (if s = StActive then coalesce (ua_confirmed_at r) (Some at) else ua_confirmed_at r)\<rparr>) rows
      in (n = 1, rows'))"

definition authn_update_label :: "uuid \<Rightarrow> uuid \<Rightarrow> string \<Rightarrow> user_authenticator list \<Rightarrow> bool \<times> user_authenticator list" where
  "authn_update_label i u label rows =
     (let (n, rows') = authn_update (\<lambda>r. ua_id r = i \<and> ua_user_id r = u) (\<lambda>r. r\<lparr>ua_label := label\<rparr>) rows in (n = 1, rows'))"

definition authn_touch_last_used :: "uuid \<Rightarrow> instant \<Rightarrow> user_authenticator list \<Rightarrow> user_authenticator list" where
  "authn_touch_last_used i at rows = snd (authn_update (\<lambda>r. ua_id r = i) (\<lambda>r. r\<lparr>ua_last_used_at := Some at\<rparr>) rows)"

text \<open>\<open>ci\<close> is the key under which the collation of the column compares strings.\<close>

definition secret_matches :: "(string \<Rightarrow> string) \<Rightarrow> uuid \<Rightarrow> authenticator_type \<Rightarrow> string \<Rightarrow> user_authenticator \<Rightarrow> bool" where
  "secret_matches ci u ty h r \<longleftrightarrow> ua_user_id r = u \<and> ua_type r = ty \<and> map_option ci (ua_secret_encrypted r) = Some (ci h)"

definition claimable ::
  "(string \<Rightarrow> string) \<Rightarrow> uuid \<Rightarrow> authenticator_type \<Rightarrow> string \<Rightarrow> authenticator_status \<Rightarrow> instant \<Rightarrow> user_authenticator \<Rightarrow> bool" where
  "claimable ci u ty h s now r \<longleftrightarrow> secret_matches ci u ty h r \<and> ua_status r = s
     \<and> (case ua_expires_at r of None \<Rightarrow> True | Some e \<Rightarrow> e > now)"

definition authn_consume_single_use ::
  "(string \<Rightarrow> string) \<Rightarrow> uuid \<Rightarrow> authenticator_type \<Rightarrow> string \<Rightarrow> instant \<Rightarrow> user_authenticator list
   \<Rightarrow> nat \<times> user_authenticator list" where
  "authn_consume_single_use ci u ty h now rows = authn_update (claimable ci u ty h StActive now)
     (\<lambda>r. r\<lparr>ua_status := StRevoked, ua_revoked_at := Some now, ua_last_used_at := Some now\<rparr>) rows"

text \<open>\<open>ORDER BY revoked_at DESC LIMIT 1\<close>; \<open>NULL\<close> comes last.\<close>

definition authn_consumed_row :: "(string \<Rightarrow> string) \<Rightarrow> uuid \<Rightarrow> authenticator_type \<Rightarrow> string \<Rightarrow> user_authenticator list \<Rightarrow> user_authenticator option" where
  "authn_consumed_row ci u ty h rows =
     (let found = filter (secret_matches ci u ty h) rows;
          dated = filter (\<lambda>r. ua_revoked_at r \<noteq> None) found
      in case newest_first (\<lambda>r. the (ua_revoked_at r)) dated of
           r # _ \<Rightarrow> Some r
         | [] \<Rightarrow> (case found of [] \<Rightarrow> None | r # _ \<Rightarrow> Some r))"

definition authn_revoke_all_of_type :: "uuid \<Rightarrow> authenticator_type \<Rightarrow> instant \<Rightarrow> user_authenticator list \<Rightarrow> nat \<times> user_authenticator list" where
  "authn_revoke_all_of_type u ty at rows =
     authn_update (\<lambda>r. ua_user_id r = u \<and> ua_type r = ty \<and> ua_status r \<noteq> StRevoked)
       (\<lambda>r. r\<lparr>ua_status := StRevoked, ua_revoked_at := Some at\<rparr>) rows"

definition authn_revoke_issued_codes :: "uuid \<Rightarrow> authenticator_type \<Rightarrow> instant \<Rightarrow> user_authenticator list \<Rightarrow> nat \<times> user_authenticator list" where
  "authn_revoke_issued_codes u ty at rows =
     authn_update (\<lambda>r. ua_user_id r = u \<and> ua_type r = ty \<and> ua_status r \<noteq> StRevoked \<and> ua_expires_at r \<noteq> None)
       (\<lambda>r. r\<lparr>ua_status := StRevoked, ua_revoked_at := Some at\<rparr>) rows"

definition authn_confirm_pending ::
  "(string \<Rightarrow> string) \<Rightarrow> uuid \<Rightarrow> authenticator_type \<Rightarrow> string \<Rightarrow> instant \<Rightarrow> user_authenticator list
   \<Rightarrow> nat \<times> user_authenticator list" where
  "authn_confirm_pending ci u ty h now rows = authn_update (claimable ci u ty h StPending now)
     (\<lambda>r. r\<lparr>ua_status := StActive, ua_confirmed_at := Some now, ua_secret_encrypted := None, ua_expires_at := None\<rparr>) rows"

definition authn_confirmed_row :: "uuid \<Rightarrow> authenticator_type \<Rightarrow> user_authenticator list \<Rightarrow> user_authenticator option" where
  "authn_confirmed_row u ty rows =
     (let found = filter (\<lambda>r. ua_user_id r = u \<and> ua_type r = ty \<and> ua_status r = StActive) rows;
          dated = filter (\<lambda>r. ua_confirmed_at r \<noteq> None) found
      in case newest_first (\<lambda>r. the (ua_confirmed_at r)) dated of
           r # _ \<Rightarrow> Some r
         | [] \<Rightarrow> (case found of [] \<Rightarrow> None | r # _ \<Rightarrow> Some r))"

definition authn_delete_expired :: "instant \<Rightarrow> user_authenticator list \<Rightarrow> nat \<times> user_authenticator list" where
  "authn_delete_expired now rows =
     (let keep_until = now - secs otp_send_window_secs;
          hit = (\<lambda>r. case ua_expires_at r of None \<Rightarrow> False | Some e \<Rightarrow> e \<le> keep_until)
      in (length (filter hit rows), filter (\<lambda>r. \<not> hit r) rows))"

section \<open>Shared secrets of one-time password apps\<close>

record totp_secret =
  ts_user_id :: uuid
  ts_secret_encrypted :: string
  ts_confirmed_at :: "instant option"
  ts_created_at :: instant
  ts_updated_at :: instant

definition totp_is_confirmed :: "totp_secret \<Rightarrow> bool" where
  "totp_is_confirmed s \<longleftrightarrow> ts_confirmed_at s \<noteq> None"

definition live_totp :: "uuid \<Rightarrow> user_authenticator \<Rightarrow> bool" where
  "live_totp u r \<longleftrightarrow> ua_user_id r = u \<and> ua_type r = AtTotp \<and> ua_status r \<noteq> StRevoked"

definition totp_upsert :: "totp_secret \<Rightarrow> user_authenticator list \<Rightarrow> domain_error + user_authenticator list" where
  "totp_upsert s rows =
     (let (n, rows') = authn_update (live_totp (ts_user_id s))
        (\<lambda>r. r\<lparr>ua_secret_encrypted := Some (ts_secret_encrypted s), ua_confirmed_at := coalesce (ua_confirmed_at r) (ts_confirmed_at s)\<rparr>) rows
      in if n = 0 then Inl (Repository ''no active totp authenticator row to store the shared secret on'') else Inr rows')"

definition totp_find_by_user_id :: "uuid \<Rightarrow> user_authenticator list \<Rightarrow> totp_secret option" where
  "totp_find_by_user_id u rows =
     (case newest_first ua_created_at (filter (\<lambda>r. live_totp u r \<and> ua_secret_encrypted r \<noteq> None) rows) of
        [] \<Rightarrow> None
      | r # _ \<Rightarrow> Some \<lparr>ts_user_id = ua_user_id r, ts_secret_encrypted = the (ua_secret_encrypted r), ts_confirmed_at = ua_confirmed_at r,
                      ts_created_at = ua_created_at r, ts_updated_at = ua_updated_at r\<rparr>)"

definition totp_confirm :: "uuid \<Rightarrow> instant \<Rightarrow> user_authenticator list \<Rightarrow> user_authenticator list" where
  "totp_confirm u at rows = snd (authn_update (\<lambda>r. live_totp u r \<and> ua_confirmed_at r = None) (\<lambda>r. r\<lparr>ua_confirmed_at := Some at\<rparr>) rows)"

definition totp_delete :: "uuid \<Rightarrow> user_authenticator list \<Rightarrow> user_authenticator list" where
  "totp_delete u rows = snd (authn_update (\<lambda>r. ua_user_id r = u \<and> ua_type r = AtTotp) (\<lambda>r. r\<lparr>ua_secret_encrypted := None\<rparr>) rows)"

definition last_step :: "user_authenticator \<Rightarrow> int" where
  "last_step r = (case ua_totp_last_used_step r of None \<Rightarrow> - 1 | Some s \<Rightarrow> s)"

definition record_totp_step_if_newer :: "uuid \<Rightarrow> int \<Rightarrow> instant \<Rightarrow> user_authenticator list \<Rightarrow> bool \<times> user_authenticator list" where
  "record_totp_step_if_newer u step at rows =
     (let (n, rows') = authn_update (\<lambda>r. live_totp u r \<and> last_step r < step)
        (\<lambda>r. r\<lparr>ua_totp_last_used_step := Some step, ua_last_used_at := Some at\<rparr>) rows
      in (n > 0, rows'))"

section \<open>Checking a code\<close>

definition totp_step :: nat where
  "totp_step = 30"

definition totp_skew :: int where
  "totp_skew = 1"

datatype totp_registration_error =
  TotpAlreadyConfigured | TotpInvalidCode | TotpNotFound | TotpSessionExpired | TotpInternal string

fun totp_error_display :: "totp_registration_error \<Rightarrow> string" where
  "totp_error_display TotpAlreadyConfigured = ''totp already configured and confirmed''"
| "totp_error_display TotpInvalidCode = ''invalid totp code''"
| "totp_error_display TotpNotFound = ''no pending totp setup found''"
| "totp_error_display TotpSessionExpired = ''sso session expired or not found''"
| "totp_error_display (TotpInternal e) = ''internal error: '' @ e"

definition verify_totp_code ::
  "(string \<Rightarrow> string + (string \<Rightarrow> nat \<Rightarrow> bool)) \<Rightarrow> string + nat \<Rightarrow> string \<Rightarrow> string \<Rightarrow> totp_registration_error + nat option" where
  "verify_totp_code build clock secret code =
     rbind (map_err (\<lambda>e. TotpInternal (''failed to build TOTP: '' @ e)) (build secret)) (\<lambda>check.
     rbind (map_err (\<lambda>e. TotpInternal (''system clock before epoch: '' @ e)) clock) (\<lambda>now_secs.
     let base = int (now_secs div totp_step) in
     Inr (map_option nat
       (find (\<lambda>step. 0 \<le> step \<and> check code (nat step * totp_step)) (rev [base - totp_skew .. base + totp_skew])))))"

section \<open>Lemmas\<close>

interpretation authenticator_type: string_enum authenticator_type_table
  by unfold_locales (simp add: authenticator_type_table_def enum_table_simps, rename_tac v, case_tac v, simp_all add: authenticator_type_table_def)

interpretation authenticator_status: string_enum authenticator_status_table
  by unfold_locales (simp add: authenticator_status_table_def enum_table_simps, rename_tac v, case_tac v, simp_all add: authenticator_status_table_def)

text \<open>Revocation is terminal; a registration is usable only through \<open>active\<close>.\<close>

lemma revoked_is_terminal: "can_transition_to StRevoked s \<longleftrightarrow> s = StRevoked"
  by (simp add: can_transition_to_def)

lemma transition_chain_from_revoked:
  "(\<lambda>a b. can_transition_to a b)\<^sup>*\<^sup>* StRevoked s \<Longrightarrow> s = StRevoked"
  by (induction rule: rtranclp_induct) (auto simp: revoked_is_terminal)

lemma authn_update_ids: "map ua_id (snd (authn_update hit f rows)) = map ua_id rows" if "\<And>r. ua_id (f r) = ua_id r"
  using that by (simp add: authn_update_def)

lemma set_newest_first [simp]: "set (newest_first key rows) = set rows"
  by (simp add: newest_first_def)

lemma authn_update_count: "fst (authn_update hit f rows) > 0 \<longleftrightarrow> (\<exists>r \<in> set rows. hit r)"
  by (auto simp: authn_update_def filter_empty_conv)

lemma set_authn_update: "set (snd (authn_update hit f rows)) = f ` {r \<in> set rows. hit r} \<union> {r \<in> set rows. \<not> hit r}"
  by (auto simp: authn_update_def)

lemma verify_totp_code_matched:
  assumes "verify_totp_code build clock secret code = Inr (Some step)"
  shows "\<exists>check now_secs. build secret = Inr check \<and> clock = Inr now_secs \<and> check code (step * totp_step)
    \<and> int (now_secs div totp_step) - 1 \<le> int step \<and> int step \<le> int (now_secs div totp_step) + 1"
proof -
  from assms obtain check now_secs s where b: "build secret = Inr check" "clock = Inr now_secs" "step = nat s"
    and f: "find (\<lambda>step. 0 \<le> step \<and> check code (nat step * totp_step))
      (rev [int (now_secs div totp_step) - totp_skew .. int (now_secs div totp_step) + totp_skew]) = Some s"
    by (auto simp: verify_totp_code_def Let_def rbind_Inr_iff)
  from find_Some_mem [OF f] b show ?thesis by (auto simp: totp_skew_def)
qed

text \<open>A time step is recorded at most once per user while no new one-time password app is registered.\<close>

definition record_step_statement :: "uuid \<times> int \<times> instant \<Rightarrow> user_authenticator list \<Rightarrow> bool \<times> user_authenticator list" where
  "record_step_statement x rows = (case x of (u, step, at) \<Rightarrow> record_totp_step_if_newer u step at rows)"

definition step_key :: "uuid \<times> int \<times> instant \<Rightarrow> uuid \<times> int" where
  "step_key x = (case x of (u, step, at) \<Rightarrow> (u, step))"

definition step_live :: "uuid \<times> int \<Rightarrow> user_authenticator list \<Rightarrow> bool" where
  "step_live k rows = (case k of (u, step) \<Rightarrow> \<exists>r \<in> set rows. live_totp u r \<and> last_step r < step)"

inductive totp_other_step :: "uuid \<times> int \<Rightarrow> user_authenticator list \<Rightarrow> user_authenticator list \<Rightarrow> bool" for k where
  other_create: "authn_create t a rows = Inr rows' \<Longrightarrow> \<not> live_totp (fst k) a \<Longrightarrow> totp_other_step k rows rows'"
| other_revoke: "totp_other_step k rows (snd (authn_revoke_all_of_type u ty at rows))"
| other_consume: "totp_other_step k rows (snd (authn_consume_single_use ci u ty h now rows))"
| other_status: "\<forall>r \<in> set rows. ua_id r = i \<longrightarrow> can_transition_to (ua_status r) s
    \<Longrightarrow> totp_other_step k rows (snd (authn_update_status i u s at rows))"
| other_upsert: "totp_upsert sec rows = Inr rows' \<Longrightarrow> totp_other_step k rows rows'"
| other_confirm: "totp_other_step k rows (totp_confirm u at rows)"
| other_delete: "totp_other_step k rows (totp_delete u rows)"
| other_purge: "totp_other_step k rows (snd (authn_delete_expired now rows))"

lemma step_dead_update:
  assumes "\<not> step_live k rows" and "\<And>r. r \<in> set rows \<Longrightarrow> hit r \<Longrightarrow> live_totp (fst k) (f r) \<Longrightarrow> live_totp (fst k) r \<and> last_step r \<le> last_step (f r)"
  shows "\<not> step_live k (snd (authn_update hit f rows))"
  using assms unfolding step_live_def set_authn_update by (cases k) (fastforce dest: order.strict_trans1)

lemma totp_other_dead:
  assumes "totp_other_step k rows rows'" and "\<not> step_live k rows"
  shows "\<not> step_live k rows'"
  using assms
proof cases
  case (other_create t a)
  then have "rows' = rows @ [a\<lparr>ua_created_at := t, ua_updated_at := t, ua_totp_last_used_step := None\<rparr>]"
    by (auto simp: authn_create_def split: if_splits)
  with assms other_create(2) show ?thesis by (auto simp: step_live_def live_totp_def)
next
  case (other_status i s u at)
  have "\<not> step_live k (snd (authn_update (\<lambda>r. ua_id r = i \<and> ua_user_id r = u)
        (\<lambda>r. r\<lparr>ua_status := s, ua_revoked_at := (if s = StRevoked then Some at else None),
              ua_confirmed_at := (if s = StActive then coalesce (ua_confirmed_at r) (Some at) else ua_confirmed_at r)\<rparr>) rows))"
    using other_status(2) revoked_is_terminal
    by (intro step_dead_update assms(2)) (auto simp: live_totp_def last_step_def)
  with other_status(1) show ?thesis by (simp add: authn_update_status_def case_prod_beta Let_def)
next
  case (other_purge now)
  with assms(2) show ?thesis by (auto simp: authn_delete_expired_def step_live_def Let_def)
next
  case (other_upsert sec)
  then have r: "rows' = snd (authn_update (live_totp (ts_user_id sec))
        (\<lambda>r. r\<lparr>ua_secret_encrypted := Some (ts_secret_encrypted sec), ua_confirmed_at := coalesce (ua_confirmed_at r) (ts_confirmed_at sec)\<rparr>) rows)"
    by (auto simp: totp_upsert_def split: prod.splits if_splits)
  show ?thesis unfolding r
    by (intro step_dead_update assms(2)) (auto simp: live_totp_def last_step_def)
qed (simp only: authn_revoke_all_of_type_def authn_consume_single_use_def totp_confirm_def totp_delete_def;
     intro step_dead_update assms(2); auto simp: live_totp_def last_step_def)+

lemma record_step_rows: "record_totp_step_if_newer u step at rows =
    (\<exists>r \<in> set rows. live_totp u r \<and> last_step r < step,
     snd (authn_update (\<lambda>r. live_totp u r \<and> last_step r < step)
        (\<lambda>r. r\<lparr>ua_totp_last_used_step := Some step, ua_last_used_at := Some at\<rparr>) rows))"
  by (simp add: record_totp_step_if_newer_def case_prod_beta Let_def authn_update_count del: fst_conv)

lemma record_step_dead:
  assumes "\<not> step_live k rows"
  shows "\<not> step_live k (snd (record_totp_step_if_newer u step at rows))"
  unfolding record_step_rows snd_conv by (intro step_dead_update assms) (auto simp: live_totp_def last_step_def)

lemma record_step_kills: "\<not> step_live (u, step) (snd (record_totp_step_if_newer u step at rows))"
proof -
  have "\<not> last_step r < step" if "r \<in> set (snd (record_totp_step_if_newer u step at rows))" "live_totp u r" for r
  proof -
    from that(1) obtain x where "r = x\<lparr>ua_totp_last_used_step := Some step, ua_last_used_at := Some at\<rparr>
        \<or> r = x \<and> \<not> (live_totp u x \<and> last_step x < step)"
      unfolding record_step_rows snd_conv set_authn_update by blast
    with that(2) show ?thesis by (auto simp: last_step_def)
  qed
  then show ?thesis by (auto simp: step_live_def)
qed

interpretation totp_steps: single_use_store "\<lambda>_. True" step_live step_key record_step_statement totp_other_step
proof
  fix rows rows' x
  assume "record_step_statement x rows = (True, rows')"
  then show "step_live (step_key x) rows \<and> \<not> step_live (step_key x) rows'"
    using record_step_kills [of "fst x" "fst (snd x)" "snd (snd x)" rows]
    by (cases x) (simp add: record_step_statement_def step_key_def step_live_def record_step_rows)
next
  fix rows rows' x b k
  assume "record_step_statement x rows = (b, rows')" and "\<not> step_live k rows"
  then show "\<not> step_live k rows'"
    using record_step_dead [of k rows "fst x" "fst (snd x)" "snd (snd x)"]
    by (cases x) (simp add: record_step_statement_def)
qed (auto dest: totp_other_dead)

end
