(* ===== verification/Login_Identifiers.thy ===== *)
theory Login_Identifiers
  imports Tenant_Tables
begin

text \<open>
  Who an input of the sign-in form names: \<open>domain/login_identifier.rs\<close>, \<open>domain/tenant_domain.rs\<close>, the registry
  queries of \<open>infrastructure/repositories/user.rs\<close>, \<open>infrastructure/repositories/user_login_identifier.rs\<close> and
  \<open>infrastructure/repositories/tenant_domain.rs\<close>, and \<open>application/login_user_resolution.rs\<close>.

  \<open>lower\<close> and \<open>upper\<close> are the case mappings \<open>str::to_lowercase\<close> and \<open>to_uppercase\<close> (the Unicode tables);
  \<open>ci\<close> is the key of the collation.
\<close>

section \<open>Kinds of identifiers\<close>

datatype login_identifier_type = LiUsername | LiEmail | LiPhoneNumber | LiEmployeeNumber

definition login_identifier_type_table :: "login_identifier_type enum_table" where
  "login_identifier_type_table = [(LiUsername, ''username''), (LiEmail, ''email''), (LiPhoneNumber, ''phone_number''),
     (LiEmployeeNumber, ''employee_number'')]"

definition normalized_value_max_len :: nat where
  "normalized_value_max_len = 255"

definition display_value_max_len :: nat where
  "display_value_max_len = 320"

definition phone_min_digits :: nat where
  "phone_min_digits = 6"

definition phone_max_digits :: nat where
  "phone_max_digits = 20"

definition is_digit :: "char \<Rightarrow> bool" where
  "is_digit c \<longleftrightarrow> 48 \<le> byte_val c \<and> byte_val c \<le> 57"

function remove_ws :: "string \<Rightarrow> string" where
  "remove_ws [] = []"
| "remove_ws (c # cs) =
     (if 0 < ws_len (c # cs) then remove_ws (drop (ws_len (c # cs)) (c # cs)) else c # remove_ws cs)"
  by pat_completeness auto
termination
  by (relation "measure length") auto

fun contains_ws :: "string \<Rightarrow> bool" where
  "contains_ws [] = False"
| "contains_ws (c # cs) = (0 < ws_len (c # cs) \<or> contains_ws cs)"

definition identifier_normalize :: "(string \<Rightarrow> string) \<Rightarrow> (string \<Rightarrow> string) \<Rightarrow> login_identifier_type \<Rightarrow> string \<Rightarrow> string" where
  "identifier_normalize lower upper ty raw =
     (let trimmed = trim raw in
      case ty of
        LiUsername \<Rightarrow> lower trimmed
      | LiEmail \<Rightarrow> lower trimmed
      | LiPhoneNumber \<Rightarrow>
          (let digits = filter is_digit trimmed in
           if trimmed \<noteq> [] \<and> hd trimmed = CHR ''+'' then CHR ''+'' # digits else digits)
      | LiEmployeeNumber \<Rightarrow> upper (remove_ws trimmed))"

definition identifier_accepts :: "login_identifier_type \<Rightarrow> string \<Rightarrow> bool" where
  "identifier_accepts ty raw =
     (let trimmed = trim raw in
      if trimmed = [] then False
      else case ty of
        LiUsername \<Rightarrow> True
      | LiEmail \<Rightarrow>
          (let parts = split_on CHR ''@'' trimmed in length parts = 2 \<and> parts ! 0 \<noteq> [] \<and> parts ! 1 \<noteq> [])
      | LiPhoneNumber \<Rightarrow>
          (let digits = length (filter is_digit trimmed) in
           list_all (\<lambda>c. is_digit c \<or> c \<in> set ''+- ().'') trimmed \<and> phone_min_digits \<le> digits \<and> digits \<le> phone_max_digits)
      | LiEmployeeNumber \<Rightarrow> \<not> contains_ws trimmed)"

definition normalize_checked ::
  "(string \<Rightarrow> string) \<Rightarrow> (string \<Rightarrow> string) \<Rightarrow> login_identifier_type \<Rightarrow> string \<Rightarrow> message_key + string" where
  "normalize_checked lower upper ty raw =
     (let trimmed = trim raw in
      if trimmed = [] then Inl (message_new ''api-login-identifier-required'')
      else if chars_count trimmed > display_value_max_len
      then Inl (message_with_value ''api-login-identifier-too-long'' (nat_to_string display_value_max_len))
      else if \<not> identifier_accepts ty trimmed
      then Inl (message_new (case ty of LiEmail \<Rightarrow> ''api-email-invalid'' | LiPhoneNumber \<Rightarrow> ''api-login-identifier-phone-invalid''
             | LiEmployeeNumber \<Rightarrow> ''api-login-identifier-employee-invalid'' | LiUsername \<Rightarrow> ''api-login-identifier-required''))
      else let normalized = identifier_normalize lower upper ty trimmed in
        if normalized = [] then Inl (message_new ''api-login-identifier-required'')
        else if chars_count normalized > normalized_value_max_len
        then Inl (message_with_value ''api-login-identifier-too-long'' (nat_to_string normalized_value_max_len))
        else Inr normalized)"

section \<open>Matches\<close>

datatype unresolved_reason = IdNotFound | IdAmbiguous

fun unresolved_audit_code :: "unresolved_reason \<Rightarrow> string" where
  "unresolved_audit_code IdNotFound = ''unknown_user''"
| "unresolved_audit_code IdAmbiguous = ''ambiguous_identifier''"

datatype login_identifier_match = Resolved user | Unresolved unresolved_reason

definition is_taken :: "login_identifier_match \<Rightarrow> bool" where
  "is_taken m \<longleftrightarrow> m \<noteq> Unresolved IdNotFound"

definition into_user :: "login_identifier_match \<Rightarrow> user option" where
  "into_user m = (case m of Resolved u \<Rightarrow> Some u | Unresolved _ \<Rightarrow> None)"

definition match_of_option :: "user option \<Rightarrow> login_identifier_match" where
  "match_of_option found = (case found of Some u \<Rightarrow> Resolved u | None \<Rightarrow> Unresolved IdNotFound)"

definition add_candidate ::
  "(string \<Rightarrow> string) \<Rightarrow> (string \<Rightarrow> string) \<Rightarrow> string \<Rightarrow> (login_identifier_type \<times> string) list \<Rightarrow> login_identifier_type
   \<Rightarrow> (login_identifier_type \<times> string) list" where
  "add_candidate lower upper input out kind =
     (if \<not> identifier_accepts kind input then out
      else let normalized = identifier_normalize lower upper kind input in
        if normalized = [] \<or> chars_count normalized > normalized_value_max_len then out
        else if list_ex (\<lambda>(k, v). k = kind \<and> v = normalized) out then out
        else out @ [(kind, normalized)])"

definition lookup_candidates :: "(string \<Rightarrow> string) \<Rightarrow> (string \<Rightarrow> string) \<Rightarrow> string \<Rightarrow> (login_identifier_type \<times> string) list" where
  "lookup_candidates lower upper input =
     foldl (add_candidate lower upper input) [] [LiUsername, LiEmail, LiPhoneNumber, LiEmployeeNumber]"

section \<open>The registry\<close>

record user_login_identifier =
  li_id :: uuid
  li_tenant_id :: tenant_id
  li_user_id :: uuid
  li_identifier_type :: login_identifier_type
  li_display_value :: string
  li_normalized_value :: string
  li_is_active :: bool
  li_is_primary :: bool
  li_is_primary_email :: bool
  li_created_at :: instant
  li_updated_at :: instant

text \<open>The unique keys: the id, tenant and value, and one primary row per user.  \<open>INSERT\<close> never sets the mark of the
  primary address.\<close>

definition identifier_clash :: "(string \<Rightarrow> string) \<Rightarrow> user_login_identifier \<Rightarrow> user_login_identifier \<Rightarrow> bool" where
  "identifier_clash ci i r \<longleftrightarrow> li_id r = li_id i
     \<or> li_tenant_id r = li_tenant_id i \<and> ci (li_normalized_value r) = ci (li_normalized_value i)
     \<or> li_is_primary i \<and> li_is_primary r \<and> li_user_id r = li_user_id i"

definition identifier_create ::
  "(string \<Rightarrow> string) \<Rightarrow> instant \<Rightarrow> user_login_identifier \<Rightarrow> user_login_identifier list \<Rightarrow> domain_error + user_login_identifier list" where
  "identifier_create ci db_now i rows =
     (if list_ex (identifier_clash ci i) rows then Inl (Conflict ''login identifier already exists'')
      else Inr (rows @ [i\<lparr>li_is_primary_email := False, li_created_at := db_now, li_updated_at := db_now\<rparr>]))"

definition identifier_list_for_user :: "uuid \<Rightarrow> user_login_identifier list \<Rightarrow> user_login_identifier list" where
  "identifier_list_for_user u rows =
     sort_key (\<lambda>i. enum_as_str login_identifier_type_table (li_identifier_type i))
       (sort_key li_created_at (sort_key li_id (filter (\<lambda>i. li_user_id i = u) rows)))"

definition identifier_find_by_id :: "uuid \<Rightarrow> user_login_identifier list \<Rightarrow> user_login_identifier option" where
  "identifier_find_by_id i rows = find (\<lambda>r. li_id r = i) rows"

definition additional_identifier :: "uuid \<Rightarrow> uuid \<Rightarrow> user_login_identifier \<Rightarrow> bool" where
  "additional_identifier i u r \<longleftrightarrow> li_id r = i \<and> li_user_id r = u \<and> \<not> li_is_primary r \<and> \<not> li_is_primary_email r"

definition identifier_set_active :: "uuid \<Rightarrow> uuid \<Rightarrow> bool \<Rightarrow> user_login_identifier list \<Rightarrow> bool \<times> user_login_identifier list" where
  "identifier_set_active i u active rows =
     (list_ex (additional_identifier i u) rows,
      map (\<lambda>r. if additional_identifier i u r then r\<lparr>li_is_active := active\<rparr> else r) rows)"

definition identifier_delete :: "uuid \<Rightarrow> uuid \<Rightarrow> user_login_identifier list \<Rightarrow> bool \<times> user_login_identifier list" where
  "identifier_delete i u rows =
     (list_ex (additional_identifier i u) rows, filter (\<lambda>r. \<not> additional_identifier i u r) rows)"

datatype identifier_scope = ScopeHome | ScopeActiveGuest | ScopeMemberWithHomeTenant tenant_id

definition home_active :: "tenant list \<Rightarrow> user \<Rightarrow> bool" where
  "home_active tenants u = list_ex (\<lambda>home. t_id home = u_tenant_id u \<and> t_status home = TenantActive) tenants"

definition in_scope ::
  "identifier_scope \<Rightarrow> tenant_id \<Rightarrow> tenant_membership list \<Rightarrow> tenant list \<Rightarrow> user_login_identifier \<Rightarrow> user \<Rightarrow> bool" where
  "in_scope scope t members tenants i u =
     (case scope of
        ScopeHome \<Rightarrow> li_tenant_id i = t
      | ScopeActiveGuest \<Rightarrow>
          list_ex (\<lambda>m. tm_user_id m = u_id u \<and> tm_tenant_id m = t \<and> tm_membership_type m = Guest \<and> tm_status m = MemberActive) members
          \<and> home_active tenants u \<and> li_tenant_id i = u_tenant_id u
      | ScopeMemberWithHomeTenant home \<Rightarrow>
          list_ex (\<lambda>m. tm_user_id m = u_id u \<and> tm_tenant_id m = t \<and> tm_status m = MemberActive) members
          \<and> home_active tenants u \<and> u_tenant_id u = home \<and> li_tenant_id i = u_tenant_id u)"

definition identifier_hits ::
  "(string \<Rightarrow> string) \<Rightarrow> tenant list \<Rightarrow> (login_identifier_type \<times> string) list \<Rightarrow> user_login_identifier \<Rightarrow> bool" where
  "identifier_hits ci tenants candidates i \<longleftrightarrow> li_is_active i
     \<and> (li_identifier_type i \<noteq> LiEmail \<or> list_ex (\<lambda>et. t_id et = li_tenant_id i \<and> t_email_login_enabled et) tenants)
     \<and> list_ex (\<lambda>(kind, v). li_identifier_type i = kind \<and> ci (li_normalized_value i) = ci v) candidates"

definition registry_users ::
  "(string \<Rightarrow> string) \<Rightarrow> identifier_scope \<Rightarrow> tenant_id \<Rightarrow> (login_identifier_type \<times> string) list
   \<Rightarrow> user_login_identifier list \<Rightarrow> user list \<Rightarrow> tenant_membership list \<Rightarrow> tenant list \<Rightarrow> user list" where
  "registry_users ci scope t candidates rows users members tenants =
     filter (\<lambda>u. list_ex (\<lambda>i. li_user_id i = u_id u \<and> in_scope scope t members tenants i u \<and> identifier_hits ci tenants candidates i) rows)
       users"

definition resolve_login_identifier ::
  "(string \<Rightarrow> string) \<Rightarrow> (string \<Rightarrow> string) \<Rightarrow> (string \<Rightarrow> string) \<Rightarrow> identifier_scope \<Rightarrow> tenant_id \<Rightarrow> string
   \<Rightarrow> user_login_identifier list \<Rightarrow> user list \<Rightarrow> tenant_membership list \<Rightarrow> tenant list \<Rightarrow> login_identifier_match" where
  "resolve_login_identifier ci lower upper scope t input rows users members tenants =
     (let candidates = lookup_candidates lower upper input in
      if candidates = [] then Unresolved IdNotFound
      else case registry_users ci scope t candidates rows users members tenants of
        [] \<Rightarrow> Unresolved IdNotFound | [u] \<Rightarrow> Resolved u | _ \<Rightarrow> Unresolved IdAmbiguous)"

section \<open>Domains of a tenant\<close>

record tenant_domain =
  td_id :: uuid
  td_tenant_id :: tenant_id
  td_domain :: string
  td_created_at :: instant
  td_updated_at :: instant

definition domain_max_len :: nat where
  "domain_max_len = 253"

definition label_max_len :: nat where
  "label_max_len = 63"

definition ascii_lower :: "char \<Rightarrow> char" where
  "ascii_lower c = (if 65 \<le> byte_val c \<and> byte_val c \<le> 90 then char_of (byte_val c + 32) else c)"

definition normalize_domain :: "string \<Rightarrow> string" where
  "normalize_domain raw = map ascii_lower (rev (dropWhile (\<lambda>c. c = CHR ''.'') (rev (trim raw))))"

definition is_alnum_byte :: "char \<Rightarrow> bool" where
  "is_alnum_byte c \<longleftrightarrow> is_digit c \<or> 65 \<le> byte_val c \<and> byte_val c \<le> 90 \<or> 97 \<le> byte_val c \<and> byte_val c \<le> 122"

definition label_is_valid :: "string \<Rightarrow> bool" where
  "label_is_valid label \<longleftrightarrow> label \<noteq> [] \<and> length label \<le> label_max_len \<and> hd label \<noteq> CHR ''-'' \<and> last label \<noteq> CHR ''-''
     \<and> list_all (\<lambda>c. is_alnum_byte c \<or> c = CHR ''-'') label"

definition validate_domain :: "string \<Rightarrow> message_key + string" where
  "validate_domain raw =
     (let normalized = normalize_domain raw in
      if normalized = [] then Inl (message_new ''api-tenant-domain-required'')
      else if length normalized > domain_max_len
      then Inl (message_with_value ''api-tenant-domain-too-long'' (nat_to_string domain_max_len))
      else if \<not> list_all label_is_valid (split_on CHR ''.'' normalized) then Inl (message_new ''api-tenant-domain-invalid'')
      else Inr normalized)"

definition split_qualified_identifier :: "string \<Rightarrow> (string \<times> string) option" where
  "split_qualified_identifier input =
     (let trimmed = trim input in
      if CHR ''@'' \<notin> set trimmed then None
      else let local_part = takeWhile (\<lambda>c. c \<noteq> CHR ''@'') trimmed; domain_part = tl (dropWhile (\<lambda>c. c \<noteq> CHR ''@'') trimmed) in
        if local_part = [] \<or> CHR ''@'' \<in> set domain_part then None
        else map_option (\<lambda>d. (local_part, d)) (res_ok (validate_domain domain_part)))"

definition domain_find_tenant :: "(string \<Rightarrow> string) \<Rightarrow> string \<Rightarrow> tenant_domain list \<Rightarrow> tenant_id option" where
  "domain_find_tenant ci d rows = map_option td_tenant_id (find (\<lambda>r. ci (td_domain r) = ci d) rows)"

definition domain_list_for_tenant :: "(string \<Rightarrow> string) \<Rightarrow> tenant_id \<Rightarrow> tenant_domain list \<Rightarrow> tenant_domain list" where
  "domain_list_for_tenant ci t rows = sort_key (\<lambda>r. ci (td_domain r)) (filter (\<lambda>r. td_tenant_id r = t) rows)"

definition domain_create :: "(string \<Rightarrow> string) \<Rightarrow> tenant_domain \<Rightarrow> tenant_domain list \<Rightarrow> domain_error + tenant_domain list" where
  "domain_create ci d rows =
     (if list_ex (\<lambda>r. td_id r = td_id d \<or> ci (td_domain r) = ci (td_domain d)) rows
      then Inl (Conflict ''domain is already assigned to a tenant'') else Inr (rows @ [d]))"

definition domain_delete :: "tenant_id \<Rightarrow> uuid \<Rightarrow> tenant_domain list \<Rightarrow> bool \<times> tenant_domain list" where
  "domain_delete t i rows =
     (let hit = (\<lambda>r. td_id r = i \<and> td_tenant_id r = t) in (list_ex hit rows, filter (\<lambda>r. \<not> hit r) rows))"

section \<open>Lemmas\<close>

interpretation login_identifier_type: string_enum login_identifier_type_table
proof unfold_locales
  show "table_ok login_identifier_type_table" by (simp add: login_identifier_type_table_def enum_table_simps)
  show "v \<in> fst ` set login_identifier_type_table" for v by (cases v) (simp_all add: login_identifier_type_table_def)
qed

text \<open>What registration stores is what the sign-in looks up: a value that can be registered is among the candidates
  of its own input, under its own kind.\<close>

definition candidate_of :: "(string \<Rightarrow> string) \<Rightarrow> (string \<Rightarrow> string) \<Rightarrow> string \<Rightarrow> login_identifier_type \<Rightarrow> string \<Rightarrow> bool" where
  "candidate_of lower upper input kind v \<longleftrightarrow> identifier_accepts kind input
     \<and> v = identifier_normalize lower upper kind input \<and> v \<noteq> [] \<and> chars_count v \<le> normalized_value_max_len"

lemma add_candidate_set:
  "set (add_candidate lower upper input out kind) = set out \<union> {(kind, v) | v. candidate_of lower upper input kind v}"
  unfolding add_candidate_def candidate_of_def by (auto simp: Let_def list_ex_iff)

lemma candidates_fold:
  "(kind, v) \<in> set (foldl (add_candidate lower upper input) out kinds)
   \<longleftrightarrow> (kind, v) \<in> set out \<or> kind \<in> set kinds \<and> candidate_of lower upper input kind v"
  by (induction kinds arbitrary: out) (auto simp: add_candidate_set)

lemma lookup_candidates_iff:
  "(kind, v) \<in> set (lookup_candidates lower upper input) \<longleftrightarrow> candidate_of lower upper input kind v"
  unfolding lookup_candidates_def candidates_fold using login_identifier_type.exhaust by auto

lemma normalize_checked_candidate:
  assumes "normalize_checked lower upper kind raw = Inr v"
  shows "(kind, v) \<in> set (lookup_candidates lower upper raw)"
proof -
  have "identifier_accepts kind (trim raw) = identifier_accepts kind raw"
    and "identifier_normalize lower upper kind (trim raw) = identifier_normalize lower upper kind raw"
    by (simp_all add: identifier_accepts_def identifier_normalize_def trim_idem)
  with assms show ?thesis
    by (auto simp: normalize_checked_def lookup_candidates_iff candidate_of_def Let_def split: if_splits)
qed

lemma registry_users_mem:
  "u \<in> set (registry_users ci scope t candidates rows users members tenants) \<longleftrightarrow>
     u \<in> set users \<and> (\<exists>i \<in> set rows. li_user_id i = u_id u \<and> in_scope scope t members tenants i u \<and> identifier_hits ci tenants candidates i)"
  by (auto simp: registry_users_def list_ex_iff)

lemma resolve_login_identifier_Resolved:
  "resolve_login_identifier ci lower upper scope t input rows users members tenants = Resolved u \<longleftrightarrow>
     registry_users ci scope t (lookup_candidates lower upper input) rows users members tenants = [u]"
proof -
  have "registry_users ci scope t [] rows users members tenants = []" by (simp add: registry_users_def identifier_hits_def list_ex_iff)
  then show ?thesis by (auto simp: resolve_login_identifier_def Let_def split: list.splits)
qed

end
