(* ===== verification/Permissions.thy ===== *)
theory Permissions
  imports Entities
begin

text \<open>
  Permission codes and what they imply (\<open>domain/permission.rs\<close>), the actor of an administrative operation
  (\<open>domain/admin_actor.rs\<close>), and the tables \<open>user_permissions\<close>
  (\<open>infrastructure/repositories/user_permission.rs\<close>) and \<open>client_permissions\<close>
  (\<open>infrastructure/repositories/client_permission.rs\<close>).

  The code decides on exact strings; the tables compare codes under the key \<open>ci\<close> of their collation.
  Foreign keys and check constraints are those of the migrations.
\<close>

section \<open>Codes\<close>

definition tenant_admin :: string where
  "tenant_admin = ''idp.tenant.admin''"

definition system_admin :: string where
  "system_admin = ''idp.system.admin''"

definition action_read :: string where
  "action_read = ''read''"

definition action_write :: string where
  "action_write = ''write''"

definition clients_write :: string where
  "clients_write = ''idp.clients:write''"

definition applications_write :: string where
  "applications_write = ''idp.applications:write''"

definition permissions_read :: string where
  "permissions_read = ''idp.permissions:read''"

definition permissions_write :: string where
  "permissions_write = ''idp.permissions:write''"

definition keys_read :: string where
  "keys_read = ''idp.keys:read''"

definition keys_write :: string where
  "keys_write = ''idp.keys:write''"

definition admins_write :: string where
  "admins_write = ''idp.admins:write''"

definition smtp_read :: string where
  "smtp_read = ''idp.smtp:read''"

definition smtp_write :: string where
  "smtp_write = ''idp.smtp:write''"

definition tenant_management_codes :: "string list" where
  "tenant_management_codes = [''idp.users:read'', ''idp.users:write'', ''idp.applications:read'', applications_write,
     ''idp.clients:read'', clients_write, ''idp.members:read'', ''idp.members:write'', permissions_read, permissions_write,
     ''idp.audit:read'', keys_read, keys_write, ''idp.tenant-settings:read'', ''idp.tenant-settings:write'',
     ''idp.authentication-policies:read'', ''idp.authentication-policies:write'', ''idp.external-idps:read'',
     ''idp.external-idps:write'', ''idp.saml-service-providers:read'', ''idp.saml-service-providers:write'',
     ''idp.resources:read'', ''idp.resources:write'', admins_write, ''idp.ssh-keys:read'']"

definition root_scoped_codes :: "string list" where
  "root_scoped_codes = [keys_read, keys_write]"

definition is_root_scoped :: "string \<Rightarrow> bool" where
  "is_root_scoped code \<longleftrightarrow> code \<in> set root_scoped_codes"

definition split_once :: "char \<Rightarrow> string \<Rightarrow> (string \<times> string) option" where
  "split_once c s =
     (if c \<in> set s then Some (takeWhile (\<lambda>x. x \<noteq> c) s, tl (dropWhile (\<lambda>x. x \<noteq> c) s)) else None)"

definition implies :: "string \<Rightarrow> string \<Rightarrow> bool" where
  "implies held required =
     (if held = required then True
      else if held = system_admin then True
      else if held = tenant_admin then required \<in> set tenant_management_codes
      else case (split_once CHR '':'' held, split_once CHR '':'' required) of
        (Some (held_resource, held_action), Some (required_resource, required_action)) \<Rightarrow>
          held_action = action_write \<and> required_action = action_read \<and> held_resource = required_resource
      | _ \<Rightarrow> False)"

definition perms_satisfy :: "string list \<Rightarrow> string \<Rightarrow> bool" where
  "perms_satisfy held required \<longleftrightarrow> list_ex (\<lambda>code. implies code required) held"

definition may_assign :: "string list \<Rightarrow> string \<Rightarrow> bool \<Rightarrow> bool" where
  "may_assign held code in_root \<longleftrightarrow>
     perms_satisfy held code
     \<or> perms_satisfy held admins_write \<and> implies tenant_admin code
     \<or> \<not> in_root \<and> (code = smtp_read \<or> code = smtp_write) \<and> perms_satisfy held tenant_admin"

datatype target_scope = RequestedTenant | RootTenant | OtherTenant

record held_by_target =
  hb_code :: string
  hb_scope :: target_scope

definition may_manage_account :: "string list \<Rightarrow> held_by_target list \<Rightarrow> bool \<Rightarrow> bool" where
  "may_manage_account held target in_root \<longleftrightarrow>
     list_all (\<lambda>t. if hb_code t = system_admin then perms_satisfy held system_admin
       else case hb_scope t of
         RequestedTenant \<Rightarrow> may_assign held (hb_code t) in_root
       | RootTenant \<Rightarrow> False
       | OtherTenant \<Rightarrow> perms_satisfy held admins_write \<and> implies tenant_admin (hb_code t)) target"

definition is_grantable_to_client :: "string \<Rightarrow> bool" where
  "is_grantable_to_client code \<longleftrightarrow> code \<noteq> system_admin \<and> code \<noteq> tenant_admin"

definition is_grantable_in_tenant :: "string \<Rightarrow> bool \<Rightarrow> bool" where
  "is_grantable_in_tenant code in_root \<longleftrightarrow> in_root \<or> (code \<noteq> system_admin \<and> \<not> is_root_scoped code)"

definition permission_code_parse :: "string \<Rightarrow> domain_error + string" where
  "permission_code_parse s = (if trim s = [] then Inl (InvalidValue ''permission code must not be empty'') else Inr s)"

section \<open>Actors\<close>

datatype admin_actor = ActorUser uuid | ActorClient uuid string

fun actor_user_id :: "admin_actor \<Rightarrow> uuid option" where
  "actor_user_id (ActorUser u) = Some u"
| "actor_user_id (ActorClient i c) = None"

fun actor_client_id :: "admin_actor \<Rightarrow> string option" where
  "actor_client_id (ActorUser u) = None"
| "actor_client_id (ActorClient i c) = Some c"

fun actor_client_row_id :: "admin_actor \<Rightarrow> uuid option" where
  "actor_client_row_id (ActorUser u) = None"
| "actor_client_row_id (ActorClient i c) = Some i"

fun actor_is_client :: "admin_actor \<Rightarrow> bool" where
  "actor_is_client (ActorUser u) = False"
| "actor_is_client (ActorClient i c) = True"

definition actor_audit_note :: "admin_actor \<Rightarrow> string option" where
  "actor_audit_note a = map_option (\<lambda>i. ''actor_client='' @ i) (actor_client_id a)"

section \<open>Tables\<close>

record user_permission =
  up_user_id :: uuid
  up_permission_code :: string
  up_tenant_id :: tenant_id
  up_granted_at :: instant

definition permission_key :: "(string \<Rightarrow> string) \<Rightarrow> tenant_id \<Rightarrow> uuid \<Rightarrow> string \<Rightarrow> user_permission \<Rightarrow> bool" where
  "permission_key ci t u code r \<longleftrightarrow> up_user_id r = u \<and> ci (up_permission_code r) = ci code \<and> up_tenant_id r = t"

definition permission_list_codes :: "tenant_id \<Rightarrow> uuid \<Rightarrow> user_permission list \<Rightarrow> string list" where
  "permission_list_codes t u rows = map up_permission_code (filter (\<lambda>r. up_user_id r = u \<and> up_tenant_id r = t) rows)"

definition permission_list_scoped :: "uuid \<Rightarrow> user_permission list \<Rightarrow> (tenant_id \<times> string) list" where
  "permission_list_scoped u rows = map (\<lambda>r. (up_tenant_id r, up_permission_code r)) (filter (\<lambda>r. up_user_id r = u) rows)"

definition permission_has :: "(string \<Rightarrow> string) \<Rightarrow> tenant_id \<Rightarrow> uuid \<Rightarrow> string \<Rightarrow> user_permission list \<Rightarrow> bool" where
  "permission_has ci t u code rows = list_ex (permission_key ci t u code) rows"

definition permission_has_any :: "(string \<Rightarrow> string) \<Rightarrow> tenant_id \<Rightarrow> uuid \<Rightarrow> string list \<Rightarrow> user_permission list \<Rightarrow> bool" where
  "permission_has_any ci t u codes rows = list_ex (\<lambda>code. permission_has ci t u code rows) codes"

text \<open>\<open>ON DUPLICATE KEY UPDATE user_id = user_id\<close> leaves an existing row as it is; \<open>root\<close> is the tenant in the check constraint
  on \<open>idp.system.admin\<close>.\<close>

definition permission_grant ::
  "(string \<Rightarrow> string) \<Rightarrow> string list \<Rightarrow> user list \<Rightarrow> tenant list \<Rightarrow> tenant_id option \<Rightarrow> tenant_id \<Rightarrow> uuid \<Rightarrow> string \<Rightarrow> instant
   \<Rightarrow> user_permission list \<Rightarrow> domain_error + user_permission list" where
  "permission_grant ci master users tenants root t u code granted_at rows =
     (if ci code = ci system_admin \<and> root \<noteq> Some t then Inl (Repository ''check constraint violated'')
      else if list_ex (permission_key ci t u code) rows then Inr rows
      else if \<not> list_ex (\<lambda>c. ci c = ci code) master \<or> \<not> list_ex (\<lambda>x. u_id x = u) users \<or> \<not> list_ex (\<lambda>x. t_id x = t) tenants
      then Inl (InvalidValue (''unknown permission code or user: '' @ code))
      else Inr (rows @ [\<lparr>up_user_id = u, up_permission_code = code, up_tenant_id = t, up_granted_at = granted_at\<rparr>]))"

definition permission_revoke :: "(string \<Rightarrow> string) \<Rightarrow> tenant_id \<Rightarrow> uuid \<Rightarrow> string \<Rightarrow> user_permission list \<Rightarrow> user_permission list" where
  "permission_revoke ci t u code rows = filter (\<lambda>r. \<not> permission_key ci t u code r) rows"

definition permission_revoke_all :: "tenant_id \<Rightarrow> uuid \<Rightarrow> user_permission list \<Rightarrow> string list \<times> user_permission list" where
  "permission_revoke_all t u rows =
     (permission_list_codes t u rows, filter (\<lambda>r. \<not> (up_user_id r = u \<and> up_tenant_id r = t)) rows)"

definition client_permission_key :: "(string \<Rightarrow> string) \<Rightarrow> uuid \<Rightarrow> string \<Rightarrow> uuid \<times> string \<Rightarrow> bool" where
  "client_permission_key ci c code r \<longleftrightarrow> fst r = c \<and> ci (snd r) = ci code"

definition client_permission_grant ::
  "(string \<Rightarrow> string) \<Rightarrow> string list \<Rightarrow> client list \<Rightarrow> uuid \<Rightarrow> string \<Rightarrow> (uuid \<times> string) list
   \<Rightarrow> domain_error + (uuid \<times> string) list" where
  "client_permission_grant ci master clients c code rows =
     (if ci code = ci system_admin \<or> ci code = ci tenant_admin
      then Inl (InvalidValue (''permission code cannot be granted to a client: '' @ code))
      else if list_ex (client_permission_key ci c code) rows then Inr rows
      else if \<not> list_ex (\<lambda>x. ci x = ci code) master \<or> \<not> list_ex (\<lambda>x. c_id x = c) clients
      then Inl (InvalidValue (''unknown permission code or client: '' @ code))
      else Inr (rows @ [(c, code)]))"

definition client_permission_revoke :: "(string \<Rightarrow> string) \<Rightarrow> uuid \<Rightarrow> string \<Rightarrow> (uuid \<times> string) list \<Rightarrow> (uuid \<times> string) list" where
  "client_permission_revoke ci c code rows = filter (\<lambda>r. \<not> client_permission_key ci c code r) rows"

section \<open>The order of codes\<close>

lemma implies_refl [simp]: "implies c c"
  by (simp add: implies_def)

lemma implies_system_admin [simp]: "implies system_admin c"
  by (simp add: implies_def)

lemma split_once_join:
  "split_once c s = Some (a, b) \<longleftrightarrow> s = a @ c # b \<and> c \<notin> set a"
proof
  assume "split_once c s = Some (a, b)"
  then have c: "c \<in> set s" and ab: "a = takeWhile (\<lambda>x. x \<noteq> c) s" "b = tl (dropWhile (\<lambda>x. x \<noteq> c) s)"
    by (auto simp: split_once_def split: if_splits)
  from c have "dropWhile (\<lambda>x. x \<noteq> c) s \<noteq> []" "hd (dropWhile (\<lambda>x. x \<noteq> c) s) = c"
    by (auto simp: dropWhile_eq_Nil_conv hd_dropWhile) (metis (mono_tags, lifting) dropWhile_eq_Nil_conv hd_dropWhile)
  then have "dropWhile (\<lambda>x. x \<noteq> c) s = c # b" using ab(2) by (metis list.collapse)
  then have "s = a @ c # b" using ab(1) by (metis takeWhile_dropWhile_id)
  moreover have "c \<notin> set a" using ab(1) by (auto dest: set_takeWhileD)
  ultimately show "s = a @ c # b \<and> c \<notin> set a" ..
next
  assume "s = a @ c # b \<and> c \<notin> set a"
  then show "split_once c s = Some (a, b)"
    by (auto simp: split_once_def takeWhile_append dropWhile_append)
qed

definition write_to_read :: "string \<Rightarrow> string \<Rightarrow> bool" where
  "write_to_read held required \<longleftrightarrow>
     (\<exists>r. CHR '':'' \<notin> set r \<and> held = r @ '':'' @ action_write \<and> required = r @ '':'' @ action_read)"

lemma split_once_colon [simp]: "CHR '':'' \<notin> set r \<Longrightarrow> split_once CHR '':'' (r @ CHR '':'' # a) = Some (r, a)"
  by (simp add: split_once_join)

lemma write_to_read_split:
  "write_to_read h r \<longleftrightarrow> (\<exists>x. split_once CHR '':'' h = Some (x, action_write) \<and> split_once CHR '':'' r = Some (x, action_read))"
  by (auto simp: write_to_read_def split_once_join)

lemma implies_iff:
  "implies held required \<longleftrightarrow> held = required \<or> held = system_admin
     \<or> held = tenant_admin \<and> required \<in> set tenant_management_codes \<or> write_to_read held required"
proof -
  have s: "\<not> write_to_read tenant_admin required"
    by (auto simp: write_to_read_def tenant_admin_def action_write_def dest!: arg_cong [of _ _ set])
  have "(case (split_once CHR '':'' held, split_once CHR '':'' required) of
        (Some (held_resource, held_action), Some (required_resource, required_action)) \<Rightarrow>
          held_action = action_write \<and> required_action = action_read \<and> held_resource = required_resource
      | _ \<Rightarrow> False) \<longleftrightarrow> write_to_read held required"
    by (auto simp: write_to_read_split split: option.splits)
  then show ?thesis using s by (auto simp: implies_def)
qed

lemma no_colon: "split_once CHR '':'' tenant_admin = None" "split_once CHR '':'' system_admin = None"
  by (simp_all add: split_once_def tenant_admin_def system_admin_def)

lemma admin_codes:
  "tenant_admin \<noteq> system_admin" "system_admin \<notin> set tenant_management_codes" "tenant_admin \<notin> set tenant_management_codes"
  "\<not> write_to_read h tenant_admin" "\<not> write_to_read h system_admin"
  "\<not> write_to_read tenant_admin c" "\<not> write_to_read system_admin c"
  by (simp_all add: tenant_admin_def system_admin_def tenant_management_codes_def write_to_read_split split_once_def
      applications_write_def clients_write_def permissions_read_def permissions_write_def keys_read_def keys_write_def admins_write_def)

text \<open>The code \<open>idp.admins:write\<close> has no reading counterpart in the list.\<close>

definition admins_read :: string where
  "admins_read = ''idp.admins:read''"

lemma tenant_codes_closed:
  assumes "m \<in> set tenant_management_codes" "write_to_read m c"
  shows "c \<in> set tenant_management_codes \<or> c = admins_read"
proof -
  from assms(2) obtain x where m: "split_once CHR '':'' m = Some (x, action_write)" and c: "c = x @ '':'' @ action_read"
    by (auto simp: write_to_read_split split_once_join)
  from assms(1) m show ?thesis
    unfolding c tenant_management_codes_def
    by (auto simp: split_once_def action_write_def action_read_def admins_read_def applications_write_def clients_write_def
        permissions_read_def permissions_write_def keys_read_def keys_write_def admins_write_def)
qed

lemma implies_trans:
  assumes "implies a b" "implies b c"
  shows "implies a c \<or> a = tenant_admin \<and> c = admins_read"
  using assms tenant_codes_closed [of b c]
  by (auto simp: implies_iff admin_codes) (auto simp: write_to_read_split action_write_def action_read_def)

lemma perms_satisfy_iff: "perms_satisfy held c \<longleftrightarrow> (\<exists>h\<in>set held. implies h c)"
  by (auto simp: perms_satisfy_def list_ex_iff)

lemma tenant_admin_manages: "m \<in> set tenant_management_codes \<Longrightarrow> implies tenant_admin m"
  by (simp add: implies_iff)

lemma admins_write_managed: "admins_write \<in> set tenant_management_codes"
  by (simp add: tenant_management_codes_def)

text \<open>Without \<open>idp.admins:write\<close> a holder hands out only what its own codes imply.\<close>

lemma may_assign_plain:
  assumes "\<not> perms_satisfy held admins_write"
  shows "may_assign held code in_root \<longleftrightarrow> perms_satisfy held code"
proof -
  have "\<not> perms_satisfy held tenant_admin"
  proof
    assume "perms_satisfy held tenant_admin"
    then obtain h where h: "h \<in> set held" "implies h tenant_admin" by (auto simp: perms_satisfy_iff)
    then have "implies h admins_write"
      using implies_trans [OF h(2) tenant_admin_manages [OF admins_write_managed]]
      by (auto simp: admins_read_def admins_write_def)
    with h(1) assms show False by (auto simp: perms_satisfy_iff)
  qed
  then show ?thesis using assms by (auto simp: may_assign_def)
qed

section \<open>Tables\<close>

lemma permission_grant_Inr:
  assumes "permission_grant ci master users tenants root t u code at rows = Inr rows'"
  shows "ci code \<in> ci ` set master \<or> rows' = rows" "ci code = ci system_admin \<longrightarrow> root = Some t"
    "set rows \<subseteq> set rows'"
    "r \<in> set rows' \<Longrightarrow> r \<in> set rows \<or> up_user_id r = u \<and> up_permission_code r = code \<and> up_tenant_id r = t"
  using assms by (auto simp: permission_grant_def list_ex_iff image_iff split: if_splits) metis+

lemma permission_granted:
  "permission_grant ci master users tenants root t u code at rows = Inr rows' \<Longrightarrow> permission_has ci t u code rows'"
  by (auto simp: permission_grant_def permission_has_def permission_key_def list_ex_iff split: if_splits)

lemma permission_revoked: "\<not> permission_has ci t u code (permission_revoke ci t u code rows)"
  by (auto simp: permission_revoke_def permission_has_def list_ex_iff)

lemma permission_revoke_mem: "r \<in> set (permission_revoke ci t u code rows) \<longleftrightarrow> r \<in> set rows \<and> \<not> permission_key ci t u code r"
  by (auto simp: permission_revoke_def)

lemma permission_codes_mem:
  "c \<in> set (permission_list_codes t u rows) \<longleftrightarrow> (\<exists>r\<in>set rows. up_user_id r = u \<and> up_tenant_id r = t \<and> up_permission_code r = c)"
  by (auto simp: permission_list_codes_def)

lemmas permission_table_defs = permission_grant_def permission_revoke_def permission_has_def permission_has_any_def
  permission_list_codes_def permission_list_scoped_def permission_revoke_all_def

end
