(* ===== verification/Passwords.thy ===== *)
theory Passwords
  imports Entities "HOL-Library.Product_Lexorder"
begin

text \<open>
  The password policy (\<open>domain/password_policy.rs\<close>) and the table of retired password hashes
  (\<open>infrastructure/repositories/password_history.rs\<close>).

  A date is a number of nanoseconds; \<open>dt_add\<close> is the addition of \<open>chrono\<close>, which panics past the
  last date it represents: \<open>None\<close> is the panic.  Row ids of the history are handed out by
  \<open>AUTO_INCREMENT\<close>, so the table carries the next one.
\<close>

section \<open>Policy\<close>

datatype password_rejection = Strength message_key | Breached | Reused

fun rejection_message :: "password_rejection \<Rightarrow> message_key" where
  "rejection_message (Strength key) = key"
| "rejection_message Breached = message_new ''api-password-breached''"
| "rejection_message Reused = message_new ''api-password-reused''"

definition min_password_len :: nat where
  "min_password_len = 8"

definition max_password_len :: nat where
  "max_password_len = 256"

record password_policy =
  pp_min_length :: nat
  pp_max_length :: nat
  pp_history_count :: "32 word"
  pp_max_age_days :: "32 word"
  pp_reject_breached :: bool

definition default_password_policy :: password_policy where
  "default_password_policy = \<lparr>pp_min_length = min_password_len, pp_max_length = max_password_len,
     pp_history_count = 0, pp_max_age_days = 0, pp_reject_breached = False\<rparr>"

definition validate_password_length :: "password_policy \<Rightarrow> string \<Rightarrow> password_rejection + unit" where
  "validate_password_length p password =
     (if length password < pp_min_length p
      then Inl (Strength (message_with_value ''api-password-too-short'' (nat_to_string (pp_min_length p))))
      else if length password > pp_max_length p
      then Inl (Strength (message_with_value ''api-password-too-long'' (nat_to_string (pp_max_length p))))
      else Inr ())"

definition checks_history :: "password_policy \<Rightarrow> bool" where
  "checks_history p \<longleftrightarrow> pp_history_count p \<ge> 1"

definition retired_hashes_to_check :: "password_policy \<Rightarrow> nat" where
  "retired_hashes_to_check p = unat (pp_history_count p) - 1"

definition retained_history_len :: "password_policy \<Rightarrow> nat" where
  "retained_history_len p = retired_hashes_to_check p"

definition max_instant :: instant where
  "max_instant = 8210266876799 * nanos_per_sec + (nanos_per_sec - 1)"

definition min_instant :: instant where
  "min_instant = - 8334601228800 * nanos_per_sec"

definition dt_add :: "instant \<Rightarrow> duration \<Rightarrow> instant option" where
  "dt_add t d = (if min_instant \<le> t + d \<and> t + d \<le> max_instant then Some (t + d) else None)"

definition try_days :: "int \<Rightarrow> duration option" where
  "try_days n = (if \<bar>n * 86400\<bar> < 2 ^ 63 then duration_seconds (n * 86400) else None)"

definition password_expired :: "password_policy \<Rightarrow> instant \<Rightarrow> instant \<Rightarrow> bool option" where
  "password_expired p changed_at now =
     (if pp_max_age_days p = 0 then Some False
      else case try_days (uint (pp_max_age_days p)) of
        Some max_age \<Rightarrow> map_option (\<lambda>limit. now \<ge> limit) (dt_add changed_at max_age)
      | None \<Rightarrow> Some False)"

definition password_change_required :: "user \<Rightarrow> password_policy \<Rightarrow> instant \<Rightarrow> bool option" where
  "password_change_required u p now =
     (if u_must_change_password u then Some True else password_expired p (password_set_at u) now)"

section \<open>History\<close>

record retired_password =
  rp_user_id :: uuid
  rp_password_hash :: string
  rp_retired_at :: instant
  rp_row_id :: nat

record password_history =
  ph_next_id :: nat
  ph_rows :: "retired_password list"

text \<open>\<open>ORDER BY retired_at DESC, id DESC\<close> over the rows of one user.\<close>

definition retired_key :: "retired_password \<Rightarrow> instant \<times> nat" where
  "retired_key r = (rp_retired_at r, rp_row_id r)"

definition retired_newest :: "uuid \<Rightarrow> retired_password list \<Rightarrow> retired_password list" where
  "retired_newest u rows = rev (sort_key retired_key (filter (\<lambda>r. rp_user_id r = u) rows))"

definition past_boundary :: "uuid \<Rightarrow> retired_password \<Rightarrow> retired_password \<Rightarrow> bool" where
  "past_boundary u b r \<longleftrightarrow> rp_user_id r = u
     \<and> (rp_retired_at r < rp_retired_at b \<or> rp_retired_at r = rp_retired_at b \<and> rp_row_id r \<le> rp_row_id b)"

definition history_push :: "uuid \<Rightarrow> string \<Rightarrow> instant \<Rightarrow> nat \<Rightarrow> password_history \<Rightarrow> password_history" where
  "history_push u h at retain t =
     (let rows = ph_rows t @ [\<lparr>rp_user_id = u, rp_password_hash = h, rp_retired_at = at, rp_row_id = ph_next_id t\<rparr>];
          newest = retired_newest u rows
      in \<lparr>ph_next_id = Suc (ph_next_id t),
          ph_rows = (if retain < length newest then filter (\<lambda>r. \<not> past_boundary u (newest ! retain) r) rows else rows)\<rparr>)"

definition history_recent :: "uuid \<Rightarrow> nat \<Rightarrow> password_history \<Rightarrow> string list" where
  "history_recent u limit t = (if limit = 0 then [] else map rp_password_hash (take limit (retired_newest u (ph_rows t))))"

section \<open>Lemmas\<close>

lemma validate_password_length_Inr [simp]:
  "validate_password_length p s = Inr u \<longleftrightarrow> pp_min_length p \<le> length s \<and> length s \<le> pp_max_length p"
  by (auto simp: validate_password_length_def)

lemma max_age_representable: "\<exists>d. try_days (uint (n :: 32 word)) = Some d \<and> d = secs (uint n * 86400)"
proof -
  have "uint n < 2 ^ 32" using uint_bounded [of n] by simp
  then have "uint n * 86400 < 4294967296 * 86400" "0 \<le> uint n" by auto
  then show ?thesis by (simp add: try_days_def duration_seconds_def max_duration_secs_def secs_def)
qed

lemma password_expired_iff:
  assumes "pp_max_age_days p \<noteq> 0" "min_instant \<le> changed_at"
  shows "password_expired p changed_at now =
    (if changed_at + secs (uint (pp_max_age_days p) * 86400) \<le> max_instant
     then Some (changed_at + secs (uint (pp_max_age_days p) * 86400) \<le> now) else None)"
proof -
  have "0 \<le> secs (uint (pp_max_age_days p) * 86400)" by (simp add: secs_def nanos_per_sec_def)
  with assms show ?thesis
    using max_age_representable [of "pp_max_age_days p"] by (auto simp: password_expired_def dt_add_def)
qed

text \<open>An age the table of settings accepts and the arithmetic of dates does not.\<close>

lemma huge_max_age_panics:
  assumes "pp_max_age_days p = 100000000" "0 \<le> changed_at"
  shows "password_expired p changed_at now = None"
proof -
  have "max_instant < changed_at + secs (uint (pp_max_age_days p) * 86400)" "min_instant \<le> changed_at" "pp_max_age_days p \<noteq> 0"
    using assms by (simp_all add: max_instant_def min_instant_def secs_def nanos_per_sec_def)
  then show ?thesis by (subst password_expired_iff) auto
qed

definition history_inv :: "password_history \<Rightarrow> bool" where
  "history_inv t \<longleftrightarrow> distinct (map rp_row_id (ph_rows t)) \<and> (\<forall>r\<in>set (ph_rows t). rp_row_id r < ph_next_id t)"

lemma newest_set [simp]: "set (retired_newest u rows) = {r \<in> set rows. rp_user_id r = u}"
  by (auto simp: retired_newest_def)

lemma newest_filter: "retired_newest u (filter P rows) = filter P (retired_newest u rows)"
  by (simp add: retired_newest_def rev_filter [symmetric] filter_sort conj_commute)

lemma newest_descending:
  assumes "distinct (map rp_row_id rows)"
  shows "sorted_wrt (\<lambda>a b. retired_key b < retired_key a) (retired_newest u rows)"
proof -
  let ?xs = "sort_key retired_key (filter (\<lambda>r. rp_user_id r = u) rows)"
  have "inj_on rp_row_id (set rows)" "distinct rows" using assms by (auto simp: distinct_map)
  then have "inj_on retired_key (set rows)" by (auto simp: inj_on_def retired_key_def)
  then have "distinct (map retired_key ?xs)"
    using \<open>distinct rows\<close> by (auto simp: distinct_map inj_on_def)
  then have "sorted_wrt (<) (map retired_key ?xs)" by (simp add: strict_sorted_iff)
  then show ?thesis by (simp add: retired_newest_def sorted_wrt_rev sorted_wrt_map)
qed

lemma filter_above_take:
  fixes key :: "'a \<Rightarrow> 'b :: linorder"
  assumes "sorted_wrt (\<lambda>a b. key b < key a) ns" "k < length ns"
  shows "filter (\<lambda>r. key (ns ! k) < key r) ns = take k ns"
proof -
  have "filter (\<lambda>r. key (ns ! k) < key r) (take k ns) = take k ns"
    using assms sorted_wrt_nth_less [OF assms(1), of _ k] by (auto simp: filter_id_conv in_set_conv_nth)
  moreover have "filter (\<lambda>r. key (ns ! k) < key r) (drop k ns) = []"
  proof -
    have "\<not> key (ns ! k) < key r" if r: "r \<in> set (drop k ns)" for r
    proof -
      from r obtain i where i: "i < length ns - k" "r = ns ! (k + i)" by (auto simp: in_set_conv_nth)
      then have "k + i < length ns" by linarith
      then have "i = 0 \<or> key r < key (ns ! k)" using i sorted_wrt_nth_less [OF assms(1), of k "k + i"] by auto
      then show ?thesis using i by auto
    qed
    then show ?thesis by (simp add: filter_empty_conv)
  qed
  ultimately show ?thesis by (metis append_Nil2 append_take_drop_id filter_append)
qed

lemma past_boundary_key: "past_boundary u b r \<longleftrightarrow> rp_user_id r = u \<and> retired_key r \<le> retired_key b"
  by (auto simp: past_boundary_def retired_key_def)

lemma insort_append_last: "f y < f x \<Longrightarrow> insort_key f y (zs @ [x]) = insort_key f y zs @ [x]"
  for f :: "'a \<Rightarrow> 'b :: linorder"
  by (induction zs) auto

lemma newest_append_latest:
  assumes "\<forall>r\<in>set rows. rp_user_id r = u \<longrightarrow> retired_key r < retired_key x" "rp_user_id x = u"
  shows "retired_newest u (rows @ [x]) = x # retired_newest u rows"
proof -
  have "sort_key retired_key (ys @ [x]) = sort_key retired_key ys @ [x]" if "\<forall>r\<in>set ys. retired_key r < retired_key x" for ys
    using that by (induction ys) (auto simp: insort_append_last)
  then show ?thesis using assms by (simp add: retired_newest_def)
qed

lemma history_push_inv: "history_inv t \<Longrightarrow> history_inv (history_push u h at retain t)"
  by (auto simp: history_inv_def history_push_def Let_def distinct_map_filter less_Suc_eq)

text \<open>What a push leaves of the user's history: the newest \<open>retain\<close> rows.\<close>

lemma history_push_newest:
  assumes "history_inv t" "\<forall>r\<in>set (ph_rows t). rp_user_id r = u \<longrightarrow> rp_retired_at r \<le> at"
  shows "retired_newest u (ph_rows (history_push u h at retain t)) = take retain
     (\<lparr>rp_user_id = u, rp_password_hash = h, rp_retired_at = at, rp_row_id = ph_next_id t\<rparr> # retired_newest u (ph_rows t))"
    (is "_ = take retain (?x # _)")
proof -
  let ?rows = "ph_rows t @ [?x]"
  have d: "distinct (map rp_row_id ?rows)" using assms(1) by (auto simp: history_inv_def)
  have n: "retired_newest u ?rows = ?x # retired_newest u (ph_rows t)"
    using assms by (intro newest_append_latest) (auto simp: history_inv_def retired_key_def)
  show ?thesis
  proof (cases "retain < length (retired_newest u ?rows)")
    case True
    have "ph_rows (history_push u h at retain t) = filter (\<lambda>r. \<not> past_boundary u (retired_newest u ?rows ! retain) r) ?rows"
      using True by (simp only: history_push_def Let_def password_history.select_convs if_True)
    then have "retired_newest u (ph_rows (history_push u h at retain t))
        = filter (\<lambda>r. \<not> past_boundary u (retired_newest u ?rows ! retain) r) (retired_newest u ?rows)"
      by (simp only: newest_filter)
    also have "\<dots> = filter (\<lambda>r. retired_key (retired_newest u ?rows ! retain) < retired_key r) (retired_newest u ?rows)"
      by (rule filter_cong) (auto simp: past_boundary_key not_le)
    also have "\<dots> = take retain (retired_newest u ?rows)"
      by (rule filter_above_take [OF newest_descending [OF d] True])
    finally show ?thesis by (simp only: n)
  qed (simp add: history_push_def Let_def n)
qed

lemma history_push_other:
  "v \<noteq> u \<Longrightarrow> retired_newest v (ph_rows (history_push u h at retain t)) = retired_newest v (ph_rows t)"
proof -
  assume v: "v \<noteq> u"
  have "filter (\<lambda>r. \<not> past_boundary u b r) (retired_newest v rows) = retired_newest v rows" for b rows
    using v by (auto simp: filter_id_conv past_boundary_def)
  moreover have "retired_newest v (rows @ [x]) = retired_newest v rows" if "rp_user_id x = u" for rows x
    using v that by (simp add: retired_newest_def)
  ultimately show ?thesis by (simp add: history_push_def Let_def newest_filter del: filter_append)
qed

lemma history_recent_take: "history_recent u n t = map rp_password_hash (take n (retired_newest u (ph_rows t)))"
  by (simp add: history_recent_def)

end
