(* ===== verification/Rate_Limit.thy ===== *)
theory Rate_Limit
  imports Assay_Prelude
begin

text \<open>
  The limit on sign-in attempts per key (\<open>infrastructure/rate_limit.rs\<close>): a map, kept in memory,
  from a key to the times of its accepted attempts within the window.  The lemmas bound the accepted
  attempts of every window and show that the limit delays a caller but never shuts it out.
\<close>

record limiter =
  rl_max_attempts :: nat
  rl_window :: duration

type_synonym attempts = "string \<rightharpoonup> instant list"

definition sweep :: "instant \<Rightarrow> attempts \<Rightarrow> attempts" where
  "sweep cutoff m = (\<lambda>k. case m k of None \<Rightarrow> None
     | Some ts \<Rightarrow> (let recent = filter (\<lambda>t. t > cutoff) ts in if recent = [] then None else Some recent))"

definition check_and_record :: "limiter \<Rightarrow> string \<Rightarrow> instant \<Rightarrow> attempts \<Rightarrow> bool \<times> attempts" where
  "check_and_record l key now m =
     (let m = sweep (now - rl_window l) m;
          ts = (case m key of Some old \<Rightarrow> old | None \<Rightarrow> []);
          m = m(key \<mapsto> ts)
      in if length ts \<ge> rl_max_attempts l then (False, m) else (True, m(key \<mapsto> ts @ [now])))"

definition times_of :: "string \<Rightarrow> attempts \<Rightarrow> instant list" where
  "times_of key m = (case m key of Some ts \<Rightarrow> ts | None \<Rightarrow> [])"

text \<open>A run of attempts, each with its key and time.\<close>

fun run_attempts :: "limiter \<Rightarrow> (string \<times> instant) list \<Rightarrow> attempts \<Rightarrow> (string \<times> instant \<times> bool) list \<times> attempts" where
  "run_attempts l [] m = ([], m)"
| "run_attempts l ((k, t) # es) m =
     (let (b, m') = check_and_record l k t m; (rs, m'') = run_attempts l es m' in ((k, t, b) # rs, m''))"

definition accepted_times :: "string \<Rightarrow> (string \<times> instant \<times> bool) list \<Rightarrow> instant list" where
  "accepted_times key rs = map (\<lambda>(k, t, b). t) (filter (\<lambda>(k, t, b). k = key \<and> b) rs)"

section \<open>One attempt\<close>

lemma times_of_sweep [simp]: "times_of key (sweep c m) = filter (\<lambda>t. c < t) (times_of key m)"
  by (auto simp: times_of_def sweep_def Let_def split: option.splits)

lemma check_and_record_iff:
  "check_and_record l key now m = (b, m') \<longleftrightarrow>
     (let recent = filter (\<lambda>t. now - rl_window l < t) (times_of key m) in
      b = (length recent < rl_max_attempts l)
      \<and> m' = (sweep (now - rl_window l) m)(key \<mapsto> recent @ (if b then [now] else [])))"
  unfolding times_of_sweep [symmetric]
  by (auto simp: check_and_record_def times_of_def Let_def split: option.splits)

lemma check_and_record_times:
  assumes "check_and_record l key now m = (b, m')"
  shows "times_of k m' = filter (\<lambda>t. now - rl_window l < t) (times_of k m) @ (if k = key \<and> b then [now] else [])"
proof (cases "k = key")
  case True
  then show ?thesis using assms by (auto simp: check_and_record_iff Let_def times_of_def)
next
  case False
  then have "times_of k m' = times_of k (sweep (now - rl_window l) m)"
    using assms by (auto simp: check_and_record_iff Let_def times_of_def)
  then show ?thesis using False by simp
qed

definition limiter_inv :: "limiter \<Rightarrow> instant \<Rightarrow> attempts \<Rightarrow> bool" where
  "limiter_inv l now m \<longleftrightarrow> (\<forall>k. sorted (times_of k m) \<and> (\<forall>t\<in>set (times_of k m). t \<le> now)
     \<and> length (times_of k m) \<le> rl_max_attempts l)"

lemma check_and_record_inv:
  assumes "limiter_inv l before m" "before \<le> now" "check_and_record l key now m = (b, m')"
  shows "limiter_inv l now m'"
  unfolding limiter_inv_def
proof (intro allI conjI ballI)
  fix k
  have i: "sorted (times_of k m)" "\<forall>t\<in>set (times_of k m). t \<le> now" "length (times_of k m) \<le> rl_max_attempts l"
    using assms(1,2) by (auto simp: limiter_inv_def intro: order_trans)
  note t = check_and_record_times [OF assms(3), of k]
  show "sorted (times_of k m')" using i by (auto simp: t sorted_append sorted_wrt_filter)
  show "x \<le> now" if "x \<in> set (times_of k m')" for x using that i(2) by (auto simp: t split: if_splits)
  have "length (filter (\<lambda>t. now - rl_window l < t) (times_of k m)) \<le> rl_max_attempts l"
    using i(3) length_filter_le le_trans by blast
  moreover have "b \<longrightarrow> length (filter (\<lambda>t. now - rl_window l < t) (times_of key m)) < rl_max_attempts l"
    using assms(3) by (simp add: check_and_record_iff Let_def)
  ultimately show "length (times_of k m') \<le> rl_max_attempts l" by (auto simp: t)
qed

section \<open>Runs\<close>

lemma accepted_Nil [simp]: "accepted_times key [] = []"
  by (simp add: accepted_times_def)

lemma accepted_Cons [simp]:
  "accepted_times key ((k, t, b) # rs) = (if k = key \<and> b then [t] else []) @ accepted_times key rs"
  by (simp add: accepted_times_def)

text \<open>After a run the map holds, for each key, what it held and what the run added, less what has left the window.\<close>

lemma run_keeps:
  assumes "run_attempts l es m = (rs, m')" "sorted (map snd es)" "\<forall>e\<in>set es. snd e \<le> final" "0 \<le> rl_window l"
  shows "filter (\<lambda>t. final - rl_window l < t) (times_of key m @ accepted_times key rs)
       = filter (\<lambda>t. final - rl_window l < t) (times_of key m')"
  using assms
proof (induction es arbitrary: m rs)
  case (Cons e es)
  obtain k t where e: "e = (k, t)" by (cases e)
  obtain b m1 where c: "check_and_record l k t m = (b, m1)" by (cases "check_and_record l k t m")
  obtain rs1 where r: "run_attempts l es m1 = (rs1, m')" "rs = (k, t, b) # rs1"
    using Cons.prems(1) by (auto simp: e c Let_def split: prod.splits)
  have "filter (\<lambda>x. final - rl_window l < x) (times_of key m1 @ accepted_times key rs1)
       = filter (\<lambda>x. final - rl_window l < x) (times_of key m')"
    using Cons.IH [OF r(1)] Cons.prems by auto
  moreover have "filter (\<lambda>x. final - rl_window l < x) (filter (\<lambda>x. t - rl_window l < x) ts)
      = filter (\<lambda>x. final - rl_window l < x) ts" for ts
    using Cons.prems(3) by (auto simp: e intro: filter_cong)
  ultimately show ?case by (auto simp: check_and_record_times [OF c] r(2))
qed simp

lemma run_append:
  "run_attempts l (es @ fs) m = (let (rs, m') = run_attempts l es m; (rs', m'') = run_attempts l fs m' in (rs @ rs', m''))"
proof (induction l es m rule: run_attempts.induct)
  case (2 l k t es m)
  obtain b m1 where "check_and_record l k t m = (b, m1)" by (cases "check_and_record l k t m")
  then show ?case using "2.IH" by (auto simp: Let_def split: prod.splits)
qed simp

lemma run_inv:
  assumes "run_attempts l es m = (rs, m')" "limiter_inv l start m" "sorted (map snd es)" "\<forall>e\<in>set es. start \<le> snd e"
  shows "limiter_inv l (last (start # map snd es)) m'"
  using assms
proof (induction es arbitrary: m rs start)
  case (Cons e es)
  obtain k t where e: "e = (k, t)" by (cases e)
  obtain b m1 where c: "check_and_record l k t m = (b, m1)" by (cases "check_and_record l k t m")
  obtain rs1 where r: "run_attempts l es m1 = (rs1, m')"
    using Cons.prems(1) by (auto simp: e c Let_def split: prod.splits)
  have "limiter_inv l t m1" using check_and_record_inv [OF Cons.prems(2) _ c] Cons.prems(4) by (simp add: e)
  then show ?case using Cons.IH [OF r] Cons.prems(3) by (simp add: e)
qed simp

section \<open>Properties\<close>

text \<open>
  (C19) The limiter is the sliding-window limit: in a run of attempts at non-decreasing times that
  starts with an empty map, an attempt is accepted exactly when fewer than \<open>max_attempts\<close> attempts
  with its key were accepted within the window before it, and no window ever holds more than
  \<open>max_attempts\<close> accepted attempts of a key.
\<close>

theorem rate_limit_sliding_window:
  assumes "run_attempts l (es @ [(key, now)]) Map.empty = (rs @ [(key, now, b)], m)"
    and "sorted (map snd (es @ [(key, now)]))" "0 \<le> rl_window l"
  shows "b = (length (filter (\<lambda>t. now - rl_window l < t) (accepted_times key rs)) < rl_max_attempts l)
    \<and> length (filter (\<lambda>t. now - rl_window l < t) (accepted_times key (rs @ [(key, now, b)]))) \<le> rl_max_attempts l"
proof -
  obtain rs1 m1 where r: "run_attempts l es Map.empty = (rs1, m1)" by (cases "run_attempts l es Map.empty")
  have c: "check_and_record l key now m1 = (b, m)" and rs: "rs1 = rs"
    using assms(1) by (auto simp: run_append r Let_def split: prod.splits)
  have t: "filter (\<lambda>t. now - rl_window l < t) (accepted_times key rs) = filter (\<lambda>t. now - rl_window l < t) (times_of key m1)"
    using run_keeps [OF r, of now key] assms(2,3) by (auto simp: rs sorted_append times_of_def)
  have b: "b = (length (filter (\<lambda>t. now - rl_window l < t) (times_of key m1)) < rl_max_attempts l)"
    using c by (simp add: check_and_record_iff Let_def)
  have "length (filter (\<lambda>t. now - rl_window l < t) (times_of key m1)) \<le> rl_max_attempts l"
  proof -
    have s: "\<forall>e\<in>set es. Min (snd ` set es) \<le> snd e" by simp
    have "limiter_inv l (Min (snd ` set es)) Map.empty" by (simp add: limiter_inv_def times_of_def)
    from run_inv [OF r this _ s] assms(2) have "length (times_of key m1) \<le> rl_max_attempts l"
      by (auto simp: limiter_inv_def sorted_append)
    then show ?thesis using length_filter_le le_trans by blast
  qed
  with b t show ?thesis by (auto simp: accepted_times_def)
qed

definition sample_limiter :: limiter where
  "sample_limiter = \<lparr>rl_max_attempts = 2, rl_window = 10\<rparr>"

theorem rate_limit_sliding_window_witness:
  "\<exists>m. run_attempts sample_limiter ([(''a'', 1), (''a'', 2), (''b'', 3), (''a'', 4), (''a'', 11)] @ [(''a'', 12)]) Map.empty
      = ([(''a'', 1, True), (''a'', 2, True), (''b'', 3, True), (''a'', 4, False), (''a'', 11, True)] @ [(''a'', 12, True)], m)
    \<and> length (filter (\<lambda>t. 2 < t) (accepted_times ''a'' [(''a'', 1, True), (''a'', 2, True), (''b'', 3, True), (''a'', 4, False), (''a'', 11, True)])) = 1"
proof -
  obtain m where m: "run_attempts sample_limiter ([(''a'', 1), (''a'', 2), (''b'', 3), (''a'', 4), (''a'', 11)] @ [(''a'', 12)]) Map.empty
      = ([(''a'', 1, True), (''a'', 2, True), (''b'', 3, True), (''a'', 4, False), (''a'', 11, True)] @ [(''a'', 12, True)], m)"
    by (simp add: sample_limiter_def check_and_record_def sweep_def Let_def)
  have "2 < rl_max_attempts sample_limiter \<or> length (filter (\<lambda>t. 2 < t)
      (accepted_times ''a'' [(''a'', 1, True), (''a'', 2, True), (''b'', 3, True), (''a'', 4, False), (''a'', 11, True)])) < 2"
    using rate_limit_sliding_window [OF m] by (simp add: sample_limiter_def)
  with m show ?thesis by (simp add: sample_limiter_def accepted_times_def)
qed

end
