(* ===== verification/Store.thy ===== *)
theory Store
  imports Authorization_Code Refresh_Token Proof_Tokens Sso_Session Applications Token_Claims Tenant_Tables
    Authenticators Login_Identifiers Permissions Passwords Rate_Limit
begin

text \<open>
  The database shared by the use cases, the environment of one request and the audit log.  The attempts the
  rate limiter keeps in the memory of the process (\<open>db_attempts\<close>) stand beside the tables.

  A use case is an \<open>action\<close> on \<open>db\<close>.  Every repository call goes through \<open>db_call\<close>: the environment
  decides by the call's label whether the database driver fails there, so that each \<open>Err(e)\<close> branch
  of the code is a branch of the model.  Clock readings of the services a request passes through, fresh
  random values, the collation key, the password hasher, the signing key and the JWT encoder are
  fields of \<open>env\<close>.  \<open>AuditService::record\<close> appends an event and swallows a failure of its sink;
  an event type is its stored name.  Calls of the sign-in history are kept as a log; their failures
  are swallowed too (\<open>log_history_error\<close>).
\<close>

datatype audit_result = AuditSuccess | AuditFailure

record audit_event =
  ev_type :: string
  ev_occurred_at :: instant
  ev_tenant_id :: "tenant_id option"
  ev_user_id :: "uuid option"
  ev_client_id :: "string option"
  ev_ip_address :: "string option"
  ev_user_agent :: "string option"
  ev_result :: audit_result
  ev_reason :: "string option"
  ev_correlation_id :: string

record request_context =
  cx_correlation_id :: string
  cx_ip_address :: "string option"
  cx_user_agent :: "string option"

datatype history_call =
    RecordAppIssue uuid tenant_id string string instant bool
  | RecordRefreshUse string string instant "string option" "string option"
  | RecordRefreshReuse string string instant

record revoked_access_token =
  ra_jti :: string
  ra_revoked_at :: instant
  ra_expires_at :: instant

record db =
  db_clients :: "client list"
  db_users :: "user list"
  db_tenants :: "tenant list"
  db_auth_sessions :: "auth_session_row list"
  db_codes :: "authorization_code list"
  db_refresh :: "refresh_token list"
  db_sso :: "sso_session list"
  db_assertion_jtis :: "(tenant_id \<times> string \<times> string) replay_table"
  db_dpop_jtis :: "string replay_table"
  db_revoked :: "revoked_access_token list"
  db_consents :: "client_consent list"
  db_memberships :: "tenant_membership list"
  db_policies :: "authentication_policy list"
  db_applications :: "application list"
  db_bindings :: "application_binding list"
  db_assignments :: "application_assignment list"
  db_resources :: "protected_resource list"
  db_client_permissions :: "(uuid \<times> string) list"
  db_authenticators :: "user_authenticator list"
  db_login_identifiers :: "user_login_identifier list"
  db_tenant_domains :: "tenant_domain list"
  db_password_history :: password_history
  db_permission_codes :: "string list"
  db_user_permissions :: "user_permission list"
  db_attempts :: attempts
  db_audit :: "audit_event list"
  db_history :: "history_call list"

record signing_key =
  sk_kid :: string
  sk_private_pem :: string
  sk_algorithm :: string

record env =
  e_lib :: crypto_lib
  e_jwt :: jwt_lib
  e_ci :: "string \<Rightarrow> string"
  e_uuid_str :: "uuid \<Rightarrow> string"
  e_base_issuer :: string
  e_now :: instant
  e_auth_now :: instant
  e_dpop_now :: instant
  e_audit_now :: instant
  e_db_now :: instant
  e_fault :: "string \<Rightarrow> string option"
  e_verify_secret :: "string \<Rightarrow> string \<Rightarrow> string + bool"
  e_active_signing_key :: "string + signing_key"
  e_jwt_encode :: "signing_algorithm \<Rightarrow> string \<Rightarrow> string \<Rightarrow> string \<Rightarrow> jwt_claims \<Rightarrow> string option"
  e_fresh_token :: string
  e_fresh_id :: string
  e_jti_id :: string
  e_jti_access :: string
  e_access_token_ttl :: "64 word"
  e_management_token_ttl :: "64 word"
  e_id_token_ttl :: "64 word"
  e_refresh_token_ttl :: duration
  e_assignment_enforcement :: "tenant_id \<Rightarrow> string + assignment_enforcement"

section \<open>Repository calls\<close>

definition db_call :: "env \<Rightarrow> string \<Rightarrow> (db, domain_error, 'a) action \<Rightarrow> (db, domain_error, 'a) action" where
  "db_call env op m = (case e_fault env op of Some msg \<Rightarrow> failE (Repository msg) | None \<Rightarrow> m)"

definition db_query :: "env \<Rightarrow> string \<Rightarrow> (db \<Rightarrow> 'a) \<Rightarrow> (db, domain_error, 'a) action" where
  "db_query env op f = db_call env op (getsE f)"

definition stateE :: "('s \<Rightarrow> 'a \<times> 's) \<Rightarrow> ('s, 'e, 'a) action" where
  "stateE f s = (case f s of (a, s') \<Rightarrow> (Inr a, s'))"

definition tryStateE :: "('s \<Rightarrow> 'e + 's) \<Rightarrow> ('s, 'e, unit) action" where
  "tryStateE f s = (case f s of Inl e \<Rightarrow> (Inl e, s) | Inr s' \<Rightarrow> (Inr (), s'))"

text \<open>\<open>consume\<close> is two statements: the row stays used when reading it back fails.\<close>

definition repo_codes_consume :: "env \<Rightarrow> tenant_id \<Rightarrow> string \<Rightarrow> instant \<Rightarrow> (db, domain_error, authorization_code option) action" where
  "repo_codes_consume env t h now =
     bindE (db_call env ''codes.consume''
       (stateE (\<lambda>d. case code_consume t h now (db_codes d) of (r, rows) \<Rightarrow> (r, d\<lparr>db_codes := rows\<rparr>)))) (\<lambda>consumed.
     case consumed of None \<Rightarrow> retE None | Some c \<Rightarrow> db_call env ''codes.consume(select)'' (retE (Some c)))"

definition repo_codes_find_used :: "env \<Rightarrow> tenant_id \<Rightarrow> string \<Rightarrow> (db, domain_error, authorization_code option) action" where
  "repo_codes_find_used env t h = db_query env ''codes.find_used'' (\<lambda>d. code_find_used t h (db_codes d))"

definition repo_refresh_find :: "env \<Rightarrow> tenant_id \<Rightarrow> string \<Rightarrow> (db, domain_error, refresh_token option) action" where
  "repo_refresh_find env t h = db_query env ''refresh.find_by_hash'' (\<lambda>d. rt_find_by_hash t h (db_refresh d))"

definition repo_refresh_exists_child :: "env \<Rightarrow> string \<Rightarrow> (db, domain_error, bool) action" where
  "repo_refresh_exists_child env h = db_query env ''refresh.exists_by_parent_hash'' (\<lambda>d. rt_exists_by_parent_hash h (db_refresh d))"

definition repo_refresh_revoke :: "env \<Rightarrow> string \<Rightarrow> instant \<Rightarrow> (db, domain_error, nat) action" where
  "repo_refresh_revoke env h at = db_call env ''refresh.revoke''
     (stateE (\<lambda>d. case rt_revoke h at (db_refresh d) of (n, rows) \<Rightarrow> (n, d\<lparr>db_refresh := rows\<rparr>)))"

definition repo_refresh_revoke_family :: "env \<Rightarrow> tenant_id \<Rightarrow> string \<Rightarrow> instant \<Rightarrow> (db, domain_error, nat) action" where
  "repo_refresh_revoke_family env t f at = db_call env ''refresh.revoke_family''
     (stateE (\<lambda>d. case rt_revoke_family t f at (db_refresh d) of (n, rows) \<Rightarrow> (n, d\<lparr>db_refresh := rows\<rparr>)))"

definition repo_refresh_create :: "env \<Rightarrow> refresh_token \<Rightarrow> (db, domain_error, unit) action" where
  "repo_refresh_create env t = db_call env ''refresh.create''
     (tryStateE (\<lambda>d. rbind (rt_create (e_db_now env) t (db_refresh d)) (\<lambda>rows. Inr (d\<lparr>db_refresh := rows\<rparr>))))"

definition repo_assertions_record :: "env \<Rightarrow> tenant_id \<Rightarrow> string \<Rightarrow> string \<Rightarrow> instant \<Rightarrow> (db, domain_error, bool) action" where
  "repo_assertions_record env t c j until = db_call env ''assertions.record_if_unused''
     (stateE (\<lambda>d. case record_if_unused (assertion_jti_key (e_ci env) t c j) until (db_assertion_jtis d) of
        (b, tab) \<Rightarrow> (b, d\<lparr>db_assertion_jtis := tab\<rparr>)))"

definition repo_dpop_record :: "env \<Rightarrow> string \<Rightarrow> instant \<Rightarrow> (db, domain_error, bool) action" where
  "repo_dpop_record env k until = db_call env ''dpop.record_if_unused''
     (stateE (\<lambda>d. case record_if_unused k until (db_dpop_jtis d) of (b, tab) \<Rightarrow> (b, d\<lparr>db_dpop_jtis := tab\<rparr>)))"

definition repo_client_find :: "env \<Rightarrow> tenant_id \<Rightarrow> string \<Rightarrow> (db, domain_error, client option) action" where
  "repo_client_find env t c = db_query env ''clients.find_by_client_id'' (\<lambda>d. client_find_by_client_id (e_ci env) t c (db_clients d))"

definition repo_user_find :: "env \<Rightarrow> uuid \<Rightarrow> (db, domain_error, user option) action" where
  "repo_user_find env u = db_query env ''users.find_by_id'' (\<lambda>d. user_find_by_id u (db_users d))"

definition repo_tenant_find :: "env \<Rightarrow> tenant_id \<Rightarrow> (db, domain_error, tenant option) action" where
  "repo_tenant_find env t = db_query env ''tenants.find_by_id'' (\<lambda>d. tenant_find_by_id t (db_tenants d))"

definition repo_app_by_oidc_client :: "env \<Rightarrow> tenant_id \<Rightarrow> string \<Rightarrow> (db, domain_error, application option) action" where
  "repo_app_by_oidc_client env t c = db_query env ''applications.find_by_oidc_client_id''
     (\<lambda>d. app_find_by_oidc_client_id (e_ci env) t c (db_applications d) (db_bindings d) (db_clients d))"

definition repo_app_by_target :: "env \<Rightarrow> string \<Rightarrow> tenant_id \<Rightarrow> binding_target \<Rightarrow> (db, domain_error, application option) action" where
  "repo_app_by_target env op t target = db_query env op
     (\<lambda>d. app_find_by_binding_target t target (db_applications d) (db_bindings d))"

definition repo_app_is_assigned :: "env \<Rightarrow> uuid \<Rightarrow> uuid \<Rightarrow> (db, domain_error, bool) action" where
  "repo_app_is_assigned env a u = db_query env ''applications.is_assigned'' (\<lambda>d. app_is_assigned a u (db_assignments d))"

definition repo_app_sa_assigned :: "env \<Rightarrow> uuid \<Rightarrow> uuid \<Rightarrow> (db, domain_error, bool) action" where
  "repo_app_sa_assigned env a c = db_query env ''applications.is_service_account_assigned''
     (\<lambda>d. app_is_service_account_assigned a c (db_assignments d))"

definition repo_resource_find :: "env \<Rightarrow> tenant_id \<Rightarrow> string \<Rightarrow> (db, domain_error, protected_resource option) action" where
  "repo_resource_find env t uri = db_query env ''resources.find_by_uri'' (\<lambda>d. resource_find_by_uri (e_ci env) t uri (db_resources d))"

definition repo_client_permissions :: "env \<Rightarrow> uuid \<Rightarrow> (db, domain_error, string list) action" where
  "repo_client_permissions env c = db_query env ''client_permissions.list_codes'' (\<lambda>d. list_codes_for_client c (db_client_permissions d))"

definition audit_record ::
  "env \<Rightarrow> request_context \<Rightarrow> string \<Rightarrow> audit_result \<Rightarrow> tenant_id option \<Rightarrow> uuid option \<Rightarrow> string option \<Rightarrow> string option
   \<Rightarrow> (db, 'e, unit) action" where
  "audit_record env ctx ty res t u c reason =
     (case e_fault env ''audit.record'' of
        Some _ \<Rightarrow> retE ()
      | None \<Rightarrow> modifyE (\<lambda>d. d\<lparr>db_audit := db_audit d @
          [\<lparr>ev_type = ty, ev_occurred_at = e_audit_now env, ev_tenant_id = t, ev_user_id = u, ev_client_id = c,
            ev_ip_address = cx_ip_address ctx, ev_user_agent = cx_user_agent ctx, ev_result = res,
            ev_reason = reason, ev_correlation_id = cx_correlation_id ctx\<rparr>]\<rparr>))"

definition history_record :: "env \<Rightarrow> history_call \<Rightarrow> (db, 'e, unit) action" where
  "history_record env call =
     (case e_fault env ''sign_in_history'' of
        Some _ \<Rightarrow> retE ()
      | None \<Rightarrow> modifyE (\<lambda>d. d\<lparr>db_history := db_history d @ [call]\<rparr>))"

lemmas repo_op_defs = repo_codes_consume_def repo_codes_find_used_def repo_refresh_find_def repo_refresh_exists_child_def
  repo_refresh_revoke_def repo_refresh_revoke_family_def repo_refresh_create_def repo_assertions_record_def
  repo_dpop_record_def repo_client_find_def repo_user_find_def repo_tenant_find_def repo_app_by_oidc_client_def
  repo_app_by_target_def repo_app_is_assigned_def repo_app_sa_assigned_def repo_resource_find_def
  repo_client_permissions_def

section \<open>Lemmas\<close>

lemma stateE_iff [simp]: "stateE f s = (r, s') \<longleftrightarrow> (\<exists>a. f s = (a, s') \<and> r = Inr a)"
  by (auto simp: stateE_def split: prod.splits)

lemma tryStateE_Inr_iff [simp]: "tryStateE f s = (Inr u, s') \<longleftrightarrow> f s = Inr s'"
  by (auto simp: tryStateE_def split: sum.splits)

lemma tryStateE_Inl_iff [simp]: "tryStateE f s = (Inl e, s') \<longleftrightarrow> f s = Inl e \<and> s' = s"
  by (auto simp: tryStateE_def split: sum.splits)

lemma db_call_Inr_iff [simp]: "db_call env op m s = (Inr a, s') \<longleftrightarrow> e_fault env op = None \<and> m s = (Inr a, s')"
  by (auto simp: db_call_def split: option.splits)

lemma db_call_Inl_iff: "db_call env op m s = (Inl e, s') \<longleftrightarrow>
    (\<exists>msg. e_fault env op = Some msg \<and> e = Repository msg \<and> s' = s) \<or> e_fault env op = None \<and> m s = (Inl e, s')"
  by (auto simp: db_call_def split: option.splits)

lemma db_query_Inr_iff [simp]: "db_query env op f s = (Inr a, s') \<longleftrightarrow> e_fault env op = None \<and> a = f s \<and> s' = s"
  by (auto simp: db_query_def)

lemma db_query_state: "db_query env op f s = (r, s') \<Longrightarrow> s' = s"
  by (auto simp: db_query_def db_call_def split: option.splits)

lemma audit_record_Inr: "\<exists>s'. audit_record env ctx ty res t u c reason s = (Inr (), s')"
  by (auto simp: audit_record_def action_defs split: option.splits)

text \<open>Everything but the two logs.\<close>

definition same_data :: "db \<Rightarrow> db \<Rightarrow> bool" where
  "same_data d d' \<longleftrightarrow> d'\<lparr>db_audit := [], db_history := []\<rparr> = d\<lparr>db_audit := [], db_history := []\<rparr>"

lemma same_data_refl [simp]: "same_data d d"
  by (simp add: same_data_def)

lemma same_data_trans: "same_data a b \<Longrightarrow> same_data b c \<Longrightarrow> same_data a c"
  by (simp add: same_data_def)

lemma audit_record_same: "audit_record env ctx ty res t u c reason d = (r, d') \<Longrightarrow> r = Inr () \<and> same_data d d'"
  by (cases "e_fault env ''audit.record''") (auto simp: audit_record_def same_data_def)

lemma history_record_same: "history_record env call d = (r, d') \<Longrightarrow> r = Inr () \<and> same_data d d'"
  by (cases "e_fault env ''sign_in_history''") (auto simp: history_record_def same_data_def)

lemma same_data_fields:
  "same_data d d' \<Longrightarrow> db_clients d' = db_clients d \<and> db_users d' = db_users d \<and> db_tenants d' = db_tenants d
     \<and> db_auth_sessions d' = db_auth_sessions d \<and> db_codes d' = db_codes d \<and> db_refresh d' = db_refresh d
     \<and> db_sso d' = db_sso d \<and> db_assertion_jtis d' = db_assertion_jtis d \<and> db_dpop_jtis d' = db_dpop_jtis d
     \<and> db_revoked d' = db_revoked d \<and> db_consents d' = db_consents d \<and> db_applications d' = db_applications d
     \<and> db_bindings d' = db_bindings d \<and> db_assignments d' = db_assignments d \<and> db_resources d' = db_resources d
     \<and> db_client_permissions d' = db_client_permissions d \<and> db_memberships d' = db_memberships d
     \<and> db_policies d' = db_policies d
     \<and> db_authenticators d' = db_authenticators d \<and> db_login_identifiers d' = db_login_identifiers d
     \<and> db_tenant_domains d' = db_tenant_domains d \<and> db_password_history d' = db_password_history d
     \<and> db_permission_codes d' = db_permission_codes d \<and> db_user_permissions d' = db_user_permissions d
     \<and> db_attempts d' = db_attempts d"
  by (cases d; cases d') (simp add: same_data_def)

text \<open>Everything but the logs and the replay tables: what client authentication and the check of a
  DPoP proof leave as it is.\<close>

definition core :: "db \<Rightarrow> db" where
  "core d = d\<lparr>db_audit := [], db_history := [], db_assertion_jtis := [], db_dpop_jtis := []\<rparr>"

lemma core_fields:
  "core d' = core d \<Longrightarrow> db_clients d' = db_clients d \<and> db_users d' = db_users d \<and> db_tenants d' = db_tenants d
     \<and> db_auth_sessions d' = db_auth_sessions d \<and> db_codes d' = db_codes d \<and> db_refresh d' = db_refresh d
     \<and> db_sso d' = db_sso d \<and> db_revoked d' = db_revoked d \<and> db_consents d' = db_consents d
     \<and> db_applications d' = db_applications d \<and> db_bindings d' = db_bindings d \<and> db_assignments d' = db_assignments d
     \<and> db_resources d' = db_resources d \<and> db_client_permissions d' = db_client_permissions d
     \<and> db_memberships d' = db_memberships d \<and> db_policies d' = db_policies d
     \<and> db_authenticators d' = db_authenticators d \<and> db_login_identifiers d' = db_login_identifiers d
     \<and> db_tenant_domains d' = db_tenant_domains d \<and> db_password_history d' = db_password_history d
     \<and> db_permission_codes d' = db_permission_codes d \<and> db_user_permissions d' = db_user_permissions d
     \<and> db_attempts d' = db_attempts d"
  by (cases d; cases d') (simp add: core_def)

lemma same_data_core: "same_data d d' \<Longrightarrow> core d' = core d"
  by (cases d; cases d') (simp add: same_data_def core_def)

text \<open>The logs are irrelevant to \<open>f\<close>.\<close>

definition log_free :: "(db \<Rightarrow> 'x) \<Rightarrow> bool" where
  "log_free f \<longleftrightarrow> (\<forall>d a h. f (d\<lparr>db_audit := a, db_history := h\<rparr>) = f d)"

lemma log_freeD: "log_free f \<Longrightarrow> same_data d d' \<Longrightarrow> f d' = f d"
  unfolding log_free_def same_data_def by metis

lemma log_free_fields [simp]:
  "log_free core" "log_free db_codes" "log_free db_refresh" "log_free db_users" "log_free db_clients" "log_free db_sso"
  "log_free db_auth_sessions" "log_free db_revoked" "log_free db_consents"
  "log_free db_dpop_jtis" "log_free db_assertion_jtis" "log_free db_memberships" "log_free db_tenants"
  "log_free db_authenticators" "log_free db_login_identifiers" "log_free db_tenant_domains" "log_free db_password_history"
  "log_free db_permission_codes" "log_free db_user_permissions" "log_free db_attempts" "log_free db_client_permissions"
  by (simp_all add: log_free_def core_def)

lemma keeps_db_call [action_inv]: "keeps f m \<Longrightarrow> keeps f (db_call env op m)"
  by (cases "e_fault env op") (simp_all add: db_call_def keeps_failE)

lemma keeps_db_query [action_inv]: "keeps f (db_query env op g)"
  unfolding db_query_def by (intro action_inv)

lemma keeps_stateE: "(\<And>d a d'. g d = (a, d') \<Longrightarrow> f d' = f d) \<Longrightarrow> keeps f (stateE g)"
  by (rule keepsI) auto

lemma keeps_tryStateE: "(\<And>d d'. g d = Inr d' \<Longrightarrow> f d' = f d) \<Longrightarrow> keeps f (tryStateE g)"
  by (rule keepsI) (auto simp: tryStateE_def split: sum.splits)

lemma keeps_audit [action_inv]: "log_free f \<Longrightarrow> keeps f (audit_record env ctx ty res t u c reason)"
  by (rule keepsI) (meson audit_record_same log_freeD)

lemma keeps_history [action_inv]: "log_free f \<Longrightarrow> keeps f (history_record env call)"
  by (rule keepsI) (meson history_record_same log_freeD)

lemma never_fails_audit: "never_fails (audit_record env ctx ty res t u c reason)"
  unfolding never_fails_def using audit_record_same by blast

lemma never_fails_history: "never_fails (history_record env call)"
  unfolding never_fails_def using history_record_same by blast

lemma keeps_queries [action_inv]:
  "keeps f (repo_client_find env t c)" "keeps f (repo_user_find env u)" "keeps f (repo_tenant_find env t)"
  "keeps f (repo_app_by_oidc_client env t c)" "keeps f (repo_app_by_target env op t tg)" "keeps f (repo_app_is_assigned env a u)"
  "keeps f (repo_app_sa_assigned env a cid)" "keeps f (repo_resource_find env t uri)" "keeps f (repo_client_permissions env cid)"
  "keeps f (repo_codes_find_used env t h)" "keeps f (repo_refresh_find env t h)" "keeps f (repo_refresh_exists_child env h)"
  by (simp_all add: repo_op_defs keeps_db_query)

lemma keeps_replay_tables [action_inv]:
  "keeps core (repo_assertions_record env t c j until)" "keeps core (repo_dpop_record env k until)"
  "keeps db_assertion_jtis (repo_dpop_record env k until)"
  by (auto simp: repo_op_defs core_def intro!: keeps_db_call keeps_stateE split: prod.splits)

lemma keeps_updates [action_inv]:
  "keeps db_codes (repo_refresh_revoke env h at)" "keeps db_codes (repo_refresh_revoke_family env t fam at)"
  "keeps db_codes (repo_refresh_create env tok)" "keeps db_refresh (repo_codes_consume env t h now)"
  by (auto simp: repo_op_defs rbind_Inr_iff intro!: keeps_bindE keeps_case_option keeps_retE keeps_db_call keeps_stateE keeps_tryStateE
      split: prod.splits)

end
