(* ===== verification/Client_Authentication.thy ===== *)
theory Client_Authentication
  imports Store
begin

text \<open>
  Client authentication (\<open>application/client_authentication.rs\<close>), the verification of DPoP proofs
  against the replay table (\<open>application/dpop_proof_verification.rs\<close>) and the application gate
  (\<open>application/application_access.rs\<close>).
\<close>

section \<open>Presented credentials\<close>

record presented_client_credentials =
  cr_basic :: "(string \<times> string) option"
  cr_body_client_id :: "string option"
  cr_body_client_secret :: "string option"
  cr_client_assertion :: "string option"
  cr_client_assertion_type :: "string option"

datatype client_auth_failure =
    MultipleAuthMethods | ClientIdMismatch | MissingClientId | MissingCredentials | UnsupportedAuthMethod
  | ClientHasNoSecret | ClientHasNoJwks | InvalidClientSecret | InvalidAssertion client_assertion_failure
  | ReplayedAssertion

fun client_auth_failure_str :: "client_auth_failure \<Rightarrow> string" where
  "client_auth_failure_str MultipleAuthMethods = ''multiple_auth_methods''"
| "client_auth_failure_str ClientIdMismatch = ''client_id_mismatch''"
| "client_auth_failure_str MissingClientId = ''missing_client_id''"
| "client_auth_failure_str MissingCredentials = ''missing_credentials''"
| "client_auth_failure_str UnsupportedAuthMethod = ''unsupported_auth_method''"
| "client_auth_failure_str ClientHasNoSecret = ''client_has_no_secret''"
| "client_auth_failure_str ClientHasNoJwks = ''client_has_no_jwks''"
| "client_auth_failure_str InvalidClientSecret = ''invalid_client_secret''"
| "client_auth_failure_str (InvalidAssertion f) = client_assertion_failure_str f"
| "client_auth_failure_str ReplayedAssertion = ''replayed_client_assertion''"

definition credential_assertion :: "presented_client_credentials \<Rightarrow> string option" where
  "credential_assertion cr = opt_filter_ne (cr_client_assertion cr)"

definition ensure_single_method :: "presented_client_credentials \<Rightarrow> client_auth_failure + unit" where
  "ensure_single_method cr =
     (let presented = length (filter (\<lambda>p. p)
        [cr_basic cr \<noteq> None, opt_filter_ne (cr_body_client_secret cr) \<noteq> None, opt_filter_ne (cr_client_assertion cr) \<noteq> None])
      in if presented > 1 then Inl MultipleAuthMethods else Inr ())"

definition credentials_resolve_client_id :: "jwt_lib \<Rightarrow> presented_client_credentials \<Rightarrow> client_auth_failure + string" where
  "credentials_resolve_client_id jl cr =
     (let body_id = opt_filter_ne (cr_body_client_id cr) in
      case (cr_basic cr, body_id) of
        (Some (basic_id, _), Some b) \<Rightarrow> if basic_id \<noteq> b then Inl ClientIdMismatch else Inr basic_id
      | (Some (basic_id, _), None) \<Rightarrow> Inr basic_id
      | (None, Some b) \<Rightarrow> Inr b
      | (None, None) \<Rightarrow> ok_or MissingClientId (Option.bind (credential_assertion cr) (unverified_subject jl)))"

datatype selected_credential = CredNotRequired | CredSecret string | CredAssertion string "string option"

definition require_secret :: "client \<Rightarrow> client_auth_failure + unit" where
  "require_secret c = (case c_client_secret_hash c of None \<Rightarrow> Inl ClientHasNoSecret | Some _ \<Rightarrow> Inr ())"

definition select_credential :: "presented_client_credentials \<Rightarrow> client \<Rightarrow> client_auth_failure + selected_credential" where
  "select_credential cr c =
     (if c_client_type c = Public then Inr CredNotRequired
      else let post = opt_filter_ne (cr_body_client_secret cr) in
      case c_token_endpoint_auth_method c of
        ClientSecretBasic \<Rightarrow> rbind (require_secret c) (\<lambda>_.
          (case (cr_basic cr, post, credential_assertion cr) of
             (Some (_, secret), _, _) \<Rightarrow> Inr (CredSecret secret)
           | (None, None, None) \<Rightarrow> Inl MissingCredentials
           | (None, _, _) \<Rightarrow> Inl UnsupportedAuthMethod))
      | ClientSecretPost \<Rightarrow> rbind (require_secret c) (\<lambda>_.
          (case (post, cr_basic cr, credential_assertion cr) of
             (Some secret, _, _) \<Rightarrow> Inr (CredSecret secret)
           | (None, None, None) \<Rightarrow> Inl MissingCredentials
           | (None, _, _) \<Rightarrow> Inl UnsupportedAuthMethod))
      | PrivateKeyJwt \<Rightarrow>
          (if c_jwks c = None then Inl ClientHasNoJwks
           else case (credential_assertion cr, cr_basic cr, post) of
             (Some assertion, _, _) \<Rightarrow> Inr (CredAssertion assertion (cr_client_assertion_type cr))
           | (None, None, None) \<Rightarrow> Inl MissingCredentials
           | (None, _, _) \<Rightarrow> Inl UnsupportedAuthMethod)
      | AuthMethodNone \<Rightarrow> Inl UnsupportedAuthMethod)"

section \<open>The authenticator\<close>

datatype client_auth_outcome = OutcomeAuthenticated | OutcomeNotRequired

datatype client_auth_error = AuthFailed client_auth_failure | AuthInternal string

fun error_display :: "domain_error \<Rightarrow> string" where
  "error_display NotFound = ''resource not found''"
| "error_display (Conflict s) = ''conflict: '' @ s"
| "error_display (InvalidValue s) = ''invalid value: '' @ s"
| "error_display (Repository s) = ''repository error: '' @ s"

definition accepted_audiences :: "env \<Rightarrow> tenant_id \<Rightarrow> string list" where
  "accepted_audiences env t =
     (let issuer = tenant_issuer (e_uuid_str env) (e_base_issuer env) t in [issuer @ ''/token'', issuer])"

definition authenticate_assertion ::
  "env \<Rightarrow> tenant_id \<Rightarrow> client \<Rightarrow> string \<Rightarrow> string option \<Rightarrow> (db, client_auth_error, client_auth_outcome) action" where
  "authenticate_assertion env t c assertion assertion_type =
     bindE (liftR (ok_or (AuthFailed ClientHasNoJwks) (c_jwks c))) (\<lambda>jwks.
     bindE (liftR (map_err (\<lambda>f. AuthFailed (InvalidAssertion f))
              (verify_client_assertion (e_lib env) (e_jwt env) assertion_type assertion (c_client_id c) jwks
                 (accepted_audiences env t) (e_auth_now env)))) (\<lambda>verified.
     bindE (mapErrE (\<lambda>e. AuthInternal (error_display e))
              (repo_assertions_record env t (c_client_id c) (va_jti verified) (va_replay_guard_until verified))) (\<lambda>unused.
     bindE (guardE unused (AuthFailed ReplayedAssertion)) (\<lambda>_.
     retE OutcomeAuthenticated))))"

definition client_authenticate ::
  "env \<Rightarrow> tenant_id \<Rightarrow> client \<Rightarrow> presented_client_credentials \<Rightarrow> (db, client_auth_error, client_auth_outcome) action" where
  "client_authenticate env t c cr =
     bindE (liftR (map_err AuthFailed (select_credential cr c))) (\<lambda>sel.
     case sel of
       CredNotRequired \<Rightarrow> retE OutcomeNotRequired
     | CredSecret secret \<Rightarrow>
         bindE (liftR (ok_or (AuthFailed ClientHasNoSecret) (c_client_secret_hash c))) (\<lambda>h.
         bindE (liftR (map_err AuthInternal (e_verify_secret env secret h))) (\<lambda>ok.
         if ok then retE OutcomeAuthenticated else failE (AuthFailed InvalidClientSecret)))
     | CredAssertion assertion ty \<Rightarrow> authenticate_assertion env t c assertion ty)"

section \<open>DPoP proof verification\<close>

datatype dpop_proof_failure = DpopRejected dpop_proof_rejection | DpopUnavailable string

definition dpop_verify ::
  "env \<Rightarrow> string \<Rightarrow> string \<Rightarrow> string \<Rightarrow> string option \<Rightarrow> (db, dpop_proof_failure, verified_dpop_proof) action" where
  "dpop_verify env proof http_method uri access_token =
     bindE (liftR (map_err DpopRejected (verify_proof (e_lib env) (e_jwt env) proof
              \<lparr>dr_method = http_method, dr_uri = uri, dr_access_token = access_token, dr_now = e_dpop_now env\<rparr>))) (\<lambda>verified.
     bindE (mapErrE (\<lambda>e. DpopUnavailable (error_display e))
              (repo_dpop_record env (replay_key (e_lib env) verified) (retain_until verified))) (\<lambda>unused.
     if unused then retE verified else failE (DpopRejected DpopReplayed)))"

section \<open>The application gate\<close>

datatype application_gate = GateAllowed | GateDenied string application_access

definition judge ::
  "env \<Rightarrow> request_context \<Rightarrow> tenant_id \<Rightarrow> domain_error + application option \<Rightarrow> string \<Rightarrow> uuid \<Rightarrow> (db, 'e, application_gate) action" where
  "judge env ctx t found party u =
     (case found of
        Inl _ \<Rightarrow> retE GateAllowed
      | Inr None \<Rightarrow> retE GateAllowed
      | Inr (Some app) \<Rightarrow>
          bindE (if needs_assignment_lookup app then tryE (repo_app_is_assigned env (ap_id app) u) else retE (Inr False)) (\<lambda>looked.
          case looked of
            Inl _ \<Rightarrow> retE GateAllowed
          | Inr assigned \<Rightarrow>
              let access = admits app assigned in
              if access_is_allowed access then retE GateAllowed
              else
                let enforcement = (case e_assignment_enforcement env t of Inl _ \<Rightarrow> RecordOnly | Inr x \<Rightarrow> x);
                    enforced = (enforcement = Enforce)
                in bindE (audit_record env ctx ''application.access_denied'' (if enforced then AuditFailure else AuditSuccess)
                     (Some t) (Some u) (Some party)
                     (Some (''application='' @ e_uuid_str env (ap_id app) @ '' reason='' @ access_reason access
                        @ '' enforcement='' @ enum_as_str assignment_enforcement_table enforcement))) (\<lambda>_.
                   if enforced then retE (GateDenied (ap_display_name app) access) else retE GateAllowed)))"

definition application_check ::
  "env \<Rightarrow> request_context \<Rightarrow> tenant_id \<Rightarrow> string \<Rightarrow> uuid \<Rightarrow> (db, 'e, application_gate) action" where
  "application_check env ctx t client_id u =
     bindE (tryE (repo_app_by_oidc_client env t client_id)) (\<lambda>found. judge env ctx t found client_id u)"

section \<open>Lemmas\<close>

lemma query_ops_state:
  "repo_client_find env t c d = (r, d') \<Longrightarrow> d' = d"
  "repo_user_find env u d = (r1, d') \<Longrightarrow> d' = d"
  "repo_tenant_find env t d = (r2, d') \<Longrightarrow> d' = d"
  "repo_app_by_oidc_client env t c d = (r3, d') \<Longrightarrow> d' = d"
  "repo_app_by_target env op t tg d = (r4, d') \<Longrightarrow> d' = d"
  "repo_app_is_assigned env a u d = (r5, d') \<Longrightarrow> d' = d"
  "repo_app_sa_assigned env a cid d = (r6, d') \<Longrightarrow> d' = d"
  "repo_resource_find env t uri d = (r7, d') \<Longrightarrow> d' = d"
  "repo_client_permissions env cid d = (r8, d') \<Longrightarrow> d' = d"
  "repo_codes_find_used env t h d = (r9, d') \<Longrightarrow> d' = d"
  "repo_refresh_find env t h d = (r10, d') \<Longrightarrow> d' = d"
  "repo_refresh_exists_child env h d = (r11, d') \<Longrightarrow> d' = d"
  by (auto simp: repo_op_defs dest: db_query_state)

lemma application_check_total:
  assumes "application_check env ctx t c u d = (r, d')"
  shows "same_data d d' \<and> (\<exists>g. r = Inr g)"
proof -
  obtain x d1 where 1: "repo_app_by_oidc_client env t c d = (x, d1)" by fastforce
  then have d1: "d1 = d" by (rule query_ops_state)
  from assms 1 have j: "judge env ctx t x c u d = (r, d')"
    by (simp add: application_check_def bindE_def tryE_def d1)
  show ?thesis
  proof (cases "\<exists>app. x = Inr (Some app)")
    case False
    then show ?thesis using j by (cases x) (auto simp: judge_def split: option.splits)
  next
    case True
    then obtain app where x: "x = Inr (Some app)" by blast
    obtain y d2 where 2: "repo_app_is_assigned env (ap_id app) u d = (y, d2)" by fastforce
    then have "d2 = d" by (rule query_ops_state)
    with 2 j x show ?thesis
      by (auto simp: judge_def bindE_def tryE_def Let_def retE_def split: if_splits sum.splits prod.splits
          dest: audit_record_same)
  qed
qed

lemma ensure_single_method_ok_iff:
  "ensure_single_method cr = Inr () \<longleftrightarrow>
     \<not> (cr_basic cr \<noteq> None \<and> opt_filter_ne (cr_body_client_secret cr) \<noteq> None)
     \<and> \<not> (cr_basic cr \<noteq> None \<and> credential_assertion cr \<noteq> None)
     \<and> \<not> (opt_filter_ne (cr_body_client_secret cr) \<noteq> None \<and> credential_assertion cr \<noteq> None)"
  by (auto simp: ensure_single_method_def credential_assertion_def Let_def)

lemma keeps_judge [action_inv]: "log_free f \<Longrightarrow> keeps f (judge env ctx t found party u)"
  unfolding judge_def Let_def by (intro action_inv)

lemma keeps_application_check [action_inv]: "log_free f \<Longrightarrow> keeps f (application_check env ctx t c u)"
  unfolding application_check_def by (intro action_inv)

lemma keeps_client_authenticate [action_inv]: "keeps core (client_authenticate env t c cr)"
  unfolding client_authenticate_def authenticate_assertion_def
  by (intro action_inv) (auto split: selected_credential.splits intro!: action_inv)

lemma keeps_dpop_verify [action_inv]:
  "keeps core (dpop_verify env proof m uri at)" "keeps db_assertion_jtis (dpop_verify env proof m uri at)"
  unfolding dpop_verify_def by (intro action_inv)+

text \<open>What a successful client authentication establishes.\<close>

definition client_proved :: "env \<Rightarrow> tenant_id \<Rightarrow> client \<Rightarrow> presented_client_credentials \<Rightarrow> db \<Rightarrow> bool" where
  "client_proved env t c cr d \<longleftrightarrow>
     c_client_type c = Public
     \<or> (\<exists>secret h. select_credential cr c = Inr (CredSecret secret) \<and> c_client_secret_hash c = Some h
          \<and> e_verify_secret env secret h = Inr True)
     \<or> (\<exists>assertion ty jwks v. select_credential cr c = Inr (CredAssertion assertion ty) \<and> c_jwks c = Some jwks
          \<and> verify_client_assertion (e_lib env) (e_jwt env) ty assertion (c_client_id c) jwks (accepted_audiences env t) (e_auth_now env) = Inr v
          \<and> assertion_jti_key (e_ci env) t (c_client_id c) (va_jti v) \<notin> fst ` set (db_assertion_jtis d))"

lemma select_credential_not_required: "select_credential cr c = Inr CredNotRequired \<Longrightarrow> c_client_type c = Public"
  by (auto simp: select_credential_def Let_def rbind_Inr_iff split: if_splits token_endpoint_auth_method.splits option.splits)

lemma client_authenticate_proved:
  assumes "client_authenticate env t c cr d = (Inr out, d')"
  shows "client_proved env t c cr d"
proof -
  from assms obtain sel where sel: "select_credential cr c = Inr sel" by (auto simp: client_authenticate_def bindE_Inr_iff)
  show ?thesis
  proof (cases sel)
    case CredNotRequired
    then show ?thesis using sel select_credential_not_required by (auto simp: client_proved_def)
  next
    case (CredSecret secret)
    then show ?thesis using assms sel
      by (auto simp: client_proved_def client_authenticate_def bindE_Inr_iff split: if_splits)
  next
    case (CredAssertion a ty)
    with assms sel have "authenticate_assertion env t c a ty d = (Inr out, d')"
      by (simp add: client_authenticate_def bindE_def liftR_def)
    then obtain jwks v d1 where j: "c_jwks c = Some jwks"
      and v: "verify_client_assertion (e_lib env) (e_jwt env) ty a (c_client_id c) jwks (accepted_audiences env t) (e_auth_now env) = Inr v"
      and r: "repo_assertions_record env t (c_client_id c) (va_jti v) (va_replay_guard_until v) d = (Inr True, d1)"
      by (auto simp: authenticate_assertion_def bindE_Inr_iff)
    from r have "assertion_jti_key (e_ci env) t (c_client_id c) (va_jti v) \<notin> fst ` set (db_assertion_jtis d)"
      by (auto simp: repo_assertions_record_def record_if_unused_def split: if_splits)
    with sel CredAssertion j v show ?thesis unfolding client_proved_def by blast
  qed
qed

end
