(* ===== verification/Token.thy ===== *)
theory Token
  imports Client_Authentication
begin

text \<open>
  The token endpoint (\<open>application/token.rs\<close>): the three grants, step by step in the order of the
  code.  A handler is an action on the database; every early return is a \<open>failE\<close> and every effect
  made before it stays.  \<open>e_now\<close> is the reading of the service's clock.
\<close>

section \<open>Requests and responses\<close>

record token_command =
  tc_grant_type :: "string option"
  tc_code :: "string option"
  tc_redirect_uri :: "string option"
  tc_code_verifier :: "string option"
  tc_credentials :: presented_client_credentials
  tc_refresh_token :: "string option"
  tc_scope :: "string option"
  tc_resource :: "string option"
  tc_dpop_proof :: "string option"

record token_error =
  te_code :: oauth_error_code
  te_description :: string

definition token_error_new :: "oauth_error_code \<Rightarrow> string \<Rightarrow> token_error" where
  "token_error_new c s = \<lparr>te_code = c, te_description = s\<rparr>"

record issued_tokens =
  is_access_token :: string
  is_id_token :: "string option"
  is_expires_in :: "64 word"
  is_scope :: string
  is_refresh_token :: "string option"
  is_bound_to_key :: bool

type_synonym 'a token_action = "(db, token_error, 'a) action"

definition token_internal :: token_error where
  "token_internal = token_error_new ServerError ''internal server error''"

definition orInternal :: "(db, domain_error, 'a) action \<Rightarrow> 'a token_action" where
  "orInternal m = mapErrE (\<lambda>_. token_internal) m"

section \<open>Shared steps\<close>

definition token_resolve_client_id :: "env \<Rightarrow> token_command \<Rightarrow> token_error + string" where
  "token_resolve_client_id env cmd =
     rbind (map_err (\<lambda>_. token_error_new InvalidRequest ''client credentials must be presented with a single authentication method'')
              (ensure_single_method (tc_credentials cmd))) (\<lambda>_.
     case credentials_resolve_client_id (e_jwt env) (tc_credentials cmd) of
       Inr client_id \<Rightarrow> Inr client_id
     | Inl ClientIdMismatch \<Rightarrow> Inl (token_error_new InvalidRequest ''client_id mismatch between Authorization header and body'')
     | Inl _ \<Rightarrow> Inl (token_error_new InvalidClient ''client authentication is required''))"

definition client_auth_failed :: "env \<Rightarrow> request_context \<Rightarrow> tenant_id \<Rightarrow> string \<Rightarrow> string \<Rightarrow> 'a token_action" where
  "client_auth_failed env ctx t client_id reason =
     bindE (audit_record env ctx ''client.authentication_failed'' AuditFailure (Some t) None (Some client_id) (Some reason)) (\<lambda>_.
     failE (token_error_new InvalidClient ''client authentication failed''))"

definition load_active_client :: "env \<Rightarrow> request_context \<Rightarrow> tenant_id \<Rightarrow> string \<Rightarrow> client token_action" where
  "load_active_client env ctx t client_id =
     bindE (orInternal (repo_client_find env t client_id)) (\<lambda>found.
     case found of
       Some c \<Rightarrow> if client_is_active c then retE c else client_auth_failed env ctx t client_id ''client_not_active''
     | None \<Rightarrow> client_auth_failed env ctx t client_id ''unknown_client'')"

definition authenticate_client :: "env \<Rightarrow> request_context \<Rightarrow> tenant_id \<Rightarrow> client \<Rightarrow> token_command \<Rightarrow> unit token_action" where
  "authenticate_client env ctx t c cmd =
     bindE (tryE (client_authenticate env t c (tc_credentials cmd))) (\<lambda>outcome.
     case outcome of
       Inr _ \<Rightarrow> retE ()
     | Inl (AuthFailed failure) \<Rightarrow> client_auth_failed env ctx t (c_client_id c) (client_auth_failure_str failure)
     | Inl (AuthInternal message) \<Rightarrow> failE token_internal)"

definition load_active_user :: "env \<Rightarrow> uuid \<Rightarrow> user token_action" where
  "load_active_user env user_id =
     bindE (orInternal (repo_user_find env user_id)) (\<lambda>found.
     case found of
       None \<Rightarrow> failE (token_error_new InvalidGrant ''user no longer exists'')
     | Some u \<Rightarrow>
         if \<not> user_is_active u then failE (token_error_new InvalidGrant ''user is not active'')
         else bindE (orInternal (repo_tenant_find env (u_tenant_id u))) (\<lambda>home.
           if (case home of Some h \<Rightarrow> tenant_is_active h | None \<Rightarrow> False) then retE u
           else failE (token_error_new InvalidGrant ''the user's home tenant is not active'')))"

text \<open>\<open>jwt::sign\<close>: \<open>e_jwt_encode\<close> stands for loading the PEM key and encoding.\<close>

definition jwt_sign :: "env \<Rightarrow> signing_key \<Rightarrow> string \<Rightarrow> jwt_claims \<Rightarrow> string option" where
  "jwt_sign env key typ claims =
     (if sk_algorithm key = ''RS256'' then e_jwt_encode env Rs256 (sk_private_pem key) (sk_kid key) typ claims
      else if sk_algorithm key = ''ES256'' then e_jwt_encode env Es256 (sk_private_pem key) (sk_kid key) typ claims
      else None)"

definition sign_token :: "env \<Rightarrow> string \<Rightarrow> jwt_claims \<Rightarrow> token_error + string" where
  "sign_token env typ claims =
     rbind (map_err (\<lambda>_. token_internal) (e_active_signing_key env)) (\<lambda>key.
     ok_or token_internal (jwt_sign env key typ claims))"

definition sign_id_token :: "env \<Rightarrow> id_token_claims \<Rightarrow> token_error + string" where
  "sign_id_token env claims = sign_token env ''JWT'' (IdClaims claims)"

definition sign_access_token :: "env \<Rightarrow> access_token_claims \<Rightarrow> token_error + string" where
  "sign_access_token env claims = sign_token env ''at+jwt'' (AccessClaims claims)"

definition verify_dpop_proof :: "env \<Rightarrow> tenant_id \<Rightarrow> token_command \<Rightarrow> verified_dpop_proof option token_action" where
  "verify_dpop_proof env t cmd =
     (case tc_dpop_proof cmd of
        None \<Rightarrow> retE None
      | Some proof \<Rightarrow>
          let token_endpoint = tenant_issuer (e_uuid_str env) (e_base_issuer env) t @ ''/token'' in
          bindE (tryE (dpop_verify env proof ''POST'' token_endpoint None)) (\<lambda>checked.
          case checked of
            Inr verified \<Rightarrow> retE (Some verified)
          | Inl (DpopRejected rejection) \<Rightarrow> failE (token_error_new InvalidDpopProof (dpop_reason rejection))
          | Inl (DpopUnavailable e) \<Rightarrow> failE token_internal))"

section \<open>The authorization-code grant\<close>

definition code_id_claims :: "env \<Rightarrow> tenant_id \<Rightarrow> string \<Rightarrow> authorization_code \<Rightarrow> user \<Rightarrow> id_token_claims" where
  "code_id_claims env t client_id code user =
     (let iat = timestamp (e_now env);
          grant = co_grant code;
          a = co_authentication code;
          (acr, amr) = authentication_claims (au_methods a)
      in \<lparr>it_iss = tenant_issuer (e_uuid_str env) (e_base_issuer env) t,
          it_sub = e_uuid_str env (u_sub user),
          it_aud = client_id,
          it_exp = iat + u64_as_i64 (e_id_token_ttl env),
          it_iat = iat,
          it_auth_time = timestamp (au_auth_time a),
          it_nonce = g_nonce grant,
          it_jti = e_jti_id env,
          it_sid = au_sso_sid a,
          it_acr = acr,
          it_amr = amr,
          it_email = (if grant_includes grant Email then Some (u_email user) else None),
          it_email_verified = (if grant_includes grant Email then Some (u_email_verified user) else None),
          it_preferred_username = (if grant_includes grant Profile then u_preferred_username user else None),
          it_name = (if grant_includes grant Profile then u_name user else None)\<rparr>)"

definition user_access_claims :: "env \<Rightarrow> tenant_id \<Rightarrow> string \<Rightarrow> string \<Rightarrow> user \<Rightarrow> string option \<Rightarrow> access_token_claims" where
  "user_access_claims env t client_id scope_str user jkt =
     (let iat = timestamp (e_now env);
          issuer = tenant_issuer (e_uuid_str env) (e_base_issuer env) t
      in \<lparr>at_iss = issuer,
          at_sub = e_uuid_str env (u_sub user),
          at_aud = userinfo_audience issuer,
          at_client_id = client_id,
          at_scope = scope_str,
          at_exp = iat + u64_as_i64 (e_access_token_ttl env),
          at_iat = iat,
          at_jti = e_jti_access env,
          at_sub_type = None,
          at_perms = None,
          at_cnf_jkt = jkt\<rparr>)"

definition code_refresh_token :: "env \<Rightarrow> tenant_id \<Rightarrow> string \<Rightarrow> string \<Rightarrow> authorization_code \<Rightarrow> verified_dpop_proof option \<Rightarrow> refresh_token" where
  "code_refresh_token env t client_id h code proof =
     (let a = co_authentication code in
      \<lparr>rt_token_hash = sha256_hex (e_lib env) (e_fresh_token env),
       rt_parent_hash = None,
       rt_grant_hash = Some h,
       rt_tenant_id = t,
       rt_user_id = au_user_id a,
       rt_client_id = client_id,
       rt_scope = g_scope (co_grant code),
       rt_sid = au_sso_sid a,
       rt_authentication_methods = au_methods a,
       rt_auth_time = Some (au_auth_time a),
       rt_dpop_jkt = map_option vd_jkt proof,
       rt_expires_at = e_now env + e_refresh_token_ttl env,
       rt_revoked_at = None,
       rt_created_at = e_now env\<rparr>)"

text \<open>The code could not be consumed: tell a replay from an unknown or expired code; a replay
  revokes the family of the first exchange.\<close>

definition code_not_consumed :: "env \<Rightarrow> request_context \<Rightarrow> tenant_id \<Rightarrow> string \<Rightarrow> string \<Rightarrow> 'a token_action" where
  "code_not_consumed env ctx t client_id h =
     bindE (orInternal (repo_codes_find_used env t h)) (\<lambda>used_code.
     bindE (case used_code of
              Some used \<Rightarrow>
                bindE (orInternal (repo_refresh_revoke_family env t h (e_now env))) (\<lambda>revoked.
                retE (''authorization code replayed; revoked '' @ nat_to_string revoked @ '' refresh token(s)''))
            | None \<Rightarrow> retE ''authorization code not found or expired'') (\<lambda>reason.
     bindE (audit_record env ctx ''authorization_code.reuse_detected'' AuditFailure (Some t)
              (map_option (\<lambda>c. au_user_id (co_authentication c)) used_code) (Some client_id) (Some reason)) (\<lambda>_.
     failE (token_error_new InvalidGrant ''authorization code is invalid, expired, or already used''))))"

fun redemption_description :: "code_redemption_rejection \<Rightarrow> string" where
  "redemption_description IssuedToAnotherClient = ''authorization code was issued to another client''"
| "redemption_description RedirectUriMismatch = ''redirect_uri does not match the authorization request''"
| "redemption_description PkceMismatch = ''PKCE verification failed''"

text \<open>Steps 5 to 9 of \<open>exchange_code\<close>: from the consumed code to the response.\<close>

definition issue_for_code ::
  "env \<Rightarrow> request_context \<Rightarrow> tenant_id \<Rightarrow> string \<Rightarrow> string option \<Rightarrow> string \<Rightarrow> string \<Rightarrow> authorization_code
   \<Rightarrow> verified_dpop_proof option \<Rightarrow> issued_tokens token_action" where
  "issue_for_code env ctx t client_id redirect_uri verifier h code proof =
     bindE (audit_record env ctx ''authorization_code.used'' AuditSuccess (Some t)
              (Some (au_user_id (co_authentication code))) (Some client_id) None) (\<lambda>_.
     bindE (liftR (map_err (\<lambda>rejection. token_error_new InvalidGrant (redemption_description rejection))
              (redeem (e_lib env) code client_id redirect_uri verifier))) (\<lambda>_.
     bindE (load_active_user env (au_user_id (co_authentication code))) (\<lambda>user.
     let has_offline = grant_includes (co_grant code) OfflineAccess;
         scope_str = grant_scope_string (co_grant code)
     in
     bindE (liftR (sign_id_token env (code_id_claims env t client_id code user))) (\<lambda>id_token.
     bindE (liftR (sign_access_token env (user_access_claims env t client_id scope_str user (map_option vd_jkt proof)))) (\<lambda>access_token.
     bindE (if has_offline then
              bindE (orInternal (repo_refresh_create env (code_refresh_token env t client_id h code proof))) (\<lambda>_.
              bindE (audit_record env ctx ''refresh_token.issued'' AuditSuccess (Some t)
                       (Some (au_user_id (co_authentication code))) (Some client_id) None) (\<lambda>_.
              retE (Some (e_fresh_token env))))
            else retE None) (\<lambda>refresh_token_plain.
     bindE (case au_sso_sid (co_authentication code) of
              Some sid \<Rightarrow> history_record env (RecordAppIssue (au_user_id (co_authentication code)) t sid client_id (e_now env) has_offline)
            | None \<Rightarrow> retE ()) (\<lambda>_.
     bindE (audit_record env ctx ''token.issued'' AuditSuccess (Some t)
              (Some (au_user_id (co_authentication code))) (Some client_id) None) (\<lambda>_.
     retE \<lparr>is_access_token = access_token, is_id_token = Some id_token, is_expires_in = e_access_token_ttl env,
           is_scope = scope_str, is_refresh_token = refresh_token_plain, is_bound_to_key = (proof \<noteq> None)\<rparr>))))))))"

definition exchange_code ::
  "env \<Rightarrow> request_context \<Rightarrow> tenant_id \<Rightarrow> token_command \<Rightarrow> verified_dpop_proof option \<Rightarrow> issued_tokens token_action" where
  "exchange_code env ctx t cmd proof =
     bindE (liftR (token_resolve_client_id env cmd)) (\<lambda>client_id.
     bindE (load_active_client env ctx t client_id) (\<lambda>client.
     bindE (authenticate_client env ctx t client cmd) (\<lambda>_.
     bindE (liftR (ok_or (token_error_new InvalidRequest ''code_verifier is required'') (opt_filter_ne (tc_code_verifier cmd)))) (\<lambda>verifier.
     bindE (guardE (is_valid_code_verifier verifier)
              (token_error_new InvalidRequest ''code_verifier must be 43-128 characters of [A-Za-z0-9-._~]'')) (\<lambda>_.
     bindE (liftR (ok_or (token_error_new InvalidRequest ''code is required'') (opt_filter_ne (tc_code cmd)))) (\<lambda>code.
     let h = code_hash (e_lib env) code in
     bindE (orInternal (repo_codes_consume env t h (e_now env))) (\<lambda>consumed.
     case consumed of
       None \<Rightarrow> code_not_consumed env ctx t client_id h
     | Some auth_code \<Rightarrow> issue_for_code env ctx t client_id (tc_redirect_uri cmd) verifier h auth_code proof)))))))"

section \<open>The refresh-token grant\<close>

definition note_refresh_reuse :: "env \<Rightarrow> refresh_token \<Rightarrow> string \<Rightarrow> unit token_action" where
  "note_refresh_reuse env stored client_id =
     (case rt_sid stored of
        Some sid \<Rightarrow> history_record env (RecordRefreshReuse sid client_id (e_now env))
      | None \<Rightarrow> retE ())"

text \<open>Reuse was detected: revoke the family, audit, refuse.\<close>

definition refresh_reuse_detected ::
  "env \<Rightarrow> request_context \<Rightarrow> tenant_id \<Rightarrow> string \<Rightarrow> refresh_token \<Rightarrow> string \<Rightarrow> 'a token_action" where
  "refresh_reuse_detected env ctx t client_id stored how =
     bindE (orInternal (repo_refresh_revoke_family env t (family_hash stored) (e_now env))) (\<lambda>revoked.
     bindE (audit_record env ctx ''refresh_token.reuse_detected'' AuditFailure (Some t) (Some (rt_user_id stored)) (Some client_id)
              (Some (how @ ''; revoked '' @ nat_to_string revoked @ '' token(s) in the grant family''))) (\<lambda>_.
     bindE (note_refresh_reuse env stored client_id) (\<lambda>_.
     failE (token_error_new InvalidGrant ''refresh_token has already been used''))))"

definition refresh_bound_jkt ::
  "env \<Rightarrow> request_context \<Rightarrow> tenant_id \<Rightarrow> string \<Rightarrow> refresh_token \<Rightarrow> verified_dpop_proof option \<Rightarrow> string option token_action" where
  "refresh_bound_jkt env ctx t client_id stored proof =
     (case (rt_dpop_jkt stored, proof) of
        (Some _, None) \<Rightarrow> failE (token_error_new InvalidDpopProof ''this refresh_token is bound to a key; a DPoP proof is required'')
      | (Some bound, Some p) \<Rightarrow>
          if bound \<noteq> vd_jkt p then
            bindE (audit_record env ctx ''refresh_token.dpop_key_mismatch'' AuditFailure (Some t) (Some (rt_user_id stored)) (Some client_id)
                     (Some ''refresh token presented with a DPoP proof of another key; nothing revoked'')) (\<lambda>_.
            failE (token_error_new InvalidGrant ''refresh_token is bound to another key''))
          else retE (Some bound)
      | (None, Some p) \<Rightarrow> retE (Some (vd_jkt p))
      | (None, None) \<Rightarrow> retE None)"

definition refreshed_id_claims :: "env \<Rightarrow> tenant_id \<Rightarrow> string \<Rightarrow> refresh_token \<Rightarrow> user \<Rightarrow> id_token_claims" where
  "refreshed_id_claims env t client_id stored user =
     (let iat = timestamp (e_now env);
          has = (\<lambda>s. list_ex (\<lambda>v. v = enum_as_str scope_table s) (rt_scope stored));
          (acr, amr) = authentication_claims (rt_authentication_methods stored)
      in \<lparr>it_iss = tenant_issuer (e_uuid_str env) (e_base_issuer env) t,
          it_sub = e_uuid_str env (u_sub user),
          it_aud = client_id,
          it_exp = iat + u64_as_i64 (e_id_token_ttl env),
          it_iat = iat,
          it_auth_time = timestamp (auth_time_or_issued stored),
          it_nonce = [],
          it_jti = e_jti_id env,
          it_sid = rt_sid stored,
          it_acr = acr,
          it_amr = amr,
          it_email = (if has Email then Some (u_email user) else None),
          it_email_verified = (if has Email then Some (u_email_verified user) else None),
          it_preferred_username = (if has Profile then u_preferred_username user else None),
          it_name = (if has Profile then u_name user else None)\<rparr>)"

definition rotated_refresh_token :: "env \<Rightarrow> tenant_id \<Rightarrow> string \<Rightarrow> string \<Rightarrow> refresh_token \<Rightarrow> string option \<Rightarrow> refresh_token" where
  "rotated_refresh_token env t client_id h stored bound_jkt =
     \<lparr>rt_token_hash = sha256_hex (e_lib env) (e_fresh_token env),
      rt_parent_hash = Some h,
      rt_grant_hash = Some (family_hash stored),
      rt_tenant_id = t,
      rt_user_id = rt_user_id stored,
      rt_client_id = client_id,
      rt_scope = rt_scope stored,
      rt_sid = rt_sid stored,
      rt_authentication_methods = rt_authentication_methods stored,
      rt_auth_time = Some (auth_time_or_issued stored),
      rt_dpop_jkt = bound_jkt,
      rt_expires_at = rt_expires_at stored,
      rt_revoked_at = None,
      rt_created_at = e_now env\<rparr>"

text \<open>Steps 5 to 8: reuse detection, validity, the user, the application gate, the rotation.\<close>

definition refresh_admit ::
  "env \<Rightarrow> request_context \<Rightarrow> tenant_id \<Rightarrow> string \<Rightarrow> string \<Rightarrow> refresh_token \<Rightarrow> user token_action" where
  "refresh_admit env ctx t client_id h stored =
     bindE (orInternal (repo_refresh_exists_child env h)) (\<lambda>already_rotated.
     if already_rotated then refresh_reuse_detected env ctx t client_id stored ''refresh token already rotated''
     else
     bindE (guardE (rt_is_valid_at stored (e_now env)) (token_error_new InvalidGrant ''refresh_token is revoked or expired'')) (\<lambda>_.
     bindE (load_active_user env (rt_user_id stored)) (\<lambda>user.
     bindE (application_check env ctx t client_id (rt_user_id stored)) (\<lambda>gate.
     case gate of
       GateDenied _ _ \<Rightarrow>
         bindE (orInternal (repo_refresh_revoke_family env t (family_hash stored) (e_now env))) (\<lambda>_.
         failE (token_error_new InvalidGrant ''the user may no longer use this application''))
     | GateAllowed \<Rightarrow>
         bindE (orInternal (repo_refresh_revoke env h (e_now env))) (\<lambda>n.
         if n \<ge> 1 then retE user
         else refresh_reuse_detected env ctx t client_id stored ''refresh token was rotated concurrently'')))))"

text \<open>Steps 9 and 10: the new tokens.\<close>

definition issue_for_refresh ::
  "env \<Rightarrow> request_context \<Rightarrow> tenant_id \<Rightarrow> string \<Rightarrow> string \<Rightarrow> refresh_token \<Rightarrow> user \<Rightarrow> string option \<Rightarrow> issued_tokens token_action" where
  "issue_for_refresh env ctx t client_id h stored user bound_jkt =
     (let scope_str = join '' '' (rt_scope stored);
          u = Some (rt_user_id stored)
      in
      bindE (liftR (sign_id_token env (refreshed_id_claims env t client_id stored user))) (\<lambda>id_token.
      bindE (liftR (sign_access_token env (user_access_claims env t client_id scope_str user bound_jkt))) (\<lambda>access_token.
      bindE (orInternal (repo_refresh_create env (rotated_refresh_token env t client_id h stored bound_jkt))) (\<lambda>_.
      bindE (case rt_sid stored of
               Some sid \<Rightarrow> history_record env (RecordRefreshUse sid client_id (e_now env) (cx_ip_address ctx) (cx_user_agent ctx))
             | None \<Rightarrow> retE ()) (\<lambda>_.
      bindE (audit_record env ctx ''refresh_token.used'' AuditSuccess (Some t) u (Some client_id) None) (\<lambda>_.
      bindE (audit_record env ctx ''refresh_token.issued'' AuditSuccess (Some t) u (Some client_id) None) (\<lambda>_.
      bindE (audit_record env ctx ''token.issued'' AuditSuccess (Some t) u (Some client_id) None) (\<lambda>_.
      retE \<lparr>is_access_token = access_token, is_id_token = Some id_token, is_expires_in = e_access_token_ttl env,
            is_scope = scope_str, is_refresh_token = Some (e_fresh_token env), is_bound_to_key = (bound_jkt \<noteq> None)\<rparr>))))))))"

definition exchange_refresh_token ::
  "env \<Rightarrow> request_context \<Rightarrow> tenant_id \<Rightarrow> token_command \<Rightarrow> verified_dpop_proof option \<Rightarrow> issued_tokens token_action" where
  "exchange_refresh_token env ctx t cmd proof =
     bindE (liftR (token_resolve_client_id env cmd)) (\<lambda>client_id.
     bindE (load_active_client env ctx t client_id) (\<lambda>client.
     bindE (authenticate_client env ctx t client cmd) (\<lambda>_.
     bindE (liftR (ok_or (token_error_new InvalidRequest ''refresh_token is required'') (opt_filter_ne (tc_refresh_token cmd)))) (\<lambda>rt_plain.
     let h = sha256_hex (e_lib env) rt_plain in
     bindE (orInternal (repo_refresh_find env t h)) (\<lambda>found.
     bindE (liftR (ok_or (token_error_new InvalidGrant ''refresh_token not found'') found)) (\<lambda>stored.
     bindE (guardE (rt_client_id stored = client_id) (token_error_new InvalidGrant ''refresh_token was issued to another client'')) (\<lambda>_.
     bindE (refresh_bound_jkt env ctx t client_id stored proof) (\<lambda>bound_jkt.
     bindE (refresh_admit env ctx t client_id h stored) (\<lambda>user.
     issue_for_refresh env ctx t client_id h stored user bound_jkt)))))))))"

section \<open>The client-credentials grant\<close>

definition user_bound_scopes :: "string list" where
  "user_bound_scopes = map (enum_as_str scope_table) [OpenId, Profile, Email]"

definition resolve_client_credentials_scopes :: "client \<Rightarrow> string option \<Rightarrow> token_error + string list" where
  "resolve_client_credentials_scopes client requested =
     (case opt_filter_ne (map_option trim requested) of
        Some raw \<Rightarrow>
          let scopes = split_whitespace raw in
          if enum_as_str scope_table OfflineAccess \<in> set scopes
          then Inl (token_error_new InvalidScope ''offline_access is not available for the client_credentials grant'')
          else if list_ex (\<lambda>s. s \<in> set user_bound_scopes) scopes
          then Inl (token_error_new InvalidScope ''user-bound scopes are not available for the client_credentials grant'')
          else if \<not> allows_scopes client scopes
          then Inl (token_error_new InvalidScope ''requested scope exceeds the scopes registered for this client'')
          else Inr scopes
      | None \<Rightarrow> Inr (filter (\<lambda>s. s \<noteq> enum_as_str scope_table OfflineAccess \<and> s \<notin> set user_bound_scopes) (c_scopes client)))"

text \<open>Whether a token for a registered resource may be issued to this service account
  (\<open>issuable\<close>); the error is the audit reason.\<close>

definition issuable_resource :: "env \<Rightarrow> tenant_id \<Rightarrow> client \<Rightarrow> string \<Rightarrow> (string + protected_resource) token_action" where
  "issuable_resource env t client requested =
     bindE (orInternal (repo_resource_find env t requested)) (\<lambda>found.
     case found of
       None \<Rightarrow> retE (Inl ''unknown_resource'')
     | Some resource \<Rightarrow>
         if \<not> resource_is_active resource then retE (Inl ''resource_disabled'')
         else bindE (orInternal (repo_app_by_target env ''applications.find_by_binding_target(resource)'' t (ResourceTarget (pr_id resource)))) (\<lambda>app.
           case app of
             None \<Rightarrow> retE (Inl ''resource_not_bound_to_an_application'')
           | Some application \<Rightarrow>
               if \<not> application_is_active application then retE (Inl (access_reason (admits_service_account application False)))
               else bindE (orInternal (repo_app_sa_assigned env (ap_id application) (c_id client))) (\<lambda>assigned.
                 case admits_service_account application assigned of
                   AccessAllowed \<Rightarrow> retE (Inr resource)
                 | AccessNotAssigned \<Rightarrow> retE (Inl ''service_account_not_assigned'')
                 | AccessDisabled \<Rightarrow> retE (Inl (access_reason AccessDisabled)))))"

definition refuse_client :: "env \<Rightarrow> request_context \<Rightarrow> tenant_id \<Rightarrow> string \<Rightarrow> string \<Rightarrow> token_error \<Rightarrow> 'a token_action" where
  "refuse_client env ctx t client_id reason err =
     bindE (audit_record env ctx ''client.authentication_failed'' AuditFailure (Some t) None (Some client_id) (Some reason)) (\<lambda>_. failE err)"

text \<open>Step 5: the audience, the permission codes and the lifetime.\<close>

definition client_credentials_target ::
  "env \<Rightarrow> request_context \<Rightarrow> tenant_id \<Rightarrow> string \<Rightarrow> client \<Rightarrow> application option \<Rightarrow> string option
   \<Rightarrow> (string \<times> string option \<times> 64 word) token_action" where
  "client_credentials_target env ctx t client_id client own_application requested =
     (let issuer = tenant_issuer (e_uuid_str env) (e_base_issuer env) t;
          management_aud = management_audience issuer;
          own_disabled = (case own_application of Some a \<Rightarrow> \<not> application_is_active a | None \<Rightarrow> False)
      in
      if own_disabled \<and> requested \<noteq> Some management_aud
      then refuse_client env ctx t client_id ''own_application_disabled''
             (token_error_new UnauthorizedClient ''the application this service account belongs to is disabled'')
      else if requested = None \<or> requested = Some [] then retE (userinfo_audience issuer, None, e_access_token_ttl env)
      else if requested = Some management_aud then
        bindE (if own_disabled then retE [] else orInternal (repo_client_permissions env (c_id client))) (\<lambda>codes.
        if codes = [] \<and> own_application = None
        then refuse_client env ctx t client_id ''no_management_permissions''
               (token_error_new InvalidTarget ''client holds no management permissions for the requested resource'')
        else retE (management_aud, Some (join '' '' codes), e_management_token_ttl env))
      else
        bindE (issuable_resource env t client (the requested)) (\<lambda>issuable.
        case issuable of
          Inr resource \<Rightarrow> retE (pr_resource_uri resource, None, e_access_token_ttl env)
        | Inl reason \<Rightarrow> refuse_client env ctx t client_id reason
            (token_error_new InvalidTarget ''the requested resource is not served by this authorization server'')))"

definition client_access_claims ::
  "env \<Rightarrow> tenant_id \<Rightarrow> client \<Rightarrow> string \<Rightarrow> string \<Rightarrow> string option \<Rightarrow> 64 word \<Rightarrow> access_token_claims" where
  "client_access_claims env t client scope_str audience perms ttl =
     (let iat = timestamp (e_now env) in
      \<lparr>at_iss = tenant_issuer (e_uuid_str env) (e_base_issuer env) t,
       at_sub = c_client_id client,
       at_aud = audience,
       at_client_id = c_client_id client,
       at_scope = scope_str,
       at_exp = iat + u64_as_i64 ttl,
       at_iat = iat,
       at_jti = e_jti_access env,
       at_sub_type = Some subject_type_client,
       at_perms = perms,
       at_cnf_jkt = None\<rparr>)"

definition issue_client_credentials ::
  "env \<Rightarrow> request_context \<Rightarrow> tenant_id \<Rightarrow> token_command \<Rightarrow> issued_tokens token_action" where
  "issue_client_credentials env ctx t cmd =
     bindE (liftR (token_resolve_client_id env cmd)) (\<lambda>client_id.
     bindE (load_active_client env ctx t client_id) (\<lambda>client.
     bindE (authenticate_client env ctx t client cmd) (\<lambda>_.
     bindE (if allows_client_credentials client then retE ()
            else refuse_client env ctx t client_id ''client_credentials_not_allowed''
                   (token_error_new UnauthorizedClient ''client is not allowed to use the client_credentials grant'')) (\<lambda>_.
     bindE (liftR (resolve_client_credentials_scopes client (tc_scope cmd))) (\<lambda>scopes.
     bindE (orInternal (repo_app_by_target env ''applications.find_by_binding_target(service_account)'' t (ServiceAccountTarget (c_id client)))) (\<lambda>own_application.
     bindE (client_credentials_target env ctx t client_id client own_application (map_option trim (tc_resource cmd))) (\<lambda>(audience, perms, ttl).
     bindE (liftR (sign_access_token env (client_access_claims env t client (join '' '' scopes) audience perms ttl))) (\<lambda>access_token.
     bindE (audit_record env ctx ''token.issued'' AuditSuccess (Some t) None (Some (c_client_id client)) (Some ''grant=client_credentials'')) (\<lambda>_.
     retE \<lparr>is_access_token = access_token, is_id_token = None, is_expires_in = ttl, is_scope = join '' '' scopes,
           is_refresh_token = None, is_bound_to_key = False\<rparr>)))))))))"

section \<open>The endpoint\<close>

definition exchange :: "env \<Rightarrow> request_context \<Rightarrow> tenant_id \<Rightarrow> token_command \<Rightarrow> issued_tokens token_action" where
  "exchange env ctx t cmd =
     (if (case tc_resource cmd of Some r \<Rightarrow> trim r \<noteq> [] | None \<Rightarrow> False) \<and> tc_grant_type cmd \<noteq> Some ''client_credentials''
      then failE (token_error_new InvalidTarget ''the `resource` parameter is only supported for the client_credentials grant'')
      else if tc_grant_type cmd = Some ''authorization_code''
      then bindE (verify_dpop_proof env t cmd) (\<lambda>proof. exchange_code env ctx t cmd proof)
      else if tc_grant_type cmd = Some ''refresh_token''
      then bindE (verify_dpop_proof env t cmd) (\<lambda>proof. exchange_refresh_token env ctx t cmd proof)
      else if tc_grant_type cmd = Some ''client_credentials'' then issue_client_credentials env ctx t cmd
      else failE (token_error_new UnsupportedGrantType
             ''grant_type must be `authorization_code`, `refresh_token` or `client_credentials`''))"

end
