(* ===== verification/Token_Properties.thy ===== *)
theory Token_Properties
  imports Token
begin

text \<open>
  What the token endpoint guarantees.  Frame lemmas say which tables a step leaves alone; the properties
  state what each grant requires and produces, what a failure leaves behind and how a replay ends.
\<close>

section \<open>Steps\<close>

lemma keeps_orInternal [action_inv]: "keeps f m \<Longrightarrow> keeps f (orInternal m)"
  unfolding orInternal_def by (rule keeps_mapErrE)

lemma inv_orInternal [action_inv]: "inv_action I m \<Longrightarrow> inv_action I (orInternal m)"
  unfolding orInternal_def by (rule inv_mapErrE)

lemma orInternal_Inr [simp]: "orInternal m d = (Inr a, d') \<longleftrightarrow> m d = (Inr a, d')"
  by (simp add: orInternal_def)

lemma keeps_client_auth_failed [action_inv]: "log_free f \<Longrightarrow> keeps f (client_auth_failed env ctx t c reason)"
  unfolding client_auth_failed_def by (intro action_inv)

lemma keeps_refuse_client [action_inv]: "log_free f \<Longrightarrow> keeps f (refuse_client env ctx t c reason err)"
  unfolding refuse_client_def by (intro action_inv)

lemma keeps_load_active_client [action_inv]: "log_free f \<Longrightarrow> keeps f (load_active_client env ctx t c)"
  unfolding load_active_client_def by (intro action_inv)

lemma keeps_authenticate_client [action_inv]: "keeps core (authenticate_client env ctx t c cmd)"
  unfolding authenticate_client_def
  by (intro action_inv log_free_fields) (auto split: client_auth_error.splits intro!: action_inv)

lemma keeps_load_active_user [action_inv]: "keeps f (load_active_user env u)"
  unfolding load_active_user_def by (intro action_inv)

lemma keeps_verify_dpop_proof [action_inv]:
  "keeps core (verify_dpop_proof env t cmd)" "keeps db_assertion_jtis (verify_dpop_proof env t cmd)"
  unfolding verify_dpop_proof_def Let_def
  by (intro action_inv; auto split: dpop_proof_failure.splits intro!: action_inv)+

lemma audit_step [simp]:
  fixes m :: "unit \<Rightarrow> (db, 'e, 'a) action"
  shows "bindE (audit_record env ctx ty res t u c reason) m d = (r, d') \<longleftrightarrow>
     (\<exists>d1. (audit_record env ctx ty res t u c reason :: (db, 'e, unit) action) d = (Inr (), d1) \<and> m () d1 = (r, d'))"
proof -
  obtain x d1 where 1: "(audit_record env ctx ty res t u c reason :: (db, 'e, unit) action) d = (x, d1)" by fastforce
  then have "x = Inr ()" using audit_record_same by blast
  with 1 show ?thesis by (simp add: bindE_def)
qed

lemma client_auth_failed_Inr [simp]: "\<not> client_auth_failed env ctx t c reason d = (Inr a, d')"
  by (auto simp: client_auth_failed_def)

lemma refuse_client_Inr [simp]: "\<not> refuse_client env ctx t c reason err d = (Inr a, d')"
  by (auto simp: refuse_client_def)

lemma load_active_client_Inr:
  "load_active_client env ctx t client_id d = (Inr c, d') \<Longrightarrow>
     d' = d \<and> client_find_by_client_id (e_ci env) t client_id (db_clients d) = Some c \<and> client_is_active c"
  by (auto simp: load_active_client_def bindE_Inr_iff repo_client_find_def split: option.splits if_splits)

lemma authenticate_client_Inr:
  assumes "authenticate_client env ctx t c cmd d = (Inr u, d')"
  shows "core d' = core d \<and> client_proved env t c (tc_credentials cmd) d"
proof -
  from assms obtain r d1 where 1: "client_authenticate env t c (tc_credentials cmd) d = (r, d1)"
    and 2: "(case r of Inr _ \<Rightarrow> retE ()
     | Inl (AuthFailed failure) \<Rightarrow> client_auth_failed env ctx t (c_client_id c) (client_auth_failure_str failure)
     | Inl (AuthInternal message) \<Rightarrow> failE token_internal) d1 = (Inr u, d')"
    by (auto simp: authenticate_client_def bindE_Inr_iff)
  from 2 obtain out where "r = Inr out" "d' = d1" by (cases r) (auto split: client_auth_error.splits)
  with 1 show ?thesis using client_authenticate_proved keepsD [OF keeps_client_authenticate] by blast
qed

definition active_user_of :: "db \<Rightarrow> uuid \<Rightarrow> user \<Rightarrow> bool" where
  "active_user_of d u user \<longleftrightarrow> user_find_by_id u (db_users d) = Some user \<and> user_is_active user
     \<and> (\<exists>home. tenant_find_by_id (u_tenant_id user) (db_tenants d) = Some home \<and> tenant_is_active home)"

lemma load_active_user_Inr:
  "load_active_user env u d = (Inr user, d') \<Longrightarrow> d' = d \<and> active_user_of d u user"
  by (auto simp: load_active_user_def bindE_Inr_iff repo_user_find_def repo_tenant_find_def active_user_of_def
      split: option.splits if_splits)

lemma core_active_user: "core d' = core d \<Longrightarrow> active_user_of d' u x = active_user_of d u x"
  by (simp add: active_user_of_def core_fields [of d' d])

section \<open>The client is established first\<close>

definition established_client :: "env \<Rightarrow> tenant_id \<Rightarrow> token_command \<Rightarrow> db \<Rightarrow> string \<Rightarrow> client \<Rightarrow> bool" where
  "established_client env t cmd d client_id c \<longleftrightarrow>
     token_resolve_client_id env cmd = Inr client_id
     \<and> client_find_by_client_id (e_ci env) t client_id (db_clients d) = Some c
     \<and> client_is_active c \<and> client_proved env t c (tc_credentials cmd) d"

text \<open>Where an error can come from.\<close>

definition err_only :: "('e \<Rightarrow> bool) \<Rightarrow> ('s, 'e, 'a) action \<Rightarrow> bool" where
  "err_only P m \<longleftrightarrow> (\<forall>s e s'. m s = (Inl e, s') \<longrightarrow> P e)"

lemma err_only_bindE: "err_only P m \<Longrightarrow> (\<And>a. err_only P (n a)) \<Longrightarrow> err_only P (bindE m n)"
  unfolding err_only_def bindE_Inl_iff by blast

lemma err_only_never_fails: "never_fails m \<Longrightarrow> err_only P m"
  by (simp add: never_fails_def err_only_def)

lemma err_only_simps [simp]:
  "err_only P (failE e) \<longleftrightarrow> P e" "err_only P (retE a)" "err_only P (liftR r) \<longleftrightarrow> (\<forall>e. r = Inl e \<longrightarrow> P e)"
  "err_only P (guardE b e) \<longleftrightarrow> b \<or> P e" "err_only P (tryE m)"
  by (auto simp: err_only_def)

lemma bindE_past:
  assumes "bindE m n s = (r, s'')" "err_only P m" "case r of Inl e \<Rightarrow> \<not> P e | Inr _ \<Rightarrow> True"
  obtains a s' where "m s = (Inr a, s')" "n a s' = (r, s'')"
proof (cases r)
  case (Inl e)
  then have "\<not> m s = (Inl e, s'')" using assms(2,3) by (auto simp: err_only_def)
  with Inl assms(1) that show ?thesis by (auto simp: bindE_Inl_iff)
next
  case (Inr b)
  with assms(1) that show ?thesis by (auto simp: bindE_Inr_iff)
qed

definition not_grant :: "token_error \<Rightarrow> bool" where
  "not_grant e \<longleftrightarrow> te_code e \<noteq> InvalidGrant"

lemma err_only_orInternal: "err_only not_grant (orInternal m)"
  by (auto simp: err_only_def orInternal_def mapErrE_Inl_iff not_grant_def token_internal_def token_error_new_def)

lemma err_only_client_auth_failed: "err_only not_grant (client_auth_failed env ctx t c reason)"
  unfolding client_auth_failed_def
  by (rule err_only_bindE) (auto simp: not_grant_def token_error_new_def intro: err_only_never_fails never_fails_audit)

lemma err_only_resolve: "token_resolve_client_id env cmd = Inl e \<Longrightarrow> not_grant e"
  by (auto simp: token_resolve_client_id_def rbind_Inl_iff map_err_Inl_iff not_grant_def token_error_new_def
      split: sum.splits client_auth_failure.splits)

lemma err_only_load_active_client: "err_only not_grant (load_active_client env ctx t c)"
  unfolding load_active_client_def
  by (rule err_only_bindE [OF err_only_orInternal]) (auto simp: err_only_client_auth_failed split: option.split)

lemma err_only_authenticate_client: "err_only not_grant (authenticate_client env ctx t c cmd)"
  unfolding authenticate_client_def
  by (rule err_only_bindE) (auto simp: err_only_client_auth_failed not_grant_def token_internal_def token_error_new_def
      split: sum.split client_auth_error.split)

lemma err_only_verify_dpop: "err_only not_grant (verify_dpop_proof env t cmd)"
proof (cases "tc_dpop_proof cmd")
  case (Some raw)
  show ?thesis unfolding verify_dpop_proof_def Some Let_def option.case
    by (rule err_only_bindE) (auto simp: not_grant_def token_internal_def token_error_new_def
        split: sum.split dpop_proof_failure.split)
qed (simp add: verify_dpop_proof_def)

lemma client_prefix_past:
  assumes "bindE (liftR (token_resolve_client_id env cmd)) (\<lambda>client_id.
     bindE (load_active_client env ctx t client_id) (\<lambda>client.
     bindE (authenticate_client env ctx t client cmd) (\<lambda>_. m client_id client))) d = (r, d')"
    and g: "case r of Inl e \<Rightarrow> \<not> not_grant e | Inr _ \<Rightarrow> True"
  obtains client_id c d1 where "established_client env t cmd d client_id c" "core d1 = core d" "m client_id c d1 = (r, d')"
proof -
  obtain client_id d0 where 0: "token_resolve_client_id env cmd = Inr client_id" "d0 = d"
    and n: "bindE (load_active_client env ctx t client_id) (\<lambda>client.
     bindE (authenticate_client env ctx t client cmd) (\<lambda>_. m client_id client)) d0 = (r, d')"
    using assms(1) by (rule bindE_past [OF _ _ g]) (auto intro: err_only_resolve dest: sym)
  obtain c d1 where 1: "load_active_client env ctx t client_id d0 = (Inr c, d1)"
    and n: "bindE (authenticate_client env ctx t c cmd) (\<lambda>_. m client_id c) d1 = (r, d')"
    using n by (rule bindE_past [OF _ err_only_load_active_client g])
  obtain u d2 where 2: "authenticate_client env ctx t c cmd d1 = (Inr u, d2)" and n: "m client_id c d2 = (r, d')"
    using n by (rule bindE_past [OF _ err_only_authenticate_client g])
  show ?thesis
    using load_active_client_Inr [OF 1] authenticate_client_Inr [OF 2] 0 by (intro that [OF _ _ n]) (simp_all add: established_client_def)
qed

lemma token_prefix_established_mono:
  assumes "core d' = core d" "db_assertion_jtis d' = db_assertion_jtis d"
  shows "established_client env t cmd d' i c = established_client env t cmd d i c"
  using core_fields [OF assms(1)] assms(2) by (simp add: established_client_def client_proved_def)

section \<open>The authorization-code grant\<close>

lemma history_opt_core:
  assumes "(case sid of Some x \<Rightarrow> history_record env (call x) | None \<Rightarrow> retE ()) d = (r, d')"
  shows "same_data d d'"
  using assms by (cases sid) (auto dest: history_record_same)

lemma repo_refresh_create_Inr:
  "repo_refresh_create env tok d = (Inr u, d') \<longleftrightarrow> e_fault env ''refresh.create'' = None
     \<and> (\<exists>rows. rt_create (e_db_now env) tok (db_refresh d) = Inr rows \<and> d' = d\<lparr>db_refresh := rows\<rparr>)"
  by (auto simp: repo_refresh_create_def rbind_Inr_iff)

text \<open>The refresh token a code exchange stores, if any.\<close>

definition code_refresh_outcome ::
  "env \<Rightarrow> tenant_id \<Rightarrow> string \<Rightarrow> string \<Rightarrow> authorization_code \<Rightarrow> verified_dpop_proof option \<Rightarrow> db \<Rightarrow> db \<Rightarrow> string option \<Rightarrow> bool" where
  "code_refresh_outcome env t client_id h code proof d d' plain \<longleftrightarrow>
     (if grant_includes (co_grant code) OfflineAccess
      then plain = Some (e_fresh_token env)
        \<and> rt_create (e_db_now env) (code_refresh_token env t client_id h code proof) (db_refresh d) = Inr (db_refresh d')
      else plain = None \<and> db_refresh d' = db_refresh d)"

lemma issue_for_code_Inr:
  assumes "issue_for_code env ctx t client_id uri v h code proof d = (Inr tok, d')"
  obtains user where "redeem (e_lib env) code client_id uri v = Inr ()"
    and "active_user_of d (au_user_id (co_authentication code)) user"
    and "map_option Inr (is_id_token tok) = Some (sign_id_token env (code_id_claims env t client_id code user))"
    and "Inr (is_access_token tok) =
      sign_access_token env (user_access_claims env t client_id (grant_scope_string (co_grant code)) user (map_option vd_jkt proof))"
    and "code_refresh_outcome env t client_id h code proof d d' (is_refresh_token tok)"
    and "db_codes d' = db_codes d"
proof -
  from assms obtain d1 d2 user idt act plain d3 d4 where
      a: "(audit_record env ctx ''authorization_code.used'' AuditSuccess (Some t)
              (Some (au_user_id (co_authentication code))) (Some client_id) None :: unit token_action) d = (Inr (), d1)"
    and r: "redeem (e_lib env) code client_id uri v = Inr ()"
    and u: "load_active_user env (au_user_id (co_authentication code)) d1 = (Inr user, d2)"
    and i: "sign_id_token env (code_id_claims env t client_id code user) = Inr idt"
    and c: "sign_access_token env (user_access_claims env t client_id (grant_scope_string (co_grant code)) user (map_option vd_jkt proof)) = Inr act"
    and p: "(if grant_includes (co_grant code) OfflineAccess then
              bindE (orInternal (repo_refresh_create env (code_refresh_token env t client_id h code proof))) (\<lambda>_.
              bindE (audit_record env ctx ''refresh_token.issued'' AuditSuccess (Some t)
                       (Some (au_user_id (co_authentication code))) (Some client_id) None) (\<lambda>_.
              retE (Some (e_fresh_token env))))
            else retE None) d2 = (Inr plain, d3)"
    and hi: "(case au_sso_sid (co_authentication code) of
              Some sid \<Rightarrow> history_record env (RecordAppIssue (au_user_id (co_authentication code)) t sid client_id (e_now env) (grant_includes (co_grant code) OfflineAccess))
            | None \<Rightarrow> retE ()) d3 = ((Inr () :: token_error + unit), d4)"
    and l: "(audit_record env ctx ''token.issued'' AuditSuccess (Some t)
              (Some (au_user_id (co_authentication code))) (Some client_id) None :: unit token_action) d4 = (Inr (), d')"
    and k: "tok = \<lparr>is_access_token = act, is_id_token = Some idt, is_expires_in = e_access_token_ttl env,
           is_scope = grant_scope_string (co_grant code), is_refresh_token = plain, is_bound_to_key = (proof \<noteq> None)\<rparr>"
    unfolding issue_for_code_def Let_def bindE_Inr_iff liftR_iff retE_iff by force
  note sa = same_data_fields [OF conjunct2 [OF audit_record_same [OF a]]]
  note u' = load_active_user_Inr [OF u]
  have s4: "db_refresh d' = db_refresh d3 \<and> db_codes d' = db_codes d3"
    using same_data_fields [OF history_opt_core [OF hi]] same_data_fields [OF conjunct2 [OF audit_record_same [OF l]]] by simp
  have "code_refresh_outcome env t client_id h code proof d d3 plain \<and> db_codes d3 = db_codes d"
    using p u' sa by (auto simp: code_refresh_outcome_def bindE_Inr_iff repo_refresh_create_Inr split: if_splits
        dest!: audit_record_same same_data_fields)
  then have o: "code_refresh_outcome env t client_id h code proof d d' plain" "db_codes d' = db_codes d"
    using s4 by (auto simp: code_refresh_outcome_def)
  have "active_user_of d (au_user_id (co_authentication code)) user" using u' sa by (simp add: active_user_of_def)
  with r i c k o show ?thesis by (intro that [of user]) simp_all
qed

lemma code_not_consumed_Inr [simp]: "\<not> code_not_consumed env ctx t c h d = (Inr a, d')"
  by (auto simp: code_not_consumed_def bindE_Inr_iff split: option.splits)

lemma repo_codes_consume_Inr:
  "repo_codes_consume env t h now d = (Inr res, d') \<longleftrightarrow> e_fault env ''codes.consume'' = None
     \<and> (res \<noteq> None \<longrightarrow> e_fault env ''codes.consume(select)'' = None)
     \<and> (\<exists>rows. code_consume t h now (db_codes d) = (res, rows) \<and> d' = d\<lparr>db_codes := rows\<rparr>)"
  by (auto simp: repo_codes_consume_def bindE_Inr_iff split: prod.splits option.splits)

lemma exchange_code_past:
  assumes "exchange_code env ctx t cmd pf d = (r, d')" and g: "case r of Inl e \<Rightarrow> \<not> not_grant e | Inr _ \<Rightarrow> True"
  obtains client_id c plain verifier d1 consumed rows where "established_client env t cmd d client_id c"
    and "tc_code cmd = Some plain" and "tc_code_verifier cmd = Some verifier" and "is_valid_code_verifier verifier"
    and "core d1 = core d"
    and "code_consume t (code_hash (e_lib env) plain) (e_now env) (db_codes d1) = (consumed, rows)"
    and "(case consumed of
       None \<Rightarrow> code_not_consumed env ctx t client_id (code_hash (e_lib env) plain)
     | Some auth_code \<Rightarrow> issue_for_code env ctx t client_id (tc_redirect_uri cmd) verifier (code_hash (e_lib env) plain) auth_code pf)
         (d1\<lparr>db_codes := rows\<rparr>) = (r, d')"
proof -
  obtain client_id c d1 where e: "established_client env t cmd d client_id c" "core d1 = core d" and
    x: "bindE (liftR (ok_or (token_error_new InvalidRequest ''code_verifier is required'') (opt_filter_ne (tc_code_verifier cmd)))) (\<lambda>verifier.
     bindE (guardE (is_valid_code_verifier verifier)
              (token_error_new InvalidRequest ''code_verifier must be 43-128 characters of [A-Za-z0-9-._~]'')) (\<lambda>_.
     bindE (liftR (ok_or (token_error_new InvalidRequest ''code is required'') (opt_filter_ne (tc_code cmd)))) (\<lambda>code.
     bindE (orInternal (repo_codes_consume env t (code_hash (e_lib env) code) (e_now env))) (\<lambda>consumed.
     case consumed of
       None \<Rightarrow> code_not_consumed env ctx t client_id (code_hash (e_lib env) code)
     | Some auth_code \<Rightarrow> issue_for_code env ctx t client_id (tc_redirect_uri cmd) verifier (code_hash (e_lib env) code) auth_code pf)))) d1 = (r, d')"
    using assms(1) unfolding exchange_code_def Let_def by (rule client_prefix_past [OF _ g])
  note ng = not_grant_def token_error_new_def ok_or_Inl_iff
  from x obtain v d2 where v: "(liftR (ok_or (token_error_new InvalidRequest ''code_verifier is required'') (opt_filter_ne (tc_code_verifier cmd)))
       :: string token_action) d1 = (Inr v, d2)" and
    x: "bindE (guardE (is_valid_code_verifier v)
              (token_error_new InvalidRequest ''code_verifier must be 43-128 characters of [A-Za-z0-9-._~]'')) (\<lambda>_.
     bindE (liftR (ok_or (token_error_new InvalidRequest ''code is required'') (opt_filter_ne (tc_code cmd)))) (\<lambda>code.
     bindE (orInternal (repo_codes_consume env t (code_hash (e_lib env) code) (e_now env))) (\<lambda>consumed.
     case consumed of
       None \<Rightarrow> code_not_consumed env ctx t client_id (code_hash (e_lib env) code)
     | Some auth_code \<Rightarrow> issue_for_code env ctx t client_id (tc_redirect_uri cmd) v (code_hash (e_lib env) code) auth_code pf))) d2 = (r, d')"
    by (rule bindE_past [OF _ _ g]) (simp add: ng)
  from x have w: "is_valid_code_verifier v" using g by (cases r) (auto simp: bindE_def guardE_def failE_def ng split: if_splits)
  with x have x: "bindE (liftR (ok_or (token_error_new InvalidRequest ''code is required'') (opt_filter_ne (tc_code cmd)))) (\<lambda>code.
     bindE (orInternal (repo_codes_consume env t (code_hash (e_lib env) code) (e_now env))) (\<lambda>consumed.
     case consumed of
       None \<Rightarrow> code_not_consumed env ctx t client_id (code_hash (e_lib env) code)
     | Some auth_code \<Rightarrow> issue_for_code env ctx t client_id (tc_redirect_uri cmd) v (code_hash (e_lib env) code) auth_code pf)) d2 = (r, d')"
    by (simp add: bindE_def guardE_def retE_def)
  then obtain pl d3 where p: "(liftR (ok_or (token_error_new InvalidRequest ''code is required'') (opt_filter_ne (tc_code cmd)))
       :: string token_action) d2 = (Inr pl, d3)" and
    x: "bindE (orInternal (repo_codes_consume env t (code_hash (e_lib env) pl) (e_now env))) (\<lambda>consumed.
     case consumed of
       None \<Rightarrow> code_not_consumed env ctx t client_id (code_hash (e_lib env) pl)
     | Some auth_code \<Rightarrow> issue_for_code env ctx t client_id (tc_redirect_uri cmd) v (code_hash (e_lib env) pl) auth_code pf) d3 = (r, d')"
    by (rule bindE_past [OF _ _ g]) (simp add: ng)
  from x obtain consumed d4 where c: "orInternal (repo_codes_consume env t (code_hash (e_lib env) pl) (e_now env)) d3 = (Inr consumed, d4)" and
    x: "(case consumed of
       None \<Rightarrow> code_not_consumed env ctx t client_id (code_hash (e_lib env) pl)
     | Some auth_code \<Rightarrow> issue_for_code env ctx t client_id (tc_redirect_uri cmd) v (code_hash (e_lib env) pl) auth_code pf) d4 = (r, d')"
    by (rule bindE_past [OF _ err_only_orInternal g])
  from v p have vp: "tc_code_verifier cmd = Some v" "tc_code cmd = Some pl" "d3 = d1" by simp_all
  from c vp obtain rows where rows: "code_consume t (code_hash (e_lib env) pl) (e_now env) (db_codes d1) = (consumed, rows)" "d4 = d1\<lparr>db_codes := rows\<rparr>"
    by (auto simp: repo_codes_consume_Inr)
  show ?thesis
    by (rule that [OF e(1) vp(2,1) w e(2) rows(1)]) (use x rows(2) in simp)
qed

lemma code_outcome_Inr:
  assumes "(case consumed of None \<Rightarrow> code_not_consumed env ctx t client_id h | Some code \<Rightarrow> issue_for_code env ctx t client_id uri v h code pf) d = (Inr tok, d')"
  shows "\<exists>code. consumed = Some code \<and> issue_for_code env ctx t client_id uri v h code pf d = (Inr tok, d')"
  using assms by (cases consumed) auto

lemma verify_dpop_proof_Inr:
  assumes "verify_dpop_proof env t cmd d = (Inr pf, d')"
  shows "core d' = core d \<and> db_assertion_jtis d' = db_assertion_jtis d \<and> (tc_dpop_proof cmd = None \<longleftrightarrow> pf = None)"
proof -
  have "tc_dpop_proof cmd = None \<longleftrightarrow> pf = None"
  proof (cases "tc_dpop_proof cmd")
    case (Some raw)
    with assms obtain r d1 where
      "(case r of Inr verified \<Rightarrow> retE (Some verified)
          | Inl (DpopRejected rejection) \<Rightarrow> failE (token_error_new InvalidDpopProof (dpop_reason rejection))
          | Inl (DpopUnavailable e) \<Rightarrow> failE token_internal) d1 = (Inr pf, d')"
      by (auto simp: verify_dpop_proof_def Let_def bindE_Inr_iff)
    with Some show ?thesis by (cases r) (auto split: dpop_proof_failure.splits)
  qed (use assms in \<open>simp add: verify_dpop_proof_def\<close>)
  then show ?thesis using keepsD [OF keeps_verify_dpop_proof(1) assms] keepsD [OF keeps_verify_dpop_proof(2) assms] by simp
qed

definition redeemable_code :: "env \<Rightarrow> tenant_id \<Rightarrow> token_command \<Rightarrow> string \<Rightarrow> authorization_code \<Rightarrow> bool" where
  "redeemable_code env t cmd client_id r \<longleftrightarrow>
     tc_code cmd \<noteq> None \<and> co_hash r = code_hash (e_lib env) (the (tc_code cmd)) \<and> co_tenant_id r = t
     \<and> co_used_at r = None \<and> e_now env < co_expires_at r
     \<and> g_client_id (co_grant r) = client_id \<and> tc_redirect_uri cmd = Some (g_redirect_uri (co_grant r))
     \<and> (\<exists>v. tc_code_verifier cmd = Some v \<and> is_valid_code_verifier v
          \<and> s256_challenge (e_lib env) v = pk_challenge (g_pkce (co_grant r)))"

text \<open>What the signed claims say of the user, the session and the client, and what a rotated refresh
  token inherits from the one it replaces.\<close>

definition tells_methods :: "authentication_method list option \<Rightarrow> id_token_claims \<Rightarrow> bool" where
  "tells_methods methods ic \<longleftrightarrow>
     (case methods of
        Some (m # ms) \<Rightarrow>
          it_acr ic = Some (if list_ex is_second_factor (m # ms) then acr_multi_factor else acr_single_factor)
          \<and> (\<exists>amrs. it_amr ic = Some amrs \<and> set amrs = amr ` set (m # ms) \<and> distinct amrs)
      | _ \<Rightarrow> it_acr ic = None \<and> it_amr ic = None)"

lemma authentication_claims_tell:
  assumes "authentication_claims methods = (it_acr ic, it_amr ic)"
  shows "tells_methods methods ic"
proof -
  have "strength_acr (from_methods ms) = (if list_ex is_second_factor ms then acr_multi_factor else acr_single_factor)" for ms
    by (simp add: from_methods_def acr_multi_factor_def acr_single_factor_def)
  then show ?thesis using assms [symmetric]
    by (auto simp: tells_methods_def authentication_claims_def dedup_amr_set dedup_amr_distinct split: option.splits list.splits)
qed

definition id_claims_for ::
  "env \<Rightarrow> tenant_id \<Rightarrow> string \<Rightarrow> user \<Rightarrow> instant \<Rightarrow> string \<Rightarrow> string option \<Rightarrow> authentication_method list option \<Rightarrow> (scope \<Rightarrow> bool)
   \<Rightarrow> id_token_claims \<Rightarrow> bool" where
  "id_claims_for env t client_id user auth_time nonce sid methods has ic \<longleftrightarrow>
     it_iss ic = tenant_issuer (e_uuid_str env) (e_base_issuer env) t \<and> it_sub ic = e_uuid_str env (u_sub user)
     \<and> it_aud ic = client_id \<and> it_exp ic = it_iat ic + u64_as_i64 (e_id_token_ttl env) \<and> it_iat ic = timestamp (e_now env)
     \<and> it_auth_time ic = timestamp auth_time \<and> it_nonce ic = nonce \<and> it_sid ic = sid
     \<and> tells_methods methods ic
     \<and> it_email ic = (if has Email then Some (u_email user) else None)
     \<and> (\<not> has Profile \<longrightarrow> it_preferred_username ic = None \<and> it_name ic = None)"

definition access_claims_for :: "env \<Rightarrow> tenant_id \<Rightarrow> string \<Rightarrow> user \<Rightarrow> string list \<Rightarrow> string option \<Rightarrow> access_token_claims \<Rightarrow> bool" where
  "access_claims_for env t client_id user scopes jkt ac \<longleftrightarrow>
     at_iss ac = tenant_issuer (e_uuid_str env) (e_base_issuer env) t \<and> at_sub ac = e_uuid_str env (u_sub user)
     \<and> at_aud ac = at_iss ac @ ''/userinfo'' \<and> at_client_id ac = client_id \<and> at_scope ac = join '' '' scopes
     \<and> at_exp ac = at_iat ac + u64_as_i64 (e_access_token_ttl env) \<and> at_iat ac = timestamp (e_now env)
     \<and> \<not> subject_is_client ac \<and> at_cnf_jkt ac = jkt"

definition inherits_grant :: "refresh_token \<Rightarrow> refresh_token \<Rightarrow> bool" where
  "inherits_grant parent child \<longleftrightarrow>
     rt_parent_hash child = Some (rt_token_hash parent) \<and> family_hash child = family_hash parent
     \<and> rt_tenant_id child = rt_tenant_id parent \<and> rt_user_id child = rt_user_id parent
     \<and> rt_client_id child = rt_client_id parent \<and> rt_scope child = rt_scope parent \<and> rt_sid child = rt_sid parent
     \<and> rt_authentication_methods child = rt_authentication_methods parent
     \<and> auth_time_or_issued child = auth_time_or_issued parent
     \<and> rt_expires_at child = rt_expires_at parent \<and> rt_revoked_at child = None"

lemma code_claims_for:
  "id_claims_for env t client_id user (au_auth_time (co_authentication r)) (g_nonce (co_grant r)) (au_sso_sid (co_authentication r))
     (au_methods (co_authentication r)) (grant_includes (co_grant r)) (code_id_claims env t client_id r user)"
  "access_claims_for env t client_id user (g_scope (co_grant r)) jkt
     (user_access_claims env t client_id (grant_scope_string (co_grant r)) user jkt)"
  by (simp_all add: id_claims_for_def access_claims_for_def code_id_claims_def user_access_claims_def Let_def
      subject_is_client_def userinfo_audience_def grant_scope_string_def authentication_claims_tell split: prod.splits)

lemma refreshed_claims_for:
  "id_claims_for env t client_id user (auth_time_or_issued r) [] (rt_sid r) (rt_authentication_methods r)
     (\<lambda>sc. enum_as_str scope_table sc \<in> set (rt_scope r)) (refreshed_id_claims env t client_id r user)"
  "access_claims_for env t client_id user (rt_scope r) jkt (user_access_claims env t client_id (join '' '' (rt_scope r)) user jkt)"
  by (simp_all add: id_claims_for_def access_claims_for_def refreshed_id_claims_def user_access_claims_def Let_def
      subject_is_client_def userinfo_audience_def list_ex_iff authentication_claims_tell split: prod.splits)

lemma code_grant_justified:
  assumes "exchange env ctx t cmd d = (Inr tok, d')" and "tc_grant_type cmd = Some ''authorization_code''"
    and "codes_inv (db_codes d)"
  shows "\<exists>client_id c r user (proof :: verified_dpop_proof option).
       established_client env t cmd d client_id c
     \<and> r \<in> set (db_codes d) \<and> redeemable_code env t cmd client_id r
     \<and> active_user_of d (au_user_id (co_authentication r)) user
     \<and> (\<exists>ic. map_option Inr (is_id_token tok) = Some (sign_id_token env ic)
          \<and> id_claims_for env t client_id user (au_auth_time (co_authentication r)) (g_nonce (co_grant r))
              (au_sso_sid (co_authentication r)) (au_methods (co_authentication r)) (grant_includes (co_grant r)) ic)
     \<and> (\<exists>ac. Inr (is_access_token tok) = sign_access_token env ac
          \<and> access_claims_for env t client_id user (g_scope (co_grant r)) (map_option vd_jkt proof) ac)
     \<and> (tc_dpop_proof cmd = None \<longleftrightarrow> proof = None)
     \<and> (is_refresh_token tok \<noteq> None \<longleftrightarrow> grant_includes (co_grant r) OfflineAccess)
     \<and> \<not> code_live (co_hash r) (db_codes d')"
proof -
  from assms(1,2) obtain pf d0 where p: "verify_dpop_proof env t cmd d = (Inr pf, d0)"
    and x: "exchange_code env ctx t cmd pf d0 = (Inr tok, d')"
    by (auto simp: exchange_def bindE_Inr_iff split: if_splits)
  have k: "core d0 = core d" "db_assertion_jtis d0 = db_assertion_jtis d" and pr: "tc_dpop_proof cmd = None \<longleftrightarrow> pf = None"
    using verify_dpop_proof_Inr [OF p] by simp_all
  obtain client_id c plain v d1 consumed rows where e: "established_client env t cmd d0 client_id c"
    and i: "tc_code cmd = Some plain" "tc_code_verifier cmd = Some v" "is_valid_code_verifier v"
    and d1: "core d1 = core d0"
    and co: "code_consume t (code_hash (e_lib env) plain) (e_now env) (db_codes d1) = (consumed, rows)"
    and y: "(case consumed of None \<Rightarrow> code_not_consumed env ctx t client_id (code_hash (e_lib env) plain)
     | Some auth_code \<Rightarrow> issue_for_code env ctx t client_id (tc_redirect_uri cmd) v (code_hash (e_lib env) plain) auth_code pf)
         (d1\<lparr>db_codes := rows\<rparr>) = (Inr tok, d')"
    using x by (rule exchange_code_past) simp
  from code_outcome_Inr [OF y] obtain code where k2: "consumed = Some code"
    and iss: "issue_for_code env ctx t client_id (tc_redirect_uri cmd) v (code_hash (e_lib env) plain) code pf
           (d1\<lparr>db_codes := rows\<rparr>) = (Inr tok, d')" by blast
  note co = co [unfolded k2]
  have dc: "db_codes d1 = db_codes d" using core_fields [OF d1] core_fields [OF k(1)] by simp
  have s: "co_hash code = code_hash (e_lib env) plain \<and> co_tenant_id code = t \<and> e_now env < co_expires_at code"
    and "\<exists>r \<in> set (db_codes d). code_consumable t (code_hash (e_lib env) plain) (e_now env) r \<and> code = r\<lparr>co_used_at := Some (e_now env)\<rparr>"
    using code_consume_Some [OF co] assms(3) dc by auto
  then obtain r where r: "r \<in> set (db_codes d)" "code_consumable t (code_hash (e_lib env) plain) (e_now env) r"
    "code = r\<lparr>co_used_at := Some (e_now env)\<rparr>" by blast
  have dead: "\<not> code_live (co_hash r) rows"
    using consume_statement_won [of "db_codes d1" "\<lparr>cq_tenant = t, cq_hash = code_hash (e_lib env) plain, cq_now = e_now env\<rparr>" rows]
      co assms(3) dc r(2) by (simp add: consume_statement_def code_consumable_def)
  from iss obtain user where u: "redeem (e_lib env) code client_id (tc_redirect_uri cmd) v = Inr ()"
    "active_user_of (d1\<lparr>db_codes := rows\<rparr>) (au_user_id (co_authentication code)) user"
    "map_option Inr (is_id_token tok) = Some (sign_id_token env (code_id_claims env t client_id code user))"
    "Inr (is_access_token tok) =
      sign_access_token env (user_access_claims env t client_id (grant_scope_string (co_grant code)) user (map_option vd_jkt pf))"
    "code_refresh_outcome env t client_id (code_hash (e_lib env) plain) code pf (d1\<lparr>db_codes := rows\<rparr>) d' (is_refresh_token tok)"
    "db_codes d' = db_codes (d1\<lparr>db_codes := rows\<rparr>)"
    by (rule issue_for_code_Inr)
  have "active_user_of d (au_user_id (co_authentication r)) user"
    using u(2) r(3) core_active_user [of d1 d] d1 k(1) by (simp add: active_user_of_def)
  moreover have "redeemable_code env t cmd client_id r"
    using i r u(1) by (simp add: redeemable_code_def code_consumable_def redeem_ok_iff)
  moreover have "code_id_claims env t client_id code user = code_id_claims env t client_id r user" by (simp add: r(3) code_id_claims_def)
  moreover have "established_client env t cmd d client_id c" using e token_prefix_established_mono [OF k] by simp
  moreover have "is_refresh_token tok \<noteq> None \<longleftrightarrow> grant_includes (co_grant r) OfflineAccess"
    using u(5) r(3) by (auto simp: code_refresh_outcome_def split: if_splits)
  moreover have "\<not> code_live (co_hash r) (db_codes d')" using dead u(6) by simp
  moreover have "co_grant code = co_grant r" using r(3) by simp
  ultimately show ?thesis
    using r(1) pr u(3,4) code_claims_for
    by (intro exI [of _ client_id] exI [of _ c] exI [of _ r] exI [of _ user] exI [of _ pf]) (simp, blast)
qed

text \<open>(C1) Tokens of the authorization-code grant are justified: when the token endpoint answers with tokens,
  the client is registered, active and has proved itself; the database held an unused, unexpired code
  of this tenant, issued to that client for that redirect URI, whose PKCE challenge the verifier meets; its
  user and the user's home tenant are active; the signed claims are those of the code's grant
  and authentication; a refresh token is issued exactly for \<open>offline_access\<close>, and the code is used
  afterwards.\<close>

theorem code_grant_sound:
  assumes "exchange env ctx t cmd d = (Inr tok, d')" and "tc_grant_type cmd = Some ''authorization_code''"
    and "codes_inv (db_codes d)"
  shows "\<exists>client_id c r user (proof :: verified_dpop_proof option).
       established_client env t cmd d client_id c
     \<and> r \<in> set (db_codes d) \<and> redeemable_code env t cmd client_id r
     \<and> active_user_of d (au_user_id (co_authentication r)) user
     \<and> (\<exists>ic. map_option Inr (is_id_token tok) = Some (sign_id_token env ic)
          \<and> id_claims_for env t client_id user (au_auth_time (co_authentication r)) (g_nonce (co_grant r))
              (au_sso_sid (co_authentication r)) (au_methods (co_authentication r)) (grant_includes (co_grant r)) ic)
     \<and> (\<exists>ac. Inr (is_access_token tok) = sign_access_token env ac
          \<and> access_claims_for env t client_id user (g_scope (co_grant r)) (map_option vd_jkt proof) ac)
     \<and> (tc_dpop_proof cmd = None \<longleftrightarrow> proof = None)
     \<and> (is_refresh_token tok \<noteq> None \<longleftrightarrow> grant_includes (co_grant r) OfflineAccess)
     \<and> \<not> code_live (co_hash r) (db_codes d')"
  using assms by (rule code_grant_justified)

section \<open>The application gate decides by the registered assignment\<close>

definition gate_denies :: "env \<Rightarrow> db \<Rightarrow> tenant_id \<Rightarrow> string \<Rightarrow> uuid \<Rightarrow> bool" where
  "gate_denies env d t client_id u \<longleftrightarrow>
     e_fault env ''applications.find_by_oidc_client_id'' = None \<and> e_assignment_enforcement env t = Inr Enforce
     \<and> (case app_find_by_oidc_client_id (e_ci env) t client_id (db_applications d) (db_bindings d) (db_clients d) of
          None \<Rightarrow> False
        | Some app \<Rightarrow> (needs_assignment_lookup app \<longrightarrow> e_fault env ''applications.is_assigned'' = None)
            \<and> admits app (app_is_assigned (ap_id app) u (db_assignments d)) \<noteq> AccessAllowed)"

lemma core_gate_denies: "core d' = core d \<Longrightarrow> gate_denies env d' t c u = gate_denies env d t c u"
  using core_fields [of d' d] by (simp add: gate_denies_def split: option.split)

lemma admits_no_lookup: "\<not> needs_assignment_lookup a \<Longrightarrow> admits a x = admits a y"
  by (cases "ap_assignment_mode a") (auto simp: admits_def needs_assignment_lookup_def)

lemma judge_denied_iff:
  "(\<exists>n a. fst ((judge env ctx t (Inr (Some app)) c u :: (db, 'e, application_gate) action) d) = Inr (GateDenied n a)) \<longleftrightarrow>
     e_assignment_enforcement env t = Inr Enforce \<and> (needs_assignment_lookup app \<longrightarrow> e_fault env ''applications.is_assigned'' = None)
     \<and> admits app (app_is_assigned (ap_id app) u (db_assignments d)) \<noteq> AccessAllowed"
proof -
  have aud: "fst (bindE (audit_record env ctx ty res tt uu cc rr) (\<lambda>_. retE g) d) = (Inr g :: 'e + application_gate)" for ty res tt uu cc rr g
  proof -
    obtain x d1 where "(audit_record env ctx ty res tt uu cc rr :: (db, 'e, unit) action) d = (x, d1)" by fastforce
    moreover from this have "x = Inr ()" using audit_record_same by blast
    ultimately show ?thesis by (simp add: bindE_def retE_def)
  qed
  let ?assigned = "app_is_assigned (ap_id app) u (db_assignments d)"
  have verdict: "(\<exists>n a. fst ((let access = admits app x in
              if access_is_allowed access then retE GateAllowed
              else
                let enforcement = (case e_assignment_enforcement env t of Inl _ \<Rightarrow> RecordOnly | Inr x \<Rightarrow> x);
                    enforced = (enforcement = Enforce)
                in bindE (audit_record env ctx ''application.access_denied'' (if enforced then AuditFailure else AuditSuccess)
                     (Some t) (Some u) (Some c)
                     (Some (''application='' @ e_uuid_str env (ap_id app) @ '' reason='' @ access_reason access
                        @ '' enforcement='' @ enum_as_str assignment_enforcement_table enforcement))) (\<lambda>_.
                   if enforced then retE (GateDenied (ap_display_name app) access) else retE GateAllowed)) d)
              = (Inr (GateDenied n a) :: 'e + application_gate))
          \<longleftrightarrow> e_assignment_enforcement env t = Inr Enforce \<and> admits app x \<noteq> AccessAllowed" for x
    by (cases "e_assignment_enforcement env t") (auto simp: Let_def access_is_allowed_def aud retE_def)
  show ?thesis
  proof (cases "needs_assignment_lookup app")
    case False
    then show ?thesis using verdict [of False] admits_no_lookup [OF False, of False ?assigned]
      by (simp add: judge_def bindE_def retE_def)
  next
    case True
    then show ?thesis using verdict [of ?assigned]
      by (cases "e_fault env ''applications.is_assigned''")
        (simp_all add: judge_def bindE_def tryE_def retE_def repo_app_is_assigned_def db_query_def db_call_def failE_def getsE_def)
  qed
qed

lemma application_check_denied_iff:
  "(\<exists>n a. fst ((application_check env ctx t c u :: (db, 'e, application_gate) action) d) = Inr (GateDenied n a)) \<longleftrightarrow> gate_denies env d t c u"
proof (cases "e_fault env ''applications.find_by_oidc_client_id''")
  case None
  let ?app = "app_find_by_oidc_client_id (e_ci env) t c (db_applications d) (db_bindings d) (db_clients d)"
  have e: "application_check env ctx t c u d = (judge env ctx t (Inr ?app) c u :: (db, 'e, application_gate) action) d"
    by (simp add: application_check_def bindE_def tryE_def repo_app_by_oidc_client_def db_query_def db_call_def None getsE_def)
  show ?thesis
  proof (cases ?app)
    case (Some app)
    then show ?thesis unfolding e gate_denies_def using judge_denied_iff [of env ctx t app c u d] None by simp
  qed (simp add: e gate_denies_def, simp add: judge_def retE_def)
next
  case (Some x)
  then show ?thesis
    by (simp add: gate_denies_def application_check_def bindE_def tryE_def repo_app_by_oidc_client_def db_query_def db_call_def
        failE_def judge_def retE_def)
qed

section \<open>The refresh-token grant\<close>

lemma refresh_reuse_detected_Inr [simp]: "\<not> refresh_reuse_detected env ctx t c stored how d = (Inr a, d')"
  by (auto simp: refresh_reuse_detected_def bindE_Inr_iff)

lemma repo_refresh_revoke_Inr:
  "repo_refresh_revoke env h at d = (Inr n, d') \<longleftrightarrow> e_fault env ''refresh.revoke'' = None
     \<and> (\<exists>rows. rt_revoke h at (db_refresh d) = (n, rows) \<and> d' = d\<lparr>db_refresh := rows\<rparr>)"
  by (auto simp: repo_refresh_revoke_def split: prod.splits)

lemma repo_refresh_revoke_family_Inr:
  "repo_refresh_revoke_family env t f at d = (Inr n, d') \<longleftrightarrow> e_fault env ''refresh.revoke_family'' = None
     \<and> (\<exists>rows. rt_revoke_family t f at (db_refresh d) = (n, rows) \<and> d' = d\<lparr>db_refresh := rows\<rparr>)"
  by (auto simp: repo_refresh_revoke_family_def split: prod.splits)

lemma refresh_bound_jkt_Inr:
  assumes "refresh_bound_jkt env ctx t c stored pf d = (Inr bound, d')"
  shows "d' = d \<and> bound = map_option vd_jkt pf \<and> (\<forall>k. rt_dpop_jkt stored = Some k \<longrightarrow> bound = Some k)"
  using assms by (cases "rt_dpop_jkt stored"; cases pf) (auto simp: refresh_bound_jkt_def split: if_splits)

lemma refresh_admit_Inr:
  assumes "refresh_admit env ctx t c h stored d = (Inr user, d')"
  shows "\<not> rt_exists_by_parent_hash h (db_refresh d) \<and> rt_is_valid_at stored (e_now env)
     \<and> active_user_of d (rt_user_id stored) user \<and> \<not> gate_denies env d t c (rt_user_id stored)
     \<and> (\<exists>n d1. same_data d d1 \<and> 1 \<le> n \<and> rt_revoke h (e_now env) (db_refresh d) = (n, db_refresh d') \<and> d' = d1\<lparr>db_refresh := db_refresh d'\<rparr>)"
proof -
  from assms obtain u0 gate d1 where x: "\<not> rt_exists_by_parent_hash h (db_refresh d)" "rt_is_valid_at stored (e_now env)"
    and u: "active_user_of d (rt_user_id stored) u0"
    and g: "application_check env ctx t c (rt_user_id stored) d = ((Inr gate :: token_error + application_gate), d1)"
    and r: "(case gate of
       GateDenied _ _ \<Rightarrow>
         bindE (orInternal (repo_refresh_revoke_family env t (family_hash stored) (e_now env))) (\<lambda>_.
         failE (token_error_new InvalidGrant ''the user may no longer use this application''))
     | GateAllowed \<Rightarrow>
         bindE (orInternal (repo_refresh_revoke env h (e_now env))) (\<lambda>n.
         if n \<ge> 1 then retE u0
         else refresh_reuse_detected env ctx t c stored ''refresh token was rotated concurrently'')) d1 = (Inr user, d')"
    unfolding refresh_admit_def bindE_Inr_iff repo_refresh_exists_child_def
    by (auto simp: bindE_Inr_iff simp del: One_nat_def dest!: load_active_user_Inr split: if_splits)
  have same: "same_data d d1" using application_check_total [OF g] by simp
  from r have a: "gate = GateAllowed" by (cases gate) (auto simp: bindE_Inr_iff)
  have ng: "\<not> gate_denies env d t c (rt_user_id stored)"
    using application_check_denied_iff [of env ctx t c "rt_user_id stored" d, where 'e = token_error] g a by simp
  from r a obtain n rows where "u0 = user" "1 \<le> n" "rt_revoke h (e_now env) (db_refresh d1) = (n, rows)" "d' = d1\<lparr>db_refresh := rows\<rparr>"
    by (auto simp: bindE_Inr_iff repo_refresh_revoke_Inr split: if_splits)
  then show ?thesis using x u ng same same_data_fields [OF same] by auto
qed

lemma issue_for_refresh_Inr:
  assumes "issue_for_refresh env ctx t c h stored user bound d = (Inr tok, d')"
  shows "map_option Inr (is_id_token tok) = Some (sign_id_token env (refreshed_id_claims env t c stored user))
     \<and> Inr (is_access_token tok) = sign_access_token env (user_access_claims env t c (join '' '' (rt_scope stored)) user bound)
     \<and> is_refresh_token tok = Some (e_fresh_token env)
     \<and> rt_create (e_db_now env) (rotated_refresh_token env t c h stored bound) (db_refresh d) = Inr (db_refresh d')
     \<and> db_codes d' = db_codes d"
proof -
  from assms obtain idt act d1 d2 where
      i: "Inr idt = sign_id_token env (refreshed_id_claims env t c stored user)"
    and a: "Inr act = sign_access_token env (user_access_claims env t c (join '' '' (rt_scope stored)) user bound)"
    and cr: "repo_refresh_create env (rotated_refresh_token env t c h stored bound) d = (Inr (), d1)"
    and hi: "(case rt_sid stored of
               Some sid \<Rightarrow> history_record env (RecordRefreshUse sid c (e_now env) (cx_ip_address ctx) (cx_user_agent ctx))
             | None \<Rightarrow> retE ()) d1 = ((Inr () :: token_error + unit), d2)"
    and l: "bindE (audit_record env ctx ''refresh_token.used'' AuditSuccess (Some t) (Some (rt_user_id stored)) (Some c) None) (\<lambda>_.
      bindE (audit_record env ctx ''refresh_token.issued'' AuditSuccess (Some t) (Some (rt_user_id stored)) (Some c) None) (\<lambda>_.
      bindE (audit_record env ctx ''token.issued'' AuditSuccess (Some t) (Some (rt_user_id stored)) (Some c) None) (\<lambda>_.
      retE \<lparr>is_access_token = act, is_id_token = Some idt, is_expires_in = e_access_token_ttl env,
            is_scope = join '' '' (rt_scope stored), is_refresh_token = Some (e_fresh_token env), is_bound_to_key = (bound \<noteq> None)\<rparr>))) d2
        = ((Inr tok :: token_error + issued_tokens), d')"
    by (auto simp: issue_for_refresh_def Let_def bindE_Inr_iff [where m = "liftR x" for x]
        bindE_Inr_iff [where m = "orInternal x" for x] bindE_Inr_iff [where m = "case_option x y z" for x y z]
        simp del: audit_step)
  from l have k: "is_access_token tok = act" "is_id_token tok = Some idt" "is_refresh_token tok = Some (e_fresh_token env)"
    and l: "same_data d2 d'"
    by (auto dest!: audit_record_same intro: same_data_trans)
  have "db_refresh d' = db_refresh d1 \<and> db_codes d' = db_codes d1"
    using same_data_fields [OF history_opt_core [OF hi]] same_data_fields [OF l] by simp
  then show ?thesis using i a cr k by (auto simp: repo_refresh_create_Inr)
qed

text \<open>The handler after client authentication, for a presented token.\<close>

definition refresh_tail ::
  "env \<Rightarrow> request_context \<Rightarrow> tenant_id \<Rightarrow> token_command \<Rightarrow> verified_dpop_proof option \<Rightarrow> string \<Rightarrow> issued_tokens token_action" where
  "refresh_tail env ctx t cmd pf client_id =
     bindE (liftR (ok_or (token_error_new InvalidRequest ''refresh_token is required'') (opt_filter_ne (tc_refresh_token cmd)))) (\<lambda>rt_plain.
     let h = sha256_hex (e_lib env) rt_plain in
     bindE (orInternal (repo_refresh_find env t h)) (\<lambda>found.
     bindE (liftR (ok_or (token_error_new InvalidGrant ''refresh_token not found'') found)) (\<lambda>stored.
     bindE (guardE (rt_client_id stored = client_id) (token_error_new InvalidGrant ''refresh_token was issued to another client'')) (\<lambda>_.
     bindE (refresh_bound_jkt env ctx t client_id stored pf) (\<lambda>bound_jkt.
     bindE (refresh_admit env ctx t client_id h stored) (\<lambda>user.
     issue_for_refresh env ctx t client_id h stored user bound_jkt))))))"

lemma exchange_refresh_token_alt:
  "exchange_refresh_token env ctx t cmd pf =
     bindE (liftR (token_resolve_client_id env cmd)) (\<lambda>client_id.
     bindE (load_active_client env ctx t client_id) (\<lambda>client.
     bindE (authenticate_client env ctx t client cmd) (\<lambda>_. refresh_tail env ctx t cmd pf client_id)))"
  by (simp add: exchange_refresh_token_def refresh_tail_def)

definition presented_token :: "env \<Rightarrow> tenant_id \<Rightarrow> token_command \<Rightarrow> db \<Rightarrow> refresh_token \<Rightarrow> bool" where
  "presented_token env t cmd d stored \<longleftrightarrow>
     (\<exists>plain. tc_refresh_token cmd = Some plain \<and> plain \<noteq> [] \<and> rt_token_hash stored = sha256_hex (e_lib env) plain)
     \<and> rt_tenant_id stored = t \<and> stored \<in> set (db_refresh d)"

lemma refresh_tail_stored:
  assumes "rt_inv (db_refresh d)" "presented_token env t cmd d stored"
  shows "refresh_tail env ctx t cmd pf client_id d =
     (case e_fault env ''refresh.find_by_hash'' of
        Some msg \<Rightarrow> (Inl token_internal, d)
      | None \<Rightarrow> bindE (guardE (rt_client_id stored = client_id) (token_error_new InvalidGrant ''refresh_token was issued to another client'')) (\<lambda>_.
          bindE (refresh_bound_jkt env ctx t client_id stored pf) (\<lambda>bound_jkt.
          bindE (refresh_admit env ctx t client_id (rt_token_hash stored) stored) (\<lambda>user.
          issue_for_refresh env ctx t client_id (rt_token_hash stored) stored user bound_jkt))) d)"
proof -
  from assms(2) obtain plain where p: "tc_refresh_token cmd = Some plain" "plain \<noteq> []" "rt_token_hash stored = sha256_hex (e_lib env) plain"
    and m: "rt_tenant_id stored = t" "stored \<in> set (db_refresh d)" by (auto simp: presented_token_def)
  have f: "rt_find_by_hash t (rt_token_hash stored) (db_refresh d) = Some stored"
    unfolding rt_find_by_hash_def using assms(1) m by (intro find_distinct_key_and) (simp_all add: rt_inv_def)
  have o: "opt_filter_ne (tc_refresh_token cmd) = Some plain" using p by simp
  show ?thesis
    unfolding refresh_tail_def o Let_def
    by (cases "e_fault env ''refresh.find_by_hash''")
      (simp_all add: f [unfolded p(3)] p(3) bindE_def liftR_def orInternal_def mapErrE_def repo_refresh_find_def db_query_def db_call_def failE_def getsE_def)
qed

lemma refresh_tail_Inr:
  assumes "refresh_tail env ctx t cmd pf client_id d = (Inr tok, d')"
  obtains stored user bound d1 where "presented_token env t cmd d stored" "rt_client_id stored = client_id"
    and "refresh_bound_jkt env ctx t client_id stored pf d = (Inr bound, d)"
    and "refresh_admit env ctx t client_id (rt_token_hash stored) stored d = (Inr user, d1)"
    and "issue_for_refresh env ctx t client_id (rt_token_hash stored) stored user bound d1 = (Inr tok, d')"
proof -
  from assms obtain plain stored user bound d0 d1 where p: "tc_refresh_token cmd = Some plain" "plain \<noteq> []"
    and f: "rt_find_by_hash t (sha256_hex (e_lib env) plain) (db_refresh d) = Some stored" and c: "rt_client_id stored = client_id"
    and b: "refresh_bound_jkt env ctx t client_id stored pf d = (Inr bound, d0)"
    and a: "refresh_admit env ctx t client_id (sha256_hex (e_lib env) plain) stored d0 = (Inr user, d1)"
    and i: "issue_for_refresh env ctx t client_id (sha256_hex (e_lib env) plain) stored user bound d1 = (Inr tok, d')"
    by (auto simp: refresh_tail_def Let_def bindE_Inr_iff repo_refresh_find_def)
  have "presented_token env t cmd d stored" "rt_token_hash stored = sha256_hex (e_lib env) plain"
    using find_Some_mem [OF f [unfolded rt_find_by_hash_def]] p by (auto simp: presented_token_def)
  moreover have "d0 = d" using refresh_bound_jkt_Inr [OF b] by simp
  ultimately show ?thesis using that c b a i by simp
qed

text \<open>(C2) Rotation of refresh tokens: a successful refresh presents a stored, unrevoked, unexpired, not yet
  rotated token of the authenticated client; the proof of possession of the request verified, the key of the new tokens is the
  key of that proof, and when the token is bound to a key it is that very key; the user and
  their home tenant are active and the application still admits them.  Afterwards the table is the old one
  with that token revoked and exactly one child added; the child inherits family, user, client, scope,
  session, methods, authentication time and expiry, and the ID token carries the original \<open>auth_time\<close> and methods.\<close>

theorem refresh_grant_sound:
  assumes "exchange env ctx t cmd d = (Inr tok, d')" and "tc_grant_type cmd = Some ''refresh_token''"
  shows "\<exists>client_id c stored user bound.
       established_client env t cmd d client_id c
     \<and> presented_token env t cmd d stored \<and> rt_client_id stored = client_id
     \<and> rt_is_valid_at stored (e_now env) \<and> \<not> rt_exists_by_parent_hash (rt_token_hash stored) (db_refresh d)
     \<and> (\<exists>pf d0. verify_dpop_proof env t cmd d = (Inr pf, d0) \<and> bound = map_option vd_jkt pf)
     \<and> (\<forall>k. rt_dpop_jkt stored = Some k \<longrightarrow> bound = Some k) \<and> (tc_dpop_proof cmd = None \<longleftrightarrow> bound = None)
     \<and> active_user_of d (rt_user_id stored) user \<and> \<not> gate_denies env d t client_id (rt_user_id stored)
     \<and> (\<exists>ic. map_option Inr (is_id_token tok) = Some (sign_id_token env ic)
          \<and> id_claims_for env t client_id user (auth_time_or_issued stored) [] (rt_sid stored) (rt_authentication_methods stored)
              (\<lambda>sc. enum_as_str scope_table sc \<in> set (rt_scope stored)) ic)
     \<and> (\<exists>ac. Inr (is_access_token tok) = sign_access_token env ac
          \<and> access_claims_for env t client_id user (rt_scope stored) bound ac)
     \<and> is_refresh_token tok = Some (e_fresh_token env)
     \<and> (\<exists>child. inherits_grant stored child \<and> rt_token_hash child = sha256_hex (e_lib env) (e_fresh_token env)
          \<and> rt_dpop_jkt child = bound
          \<and> db_refresh d' = map (\<lambda>r. if rt_token_hash r = rt_token_hash stored \<and> rt_revoked_at r = None
                                      then r\<lparr>rt_revoked_at := Some (e_now env)\<rparr> else r) (db_refresh d) @ [child])"
proof -
  from assms obtain pf d0 where p: "verify_dpop_proof env t cmd d = (Inr pf, d0)"
    and x: "exchange_refresh_token env ctx t cmd pf d0 = (Inr tok, d')"
    by (auto simp: exchange_def bindE_Inr_iff split: if_splits)
  note k = verify_dpop_proof_Inr [OF p]
  from x obtain client_id c d1 where e: "established_client env t cmd d0 client_id c" and d1: "core d1 = core d0"
    and y: "refresh_tail env ctx t cmd pf client_id d1 = (Inr tok, d')"
    unfolding exchange_refresh_token_alt by (rule client_prefix_past) simp
  from y obtain stored user bound d2 where s: "presented_token env t cmd d1 stored" "rt_client_id stored = client_id"
    and b: "refresh_bound_jkt env ctx t client_id stored pf d1 = (Inr bound, d1)"
    and a: "refresh_admit env ctx t client_id (rt_token_hash stored) stored d1 = (Inr user, d2)"
    and i: "issue_for_refresh env ctx t client_id (rt_token_hash stored) stored user bound d2 = (Inr tok, d')"
    by (rule refresh_tail_Inr)
  have c: "core d1 = core d" using d1 k by simp
  note cf = core_fields [OF c]
  note b' = refresh_bound_jkt_Inr [OF b] and a' = refresh_admit_Inr [OF a] and i' = issue_for_refresh_Inr [OF i]
  have A: "established_client env t cmd d client_id c" using e token_prefix_established_mono [of d0 d] k by blast
  have P: "presented_token env t cmd d stored" using s(1) cf by (simp add: presented_token_def)
  have G: "\<not> gate_denies env d t client_id (rt_user_id stored)" using a' core_gate_denies [OF c] by blast
  have U: "active_user_of d (rt_user_id stored) user" using a' core_active_user [OF c] by simp
  have V: "rt_is_valid_at stored (e_now env)" "\<not> rt_exists_by_parent_hash (rt_token_hash stored) (db_refresh d)"
    using a' cf by simp_all
  have B: "\<forall>k. rt_dpop_jkt stored = Some k \<longrightarrow> bound = Some k" "tc_dpop_proof cmd = None \<longleftrightarrow> bound = None" using b' k by (blast, simp)
  have K: "bound = map_option vd_jkt pf" using b' by blast
  have "db_refresh d2 = snd (rt_revoke (rt_token_hash stored) (e_now env) (db_refresh d))"
  proof -
    obtain n where "rt_revoke (rt_token_hash stored) (e_now env) (db_refresh d1) = (n, db_refresh d2)" using a' by blast
    then show ?thesis using cf by simp
  qed
  then have R: "db_refresh d' = snd (rt_revoke (rt_token_hash stored) (e_now env) (db_refresh d))
          @ [(rotated_refresh_token env t client_id (rt_token_hash stored) stored bound)\<lparr>rt_created_at := e_db_now env\<rparr>]"
    using i' by (simp add: rt_create_def split: if_splits)
  have st: "rt_tenant_id stored = t" "rt_client_id stored = client_id" using P s(2) by (simp_all add: presented_token_def)
  let ?child = "(rotated_refresh_token env t client_id (rt_token_hash stored) stored bound)\<lparr>rt_created_at := e_db_now env\<rparr>"
  have C: "inherits_grant stored ?child" "rt_token_hash ?child = sha256_hex (e_lib env) (e_fresh_token env)" "rt_dpop_jkt ?child = bound"
    using st by (simp_all add: inherits_grant_def rotated_refresh_token_def family_hash_def auth_time_or_issued_def)
  note R = R [unfolded rt_revoke_def rt_update_revoked_def snd_conv]
  note i1 = conjunct1 [OF i'] and i2 = conjunct1 [OF conjunct2 [OF i']] and i3 = conjunct1 [OF conjunct2 [OF conjunct2 [OF i']]]
  show ?thesis
    by (intro exI conjI) (rule A P s(2) V p K B U G i1 i2 i3 C R refreshed_claims_for)+
qed

section \<open>Failures and replays\<close>

lemma keeps_core_fields: "keeps core m \<Longrightarrow> keeps db_refresh m" "keeps core m \<Longrightarrow> keeps db_codes m"
  by (auto intro!: keepsI dest!: keepsD core_fields)

text \<open>Credentials that can still be used: refresh tokens that are not revoked.\<close>

definition unrevoked :: "db \<Rightarrow> refresh_token set" where
  "unrevoked d = {r \<in> set (db_refresh d). rt_revoked_at r = None}"

lemma inv_unrevoked_keeps: "keeps db_refresh m \<Longrightarrow> inv_action (\<lambda>d. unrevoked d \<subseteq> X) m"
  unfolding unrevoked_def by (rule keeps_inv [where f = db_refresh])

lemma update_revoked_unrevoked:
  "rt_update_revoked hit at rows = (n, rows') \<Longrightarrow> r \<in> set rows' \<Longrightarrow> rt_revoked_at r = None \<Longrightarrow> r \<in> set rows"
  using update_revoked_member [of r hit at rows] by simp

lemma inv_unrevoked_revoke:
  "inv_action (\<lambda>d. unrevoked d \<subseteq> X) (repo_refresh_revoke env h at)"
  "inv_action (\<lambda>d. unrevoked d \<subseteq> X) (repo_refresh_revoke_family env t f at)"
  by (rule inv_actionI; auto simp: unrevoked_def repo_refresh_revoke_def repo_refresh_revoke_family_def rt_revoke_def
        rt_revoke_family_def db_call_def split: option.splits prod.splits dest!: update_revoked_unrevoked)+

lemma inv_unrevoked_core: "keeps core m \<Longrightarrow> inv_action (\<lambda>d. unrevoked d \<subseteq> X) m"
  by (rule inv_unrevoked_keeps, rule keeps_core_fields)

lemma inv_unrevoked_code_not_consumed: "inv_action (\<lambda>d. unrevoked d \<subseteq> X) (code_not_consumed env ctx t c h)"
  unfolding code_not_consumed_def
  by (intro action_inv inv_unrevoked_revoke; rule inv_unrevoked_keeps; intro action_inv log_free_fields)

lemma inv_unrevoked_reuse: "inv_action (\<lambda>d. unrevoked d \<subseteq> X) (refresh_reuse_detected env ctx t c stored how)"
  unfolding refresh_reuse_detected_def note_refresh_reuse_def
  by (intro action_inv inv_unrevoked_revoke; rule inv_unrevoked_keeps; intro action_inv log_free_fields)

lemma inv_unrevoked_admit: "inv_action (\<lambda>d. unrevoked d \<subseteq> X) (refresh_admit env ctx t c h stored)"
proof -
  have g: "inv_action (\<lambda>d. unrevoked d \<subseteq> X) (case gate of
       GateDenied _ _ \<Rightarrow>
         bindE (orInternal (repo_refresh_revoke_family env t (family_hash stored) (e_now env))) (\<lambda>_.
         failE (token_error_new InvalidGrant ''the user may no longer use this application''))
     | GateAllowed \<Rightarrow>
         bindE (orInternal (repo_refresh_revoke env h (e_now env))) (\<lambda>n.
         if n \<ge> 1 then retE user
         else refresh_reuse_detected env ctx t c stored ''refresh token was rotated concurrently''))" for gate user
    by (cases gate) (auto intro!: action_inv inv_unrevoked_revoke inv_unrevoked_reuse)
  show ?thesis
    unfolding refresh_admit_def
    by (intro action_inv inv_unrevoked_reuse g; rule inv_unrevoked_keeps; intro action_inv log_free_fields)
qed

lemma never_fails_opt_history: "never_fails (case sid of Some x \<Rightarrow> history_record env (call x) | None \<Rightarrow> retE ())"
  by (cases sid) (auto intro: never_fails_retE never_fails_history)

lemma err_inv_create: "err_inv I (orInternal (repo_refresh_create env tok))"
  by (auto simp: err_inv_def orInternal_def mapErrE_Inl_iff repo_refresh_create_def db_call_Inl_iff)

lemma err_inv_issue_for_refresh: "err_inv (\<lambda>d. unrevoked d \<subseteq> X) (issue_for_refresh env ctx t c h stored user bound)"
  unfolding issue_for_refresh_def Let_def
  by ((rule err_inv_bindE [OF inv_liftR])+, rule err_inv_bindE_last [OF err_inv_create],
      intro never_fails_bindE never_fails_opt_history never_fails_audit never_fails_retE)

lemma err_inv_issue_for_code: "err_inv (\<lambda>d. unrevoked d \<subseteq> X) (issue_for_code env ctx t c uri v h code pf)"
proof -
  have "err_inv (\<lambda>d. unrevoked d \<subseteq> X) (if b then
              bindE (orInternal (repo_refresh_create env tok)) (\<lambda>_.
              bindE (audit_record env ctx e r tt u cc rs) (\<lambda>_. retE (Some (e_fresh_token env))))
            else retE None)" for b tok e r tt u cc rs
    by (auto intro!: err_inv_bindE_last [OF err_inv_create] never_fails_bindE never_fails_audit never_fails_retE
        intro: err_inv_of_inv inv_retE)
  then show ?thesis
    unfolding issue_for_code_def Let_def
    by (intro err_inv_bindE [OF inv_liftR] err_inv_bindE [OF inv_unrevoked_keeps [OF keeps_audit]] log_free_fields
          err_inv_bindE [OF inv_unrevoked_keeps [OF keeps_load_active_user]] err_inv_bindE_last
          never_fails_bindE never_fails_opt_history never_fails_audit never_fails_retE)
qed

lemma err_inv_if: "err_inv I m \<Longrightarrow> err_inv I n \<Longrightarrow> err_inv I (if b then m else n)"
  by simp

lemmas err_inv_steps = err_inv_bindE [OF inv_liftR] err_inv_bindE [OF inv_guardE]
  err_inv_bindE [OF inv_unrevoked_keeps [OF keeps_load_active_client]]
  err_inv_bindE [OF inv_unrevoked_core [OF keeps_authenticate_client]]
  err_inv_bindE [OF inv_unrevoked_core [OF keeps_verify_dpop_proof(1)]]
  err_inv_bindE [OF inv_orInternal [OF inv_unrevoked_keeps [OF keeps_updates(4)]]]
  err_inv_bindE [OF inv_orInternal [OF inv_unrevoked_keeps [OF keeps_queries(11)]]]

lemma err_inv_exchange_code: "err_inv (\<lambda>d. unrevoked d \<subseteq> X) (exchange_code env ctx t cmd pf)"
proof -
  have c: "err_inv (\<lambda>d. unrevoked d \<subseteq> X) (case consumed of
       None \<Rightarrow> code_not_consumed env ctx t client_id h
     | Some auth_code \<Rightarrow> issue_for_code env ctx t client_id (tc_redirect_uri cmd) v h auth_code pf)" for consumed client_id v h
    by (cases consumed) (auto intro: err_inv_of_inv inv_unrevoked_code_not_consumed err_inv_issue_for_code)
  show ?thesis unfolding exchange_code_def Let_def by (intro err_inv_steps log_free_fields c)
qed

lemma inv_unrevoked_bound: "inv_action (\<lambda>d. unrevoked d \<subseteq> X) (refresh_bound_jkt env ctx t c stored pf)"
  by (rule inv_unrevoked_keeps, cases "rt_dpop_jkt stored"; cases pf)
    (auto simp: refresh_bound_jkt_def intro!: action_inv)

lemma err_inv_exchange_refresh: "err_inv (\<lambda>d. unrevoked d \<subseteq> X) (exchange_refresh_token env ctx t cmd pf)"
  unfolding exchange_refresh_token_def Let_def
  by (intro err_inv_steps log_free_fields err_inv_bindE [OF inv_unrevoked_bound] err_inv_bindE [OF inv_unrevoked_admit]
      err_inv_issue_for_refresh)

lemma keeps_issuable [action_inv]: "keeps f (issuable_resource env t c req)"
proof -
  have "keeps f (case admits_service_account a x of AccessAllowed \<Rightarrow> retE (Inr r)
                 | AccessNotAssigned \<Rightarrow> retE (Inl ''service_account_not_assigned'')
                 | AccessDisabled \<Rightarrow> (retE (Inl (access_reason AccessDisabled)) :: (string + protected_resource) token_action))" for a x r
    by (cases "admits_service_account a x") (simp_all add: action_inv)
  then show ?thesis unfolding issuable_resource_def by (intro action_inv)
qed

lemma keeps_client_credentials_target [action_inv]: "log_free f \<Longrightarrow> keeps f (client_credentials_target env ctx t i c own req)"
  unfolding client_credentials_target_def Let_def by (intro action_inv)

lemma keeps_issue_client_credentials: "keeps core (issue_client_credentials env ctx t cmd)"
  unfolding issue_client_credentials_def by (intro action_inv log_free_fields)

text \<open>(C6) A refused request issues nothing: when the token endpoint answers with an error, every
  refresh token that is usable afterwards was usable before.  Failures revoke, they never create.\<close>

theorem failed_exchange_issues_nothing:
  assumes "exchange env ctx t cmd d = (Inl e, d')"
  shows "unrevoked d' \<subseteq> unrevoked d"
proof -
  have "err_inv (\<lambda>d. unrevoked d \<subseteq> X) (exchange env ctx t cmd)" for X
    unfolding exchange_def
    by (intro err_inv_if err_inv_steps err_inv_exchange_code err_inv_exchange_refresh err_inv_of_inv [OF inv_failE]
        err_inv_of_inv [OF inv_unrevoked_core [OF keeps_issue_client_credentials]])
  from err_invD [OF this [of "unrevoked d"] assms] show ?thesis by simp
qed

definition family_dead :: "tenant_id \<Rightarrow> string \<Rightarrow> db \<Rightarrow> bool" where
  "family_dead t f d \<longleftrightarrow> (\<forall>r \<in> set (db_refresh d). rt_tenant_id r = t \<longrightarrow> family_hash r = f \<longrightarrow> rt_revoked_at r \<noteq> None)"

lemma revoke_family_dead: "rt_revoke_family t f at (db_refresh d) = (n, rows) \<Longrightarrow> family_dead t f (d\<lparr>db_refresh := rows\<rparr>)"
  unfolding family_dead_def
proof (intro ballI impI notI)
  fix r
  assume *: "rt_revoke_family t f at (db_refresh d) = (n, rows)" "r \<in> set (db_refresh (d\<lparr>db_refresh := rows\<rparr>))"
    "rt_tenant_id r = t" "family_hash r = f" "rt_revoked_at r = None"
  then have "r \<in> set (snd (rt_revoke_family t f at (db_refresh d)))" by simp
  from update_revoked_member [OF this [unfolded rt_revoke_family_def] *(5)] *(3-5) show False
    by (cases "rt_grant_hash r") (simp_all add: family_hash_def)
qed

lemma family_dead_same: "same_data d d' \<Longrightarrow> family_dead t f d' = family_dead t f d"
  using same_data_fields [of d d'] by (simp add: family_dead_def)

lemma code_not_consumed_replay:
  fixes r :: "token_error + 'a"
  assumes "code_not_consumed env ctx t c h d = (r, d')" and "code_find_used t h (db_codes d) = Some used"
  shows "\<exists>e. r = Inl e \<and> (te_code e = InvalidGrant \<longrightarrow> family_dead t h d')"
proof (cases r)
  case (Inl e)
  have "family_dead t h d'" if "te_code e = InvalidGrant"
  proof -
    have g: "case Inl e of Inl e \<Rightarrow> \<not> not_grant e | Inr _ \<Rightarrow> True" using that by (simp add: not_grant_def)
    from assms(1)[unfolded Inl code_not_consumed_def]
    obtain found d1 where f: "orInternal (repo_codes_find_used env t h) d = (Inr found, d1)"
      and n: "bindE (case found of
              Some used \<Rightarrow>
                bindE (orInternal (repo_refresh_revoke_family env t h (e_now env))) (\<lambda>revoked.
                retE (''authorization code replayed; revoked '' @ nat_to_string revoked @ '' refresh token(s)''))
            | None \<Rightarrow> retE ''authorization code not found or expired'') (\<lambda>reason.
     bindE (audit_record env ctx ''authorization_code.reuse_detected'' AuditFailure (Some t)
              (map_option (\<lambda>c. au_user_id (co_authentication c)) found) (Some c) (Some reason)) (\<lambda>_.
     failE (token_error_new InvalidGrant ''authorization code is invalid, expired, or already used''))) d1 = ((Inl e :: token_error + 'a), d')"
      by (rule bindE_past [OF _ err_only_orInternal g])
    have x: "found = Some used" "d1 = d" using f assms(2) by (auto simp: repo_codes_find_used_def)
    from n obtain reason d2 where n2: "bindE (orInternal (repo_refresh_revoke_family env t h (e_now env))) (\<lambda>revoked.
                retE (''authorization code replayed; revoked '' @ nat_to_string revoked @ '' refresh token(s)'')) d = (Inr reason, d2)"
      and a: "bindE (audit_record env ctx ''authorization_code.reuse_detected'' AuditFailure (Some t)
              (map_option (\<lambda>c. au_user_id (co_authentication c)) found) (Some c) (Some reason)) (\<lambda>_.
     failE (token_error_new InvalidGrant ''authorization code is invalid, expired, or already used'')) d2 = ((Inl e :: token_error + 'a), d')"
      unfolding x option.case by (rule bindE_past [OF _ err_only_bindE [OF err_only_orInternal err_only_simps(2)] g])
    from n2 have "family_dead t h d2" by (auto simp: bindE_Inr_iff repo_refresh_revoke_family_Inr intro: revoke_family_dead)
    moreover have "same_data d2 d'" using a by (auto dest: audit_record_same)
    ultimately show ?thesis using family_dead_same by blast
  qed
  with Inl show ?thesis by blast
qed (use assms(1) in simp)

text \<open>(C4) A replayed authorization code gets no tokens and ends its grant: presenting a code that was already
  exchanged never yields tokens, and when it is refused as an invalid grant every refresh token of
  the family that the first exchange started is revoked.\<close>

theorem code_replay_ends_family:
  assumes "exchange env ctx t cmd d = (res, d')" and "tc_grant_type cmd = Some ''authorization_code''"
    and "tc_code cmd = Some plain" and "codes_inv (db_codes d)"
    and "used \<in> set (db_codes d)" "co_hash used = code_hash (e_lib env) plain" "co_tenant_id used = t" "code_is_used used"
  shows "\<exists>e. res = Inl e \<and> (te_code e = InvalidGrant \<longrightarrow> family_dead t (code_hash (e_lib env) plain) d')"
proof (cases "case res of Inl e \<Rightarrow> \<not> not_grant e | Inr _ \<Rightarrow> True")
  case False
  then show ?thesis by (cases res) (auto simp: not_grant_def)
next
  case g: True
  let ?h = "code_hash (e_lib env) plain"
  have "bindE (verify_dpop_proof env t cmd) (\<lambda>pf. exchange_code env ctx t cmd pf) d = (res, d')"
    using assms(1,2) g by (auto simp: exchange_def not_grant_def token_error_new_def split: if_splits)
  then obtain pf d0 where v: "verify_dpop_proof env t cmd d = (Inr pf, d0)" and x: "exchange_code env ctx t cmd pf d0 = (res, d')"
    by (rule bindE_past [OF _ err_only_verify_dpop g])
  obtain client_id c pl v d1 consumed rows where pl: "tc_code cmd = Some pl" and d1: "core d1 = core d0"
    and q: "code_consume t (code_hash (e_lib env) pl) (e_now env) (db_codes d1) = (consumed, rows)"
    and w: "(case consumed of None \<Rightarrow> code_not_consumed env ctx t client_id (code_hash (e_lib env) pl)
     | Some auth_code \<Rightarrow> issue_for_code env ctx t client_id (tc_redirect_uri cmd) v (code_hash (e_lib env) pl) auth_code pf)
         (d1\<lparr>db_codes := rows\<rparr>) = (res, d')"
    using x g by (rule exchange_code_past)
  have pl: "pl = plain" using pl assms(3) by simp
  have codes: "db_codes d1 = db_codes d" using core_fields [OF d1] verify_dpop_proof_Inr [OF v] core_fields [of d0 d] by simp
  have none: "\<not> code_consumable t ?h (e_now env) r" if "r \<in> set (db_codes d)" for r
  proof
    assume "code_consumable t ?h (e_now env) r"
    then have "r = used" using assms(4-6) that by (auto simp: codes_inv_def code_consumable_def distinct_map intro: inj_onD [of co_hash "set (db_codes d)"])
    with \<open>code_consumable t ?h (e_now env) r\<close> assms(8) show False by (simp add: code_consumable_def code_is_used_def)
  qed
  then have "code_consume t ?h (e_now env) (db_codes d) = (None, db_codes d)"
    by (auto simp: code_consume_def Let_def filter_empty_conv intro!: map_idI)
  then have cn: "consumed = None" "rows = db_codes d" using q codes pl by simp_all
  obtain u where "code_find_used t ?h (db_codes d) = Some u"
    using assms(5-8) by (cases "code_find_used t ?h (db_codes d)")
      (auto simp: code_find_used_def code_is_used_def find_None_iff)
  with w cn pl show ?thesis using code_not_consumed_replay [of env ctx t client_id ?h "d1\<lparr>db_codes := rows\<rparr>" res d'] by simp
qed

lemma reuse_detected_dead:
  assumes "refresh_reuse_detected env ctx t c stored how d = (r, d')"
  shows "\<exists>e. r = Inl e \<and> (te_code e = InvalidGrant \<longrightarrow> family_dead t (family_hash stored) d')"
proof (cases r)
  case (Inl e)
  have "family_dead t (family_hash stored) d'" if i: "te_code e = InvalidGrant"
  proof -
    have g: "case r of Inl e \<Rightarrow> \<not> not_grant e | Inr _ \<Rightarrow> True" using i Inl by (simp add: not_grant_def)
    obtain n d1 where rf: "orInternal (repo_refresh_revoke_family env t (family_hash stored) (e_now env)) d = (Inr n, d1)"
      and x: "bindE (audit_record env ctx ''refresh_token.reuse_detected'' AuditFailure (Some t) (Some (rt_user_id stored)) (Some c)
              (Some (how @ ''; revoked '' @ nat_to_string n @ '' token(s) in the grant family''))) (\<lambda>_.
     bindE (note_refresh_reuse env stored c) (\<lambda>_.
     failE (token_error_new InvalidGrant ''refresh_token has already been used''))) d1 = (r, d')"
      using assms unfolding refresh_reuse_detected_def by (rule bindE_past [OF _ err_only_orInternal g])
    have "family_dead t (family_hash stored) d1" using rf by (auto simp: repo_refresh_revoke_family_Inr intro: revoke_family_dead)
    moreover have "same_data d1 d'"
    proof -
      from x obtain d2 where "same_data d1 d2" and
        "bindE (note_refresh_reuse env stored c) (\<lambda>_.
           failE (token_error_new InvalidGrant ''refresh_token has already been used'')) d2 = (r, d')"
        by (auto dest: audit_record_same)
      moreover from this(2) have "same_data d2 d'"
        by (cases "rt_sid stored") (auto simp: note_refresh_reuse_def Inl bindE_Inl_iff dest: history_record_same)
      ultimately show ?thesis using same_data_trans by blast
    qed
    ultimately show ?thesis using family_dead_same by blast
  qed
  with Inl show ?thesis by blast
qed (use assms in simp)

lemma refresh_past:
  assumes "exchange env ctx t cmd d = (res, d')" and "tc_grant_type cmd = Some ''refresh_token''"
    and g: "case res of Inl e \<Rightarrow> \<not> not_grant e | Inr _ \<Rightarrow> True"
    and "rt_inv (db_refresh d)" and "presented_token env t cmd d stored"
  obtains pf d0 d1 client_id c where "verify_dpop_proof env t cmd d = (Inr pf, d0)" and "core d1 = core d"
    and "established_client env t cmd d client_id c"
    and "bindE (guardE (rt_client_id stored = client_id) (token_error_new InvalidGrant ''refresh_token was issued to another client'')) (\<lambda>_.
          bindE (refresh_bound_jkt env ctx t client_id stored pf) (\<lambda>bound_jkt.
          bindE (refresh_admit env ctx t client_id (rt_token_hash stored) stored) (\<lambda>user.
          issue_for_refresh env ctx t client_id (rt_token_hash stored) stored user bound_jkt))) d1 = (res, d')"
proof -
  have "bindE (verify_dpop_proof env t cmd) (\<lambda>pf. exchange_refresh_token env ctx t cmd pf) d = (res, d')"
    using assms(1,2) g by (auto simp: exchange_def not_grant_def token_error_new_def split: if_splits)
  then obtain pf d0 where v: "verify_dpop_proof env t cmd d = (Inr pf, d0)" and x: "exchange_refresh_token env ctx t cmd pf d0 = (res, d')"
    by (rule bindE_past [OF _ err_only_verify_dpop g])
  note k = verify_dpop_proof_Inr [OF v]
  from x obtain client_id c d1 where e: "established_client env t cmd d0 client_id c" and d1: "core d1 = core d0"
    and y: "refresh_tail env ctx t cmd pf client_id d1 = (res, d')"
    unfolding exchange_refresh_token_alt by (rule client_prefix_past [OF _ g])
  have c: "core d1 = core d" using d1 k by simp
  have s: "rt_inv (db_refresh d1)" "presented_token env t cmd d1 stored"
    using core_fields [OF c] assms(4,5) by (simp_all add: presented_token_def)
  have y: "bindE (guardE (rt_client_id stored = client_id) (token_error_new InvalidGrant ''refresh_token was issued to another client'')) (\<lambda>_.
          bindE (refresh_bound_jkt env ctx t client_id stored pf) (\<lambda>bound_jkt.
          bindE (refresh_admit env ctx t client_id (rt_token_hash stored) stored) (\<lambda>user.
          issue_for_refresh env ctx t client_id (rt_token_hash stored) stored user bound_jkt))) d1 = (res, d')"
    using y g unfolding refresh_tail_stored [OF s]
    by (cases "e_fault env ''refresh.find_by_hash''") (auto simp: not_grant_def token_internal_def token_error_new_def)
  have "established_client env t cmd d client_id c" using e token_prefix_established_mono [of d0 d] k by blast
  from that [OF v c this y] show ?thesis .
qed

lemma refresh_admit_rotated:
  assumes "rt_exists_by_parent_hash (rt_token_hash stored) (db_refresh d)"
  shows "refresh_admit env ctx t client_id (rt_token_hash stored) stored d =
     (case e_fault env ''refresh.exists_by_parent_hash'' of
        Some _ \<Rightarrow> (Inl token_internal, d)
      | None \<Rightarrow> refresh_reuse_detected env ctx t client_id stored ''refresh token already rotated'' d)"
  by (cases "e_fault env ''refresh.exists_by_parent_hash''")
    (simp_all add: refresh_admit_def bindE_def orInternal_def mapErrE_def repo_refresh_exists_child_def db_query_def db_call_def
      failE_def getsE_def assms)

text \<open>(C5) Reuse of a rotated refresh token gets no tokens, and ends its family when the reuse is what the request is refused for:
  presenting a token that already has a child never yields tokens; when the answer is \<open>invalid_grant\<close> and the reason is neither
  that the token belongs to another client nor that it is bound to another key, every token of the family is revoked.  Those two
  refusals, and errors of other kinds (a failed client authentication or proof, a database error), revoke nothing here.\<close>

theorem refresh_reuse_ends_family:
  assumes "exchange env ctx t cmd d = (res, d')" and "tc_grant_type cmd = Some ''refresh_token''"
    and "rt_inv (db_refresh d)" and "presented_token env t cmd d stored"
    and "rt_exists_by_parent_hash (rt_token_hash stored) (db_refresh d)"
  shows "\<exists>e. res = Inl e \<and> (te_code e = InvalidGrant \<longrightarrow>
       te_description e = ''refresh_token was issued to another client'' \<or> te_description e = ''refresh_token is bound to another key''
       \<or> family_dead t (family_hash stored) d')"
proof (cases "case res of Inl e \<Rightarrow> \<not> not_grant e | Inr _ \<Rightarrow> True")
  case False
  then show ?thesis by (cases res) (auto simp: not_grant_def)
next
  case g: True
  obtain pf d0 d1 client_id c where v: "verify_dpop_proof env t cmd d = (Inr pf, d0)" and c: "core d1 = core d"
    and "established_client env t cmd d client_id c"
    and y: "bindE (guardE (rt_client_id stored = client_id) (token_error_new InvalidGrant ''refresh_token was issued to another client'')) (\<lambda>_.
          bindE (refresh_bound_jkt env ctx t client_id stored pf) (\<lambda>bound_jkt.
          bindE (refresh_admit env ctx t client_id (rt_token_hash stored) stored) (\<lambda>user.
          issue_for_refresh env ctx t client_id (rt_token_hash stored) stored user bound_jkt))) d1 = (res, d')"
    using assms(1,2) g assms(3,4) by (rule refresh_past)
  have child: "rt_exists_by_parent_hash (rt_token_hash stored) (db_refresh d1)" using core_fields [OF c] assms(5) by simp
  note adm = refresh_admit_rotated [OF child]
  obtain re de where reuse: "(refresh_reuse_detected env ctx t client_id stored ''refresh token already rotated'' :: user token_action) d1 = (re, de)"
    by fastforce
  obtain e' where re: "re = Inl e'" "te_code e' = InvalidGrant \<longrightarrow> family_dead t (family_hash stored) de"
    using reuse_detected_dead [OF reuse] by blast
  obtain rb db where bj: "refresh_bound_jkt env ctx t client_id stored pf d1 = (rb, db)" by fastforce
  show ?thesis
  proof (cases "rt_client_id stored = client_id")
    case False
    with y show ?thesis by (auto simp: bindE_def guardE_def failE_def token_error_new_def)
  next
    case True
    show ?thesis
    proof (cases rb)
      case (Inl e)
      then have "res = Inl e" using y True bj by (simp add: bindE_def guardE_def retE_def)
      moreover have "te_code e = InvalidGrant \<longrightarrow> te_description e = ''refresh_token is bound to another key''"
        using bj Inl by (cases "rt_dpop_jkt stored"; cases pf) (auto simp: refresh_bound_jkt_def token_error_new_def split: if_splits)
      ultimately show ?thesis by blast
    next
      case (Inr bound)
      then have "db = d1" using refresh_bound_jkt_Inr bj by blast
      with y True bj Inr re reuse adm show ?thesis
        by (cases "e_fault env ''refresh.exists_by_parent_hash''")
          (auto simp: bindE_def guardE_def retE_def token_internal_def token_error_new_def)
    qed
  qed
qed

definition fails_keeping :: "('s \<Rightarrow> 'x) \<Rightarrow> 'x \<Rightarrow> ('s, 'e, 'a) action \<Rightarrow> bool" where
  "fails_keeping f x m \<longleftrightarrow> (\<forall>s. f s = x \<longrightarrow> (\<exists>e s'. m s = (Inl e, s') \<and> f s' = x))"

lemma fails_keeping_bindE:
  assumes "keeps f m" and "\<And>a. fails_keeping f x (n a)"
  shows "fails_keeping f x (bindE m n)"
  unfolding fails_keeping_def
proof (intro allI impI)
  fix s assume s: "f s = x"
  obtain r s' where m: "m s = (r, s')" by fastforce
  then have s': "f s' = x" using keepsD [OF assms(1)] s by simp
  show "\<exists>e s'. bindE m n s = (Inl e, s') \<and> f s' = x"
  proof (cases r)
    case (Inr a)
    with assms(2) [of a] s' m show ?thesis by (simp add: fails_keeping_def bindE_def)
  qed (use m s' in \<open>simp add: bindE_def\<close>)
qed

text \<open>A stolen refresh token cannot be used to stop its owner: without a proof of the key it is bound to, the request is
  refused and the table of refresh tokens is left as it is.\<close>

theorem wrong_key_revokes_nothing:
  assumes "exchange_refresh_token env ctx t cmd pf d = (res, d')" and "rt_inv (db_refresh d)"
    and "presented_token env t cmd d stored" and "rt_dpop_jkt stored = Some k" and "map_option vd_jkt pf \<noteq> Some k"
  shows "(\<exists>e. res = Inl e) \<and> db_refresh d' = db_refresh d"
proof -
  have k: "keeps db_refresh (load_active_client env ctx t i)" "keeps db_refresh (authenticate_client env ctx t c cmd)" for i c
    by (auto intro: action_inv keeps_core_fields)
  have b: "\<exists>e d2. refresh_bound_jkt env ctx t i stored pf d1 = (Inl e, d2) \<and> db_refresh d2 = db_refresh d1" for i d1
    using assms(4,5) by (cases pf) (auto simp: refresh_bound_jkt_def bindE_def failE_def split: prod.splits sum.splits
        dest!: audit_record_same same_data_fields)
  have tail: "\<exists>e d2. refresh_tail env ctx t cmd pf i d1 = (Inl e, d2) \<and> db_refresh d2 = db_refresh d" if "db_refresh d1 = db_refresh d" for i d1
  proof -
    have s: "rt_inv (db_refresh d1)" "presented_token env t cmd d1 stored" using assms(2,3) that by (simp_all add: presented_token_def)
    obtain e d2 where "refresh_bound_jkt env ctx t i stored pf d1 = (Inl e, d2)" "db_refresh d2 = db_refresh d1" using b by blast
    then show ?thesis unfolding refresh_tail_stored [OF s] using that
      by (cases "e_fault env ''refresh.find_by_hash''") (auto simp: bindE_def guardE_def retE_def failE_def)
  qed
  have "fails_keeping db_refresh (db_refresh d) (refresh_tail env ctx t cmd pf i)" for i
    using tail by (simp add: fails_keeping_def)
  then have "fails_keeping db_refresh (db_refresh d) (exchange_refresh_token env ctx t cmd pf)"
    unfolding exchange_refresh_token_alt by (intro fails_keeping_bindE keeps_liftR k)
  then have "\<exists>e s'. exchange_refresh_token env ctx t cmd pf d = (Inl e, s') \<and> db_refresh s' = db_refresh d"
    by (simp add: fails_keeping_def)
  then show ?thesis using assms(1) by auto
qed

section \<open>The client-credentials grant\<close>

lemma client_credentials_scopes:
  assumes "resolve_client_credentials_scopes c req = Inr scopes"
  shows "set scopes \<subseteq> set (c_scopes c) \<and> set scopes \<inter> {''openid'', ''profile'', ''email'', ''offline_access''} = {}"
proof -
  have u: "user_bound_scopes = [''openid'', ''profile'', ''email'']" "enum_as_str scope_table OfflineAccess = ''offline_access''"
    by (simp_all add: user_bound_scopes_def scope_table_def)
  show ?thesis
    using assms unfolding resolve_client_credentials_scopes_def u
    by (auto simp: Let_def list_ex_iff split: option.splits if_splits)
qed

definition own_application :: "db \<Rightarrow> tenant_id \<Rightarrow> client \<Rightarrow> application option" where
  "own_application d t c = app_find_by_binding_target t (ServiceAccountTarget (c_id c)) (db_applications d) (db_bindings d)"

text \<open>What the audience of a service account's token may be.\<close>

definition admissible_target :: "env \<Rightarrow> db \<Rightarrow> tenant_id \<Rightarrow> client \<Rightarrow> string \<Rightarrow> string option \<Rightarrow> bool" where
  "admissible_target env d t c audience perms \<longleftrightarrow>
     (let issuer = tenant_issuer (e_uuid_str env) (e_base_issuer env) t;
          live = (\<forall>a. own_application d t c = Some a \<longrightarrow> application_is_active a)
      in live \<and> audience = userinfo_audience issuer \<and> perms = None
       \<or> audience = management_audience issuer
         \<and> (\<exists>codes. perms = Some (join '' '' codes) \<and> (codes \<noteq> [] \<or> own_application d t c \<noteq> None)
              \<and> codes = (if live then list_codes_for_client (c_id c) (db_client_permissions d) else []))
       \<or> live \<and> perms = None \<and> (\<exists>r a. r \<in> set (db_resources d) \<and> pr_tenant_id r = t \<and> pr_resource_uri r = audience \<and> resource_is_active r
              \<and> app_find_by_binding_target t (ResourceTarget (pr_id r)) (db_applications d) (db_bindings d) = Some a
              \<and> application_is_active a \<and> app_is_service_account_assigned (ap_id a) (c_id c) (db_assignments d)))"

lemma core_admissible_target:
  assumes "core d' = core d"
  shows "admissible_target env d' t c a p = admissible_target env d t c a p"
  unfolding admissible_target_def Let_def own_application_def by (simp only: core_fields [OF assms])

lemma issuable_resource_Inr:
  assumes "issuable_resource env t c req d = (Inr (Inr r), d')"
  shows "r \<in> set (db_resources d) \<and> pr_tenant_id r = t \<and> resource_is_active r
     \<and> (\<exists>a. app_find_by_binding_target t (ResourceTarget (pr_id r)) (db_applications d) (db_bindings d) = Some a
          \<and> application_is_active a \<and> app_is_service_account_assigned (ap_id a) (c_id c) (db_assignments d))"
proof -
  from assms obtain x where f: "resource_find_by_uri (e_ci env) t req (db_resources d) = Some x" and x: "resource_is_active x"
    and y: "bindE (orInternal (repo_app_by_target env ''applications.find_by_binding_target(resource)'' t (ResourceTarget (pr_id x)))) (\<lambda>app.
           case app of
             None \<Rightarrow> retE (Inl ''resource_not_bound_to_an_application'')
           | Some application \<Rightarrow>
               if \<not> application_is_active application then retE (Inl (access_reason (admits_service_account application False)))
               else bindE (orInternal (repo_app_sa_assigned env (ap_id application) (c_id c))) (\<lambda>assigned.
                 case admits_service_account application assigned of
                   AccessAllowed \<Rightarrow> retE (Inr x)
                 | AccessNotAssigned \<Rightarrow> retE (Inl ''service_account_not_assigned'')
                 | AccessDisabled \<Rightarrow> retE (Inl (access_reason AccessDisabled)))) d = (Inr (Inr r), d')"
    unfolding issuable_resource_def
    by (rule bindE_past) (auto simp: err_only_def repo_resource_find_def split: option.splits if_splits)
  from y obtain a where a: "app_find_by_binding_target t (ResourceTarget (pr_id x)) (db_applications d) (db_bindings d) = Some a"
      "application_is_active a"
    and z: "(case admits_service_account a (app_is_service_account_assigned (ap_id a) (c_id c) (db_assignments d)) of
                   AccessAllowed \<Rightarrow> retE (Inr x)
                 | AccessNotAssigned \<Rightarrow> retE (Inl ''service_account_not_assigned'')
                 | AccessDisabled \<Rightarrow> (retE (Inl (access_reason AccessDisabled)) :: (string + protected_resource) token_action)) d
           = (Inr (Inr r), d')"
    by (auto simp: bindE_Inr_iff repo_app_by_target_def repo_app_sa_assigned_def split: option.splits if_splits)
  from z have "admits_service_account a (app_is_service_account_assigned (ap_id a) (c_id c) (db_assignments d)) = AccessAllowed \<and> x = r"
    by (auto split: application_access.splits)
  then show ?thesis using a x f by (auto simp: admits_service_account_allowed_iff resource_find_by_uri_def dest!: find_Some_mem)
qed

lemma client_credentials_target_Inr:
  assumes "client_credentials_target env ctx t i c (own_application d t c) req d = (Inr (audience, perms, ttl), d')"
  shows "admissible_target env d t c audience perms"
proof -
  let ?own = "own_application d t c"
  let ?mg = "management_audience (tenant_issuer (e_uuid_str env) (e_base_issuer env) t)"
  let ?dis = "case ?own of Some a \<Rightarrow> \<not> application_is_active a | None \<Rightarrow> False"
  have live: "(\<forall>a. ?own = Some a \<longrightarrow> application_is_active a) \<longleftrightarrow> \<not> ?dis" by (auto split: option.splits)
  note defs = client_credentials_target_def Let_def
  show ?thesis
  proof (cases "req = Some ?mg")
    case True
    then have "req \<noteq> None" "req \<noteq> Some []" by (auto simp: management_audience_def)
    then show ?thesis using assms True live
      by (auto simp: defs admissible_target_def bindE_Inr_iff repo_client_permissions_def split: if_splits)
  next
    case False
    with assms have nd: "\<not> ?dis" by (auto simp: defs split: if_splits)
    show ?thesis
    proof (cases "req = None \<or> req = Some []")
      case True
      then show ?thesis using assms nd False live by (auto simp: defs admissible_target_def split: if_splits)
    next
      case other: False
      with assms False nd obtain x d1 where x: "issuable_resource env t c (the req) d = (Inr x, d1)"
        and y: "(case x of Inr resource \<Rightarrow> retE (pr_resource_uri resource, None, e_access_token_ttl env)
        | Inl reason \<Rightarrow> refuse_client env ctx t i reason
            (token_error_new InvalidTarget ''the requested resource is not served by this authorization server'')) d1 = (Inr (audience, perms, ttl), d')"
        by (auto simp: defs bindE_Inr_iff)
      from x y obtain r where r: "issuable_resource env t c (the req) d = (Inr (Inr r), d')" "audience = pr_resource_uri r" "perms = None"
        by (cases x) auto
      from issuable_resource_Inr [OF r(1)] r(2,3) nd live show ?thesis unfolding admissible_target_def Let_def by blast
    qed
  qed
qed


end
