(* ===== verification/Token_Samples.thy ===== *)
theory Token_Samples
  imports Token_Properties
begin

text \<open>
  A small concrete deployment (one tenant, one user, a public client, a service account) on which
  the properties of the token endpoint are applied.
\<close>

definition sample_client :: client where
  "sample_client = \<lparr>c_id = 20, c_tenant_id = 1, c_client_id = ''app'', c_client_secret_hash = None, c_client_type = Public,
     c_client_status = ClientActive, c_app_name = ''App'', c_redirect_uris = [''https://rp/cb''], c_grant_types = [''authorization_code''],
     c_response_types = [''code''], c_scopes = [''openid'', ''offline_access''], c_token_endpoint_auth_method = AuthMethodNone, c_jwks = None,
     c_post_logout_redirect_uris = [], c_frontchannel_logout_uri = None, c_backchannel_logout_uri = None, c_created_at = 0, c_updated_at = 0\<rparr>"

definition sample_service :: client where
  "sample_service = sample_client\<lparr>c_id := 21, c_client_id := ''svc'', c_client_secret_hash := Some ''h'', c_client_type := Confidential,
     c_grant_types := [''client_credentials''], c_scopes := [''openid'', ''jobs''], c_token_endpoint_auth_method := ClientSecretPost\<rparr>"

definition sample_user :: user where
  "sample_user = \<lparr>u_id = 9, u_tenant_id = 1, u_sub = 10, u_email = ''u@x'', u_email_verified = True, u_preferred_username = None, u_name = None,
     u_language = None, u_theme = None, u_password_hash = ''p'', u_must_change_password = False, u_password_changed_at = None,
     u_status = UserActive, u_pending_setup = False, u_failed_login_count = 0, u_locked_until = None, u_created_at = 0, u_updated_at = 0\<rparr>"

definition sample_tenant :: tenant where
  "sample_tenant = \<lparr>t_id = 1, t_parent_tenant_id = None, t_name = ''T'', t_status = TenantActive, t_self_registration_enabled = False,
     t_email_login_enabled = False, t_created_at = 0, t_updated_at = 0\<rparr>"

definition sample_verifier :: string where
  "sample_verifier = replicate 43 CHR ''v''"

definition token_code :: authorization_code where
  "token_code = sample_code\<lparr>co_grant := (co_grant sample_code)\<lparr>g_scope := [''openid'', ''offline_access''],
     g_pkce := \<lparr>pk_challenge = sample_verifier, pk_method = S256\<rparr>\<rparr>\<rparr>"

definition token_rt :: refresh_token where
  "token_rt = \<lparr>rt_token_hash = ''r'', rt_parent_hash = None, rt_grant_hash = Some ''g'', rt_tenant_id = 1, rt_user_id = 9,
     rt_client_id = ''app'', rt_scope = [''openid''], rt_sid = None, rt_authentication_methods = Some [Password],
     rt_auth_time = Some 6, rt_dpop_jkt = None, rt_expires_at = 1000, rt_revoked_at = None, rt_created_at = 50\<rparr>"

definition token_db :: db where
  "token_db = \<lparr>db_clients = [sample_client, sample_service], db_users = [sample_user], db_tenants = [sample_tenant], db_auth_sessions = [],
     db_codes = [token_code], db_refresh = [token_rt], db_sso = [], db_assertion_jtis = [], db_dpop_jtis = [], db_revoked = [],
     db_consents = [], db_memberships = [], db_policies = [], db_applications = [], db_bindings = [], db_assignments = [], db_resources = [], db_client_permissions = [],
     db_authenticators = [], db_login_identifiers = [], db_tenant_domains = [],
     db_password_history = \<lparr>ph_next_id = 0, ph_rows = []\<rparr>, db_permission_codes = [], db_user_permissions = [], db_attempts = Map.empty,
     db_audit = [], db_history = []\<rparr>"

definition token_env :: env where
  "token_env = \<lparr>e_lib = toy_crypto, e_jwt = sample_jwt, e_ci = id, e_uuid_str = nat_to_string, e_base_issuer = ''https://idp'',
     e_now = 120, e_auth_now = 120, e_dpop_now = 120, e_audit_now = 120, e_db_now = 120, e_fault = (\<lambda>_. None),
     e_verify_secret = (\<lambda>s h. Inr (s = ''s'' \<and> h = ''h'')),
     e_active_signing_key = Inr \<lparr>sk_kid = ''k'', sk_private_pem = ''pem'', sk_algorithm = ''RS256''\<rparr>,
     e_jwt_encode = (\<lambda>_ _ _ typ _. Some typ), e_fresh_token = ''fresh'', e_fresh_id = ''id'', e_jti_id = ''j'', e_jti_access = ''a'',
     e_access_token_ttl = 300, e_management_token_ttl = 60, e_id_token_ttl = 300, e_refresh_token_ttl = 5000,
     e_assignment_enforcement = (\<lambda>_. Inr Enforce)\<rparr>"

definition token_ctx :: request_context where
  "token_ctx = \<lparr>cx_correlation_id = ''x'', cx_ip_address = None, cx_user_agent = None\<rparr>"

definition token_cmd :: token_command where
  "token_cmd = \<lparr>tc_grant_type = Some ''authorization_code'', tc_code = Some ''c'', tc_redirect_uri = Some ''https://rp/cb'',
     tc_code_verifier = Some sample_verifier,
     tc_credentials = \<lparr>cr_basic = None, cr_body_client_id = Some ''app'', cr_body_client_secret = None, cr_client_assertion = None,
       cr_client_assertion_type = None\<rparr>,
     tc_refresh_token = None, tc_scope = None, tc_resource = None, tc_dpop_proof = None\<rparr>"

definition is_ok :: "('e + 'a) \<times> 's \<Rightarrow> bool" where
  "is_ok r \<longleftrightarrow> (case fst r of Inr _ \<Rightarrow> True | Inl _ \<Rightarrow> False)"

lemma is_okE:
  assumes "is_ok (m s)"
  obtains a s' where "m s = (Inr a, s')"
  using assms by (cases "m s"; cases "fst (m s)") (auto simp: is_ok_def)

lemma sample_code_exchange: "is_ok (exchange token_env token_ctx 1 token_cmd token_db)"
  by code_simp

theorem code_grant_sound_witness:
  "\<exists>tok d'. exchange token_env token_ctx 1 token_cmd token_db = (Inr tok, d') \<and> \<not> code_live ''c'' (db_codes d')"
proof -
  obtain tok d' where e: "exchange token_env token_ctx 1 token_cmd token_db = (Inr tok, d')"
    using sample_code_exchange by (rule is_okE)
  have h: "code_hash (e_lib token_env) (the (tc_code token_cmd)) = ''c''"
    by (simp add: code_hash_def sha256_hex_def token_env_def toy_crypto_def token_cmd_def)
  have "\<exists>client_id r. redeemable_code token_env 1 token_cmd client_id r \<and> \<not> code_live (co_hash r) (db_codes d')"
    using code_grant_sound [OF e] by (fastforce simp: token_cmd_def token_db_def codes_inv_def)
  then show ?thesis using e h by (auto simp: redeemable_code_def)
qed

definition refresh_cmd :: token_command where
  "refresh_cmd = token_cmd\<lparr>tc_grant_type := Some ''refresh_token'', tc_refresh_token := Some ''r''\<rparr>"

lemma sample_refresh_exchange: "is_ok (exchange token_env token_ctx 1 refresh_cmd token_db)"
  by code_simp

theorem refresh_grant_sound_witness:
  "\<exists>tok d'. exchange token_env token_ctx 1 refresh_cmd token_db = (Inr tok, d') \<and> length (db_refresh d') = 2"
proof -
  obtain tok d' where e: "exchange token_env token_ctx 1 refresh_cmd token_db = (Inr tok, d')"
    using sample_refresh_exchange by (rule is_okE)
  have "tc_grant_type refresh_cmd = Some ''refresh_token''" by (simp add: refresh_cmd_def)
  from refresh_grant_sound [OF e this] have "\<exists>f x. db_refresh d' = map f (db_refresh token_db) @ [x]"
    by (elim exE conjE) (rule exI, rule exI, assumption)
  then show ?thesis using e by (auto simp: token_db_def)
qed

definition failed :: "('e + 'a) \<times> 's \<Rightarrow> bool" where
  "failed r \<longleftrightarrow> \<not> is_ok r"

lemma failedE:
  assumes "failed (m s)"
  obtains e s' where "m s = (Inl e, s')"
  using assms by (cases "m s"; cases "fst (m s)") (auto simp: is_ok_def failed_def)

theorem failed_exchange_issues_nothing_witness:
  "\<exists>e d'. exchange token_env token_ctx 1 (token_cmd\<lparr>tc_redirect_uri := None\<rparr>) token_db = (Inl e, d') \<and> unrevoked d' \<subseteq> {token_rt}"
proof -
  have "failed (exchange token_env token_ctx 1 (token_cmd\<lparr>tc_redirect_uri := None\<rparr>) token_db)" by code_simp
  then obtain e d' where e: "exchange token_env token_ctx 1 (token_cmd\<lparr>tc_redirect_uri := None\<rparr>) token_db = (Inl e, d')"
    by (rule failedE)
  have "unrevoked token_db \<subseteq> {token_rt}" by (auto simp: unrevoked_def token_db_def)
  with failed_exchange_issues_nothing [OF e] e show ?thesis by blast
qed

definition used_db :: db where
  "used_db = token_db\<lparr>db_codes := [token_code\<lparr>co_used_at := Some 110\<rparr>],
     db_refresh := [token_rt\<lparr>rt_grant_hash := Some ''c''\<rparr>]\<rparr>"

definition grant_error :: "(token_error + 'a) \<times> 's \<Rightarrow> bool" where
  "grant_error r \<longleftrightarrow> (case fst r of Inl e \<Rightarrow> te_code e = InvalidGrant | Inr _ \<Rightarrow> False)"

theorem code_replay_ends_family_witness:
  "family_dead 1 ''c'' (snd (exchange token_env token_ctx 1 token_cmd used_db))"
proof -
  obtain res d' where e: "exchange token_env token_ctx 1 token_cmd used_db = (res, d')" by fastforce
  have g: "grant_error (exchange token_env token_ctx 1 token_cmd used_db)" by code_simp
  have h: "code_hash (e_lib token_env) ''c'' = ''c''" by (simp add: code_hash_def sha256_hex_def token_env_def toy_crypto_def)
  have "\<exists>x. res = Inl x \<and> (te_code x = InvalidGrant \<longrightarrow> family_dead 1 (code_hash (e_lib token_env) ''c'') d')"
    by (rule code_replay_ends_family [OF e, where used = "token_code\<lparr>co_used_at := Some 110\<rparr>"])
      (simp_all add: h token_cmd_def used_db_def codes_inv_def code_is_used_def token_code_def sample_code_def code_issue_def
        code_hash_def sha256_hex_def toy_crypto_def token_env_def)
  then show ?thesis using e g h by (auto simp: grant_error_def)
qed

definition rotated_db :: db where
  "rotated_db = token_db\<lparr>db_refresh := [token_rt\<lparr>rt_revoked_at := Some 60\<rparr>, token_rt\<lparr>rt_token_hash := ''r2'', rt_parent_hash := Some ''r''\<rparr>]\<rparr>"

lemma rotated_presented: "presented_token token_env 1 refresh_cmd rotated_db (token_rt\<lparr>rt_revoked_at := Some 60\<rparr>)"
  by (auto simp: presented_token_def rotated_db_def refresh_cmd_def token_rt_def token_env_def sha256_hex_def toy_crypto_def)

definition reuse_error :: "(token_error + 'a) \<times> 's \<Rightarrow> bool" where
  "reuse_error r \<longleftrightarrow> (case fst r of Inl e \<Rightarrow> te_code e = InvalidGrant \<and> te_description e = ''refresh_token has already been used'' | Inr _ \<Rightarrow> False)"

theorem refresh_reuse_ends_family_witness:
  "family_dead 1 ''g'' (snd (exchange token_env token_ctx 1 refresh_cmd rotated_db))"
proof -
  let ?s = "token_rt\<lparr>rt_revoked_at := Some 60\<rparr>"
  obtain res d' where e: "exchange token_env token_ctx 1 refresh_cmd rotated_db = (res, d')" by fastforce
  have g: "reuse_error (exchange token_env token_ctx 1 refresh_cmd rotated_db)" by code_simp
  have f: "family_hash ?s = ''g''" by (simp add: family_hash_def token_rt_def)
  have x: "tc_grant_type refresh_cmd = Some ''refresh_token''" "rt_inv (db_refresh rotated_db)"
    "rt_exists_by_parent_hash (rt_token_hash ?s) (db_refresh rotated_db)"
    by (simp_all add: refresh_cmd_def rt_inv_def rotated_db_def token_rt_def rt_exists_by_parent_hash_def)
  from refresh_reuse_ends_family [OF e x(1,2) rotated_presented x(3)] show ?thesis
    using e g f by (auto simp: reuse_error_def)
qed

definition bound_db :: db where
  "bound_db = token_db\<lparr>db_refresh := [token_rt\<lparr>rt_dpop_jkt := Some ''key''\<rparr>]\<rparr>"

theorem wrong_key_revokes_nothing_witness:
  "db_refresh (snd (exchange_refresh_token token_env token_ctx 1 refresh_cmd None bound_db)) = [token_rt\<lparr>rt_dpop_jkt := Some ''key''\<rparr>]"
proof -
  obtain res d' where e: "exchange_refresh_token token_env token_ctx 1 refresh_cmd None bound_db = (res, d')" by fastforce
  have "presented_token token_env 1 refresh_cmd bound_db (token_rt\<lparr>rt_dpop_jkt := Some ''key''\<rparr>)" "rt_inv (db_refresh bound_db)"
    by (auto simp: presented_token_def bound_db_def refresh_cmd_def token_rt_def token_env_def sha256_hex_def toy_crypto_def rt_inv_def)
  from wrong_key_revokes_nothing [OF e this(2,1), of "''key''"] e show ?thesis by (simp add: bound_db_def)
qed

definition service_cmd :: token_command where
  "service_cmd = token_cmd\<lparr>tc_grant_type := Some ''client_credentials'',
     tc_credentials := \<lparr>cr_basic = None, cr_body_client_id = Some ''svc'', cr_body_client_secret = Some ''s'', cr_client_assertion = None,
       cr_client_assertion_type = None\<rparr>\<rparr>"


end
