(* ===== verification/Token_Race.thy ===== *)
theory Token_Race
  imports Token_Samples
begin

text \<open>
  One live chain per grant.  A grant is named by the hash of its authorization code, which is also the
  family hash of every refresh token that descends from it.  The budget counts what a grant may still
  turn into a usable refresh token: the unused code, a handler that has won a code or a rotation and
  has not yet stored its token, and the stored, unrevoked tokens.  It never exceeds one: along one request
  (\<open>exchange_keeps_budget\<close>) and along every interleaving of the database statements of concurrent
  requests (\<open>race_reach\<close>).
\<close>

section \<open>The budget\<close>

definition code_slot :: "string \<Rightarrow> authorization_code list \<Rightarrow> nat" where
  "code_slot f codes = (if code_live f codes then 1 else 0)"

definition budget :: "authorization_code list \<Rightarrow> refresh_token list \<Rightarrow> (string \<Rightarrow> nat) \<Rightarrow> bool" where
  "budget codes rows p \<longleftrightarrow> codes_inv codes \<and> rt_inv rows
     \<and> (\<forall>f. code_slot f codes + p f + length (live_family f rows) \<le> 1)"

definition no_slots :: "string \<Rightarrow> nat" where
  "no_slots = (\<lambda>_. 0)"

definition take_slot :: "string \<Rightarrow> (string \<Rightarrow> nat) \<Rightarrow> string \<Rightarrow> nat" where
  "take_slot f p = p(f := p f + 1)"

definition drop_slot :: "string \<Rightarrow> (string \<Rightarrow> nat) \<Rightarrow> string \<Rightarrow> nat" where
  "drop_slot f p = p(f := p f - 1)"

lemma budget_antimono_slots: "budget codes rows p \<Longrightarrow> (\<And>f. q f \<le> p f) \<Longrightarrow> budget codes rows q"
  unfolding budget_def by (meson add_le_mono le_refl le_trans)

lemma budget_drop_slot: "budget codes rows p \<Longrightarrow> budget codes rows (drop_slot f p)"
  by (rule budget_antimono_slots) (auto simp: drop_slot_def)

lemma drop_take_slot [simp]: "drop_slot f (take_slot f p) = p"
  by (auto simp: drop_slot_def take_slot_def)

lemma budget_consume:
  assumes "budget codes rows p" and "code_consume t h now codes = (Some c, codes')"
  shows "budget codes' rows (take_slot h p)"
proof -
  have inv: "codes_inv codes" using assms(1) by (simp add: budget_def)
  have won: "consume_statement \<lparr>cq_tenant = t, cq_hash = h, cq_now = now\<rparr> codes = (True, codes')"
    using assms(2) by (simp add: consume_statement_def)
  have s: "code_live h codes" "\<not> code_live h codes'" using consume_statement_won [OF inv won] by simp_all
  have o: "code_slot f codes' \<le> code_slot f codes" for f
    using code_consume_used [OF assms(2)] by (auto simp: code_slot_def code_live_def)
  have "codes_inv codes'" using code_consume_hashes [OF assms(2)] inv by (simp add: codes_inv_def)
  moreover have "code_slot f codes' + take_slot h p f + length (live_family f rows) \<le> 1" for f
    using assms(1) s o [of f] unfolding budget_def
    by (cases "f = h") (auto simp: take_slot_def code_slot_def dest!: spec [of _ f] split: if_splits)
  ultimately show ?thesis using assms(1) by (simp add: budget_def)
qed

lemma budget_consume_lost:
  assumes "budget codes rows p" and "code_consume t h now codes = (None, codes')"
  shows "budget codes' rows p"
proof -
  have "code_slot f codes' \<le> code_slot f codes" for f
    using code_consume_used [OF assms(2)] by (auto simp: code_slot_def code_live_def)
  moreover have "codes_inv codes'" using code_consume_hashes [OF assms(2)] assms(1) by (simp add: codes_inv_def budget_def)
  ultimately show ?thesis using assms(1) unfolding budget_def by (meson add_le_mono le_refl le_trans)
qed

lemma budget_update_revoked:
  assumes "budget codes rows p"
  shows "budget codes (snd (rt_update_revoked hit at rows)) p"
proof -
  have "length (live_family f (snd (rt_update_revoked hit at rows))) \<le> length (live_family f rows)" for f
    unfolding live_family_update_revoked by (rule length_filter_le)
  then show ?thesis using assms unfolding budget_def by (auto intro: le_trans [OF add_le_mono [OF le_refl]])
qed

lemma budget_revoke_won:
  assumes "budget codes rows p" and "rt_revoke h now rows = (n, rows')" and "1 \<le> n"
    and "stored \<in> set rows" "rt_token_hash stored = h" and "snap = family_hash stored"
  shows "budget codes rows' (take_slot snap p)"
proof -
  let ?hit = "\<lambda>r. rt_token_hash r = h \<and> rt_revoked_at r = None"
  have inv: "rt_inv rows" using assms(1) by (simp add: budget_def)
  have r': "rows' = snd (rt_update_revoked ?hit now rows)" using assms(2) by (simp add: rt_revoke_def)
  have "rt_live h rows" using revoke_exact(1) [OF inv assms(2)] assms(3) by (simp split: if_splits)
  then obtain x where x: "x \<in> set rows" "rt_token_hash x = h" "rt_revoked_at x = None" by (auto simp: rt_live_def)
  then have "x = stored" using assms(4,5) inv by (auto simp: rt_inv_def distinct_map dest: inj_onD)
  then have m: "stored \<in> set (live_family snap rows)" "?hit stored" using x assms(6) by (auto simp: live_family_def)
  have l: "length (live_family f rows') \<le> length (live_family f rows)" for f
    unfolding r' live_family_update_revoked by (rule length_filter_le)
  have lt: "length (live_family snap rows') < length (live_family snap rows)"
    unfolding r' live_family_update_revoked using m by (intro length_filter_less) auto
  have b: "code_slot f codes + p f + length (live_family f rows) \<le> 1" for f using assms(1) by (simp add: budget_def)
  have "code_slot snap codes + (p snap + 1) + length (live_family snap rows') \<le> 1" using b [of snap] lt by linarith
  moreover have "code_slot f codes + p f + length (live_family f rows') \<le> 1" for f using b [of f] l [of f] by linarith
  ultimately have "code_slot f codes + take_slot snap p f + length (live_family f rows') \<le> 1" for f
    by (simp add: take_slot_def)
  then show ?thesis using assms(1) r' by (simp add: budget_def)
qed

lemma budget_create:
  assumes "budget codes rows p" and "1 \<le> p (family_hash tok)" and "rt_create now tok rows = Inr rows'"
  shows "budget codes rows' (drop_slot (family_hash tok) p)"
proof -
  have r: "rows' = rows @ [tok\<lparr>rt_created_at := now\<rparr>]" "rt_inv rows'"
    using rt_create_inv [OF _ assms(3)] assms(1) unfolding budget_def by blast+
  have "family_hash (tok\<lparr>rt_created_at := now\<rparr>) = family_hash tok" by (simp add: family_hash_def split: option.split)
  then have l: "length (live_family f rows') \<le> length (live_family f rows) + (if f = family_hash tok then 1 else 0)" for f
    by (simp add: r(1) live_family_def)
  have "code_slot f codes + drop_slot (family_hash tok) p f + length (live_family f rows') \<le> 1" for f
    using assms(1,2) l [of f] unfolding budget_def by (cases "f = family_hash tok") (auto simp: drop_slot_def dest!: spec [of _ f])
  then show ?thesis using assms(1) r(2) by (simp add: budget_def)
qed

section \<open>One request\<close>

definition tables :: "db \<Rightarrow> authorization_code list \<times> refresh_token list" where
  "tables d = (db_codes d, db_refresh d)"

definition grant_budget :: "(string \<Rightarrow> nat) \<Rightarrow> db \<Rightarrow> bool" where
  "grant_budget p d \<longleftrightarrow> budget (db_codes d) (db_refresh d) p"

lemma log_free_tables [simp]: "log_free tables"
  by (simp add: log_free_def tables_def)

lemma keeps_core_tables: "keeps core m \<Longrightarrow> keeps tables m"
  by (auto intro!: keepsI simp: tables_def dest!: keepsD core_fields)

lemma keeps_tables_inv: "keeps tables m \<Longrightarrow> inv_action (grant_budget p) m"
  using keeps_inv [of tables m "\<lambda>x. budget (fst x) (snd x) p"] by (simp add: tables_def grant_budget_def [abs_def])

lemma validE_of_inv:
  assumes "inv_action I m"
  shows "validE I m (\<lambda>_. I) (\<lambda>_. I)"
  using inv_actionD [OF assms] unfolding validE_def by (simp split: prod.split sum.split)

lemma validEI:
  assumes "\<And>s a s'. P s \<Longrightarrow> m s = (Inr a, s') \<Longrightarrow> Q a s'" "\<And>s e s'. P s \<Longrightarrow> m s = (Inl e, s') \<Longrightarrow> E e s'"
  shows "validE P m Q E"
  using assms unfolding validE_def by (simp split: prod.split sum.split)

lemma validE_if: "validE P m Q E \<Longrightarrow> validE P n Q E \<Longrightarrow> validE P (if b then m else n) Q E"
  by simp

lemma validE_tables: "keeps tables m \<Longrightarrow> validE (grant_budget p) m (\<lambda>_. grant_budget p) (\<lambda>_. grant_budget p)"
  by (rule validE_of_inv, rule keeps_tables_inv)

lemma budget_update_eq: "rt_update_revoked hit at rows = (n, rows') \<Longrightarrow> budget codes rows p \<Longrightarrow> budget codes rows' p"
  using budget_update_revoked [of codes rows p hit at] by simp

lemma validE_keeps:
  assumes "keeps f m" "\<And>d d'. f d' = f d \<Longrightarrow> P d \<Longrightarrow> P d'" "\<And>d. P d \<Longrightarrow> E d"
  shows "validE P m (\<lambda>_. P) (\<lambda>_. E)"
proof -
  have "P s'" if "P s" "m s = (r, s')" for s r s' using assms(2) [OF keepsD [OF assms(1) that(2)] that(1)] .
  then show ?thesis using assms(3) unfolding validE_def by (auto split: prod.splits sum.splits)
qed

lemma inv_budget_revoke:
  "inv_action (grant_budget p) (repo_refresh_revoke env h at)"
  "inv_action (grant_budget p) (repo_refresh_revoke_family env t f at)"
  by (auto intro!: inv_actionI simp: grant_budget_def repo_refresh_revoke_def repo_refresh_revoke_family_def rt_revoke_def
      rt_revoke_family_def db_call_def split: option.splits prod.splits elim: budget_update_eq)

lemma inv_budget_code_not_consumed: "inv_action (grant_budget p) (code_not_consumed env ctx t c h)"
  unfolding code_not_consumed_def
  by (intro action_inv inv_budget_revoke; rule keeps_tables_inv; intro action_inv log_free_tables)

lemma inv_budget_reuse: "inv_action (grant_budget p) (refresh_reuse_detected env ctx t c stored how)"
  unfolding refresh_reuse_detected_def note_refresh_reuse_def
  by (intro action_inv inv_budget_revoke; rule keeps_tables_inv; intro action_inv log_free_tables)

lemma inv_budget_admit: "inv_action (grant_budget p) (refresh_admit env ctx t c h stored)"
proof -
  have g: "inv_action (grant_budget p) (case gate of
       GateDenied _ _ \<Rightarrow>
         bindE (orInternal (repo_refresh_revoke_family env t (family_hash stored) (e_now env))) (\<lambda>_.
         failE (token_error_new InvalidGrant ''the user may no longer use this application''))
     | GateAllowed \<Rightarrow>
         bindE (orInternal (repo_refresh_revoke env h (e_now env))) (\<lambda>n.
         if n \<ge> 1 then retE user
         else refresh_reuse_detected env ctx t c stored ''refresh token was rotated concurrently''))" for gate user
    by (cases gate) (auto intro!: action_inv inv_budget_revoke inv_budget_reuse)
  show ?thesis
    unfolding refresh_admit_def
    by (intro action_inv inv_budget_reuse g; rule keeps_tables_inv; intro action_inv log_free_tables)
qed

lemma issue_for_refresh_budget:
  "validE (grant_budget (take_slot (family_hash stored) no_slots)) (issue_for_refresh env ctx t c h stored user bound)
     (\<lambda>_. grant_budget no_slots) (\<lambda>_. grant_budget no_slots)"
proof -
  let ?f = "family_hash stored"
  have z: "budget codes rows (take_slot ?f no_slots) \<Longrightarrow> budget codes rows no_slots" for codes rows
    by (rule budget_antimono_slots) (auto simp: no_slots_def)
  have e: "err_inv (grant_budget (take_slot ?f no_slots)) (issue_for_refresh env ctx t c h stored user bound)"
    unfolding issue_for_refresh_def Let_def
    by ((rule err_inv_bindE [OF inv_liftR])+, rule err_inv_bindE_last [OF err_inv_create],
        intro never_fails_bindE never_fails_opt_history never_fails_audit never_fails_retE)
  { fix d tok d'
    assume g: "grant_budget (take_slot ?f no_slots) d" and i: "issue_for_refresh env ctx t c h stored user bound d = (Inr tok, d')"
    note x = issue_for_refresh_Inr [OF i]
    have fam: "family_hash (rotated_refresh_token env t c h stored bound) = ?f"
      by (simp add: rotated_refresh_token_def) (simp add: family_hash_def)
    have cr: "rt_create (e_db_now env) (rotated_refresh_token env t c h stored bound) (db_refresh d) = Inr (db_refresh d')" using x by simp
    have "budget (db_codes d) (db_refresh d') no_slots"
      using budget_create [OF g [unfolded grant_budget_def] _ cr] by (simp add: fam) (simp add: take_slot_def)
    then have "grant_budget no_slots d'" using x by (simp add: grant_budget_def) }
  then show ?thesis
    using err_invD [OF e] z by (intro validEI) (auto simp: grant_budget_def)
qed

lemma refresh_tail_budget:
  "validE (grant_budget no_slots) (refresh_tail env ctx t cmd pf client_id) (\<lambda>_. grant_budget no_slots) (\<lambda>_. grant_budget no_slots)"
proof -
  let ?I = "grant_budget no_slots"
  let ?P = "\<lambda>h s d. ?I d \<and> s \<in> set (db_refresh d) \<and> rt_token_hash s = h"
  have find: "validE ?I (orInternal (repo_refresh_find env t h)) (\<lambda>found d. ?I d \<and> (\<forall>s. found = Some s \<longrightarrow> ?P h s d)) (\<lambda>_. ?I)" for h
    by (auto simp: validE_def orInternal_def mapErrE_def repo_refresh_find_def db_query_def db_call_def getsE_def failE_def
        rt_find_by_hash_def split: prod.splits sum.splits option.splits dest!: find_Some_mem)
  have some: "validE (\<lambda>d. ?I d \<and> (\<forall>s. found = Some s \<longrightarrow> ?P h s d)) (liftR (ok_or e found)) (?P h) (\<lambda>_. ?I)" for found h and e :: token_error
    by (cases found) (auto simp: validE_def liftR_def)
  have keep: "keeps tables m \<Longrightarrow> validE (?P h s) m (\<lambda>_. ?P h s) (\<lambda>_. ?I)" for m :: "string option token_action" and h s
    by (erule validE_keeps) (auto simp: grant_budget_def tables_def)
  have guard: "validE (?P h s) (guardE b e) (\<lambda>_. ?P h s) (\<lambda>_. ?I)" for b h s and e :: token_error
    by (auto simp: validE_def guardE_def retE_def failE_def)
  have bound: "keeps tables (refresh_bound_jkt env ctx t client_id s pf)" for s
    by (cases "rt_dpop_jkt s"; cases pf) (auto simp: refresh_bound_jkt_def intro!: action_inv)
  have admit: "validE (?P h s) (refresh_admit env ctx t client_id h s) (\<lambda>_. grant_budget (take_slot (family_hash s) no_slots)) (\<lambda>_. ?I)" for h s
    unfolding validE_def
  proof (intro allI impI)
    fix d assume P: "?P h s d"
    obtain r d' where a: "refresh_admit env ctx t client_id h s d = (r, d')" by fastforce
    show "case refresh_admit env ctx t client_id h s d of (Inl e, s') \<Rightarrow> ?I s' | (Inr x, s') \<Rightarrow> grant_budget (take_slot (family_hash s) no_slots) s'"
    proof (cases r)
      case (Inl e)
      then show ?thesis using a inv_actionD [OF inv_budget_admit a] P by simp
    next
      case (Inr user)
      with refresh_admit_Inr [of env ctx t client_id h s d user d'] a obtain n d1 where n: "1 \<le> n"
        "rt_revoke h (e_now env) (db_refresh d) = (n, db_refresh d')" "same_data d d1" "d' = d1\<lparr>db_refresh := db_refresh d'\<rparr>" by auto
      have "db_codes d' = db_codes d" using arg_cong [OF n(4), of db_codes] same_data_fields [OF n(3)] by simp
      then show ?thesis
        using a Inr budget_revoke_won [of "db_codes d" "db_refresh d" no_slots h "e_now env" n "db_refresh d'" s] n P
        by (simp add: grant_budget_def)
    qed
  qed
  show ?thesis
    unfolding refresh_tail_def Let_def
    by (rule validE_bind [OF validE_of_inv [OF inv_liftR]], rule validE_bind [OF find], rule validE_bind [OF some],
        rule validE_bind [OF guard], rule validE_bind [OF keep [OF bound]], rule validE_bind [OF admit], rule issue_for_refresh_budget)
qed

lemma issue_for_code_budget:
  "validE (grant_budget (take_slot h no_slots)) (issue_for_code env ctx t c uri v h code pf)
     (\<lambda>_. grant_budget no_slots) (\<lambda>_. grant_budget no_slots)"
proof -
  have z: "budget codes rows (take_slot h no_slots) \<Longrightarrow> budget codes rows no_slots" for codes rows
    by (rule budget_antimono_slots) (auto simp: no_slots_def)
  have "err_inv (grant_budget (take_slot h no_slots)) (if b then
              bindE (orInternal (repo_refresh_create env tok)) (\<lambda>_.
              bindE (audit_record env ctx e r tt u cc rs) (\<lambda>_. retE (Some (e_fresh_token env))))
            else retE None)" for b tok e r tt u cc rs
    by (auto intro!: err_inv_bindE_last [OF err_inv_create] never_fails_bindE never_fails_audit never_fails_retE
        intro: err_inv_of_inv inv_retE)
  then have e: "err_inv (grant_budget (take_slot h no_slots)) (issue_for_code env ctx t c uri v h code pf)"
    unfolding issue_for_code_def Let_def
    by (intro err_inv_bindE [OF inv_liftR] err_inv_bindE [OF keeps_tables_inv [OF keeps_audit]] log_free_tables
          err_inv_bindE [OF keeps_tables_inv [OF keeps_load_active_user]] err_inv_bindE_last
          never_fails_bindE never_fails_opt_history never_fails_audit never_fails_retE)
  { fix d tok d'
    assume g: "grant_budget (take_slot h no_slots) d" and i: "issue_for_code env ctx t c uri v h code pf d = (Inr tok, d')"
    from i have o: "code_refresh_outcome env t c h code pf d d' (is_refresh_token tok)" "db_codes d' = db_codes d"
      by (blast elim: issue_for_code_Inr)+
    have fam: "family_hash (code_refresh_token env t c h code pf) = h"
      by (simp add: code_refresh_token_def Let_def family_hash_def)
    have "budget (db_codes d) (db_refresh d') no_slots"
    proof (cases "grant_includes (co_grant code) OfflineAccess")
      case True
      then have cr: "rt_create (e_db_now env) (code_refresh_token env t c h code pf) (db_refresh d) = Inr (db_refresh d')"
        using o by (simp add: code_refresh_outcome_def)
      show ?thesis using budget_create [OF g [unfolded grant_budget_def] _ cr] by (simp add: fam) (simp add: take_slot_def)
    next
      case False
      then show ?thesis using o g z by (simp add: code_refresh_outcome_def grant_budget_def)
    qed
    then have "grant_budget no_slots d'" using o by (simp add: grant_budget_def) }
  then show ?thesis
    using err_invD [OF e] z by (intro validEI) (auto simp: grant_budget_def)
qed

lemma exchange_code_budget:
  "validE (grant_budget no_slots) (exchange_code env ctx t cmd pf) (\<lambda>_. grant_budget no_slots) (\<lambda>_. grant_budget no_slots)"
proof -
  let ?I = "grant_budget no_slots"
  let ?R = "\<lambda>h consumed. case consumed of None \<Rightarrow> ?I | Some (code :: authorization_code) \<Rightarrow> grant_budget (take_slot h no_slots)"
  have consume: "validE ?I (orInternal (repo_codes_consume env t h (e_now env))) (?R h) (\<lambda>_. ?I)" for h
    unfolding validE_def
  proof (intro allI impI)
    fix d assume I: "?I d"
    obtain c rows where c: "code_consume t h (e_now env) (db_codes d) = (c, rows)" by fastforce
    have "case c of None \<Rightarrow> budget rows (db_refresh d) no_slots | Some _ \<Rightarrow> budget rows (db_refresh d) (take_slot h no_slots)"
      using I c budget_consume budget_consume_lost by (cases c) (auto simp: grant_budget_def)
    moreover have "budget rows (db_refresh d) (take_slot h no_slots) \<Longrightarrow> budget rows (db_refresh d) no_slots"
      by (erule budget_antimono_slots) (simp add: no_slots_def)
    ultimately show "case orInternal (repo_codes_consume env t h (e_now env)) d of (Inl e, s') \<Rightarrow> ?I s' | (Inr a, s') \<Rightarrow> ?R h a s'"
      using I c by (cases "e_fault env ''codes.consume''"; cases "e_fault env ''codes.consume(select)''"; cases c)
        (auto simp: orInternal_def mapErrE_def repo_codes_consume_def bindE_def retE_def db_call_def failE_def stateE_def grant_budget_def)
  qed
  have rest: "validE (?R h consumed) (case consumed of
       None \<Rightarrow> code_not_consumed env ctx t client_id h
     | Some auth_code \<Rightarrow> issue_for_code env ctx t client_id (tc_redirect_uri cmd) v h auth_code pf) (\<lambda>_. ?I) (\<lambda>_. ?I)" for h consumed client_id v
    by (cases consumed) (auto intro: issue_for_code_budget validE_of_inv inv_budget_code_not_consumed)
  show ?thesis
    unfolding exchange_code_def Let_def
    by (intro validE_bind [OF validE_of_inv [OF inv_liftR]] validE_bind [OF validE_of_inv [OF inv_guardE]]
        validE_bind [OF validE_tables [OF keeps_load_active_client]] log_free_tables
        validE_bind [OF validE_tables [OF keeps_core_tables [OF keeps_authenticate_client]]]
        validE_bind [OF consume] rest)
qed

text \<open>One live chain per grant, for one request: if before a token request every grant has at most one of
  an unused code and a usable refresh token, the same holds after it, whatever the request
  presents and however it ends.\<close>

theorem exchange_keeps_budget:
  assumes "grant_budget no_slots d" and "exchange env ctx t cmd d = (res, d')"
  shows "grant_budget no_slots d'"
proof -
  have r: "validE (grant_budget no_slots) (exchange_refresh_token env ctx t cmd pf) (\<lambda>_. grant_budget no_slots) (\<lambda>_. grant_budget no_slots)" for pf
    unfolding exchange_refresh_token_alt
    by (intro validE_bind [OF validE_of_inv [OF inv_liftR]] validE_bind [OF validE_tables [OF keeps_load_active_client]] log_free_tables
        validE_bind [OF validE_tables [OF keeps_core_tables [OF keeps_authenticate_client]]] refresh_tail_budget)
  have v: "validE (grant_budget no_slots) (verify_dpop_proof env t cmd) (\<lambda>_. grant_budget no_slots) (\<lambda>_. grant_budget no_slots)"
    by (rule validE_tables [OF keeps_core_tables [OF keeps_verify_dpop_proof(1)]])
  have "validE (grant_budget no_slots) (exchange env ctx t cmd) (\<lambda>_. grant_budget no_slots) (\<lambda>_. grant_budget no_slots)"
    unfolding exchange_def
    by (intro validE_if validE_bind [OF v exchange_code_budget] validE_bind [OF v r]
        validE_tables [OF keeps_core_tables [OF keeps_issue_client_credentials]] validE_of_inv [OF inv_failE])
  from validE_Inr [OF this assms(1)] validE_Inl [OF this assms(1)] assms(2) show ?thesis by (cases res) simp_all
qed

theorem exchange_keeps_budget_witness:
  "grant_budget no_slots (snd (exchange token_env token_ctx 1 token_cmd (token_db\<lparr>db_refresh := []\<rparr>)))"
proof -
  obtain res d' where e: "exchange token_env token_ctx 1 token_cmd (token_db\<lparr>db_refresh := []\<rparr>) = (res, d')" by fastforce
  have "grant_budget no_slots (token_db\<lparr>db_refresh := []\<rparr>)"
    by (simp add: grant_budget_def budget_def token_db_def codes_inv_def rt_inv_def live_family_def no_slots_def code_slot_def)
  from exchange_keeps_budget [OF this e] e show ?thesis by simp
qed

section \<open>Concurrent requests\<close>

text \<open>
  The database statements of concurrent token requests, interleaved.  \<open>ra_readers\<close> are the rows that handlers
  have read and still act on; \<open>ra_flight\<close> are the refresh tokens of handlers that have won a code or a
  rotation and have not yet executed their INSERT; \<open>ra_seen\<close> are the token hashes handed out so
  far (a fresh random token has a new one).
\<close>

record race =
  ra_codes :: "authorization_code list"
  ra_rows :: "refresh_token list"
  ra_readers :: "refresh_token list"
  ra_flight :: "refresh_token list"
  ra_seen :: "string set"

inductive race_step :: "race \<Rightarrow> race \<Rightarrow> bool" where
  race_code_won: "code_consume t h now (ra_codes s) = (Some c, codes) \<Longrightarrow> tok = code_refresh_token env t client_id h c pf \<Longrightarrow>
    rt_token_hash tok \<notin> ra_seen s \<Longrightarrow>
    race_step s (s\<lparr>ra_codes := codes, ra_flight := ra_flight s @ [tok], ra_seen := insert (rt_token_hash tok) (ra_seen s)\<rparr>)"
| race_code_lost: "code_consume t h now (ra_codes s) = (None, codes) \<Longrightarrow> race_step s (s\<lparr>ra_codes := codes\<rparr>)"
| race_read: "rt_find_by_hash t h (ra_rows s) = Some stored \<Longrightarrow> race_step s (s\<lparr>ra_readers := ra_readers s @ [stored]\<rparr>)"
| race_rotation_won: "stored \<in> set (ra_readers s) \<Longrightarrow> rt_revoke (rt_token_hash stored) now (ra_rows s) = (n, rows) \<Longrightarrow> 1 \<le> n \<Longrightarrow>
    tok = rotated_refresh_token env t client_id (rt_token_hash stored) stored bound \<Longrightarrow> rt_token_hash tok \<notin> ra_seen s \<Longrightarrow>
    race_step s (s\<lparr>ra_rows := rows, ra_flight := ra_flight s @ [tok], ra_seen := insert (rt_token_hash tok) (ra_seen s)\<rparr>)"
| race_rotation_lost: "stored \<in> set (ra_readers s) \<Longrightarrow> rt_revoke (rt_token_hash stored) now (ra_rows s) = (0, rows) \<Longrightarrow>
    race_step s (s\<lparr>ra_rows := rows\<rparr>)"
| race_revoke_family: "rt_revoke_family t f now (ra_rows s) = (n, rows) \<Longrightarrow> race_step s (s\<lparr>ra_rows := rows\<rparr>)"
| race_create: "tok \<in> set (ra_flight s) \<Longrightarrow> rt_create now tok (ra_rows s) = Inr rows \<Longrightarrow>
    race_step s (s\<lparr>ra_rows := rows, ra_flight := remove1 tok (ra_flight s)\<rparr>)"
| race_abort: "race_step s (s\<lparr>ra_flight := remove1 tok (ra_flight s)\<rparr>)"
| race_purge: "race_step s (s\<lparr>ra_codes := code_purge_expired now (ra_codes s), ra_rows := rt_purge_expired now (ra_rows s)\<rparr>)"

inductive race_reach :: "race \<Rightarrow> race \<Rightarrow> bool" for s0 :: race where
  race_start: "race_reach s0 s0"
| race_more: "race_reach s0 s \<Longrightarrow> race_step s s' \<Longrightarrow> race_reach s0 s'"

definition slots :: "refresh_token list \<Rightarrow> string \<Rightarrow> nat" where
  "slots flight f = length (filter (\<lambda>t. family_hash t = f) flight)"

definition same_family :: "refresh_token list \<Rightarrow> refresh_token list \<Rightarrow> bool" where
  "same_family readers rows \<longleftrightarrow>
     (\<forall>x \<in> set readers. \<forall>r \<in> set rows. rt_token_hash r = rt_token_hash x \<longrightarrow> family_hash r = family_hash x)"

definition race_inv :: "race \<Rightarrow> bool" where
  "race_inv s \<longleftrightarrow> budget (ra_codes s) (ra_rows s) (slots (ra_flight s))
     \<and> distinct (map rt_token_hash (ra_flight s))
     \<and> rt_token_hash ` set (ra_rows s) \<subseteq> ra_seen s \<and> rt_token_hash ` set (ra_readers s) \<subseteq> ra_seen s
     \<and> rt_token_hash ` set (ra_flight s) \<subseteq> ra_seen s
     \<and> rt_token_hash ` set (ra_flight s) \<inter> rt_token_hash ` set (ra_readers s) = {}
     \<and> rt_token_hash ` set (ra_flight s) \<inter> rt_token_hash ` set (ra_rows s) = {}
     \<and> same_family (ra_readers s) (ra_rows s)"

lemma slots_append: "slots (fl @ [t]) = take_slot (family_hash t) (slots fl)"
  by (auto simp: slots_def take_slot_def)

lemma slots_remove1: "t \<in> set fl \<Longrightarrow> slots (remove1 t fl) = drop_slot (family_hash t) (slots fl)"
  by (auto simp: slots_def drop_slot_def filter_remove1 length_remove1)

lemma slots_remove1_le: "slots (remove1 t fl) f \<le> slots fl f"
  by (simp add: slots_def filter_remove1 length_remove1)

lemma update_revoked_image:
  "set (snd (rt_update_revoked hit at rows)) \<subseteq> {r. \<exists>x \<in> set rows. rt_token_hash r = rt_token_hash x \<and> family_hash r = family_hash x}"
proof
  fix r assume "r \<in> set (snd (rt_update_revoked hit at rows))"
  then obtain x where "x \<in> set rows" "r = (if hit x then x\<lparr>rt_revoked_at := Some at\<rparr> else x)" by (auto simp: rt_update_revoked_def)
  then show "r \<in> {r. \<exists>x \<in> set rows. rt_token_hash r = rt_token_hash x \<and> family_hash r = family_hash x}" by auto
qed

lemma same_family_rows:
  assumes "same_family readers rows" and "set rows' \<subseteq> {r. \<exists>x \<in> set rows. rt_token_hash r = rt_token_hash x \<and> family_hash r = family_hash x}"
  shows "same_family readers rows'"
  unfolding same_family_def
proof (intro ballI impI)
  fix x r assume x: "x \<in> set readers" "r \<in> set rows'" "rt_token_hash r = rt_token_hash x"
  then obtain y where "y \<in> set rows" "rt_token_hash r = rt_token_hash y" "family_hash r = family_hash y" using assms(2) by blast
  then show "family_hash r = family_hash x" using assms(1) x unfolding same_family_def by auto
qed

lemma disjoint_mono: "A' \<subseteq> A \<Longrightarrow> B' \<subseteq> B \<Longrightarrow> A \<inter> B = {} \<Longrightarrow> A' \<inter> B' = {}"
  by blast

lemma race_inv_hashes:
  "race_inv s \<Longrightarrow> rt_token_hash ` set (ra_rows s) \<subseteq> ra_seen s \<and> rt_token_hash ` set (ra_flight s) \<inter> rt_token_hash ` set (ra_rows s) = {}"
  by (simp add: race_inv_def)

lemma race_inv_rows:
  assumes "race_inv s" and "budget codes rows p" and "p = slots (ra_flight s)"
    and sub: "set rows \<subseteq> {r. \<exists>x \<in> set (ra_rows s). rt_token_hash r = rt_token_hash x \<and> family_hash r = family_hash x}"
  shows "race_inv (s\<lparr>ra_codes := codes, ra_rows := rows\<rparr>)"
proof -
  have "rt_token_hash ` set rows \<subseteq> rt_token_hash ` set (ra_rows s)" using sub by fastforce
  then have "rt_token_hash ` set rows \<subseteq> ra_seen s" "rt_token_hash ` set (ra_flight s) \<inter> rt_token_hash ` set rows = {}"
    using race_inv_hashes [OF assms(1)] by (auto intro: subset_trans dest: disjoint_mono [OF subset_refl])
  moreover have "same_family (ra_readers s) rows" using assms(1) sub same_family_rows by (auto simp only: race_inv_def)
  ultimately show ?thesis using assms(1-3) by (simp add: race_inv_def)
qed

lemma race_inv_update_revoked:
  assumes "race_inv s" and "rt_update_revoked hit at (ra_rows s) = (n, rows)"
  shows "race_inv (s\<lparr>ra_rows := rows\<rparr>)"
proof -
  have "budget (ra_codes s) rows (slots (ra_flight s))" using budget_update_eq assms by (auto simp: race_inv_def)
  from race_inv_rows [OF assms(1) this refl] update_revoked_image [of hit at "ra_rows s"] assms(2) show ?thesis by simp
qed

lemma race_inv_flight:
  assumes "race_inv s" and "budget codes rows (take_slot (family_hash tok) (slots (ra_flight s)))" and "rt_token_hash tok \<notin> ra_seen s"
    and sub: "set rows \<subseteq> {r. \<exists>x \<in> set (ra_rows s). rt_token_hash r = rt_token_hash x \<and> family_hash r = family_hash x}"
  shows "race_inv (s\<lparr>ra_codes := codes, ra_rows := rows, ra_flight := ra_flight s @ [tok], ra_seen := insert (rt_token_hash tok) (ra_seen s)\<rparr>)"
proof -
  have "rt_token_hash ` set rows \<subseteq> rt_token_hash ` set (ra_rows s)" using sub by fastforce
  then have "rt_token_hash ` set rows \<subseteq> ra_seen s" "rt_token_hash ` set (ra_flight s) \<inter> rt_token_hash ` set rows = {}"
    using race_inv_hashes [OF assms(1)] by (auto intro: subset_trans dest: disjoint_mono [OF subset_refl])
  moreover have "same_family (ra_readers s) rows" using assms(1) sub same_family_rows by (auto simp only: race_inv_def)
  moreover have "rt_token_hash tok \<notin> rt_token_hash ` set rows" using calculation(1) assms(3) by blast
  moreover have "distinct (map rt_token_hash (ra_flight s @ [tok]))" "rt_token_hash tok \<notin> rt_token_hash ` set (ra_readers s)"
    using assms(1,3) by (auto simp: race_inv_def)
  ultimately show ?thesis using assms(1,2) by (auto simp: race_inv_def slots_append)
qed

lemma race_inv_create:
  assumes inv: "race_inv s" and tok: "tok \<in> set (ra_flight s)" and cr: "rt_create now tok (ra_rows s) = Inr rows"
  shows "race_inv (s\<lparr>ra_rows := rows, ra_flight := remove1 tok (ra_flight s)\<rparr>)"
proof -
  have r: "rows = ra_rows s @ [tok\<lparr>rt_created_at := now\<rparr>]" using cr by (simp add: rt_create_def split: if_splits)
  have d: "distinct (map rt_token_hash (ra_flight s))" using inv by (simp add: race_inv_def)
  have i: "rt_token_hash ` set (remove1 tok (ra_flight s)) \<subseteq> rt_token_hash ` set (ra_flight s)"
    by (rule image_mono) (rule set_remove1_subset)
  have out: "rt_token_hash tok \<notin> rt_token_hash ` set (remove1 tok (ra_flight s))"
    using d tok by (auto simp: distinct_map set_remove1_eq dest: inj_onD)
  have d': "distinct (map rt_token_hash (remove1 tok (ra_flight s)))"
    using d by (auto simp: distinct_map distinct_remove1 intro: inj_on_subset dest: notin_set_remove1)
  have "1 \<le> slots (ra_flight s) (family_hash tok)" using tok by (auto simp: slots_def Suc_le_eq filter_empty_conv)
  then have b: "budget (ra_codes s) rows (slots (remove1 tok (ra_flight s)))"
    using budget_create [OF _ _ cr] inv by (simp add: race_inv_def slots_remove1 [OF tok])
  have "rt_token_hash tok \<notin> rt_token_hash ` set (ra_readers s)" using inv tok by (auto simp: race_inv_def)
  then have f: "same_family (ra_readers s) rows" using inv r by (auto simp: race_inv_def same_family_def)
  have "rt_token_hash ` set rows \<subseteq> ra_seen s" using inv r tok by (auto simp: race_inv_def)
  moreover have "rt_token_hash ` set (remove1 tok (ra_flight s)) \<inter> rt_token_hash ` set rows = {}"
    using disjoint_mono [OF i subset_refl, of "rt_token_hash ` set (ra_rows s)"] out inv by (auto simp: race_inv_def r)
  moreover note disjoint_mono [OF i subset_refl, of "rt_token_hash ` set (ra_readers s)"]
  ultimately show ?thesis using b f d' i inv by (simp add: race_inv_def subset_trans [OF i])
qed

lemma race_inv_read:
  assumes inv: "race_inv s" and "rt_find_by_hash t h (ra_rows s) = Some stored"
  shows "race_inv (s\<lparr>ra_readers := ra_readers s @ [stored]\<rparr>)"
proof -
  have m: "stored \<in> set (ra_rows s)" using assms(2) find_Some_mem unfolding rt_find_by_hash_def by fast
  have "rt_inv (ra_rows s)" using inv by (simp add: race_inv_def budget_def)
  then have "same_family [stored] (ra_rows s)"
    using m by (auto simp: same_family_def rt_inv_def distinct_map dest: inj_onD)
  then have "same_family (ra_readers s @ [stored]) (ra_rows s)" using inv by (auto simp: race_inv_def same_family_def)
  then show ?thesis using inv m by (auto simp: race_inv_def)
qed

lemma budget_purge: "budget codes rows p \<Longrightarrow> budget (code_purge_expired now codes) (rt_purge_expired now' rows) p"
proof -
  assume b: "budget codes rows p"
  have "code_slot f (code_purge_expired now codes) \<le> code_slot f codes" for f
    by (auto simp: code_slot_def code_live_def code_purge_expired_def)
  moreover have "length (live_family f (rt_purge_expired now' rows)) \<le> length (live_family f rows)" for f
    by (simp add: live_family_def rt_purge_expired_def, induction rows) auto
  moreover have "codes_inv (code_purge_expired now codes)" "rt_inv (rt_purge_expired now' rows)"
    using b by (auto simp: budget_def codes_inv_def rt_inv_def code_purge_expired_def rt_purge_expired_def distinct_map_filter)
  ultimately show ?thesis using b unfolding budget_def by (meson add_le_mono le_refl le_trans)
qed

lemma race_step_inv: "race_step s s' \<Longrightarrow> race_inv s \<Longrightarrow> race_inv s'"
proof (induction rule: race_step.induct)
  case (race_code_won t h now s c codes tok env client_id pf)
  have "family_hash tok = h" using race_code_won.hyps(2) by (simp add: code_refresh_token_def Let_def family_hash_def)
  then have "budget codes (ra_rows s) (take_slot (family_hash tok) (slots (ra_flight s)))"
    using budget_consume [OF _ race_code_won.hyps(1)] race_code_won.prems by (simp add: race_inv_def)
  from race_inv_flight [OF race_code_won.prems this race_code_won.hyps(3)] show ?case by auto
next
  case (race_code_lost t h now s codes)
  have "budget codes (ra_rows s) (slots (ra_flight s))"
    using budget_consume_lost [OF _ race_code_lost.hyps] race_code_lost.prems by (simp add: race_inv_def)
  from race_inv_rows [OF race_code_lost.prems this refl] show ?case by auto
next
  case (race_read t h s stored)
  then show ?case using race_inv_read by blast
next
  case (race_rotation_won stored s now n rows tok env t client_id bound)
  let ?h = "rt_token_hash stored"
  have b: "budget (ra_codes s) (ra_rows s) (slots (ra_flight s))" using race_rotation_won.prems by (simp add: race_inv_def)
  then have "rt_inv (ra_rows s)" by (simp add: budget_def)
  then have "rt_live ?h (ra_rows s)" using revoke_exact(1) race_rotation_won.hyps(2,3) by (metis not_one_le_zero)
  then obtain x where x: "x \<in> set (ra_rows s)" "rt_token_hash x = ?h" by (auto simp: rt_live_def)
  then have fx: "family_hash x = family_hash stored"
    using race_rotation_won.prems race_rotation_won.hyps(1) by (auto simp: race_inv_def same_family_def)
  have "family_hash tok = family_hash stored"
    using race_rotation_won.hyps(4) by (simp add: rotated_refresh_token_def) (simp add: family_hash_def)
  then have "budget (ra_codes s) rows (take_slot (family_hash tok) (slots (ra_flight s)))"
    using budget_revoke_won [OF b race_rotation_won.hyps(2,3) x(1) x(2) refl] fx by simp
  moreover have "set rows \<subseteq> {r. \<exists>x \<in> set (ra_rows s). rt_token_hash r = rt_token_hash x \<and> family_hash r = family_hash x}"
    using update_revoked_image [of "\<lambda>r. rt_token_hash r = ?h \<and> rt_revoked_at r = None" now "ra_rows s"] race_rotation_won.hyps(2)
    by (simp add: rt_revoke_def)
  ultimately show ?case using race_inv_flight [OF race_rotation_won.prems _ race_rotation_won.hyps(5), of "ra_codes s" rows] by simp
next
  case (race_rotation_lost stored s now rows)
  then show ?case using race_inv_update_revoked unfolding rt_revoke_def by blast
next
  case (race_revoke_family t f now s n rows)
  then show ?case using race_inv_update_revoked unfolding rt_revoke_family_def by blast
next
  case (race_create tok s now rows)
  then show ?case using race_inv_create by blast
next
  case (race_abort s tok)
  have "rt_token_hash ` set (remove1 tok (ra_flight s)) \<subseteq> rt_token_hash ` set (ra_flight s)"
    by (rule image_mono) (rule set_remove1_subset)
  moreover have "distinct (map rt_token_hash (remove1 tok (ra_flight s)))"
    using race_abort by (auto simp: race_inv_def distinct_map distinct_remove1 intro: inj_on_subset dest: notin_set_remove1)
  moreover have "budget (ra_codes s) (ra_rows s) (slots (remove1 tok (ra_flight s)))"
    using race_abort by (auto simp: race_inv_def intro: budget_antimono_slots slots_remove1_le)
  moreover note disjoint_mono [OF calculation(1) subset_refl]
  ultimately show ?case using race_abort by (simp add: race_inv_def subset_trans)
next
  case (race_purge s now)
  then show ?case
    using race_inv_rows [OF race_purge budget_purge refl, of _ _ now now] by (auto simp: race_inv_def rt_purge_expired_def)
qed

text \<open>(C3) One live chain per grant, under concurrency: however the database statements of token requests interleave,
  at every moment a grant has at most one of an unused code, a winning handler that has not yet stored its
  token, and an unrevoked refresh token; two requests never turn one code or one token into two live tokens.\<close>

theorem race_one_live_chain:
  assumes "race_reach s0 s" and "budget (ra_codes s0) (ra_rows s0) no_slots" and "ra_readers s0 = []" and "ra_flight s0 = []"
    and "ra_seen s0 = rt_token_hash ` set (ra_rows s0)"
  shows "code_slot f (ra_codes s) + slots (ra_flight s) f + length (live_family f (ra_rows s)) \<le> 1"
proof -
  have "slots [] = no_slots" by (auto simp: slots_def no_slots_def)
  then have "race_inv s0" using assms(2-5) by (simp add: race_inv_def same_family_def)
  with assms(1) have "race_inv s" by (induction rule: race_reach.induct) (auto intro: race_step_inv)
  then show ?thesis by (simp add: race_inv_def budget_def)
qed

definition race_init :: race where
  "race_init = \<lparr>ra_codes = [], ra_rows = [token_rt], ra_readers = [], ra_flight = [], ra_seen = {''r''}\<rparr>"

definition race_child :: refresh_token where
  "race_child = rotated_refresh_token token_env 1 ''app'' ''r'' token_rt None"

definition race_revoked :: refresh_token where
  "race_revoked = token_rt\<lparr>rt_revoked_at := Some 120\<rparr>"

text \<open>The winner has rotated, the loser has found nothing to revoke.\<close>

definition race_decided :: race where
  "race_decided = \<lparr>ra_codes = [], ra_rows = [race_revoked], ra_readers = [token_rt, token_rt], ra_flight = [race_child],
     ra_seen = {''fresh'', ''r''}\<rparr>"

lemma race_child_hash [simp]: "rt_token_hash race_child = ''fresh''"
  by (simp add: race_child_def rotated_refresh_token_def token_env_def sha256_hex_def toy_crypto_def)

lemma race_read_init: "race_reach race_init (race_init\<lparr>ra_readers := [token_rt, token_rt]\<rparr>)"
proof -
  have f: "rt_find_by_hash 1 ''r'' [token_rt] = Some token_rt" by (simp add: rt_find_by_hash_def token_rt_def)
  have "race_step race_init (race_init\<lparr>ra_readers := [token_rt]\<rparr>)"
    using race_read [of 1 "''r''" race_init token_rt] f by (simp add: race_init_def)
  moreover have "race_step (race_init\<lparr>ra_readers := [token_rt]\<rparr>) (race_init\<lparr>ra_readers := [token_rt, token_rt]\<rparr>)"
    using race_read [of 1 "''r''" "race_init\<lparr>ra_readers := [token_rt]\<rparr>" token_rt] f by (simp add: race_init_def)
  ultimately show ?thesis by (meson race_start race_more)
qed

lemma race_decided_reach: "race_reach race_init race_decided"
proof -
  let ?s = "race_init\<lparr>ra_readers := [token_rt, token_rt]\<rparr>"
  have "rt_revoke (rt_token_hash token_rt) 120 (ra_rows ?s) = (1, [race_revoked])"
    by (simp add: rt_revoke_def rt_update_revoked_def race_init_def race_revoked_def token_rt_def)
  moreover have "race_child = rotated_refresh_token token_env 1 ''app'' (rt_token_hash token_rt) token_rt None"
    by (simp add: race_child_def token_rt_def)
  ultimately have "race_step ?s race_decided"
    using race_rotation_won [of token_rt ?s 120 1 "[race_revoked]" race_child] by (simp add: race_init_def race_decided_def)
  with race_read_init show ?thesis by (rule race_more)
qed

text \<open>(C38) The reaction to reuse can be outlived: two requests present the same refresh token; the one that loses the rotation
  revokes the whole family and finds nothing left to revoke, and only then the winner stores its child,
  which stays live.\<close>

theorem reuse_reaction_outlived:
  "\<exists>s s'. race_reach race_init s \<and> token_rt \<in> set (ra_readers s)
     \<and> rt_revoke (rt_token_hash token_rt) 120 (ra_rows s) = (0, ra_rows s)
     \<and> rt_revoke_family 1 (family_hash token_rt) 120 (ra_rows s) = (0, ra_rows s)
     \<and> race_step s s' \<and> live_family (family_hash token_rt) (ra_rows s') \<noteq> []"
proof (intro exI conjI)
  show "race_reach race_init race_decided" by (rule race_decided_reach)
  show "token_rt \<in> set (ra_readers race_decided)" by (simp add: race_decided_def)
  show "rt_revoke (rt_token_hash token_rt) 120 (ra_rows race_decided) = (0, ra_rows race_decided)"
    "rt_revoke_family 1 (family_hash token_rt) 120 (ra_rows race_decided) = (0, ra_rows race_decided)"
    by (simp_all add: rt_revoke_def rt_revoke_family_def rt_update_revoked_def race_decided_def race_revoked_def)
  show "race_step race_decided (race_decided\<lparr>ra_rows := [race_revoked, race_child\<lparr>rt_created_at := 120\<rparr>], ra_flight := []\<rparr>)"
    using race_create [of race_child race_decided 120 "[race_revoked, race_child\<lparr>rt_created_at := 120\<rparr>]"]
    by (simp add: race_decided_def rt_create_def race_revoked_def token_rt_def)
  show "live_family (family_hash token_rt) (ra_rows (race_decided\<lparr>ra_rows := [race_revoked, race_child\<lparr>rt_created_at := 120\<rparr>], ra_flight := []\<rparr>)) \<noteq> []"
    by (simp add: live_family_def race_child_def rotated_refresh_token_def family_hash_def token_rt_def)
qed

theorem race_one_live_chain_witness:
  "slots (ra_flight race_decided) ''g'' + length (live_family ''g'' (ra_rows race_decided)) \<le> 1"
proof -
  have "budget (ra_codes race_init) (ra_rows race_init) no_slots"
    by (auto simp: budget_def race_init_def codes_inv_def rt_inv_def code_slot_def code_live_def no_slots_def live_family_def)
  from race_one_live_chain [OF race_decided_reach this, of "''g''"] show ?thesis
    by (simp add: race_init_def token_rt_def)
qed

end
