(* ===== verification/Lockout.thy ===== *)
theory Lockout
  imports Entities
begin

text \<open>
  Account lockout: \<open>LockoutPolicy\<close> of \<open>domain/authentication_policy.rs\<close> and the statements of
  \<open>infrastructure/repositories/user.rs\<close> that record a failed login (\<open>record_login_failure\<close>) and
  reset the counters (\<open>update_login_state\<close>).

  The duration of a lock is computed twice: by \<open>lock_duration_secs_for\<close> in the domain, and by a
  SQL \<open>CASE\<close> over the steps that \<open>escalation_ladder\<close> lists, because the failure count is only known
  inside the \<open>UPDATE\<close>.  The two are shown to agree for every policy and count, saturation of \<open>i32\<close>
  and \<open>u64\<close> included; a lock lasts at least the first duration and at most the larger of the two
  configured durations, and enough failures in a row do lock the account.

  \<open>i32\<close> values are integers with the saturating operations written out, \<open>u64\<close> values naturals
  with saturation at \<open>2 ^ 64 - 1\<close>.  \<open>Duration::seconds\<close> panics outside its range: the outer \<open>None\<close>.
\<close>

section \<open>The policy\<close>

definition i32_max :: int where
  "i32_max = 2147483647"

definition sat_i32 :: "int \<Rightarrow> int" where
  "sat_i32 x = max (- 2147483648) (min i32_max x)"

definition u64_max :: nat where
  "u64_max = 18446744073709551615"

record lockout_policy =
  lp_max_failed_attempts :: int
  lp_lock_duration_secs :: nat
  lp_max_lock_duration_secs :: nat

definition escalation_steps :: nat where
  "escalation_steps = 16"

definition lock_duration_secs_for :: "lockout_policy \<Rightarrow> int \<Rightarrow> nat" where
  "lock_duration_secs_for p failed_count =
     (let over = max 0 (sat_i32 (failed_count - lp_max_failed_attempts p));
          step = min (nat over) escalation_steps;
          scaled = min u64_max (lp_lock_duration_secs p * 2 ^ step)
      in max (min scaled (lp_max_lock_duration_secs p)) (lp_lock_duration_secs p))"

definition after_secs :: "instant \<Rightarrow> nat \<Rightarrow> instant option" where
  "after_secs now d = map_option (\<lambda>\<delta>. now + \<delta>) (duration_seconds (u64_as_i64 (of_nat d)))"

definition locked_until_after_failure :: "lockout_policy \<Rightarrow> int \<Rightarrow> instant \<Rightarrow> instant option option" where
  "locked_until_after_failure p failed_count now =
     (if failed_count \<ge> lp_max_failed_attempts p
      then map_option Some (after_secs now (lock_duration_secs_for p failed_count))
      else Some None)"

fun ladder_from :: "lockout_policy \<Rightarrow> nat list \<Rightarrow> (int \<times> nat) list" where
  "ladder_from p [] = []"
| "ladder_from p (step # steps) =
     (let threshold = sat_i32 (lp_max_failed_attempts p + int step);
          duration = lock_duration_secs_for p threshold
      in (threshold, duration) #
           (if duration \<ge> lp_max_lock_duration_secs p then [] else ladder_from p steps))"

definition escalation_ladder :: "lockout_policy \<Rightarrow> (int \<times> nat) list" where
  "escalation_ladder p = rev (ladder_from p [0..<Suc escalation_steps])"

section \<open>The statements\<close>

text \<open>\<open>CASE WHEN n >= threshold THEN v ... END\<close>: the first branch that applies.\<close>

fun case_when :: "int \<Rightarrow> (int \<times> 'a) list \<Rightarrow> 'a option" where
  "case_when n [] = None"
| "case_when n ((threshold, v) # branches) = (if n \<ge> threshold then Some v else case_when n branches)"

fun bind_branches :: "instant \<Rightarrow> (int \<times> nat) list \<Rightarrow> (int \<times> instant) list option" where
  "bind_branches now [] = Some []"
| "bind_branches now ((threshold, d) # rest) =
     (case after_secs now d of
        None \<Rightarrow> None
      | Some until \<Rightarrow> map_option (\<lambda>bs. (threshold, until) # bs) (bind_branches now rest))"

text \<open>\<open>failed_login_count\<close> is an \<open>INT\<close> column: a count past its range is refused by the database.\<close>

definition record_login_failure ::
  "uuid \<Rightarrow> lockout_policy \<Rightarrow> instant \<Rightarrow> user list \<Rightarrow> (domain_error + login_failure_record \<times> user list) option" where
  "record_login_failure uid p now rows =
     (case bind_branches now (escalation_ladder p) of
        None \<Rightarrow> None
      | Some branches \<Rightarrow>
          if list_ex (\<lambda>u. u_id u = uid \<and> u_failed_login_count u + 1 > i32_max) rows
          then Some (Inl (Repository ''out of range value for column failed_login_count''))
          else let rows' = map (\<lambda>u. if u_id u = uid
                   then u\<lparr>u_locked_until := (case case_when (u_failed_login_count u + 1) branches of
                                                   Some until \<Rightarrow> Some until | None \<Rightarrow> u_locked_until u),
                          u_failed_login_count := u_failed_login_count u + 1\<rparr>
                   else u) rows
               in Some (Inr (case find (\<lambda>u. u_id u = uid) rows' of
                   None \<Rightarrow> \<lparr>lf_failed_login_count = 0, lf_locked_until = None\<rparr>
                 | Some u \<Rightarrow> \<lparr>lf_failed_login_count = u_failed_login_count u,
                              lf_locked_until = (case u_locked_until u of
                                 Some until \<Rightarrow> if until > now then Some until else None | None \<Rightarrow> None)\<rparr>, rows')))"

definition update_login_state :: "uuid \<Rightarrow> int \<Rightarrow> instant option \<Rightarrow> user list \<Rightarrow> user list" where
  "update_login_state uid failed_login_count locked_until rows =
     map (\<lambda>u. if u_id u = uid then u\<lparr>u_failed_login_count := failed_login_count, u_locked_until := locked_until\<rparr> else u) rows"

section \<open>The length of a lock\<close>

definition i32_range :: "int \<Rightarrow> bool" where
  "i32_range x \<longleftrightarrow> - 2147483648 \<le> x \<and> x \<le> i32_max"

definition u64_policy :: "lockout_policy \<Rightarrow> bool" where
  "u64_policy p \<longleftrightarrow> i32_range (lp_max_failed_attempts p) \<and> lp_lock_duration_secs p \<le> u64_max \<and> lp_max_lock_duration_secs p \<le> u64_max"

definition steps_over :: "lockout_policy \<Rightarrow> int \<Rightarrow> nat" where
  "steps_over p n = min (nat (n - lp_max_failed_attempts p)) escalation_steps"

lemma lock_duration_steps:
  "lock_duration_secs_for p n =
     max (min (min u64_max (lp_lock_duration_secs p * 2 ^ steps_over p n)) (lp_max_lock_duration_secs p)) (lp_lock_duration_secs p)"
proof -
  have "min (nat (max 0 (sat_i32 (n - lp_max_failed_attempts p)))) escalation_steps = steps_over p n"
    by (auto simp: steps_over_def sat_i32_def i32_max_def escalation_steps_def min_def max_def nat_le_iff)
  then show ?thesis
    by (simp add: lock_duration_secs_for_def Let_def)
qed

lemma lock_duration_bounds:
  "lp_lock_duration_secs p \<le> lock_duration_secs_for p n"
  "lock_duration_secs_for p n \<le> max (lp_lock_duration_secs p) (lp_max_lock_duration_secs p)"
  by (auto simp: lock_duration_steps)

lemma steps_over_mono: "n \<le> m \<Longrightarrow> steps_over p n \<le> steps_over p m"
  by (auto simp: steps_over_def min_def)

lemma lock_duration_mono: "n \<le> m \<Longrightarrow> lock_duration_secs_for p n \<le> lock_duration_secs_for p m"
  unfolding lock_duration_steps
  by (intro max.mono min.mono mult_left_mono power_increasing steps_over_mono) auto

lemma lock_duration_capped:
  assumes "n \<le> m" "lock_duration_secs_for p n \<ge> lp_max_lock_duration_secs p"
  shows "lock_duration_secs_for p m = lock_duration_secs_for p n"
  using lock_duration_mono [OF assms(1), of p] lock_duration_bounds [of p n] lock_duration_bounds [of p m] assms(2)
  by linarith

lemma steps_over_top: "n \<ge> lp_max_failed_attempts p + int escalation_steps \<Longrightarrow> steps_over p n = escalation_steps"
  by (auto simp: steps_over_def min_def)

section \<open>The ladder agrees with the formula\<close>

lemma case_when_append:
  "case_when n (xs @ ys) = (case case_when n xs of Some v \<Rightarrow> Some v | None \<Rightarrow> case_when n ys)"
  by (induction xs rule: case_when.induct [of _ n]) auto

definition threshold_at :: "lockout_policy \<Rightarrow> nat \<Rightarrow> int" where
  "threshold_at p k = sat_i32 (lp_max_failed_attempts p + int k)"

lemma threshold_mono: "threshold_at p k \<le> threshold_at p (Suc k)" "threshold_at p (Suc k) \<le> threshold_at p k + 1"
  by (auto simp: threshold_at_def sat_i32_def)

lemma threshold_top_duration:
  assumes "i32_range (lp_max_failed_attempts p)" "i32_range n" "threshold_at p escalation_steps \<le> n"
  shows "lock_duration_secs_for p n = lock_duration_secs_for p (threshold_at p escalation_steps)"
proof (cases "lp_max_failed_attempts p + int escalation_steps \<le> i32_max")
  case True
  then have "threshold_at p escalation_steps = lp_max_failed_attempts p + int escalation_steps"
    using assms(1) by (auto simp: threshold_at_def sat_i32_def i32_range_def)
  then show ?thesis
    using assms(3) by (simp add: lock_duration_steps steps_over_top)
next
  case False
  then have "threshold_at p escalation_steps = i32_max"
    by (auto simp: threshold_at_def sat_i32_def i32_max_def)
  then show ?thesis
    using assms by (auto simp: i32_range_def)
qed

lemma ladder_from_thresholds:
  assumes "i32_range (lp_max_failed_attempts p)" "i32_range n" "k \<le> escalation_steps"
  shows "case_when n (rev (ladder_from p [k..<Suc escalation_steps])) =
    (if n \<ge> threshold_at p k then Some (lock_duration_secs_for p n) else None)"
  using assms(3)
proof (induction "escalation_steps - k" arbitrary: k)
  case 0
  then have k: "k = escalation_steps" by simp
  show ?case
    using threshold_top_duration [OF assms(1,2)] by (auto simp: k threshold_at_def [symmetric] Let_def)
next
  case (Suc m)
  then have up: "[k..<Suc escalation_steps] = k # [Suc k..<Suc escalation_steps]"
    and IH: "case_when n (rev (ladder_from p [Suc k..<Suc escalation_steps])) =
      (if n \<ge> threshold_at p (Suc k) then Some (lock_duration_secs_for p n) else None)"
    using Suc.hyps(1) [of "Suc k"] Suc.hyps(2) by (simp_all add: upt_conv_Cons del: upt_Suc ladder_from.simps)
  show ?case
  proof (cases "lp_max_lock_duration_secs p \<le> lock_duration_secs_for p (threshold_at p k)")
    case True
    then show ?thesis
      by (auto simp: up Let_def threshold_at_def [symmetric] lock_duration_capped simp del: upt_Suc)
  next
    case False
    moreover have "n = threshold_at p k" if "n \<ge> threshold_at p k" "\<not> n \<ge> threshold_at p (Suc k)"
      using that threshold_mono [of p k] by linarith
    ultimately show ?thesis
      using threshold_mono(1) [of p k]
      by (auto simp: up Let_def threshold_at_def [symmetric] case_when_append IH simp del: upt_Suc)
  qed
qed

text \<open>(C30) The SQL that locks an account agrees with the domain formula: for every \<open>i32\<close> threshold and
  failure count and all \<open>u64\<close> durations, the \<open>CASE\<close> over \<open>escalation_ladder\<close> selects no branch below the
  threshold, and from the threshold on the duration that \<open>lock_duration_secs_for\<close> computes for this count;
  that duration is never shorter than the first one, never longer than the larger configured one, and does
  not decrease with further failures.\<close>

theorem escalation_ladder_equiv:
  assumes "u64_policy p" "i32_range n"
  shows "case_when n (escalation_ladder p) =
      (if n \<ge> lp_max_failed_attempts p then Some (lock_duration_secs_for p n) else None)
    \<and> lp_lock_duration_secs p \<le> lock_duration_secs_for p n
    \<and> lock_duration_secs_for p n \<le> max (lp_lock_duration_secs p) (lp_max_lock_duration_secs p)
    \<and> (\<forall>m. n \<le> m \<longrightarrow> lock_duration_secs_for p n \<le> lock_duration_secs_for p m)"
proof -
  have r: "i32_range (lp_max_failed_attempts p)"
    using assms by (simp add: u64_policy_def)
  then have "threshold_at p 0 = lp_max_failed_attempts p"
    by (auto simp: threshold_at_def sat_i32_def i32_range_def)
  then show ?thesis
    using ladder_from_thresholds [OF r assms(2), of 0] lock_duration_bounds lock_duration_mono
    by (simp add: escalation_ladder_def)
qed

definition default_lockout :: lockout_policy where
  "default_lockout = \<lparr>lp_max_failed_attempts = 10, lp_lock_duration_secs = 900, lp_max_lock_duration_secs = 86400\<rparr>"

theorem escalation_ladder_equiv_witness:
  "u64_policy default_lockout \<and> i32_range 13 \<and> case_when 13 (escalation_ladder default_lockout) = Some 7200"
proof -
  have p: "u64_policy default_lockout" "i32_range 13"
    by (simp_all add: u64_policy_def i32_range_def default_lockout_def u64_max_def i32_max_def)
  have "lock_duration_secs_for default_lockout 13 = 7200" "13 \<ge> lp_max_failed_attempts default_lockout"
    by (simp_all add: lock_duration_steps steps_over_def default_lockout_def escalation_steps_def u64_max_def)
  with escalation_ladder_equiv [OF p] p show ?thesis by simp
qed

section \<open>Recording failures\<close>

lemma u64_as_i64_small: "d < 2 ^ 63 \<Longrightarrow> u64_as_i64 (of_nat d) = int d"
  by (simp add: u64_as_i64_def sint_uint unsigned_of_nat take_bit_nat_eq_self signed_take_bit_int_eq_self)

definition sane_durations :: "lockout_policy \<Rightarrow> bool" where
  "sane_durations p \<longleftrightarrow> i32_range (lp_max_failed_attempts p)
     \<and> int (lp_lock_duration_secs p) \<le> max_duration_secs \<and> int (lp_max_lock_duration_secs p) \<le> max_duration_secs"

lemma after_secs_sane: "int d \<le> max_duration_secs \<Longrightarrow> after_secs now d = Some (now + secs (int d))"
  by (simp add: after_secs_def u64_as_i64_small max_duration_secs_def duration_seconds_def secs_def)

lemma lock_duration_sane: "sane_durations p \<Longrightarrow> int (lock_duration_secs_for p n) \<le> max_duration_secs"
  using lock_duration_bounds(2) [of p n] by (auto simp: sane_durations_def)

lemma ladder_durations: "(th, d) \<in> set (ladder_from p ks) \<Longrightarrow> \<exists>n. d = lock_duration_secs_for p n"
  by (induction p ks rule: ladder_from.induct) (auto simp: Let_def split: if_splits)

lemma bind_branches_sane:
  "\<forall>(th, d) \<in> set bs. int d \<le> max_duration_secs \<Longrightarrow>
   bind_branches now bs = Some (map (\<lambda>(th, d). (th, now + secs (int d))) bs)"
  by (induction now bs rule: bind_branches.induct) (auto simp: after_secs_sane)

lemma case_when_map: "case_when n (map (\<lambda>(th, d). (th, f d)) bs) = map_option f (case_when n bs)"
  by (induction n bs rule: case_when.induct) auto

text \<open>The row after a recorded failure, by the domain's rule.\<close>

definition after_failure :: "lockout_policy \<Rightarrow> instant \<Rightarrow> user \<Rightarrow> user" where
  "after_failure p now u =
     (let n = u_failed_login_count u + 1
      in u\<lparr>u_failed_login_count := n,
           u_locked_until := (case locked_until_after_failure p n now of Some (Some until) \<Rightarrow> Some until | _ \<Rightarrow> u_locked_until u)\<rparr>)"

lemma sane_u64: "sane_durations p \<Longrightarrow> u64_policy p"
  by (auto simp: sane_durations_def u64_policy_def max_duration_secs_def u64_max_def)

lemma ladder_case:
  assumes "sane_durations p"
  obtains bs where "bind_branches now (escalation_ladder p) = Some bs"
    "\<And>n. i32_range n \<Longrightarrow> case_when n bs =
       (if n \<ge> lp_max_failed_attempts p then Some (now + secs (int (lock_duration_secs_for p n))) else None)"
proof -
  have "\<forall>(th, d) \<in> set (escalation_ladder p). int d \<le> max_duration_secs"
    using lock_duration_sane [OF assms(1)] ladder_durations by (fastforce simp: escalation_ladder_def)
  from bind_branches_sane [OF this] show ?thesis
    by (rule that) (use ladder_from_thresholds [of p _ 0] assms in
        \<open>auto simp: case_when_map escalation_ladder_def sane_durations_def threshold_at_def sat_i32_def i32_range_def\<close>)
qed

lemma locked_until_sane:
  "sane_durations p \<Longrightarrow> locked_until_after_failure p n now =
     Some (if n \<ge> lp_max_failed_attempts p then Some (now + secs (int (lock_duration_secs_for p n))) else None)"
  by (simp add: locked_until_after_failure_def after_secs_sane lock_duration_sane)

definition countable_failures :: "uuid \<Rightarrow> user list \<Rightarrow> nat \<Rightarrow> bool" where
  "countable_failures uid rows k \<longleftrightarrow>
     (\<forall>u \<in> set rows. u_id u = uid \<longrightarrow> 0 \<le> u_failed_login_count u \<and> u_failed_login_count u + int k \<le> i32_max)"

lemma record_login_failure_eq:
  assumes p: "sane_durations p" and c: "countable_failures uid rows (Suc k)"
  shows "\<exists>r. record_login_failure uid p now rows =
      Some (Inr (r, map (\<lambda>u. if u_id u = uid then after_failure p now u else u) rows))"
proof -
  obtain bs where b: "bind_branches now (escalation_ladder p) = Some bs"
    "\<And>n. i32_range n \<Longrightarrow> case_when n bs =
       (if n \<ge> lp_max_failed_attempts p then Some (now + secs (int (lock_duration_secs_for p n))) else None)"
    using ladder_case [OF p] by blast
  have r: "\<not> list_ex (\<lambda>u. u_id u = uid \<and> u_failed_login_count u + 1 > i32_max) rows"
    using c by (force simp: countable_failures_def list_ex_iff)
  have "u\<lparr>u_locked_until := (case case_when (u_failed_login_count u + 1) bs of
            Some until \<Rightarrow> Some until | None \<Rightarrow> u_locked_until u),
          u_failed_login_count := u_failed_login_count u + 1\<rparr> = after_failure p now u"
    if "u \<in> set rows" "u_id u = uid" for u
  proof -
    have "i32_range (u_failed_login_count u + 1)"
      using that c by (auto simp: countable_failures_def i32_range_def)
    then show ?thesis
      by (simp add: b(2) after_failure_def locked_until_sane [OF p] Let_def)
  qed
  then have m: "map (\<lambda>u. if u_id u = uid then u\<lparr>u_locked_until := (case case_when (u_failed_login_count u + 1) bs of
            Some until \<Rightarrow> Some until | None \<Rightarrow> u_locked_until u),
          u_failed_login_count := u_failed_login_count u + 1\<rparr> else u) rows =
      map (\<lambda>u. if u_id u = uid then after_failure p now u else u) rows"
    by (intro map_cong) auto
  show ?thesis
    unfolding record_login_failure_def b(1) using r by (simp add: m Let_def)
qed

text \<open>A run of failed logins, each one a statement of its own.\<close>

fun record_failures :: "uuid \<Rightarrow> lockout_policy \<Rightarrow> instant list \<Rightarrow> user list \<Rightarrow> user list option" where
  "record_failures uid p [] rows = Some rows"
| "record_failures uid p (now # ts) rows =
     (case record_login_failure uid p now rows of
        Some (Inr (_, rows')) \<Rightarrow> record_failures uid p ts rows'
      | _ \<Rightarrow> None)"

lemma after_failure_fields [simp]:
  "u_id (after_failure p now u) = u_id u"
  "u_failed_login_count (after_failure p now u) = u_failed_login_count u + 1"
  by (simp_all add: after_failure_def Let_def)

lemma after_failure_locked:
  "sane_durations p \<Longrightarrow> u_failed_login_count u + 1 \<ge> lp_max_failed_attempts p \<Longrightarrow>
   u_locked_until (after_failure p now u) = Some (now + secs (int (lock_duration_secs_for p (u_failed_login_count u + 1))))"
  by (simp add: after_failure_def Let_def locked_until_sane)

lemma countable_failures_step:
  assumes "countable_failures uid rows (Suc k)"
  shows "countable_failures uid (map (\<lambda>u. if u_id u = uid then after_failure p now u else u) rows) k"
  unfolding countable_failures_def
proof (intro ballI impI)
  fix v
  assume "v \<in> set (map (\<lambda>u. if u_id u = uid then after_failure p now u else u) rows)" "u_id v = uid"
  then obtain u where u: "u \<in> set rows" "u_id u = uid" "v = after_failure p now u"
    by (auto split: if_splits)
  then have "0 \<le> u_failed_login_count u" "u_failed_login_count u + int (Suc k) \<le> i32_max"
    using assms by (auto simp: countable_failures_def)
  then show "0 \<le> u_failed_login_count v \<and> u_failed_login_count v + int k \<le> i32_max"
    by (simp add: u(3))
qed

lemma record_failures_eq:
  assumes "sane_durations p" "countable_failures uid rows (length ts)"
  shows "record_failures uid p ts rows = Some (map (\<lambda>u. if u_id u = uid then fold (after_failure p) ts u else u) rows)"
  using assms(2)
proof (induction ts arbitrary: rows)
  case (Cons now ts)
  have c: "countable_failures uid rows (Suc (length ts))"
    using Cons.prems by simp
  obtain r where "record_login_failure uid p now rows =
      Some (Inr (r, map (\<lambda>u. if u_id u = uid then after_failure p now u else u) rows))"
    using record_login_failure_eq [OF assms(1) c] by blast
  then show ?case
    using Cons.IH [OF countable_failures_step [OF c]] by (simp add: comp_def if_distrib cong: if_cong)
qed (simp add: map_idI)

lemma fold_failures_fields [simp]:
  "u_id (fold (after_failure p) ts u) = u_id u"
  "u_failed_login_count (fold (after_failure p) ts u) = u_failed_login_count u + int (length ts)"
  by (induction ts arbitrary: u) auto

text \<open>Repeated failures do lock the account, and never for good: every failed login is counted (the
  statement increments in place, so no failure is lost whatever other rows change), and once the count reaches
  the configured number of attempts the account is locked after each further failure, from the time of that
  failure for the escalated duration, which is positive and at most the larger configured duration.\<close>

theorem enough_failures_lock:
  assumes "sane_durations p" "0 < lp_lock_duration_secs p" "ts \<noteq> []"
    and "u \<in> set rows" "u_id u = uid" "countable_failures uid rows (length ts)"
    and "u_failed_login_count u + int (length ts) \<ge> lp_max_failed_attempts p"
  shows "\<exists>rows' u'. record_failures uid p ts rows = Some rows' \<and> u' \<in> set rows' \<and> u_id u' = uid
    \<and> u_failed_login_count u' = u_failed_login_count u + int (length ts)
    \<and> u_locked_until u' = Some (last ts + secs (int (lock_duration_secs_for p (u_failed_login_count u'))))
    \<and> is_locked_at u' (last ts)
    \<and> \<not> is_locked_at u' (last ts + secs (int (max (lp_lock_duration_secs p) (lp_max_lock_duration_secs p))))"
proof -
  let ?u' = "fold (after_failure p) ts u" and ?n = "u_failed_login_count u + int (length ts)"
  have l: "u_locked_until ?u' = Some (last ts + secs (int (lock_duration_secs_for p ?n)))"
    using assms(1,3,7) by (cases ts rule: rev_cases) (auto simp: after_failure_locked algebra_simps)
  have b: "0 < lock_duration_secs_for p ?n" "lock_duration_secs_for p ?n \<le> max (lp_lock_duration_secs p) (lp_max_lock_duration_secs p)"
    using lock_duration_bounds [of p ?n] assms(2) by auto
  have "is_locked_at ?u' (last ts)"
    "\<not> is_locked_at ?u' (last ts + secs (int (max (lp_lock_duration_secs p) (lp_max_lock_duration_secs p))))"
    using l b by (auto simp: is_locked_at_def secs_def nanos_per_sec_def)
  moreover have "?u' \<in> set (map (\<lambda>u. if u_id u = uid then fold (after_failure p) ts u else u) rows)"
    using assms(4,5) by force
  ultimately show ?thesis
    using record_failures_eq [OF assms(1,6)] l assms(5)
    by (intro exI [of _ "map (\<lambda>u. if u_id u = uid then fold (after_failure p) ts u else u) rows"] exI [of _ ?u']) simp
qed

definition locking_user :: user where
  "locking_user = \<lparr>u_id = 7, u_tenant_id = 1, u_sub = 8, u_email = ''a@b'', u_email_verified = True, u_preferred_username = None,
     u_name = None, u_language = None, u_theme = None, u_password_hash = ''h'', u_must_change_password = False,
     u_password_changed_at = None, u_status = UserActive, u_pending_setup = False, u_failed_login_count = 8,
     u_locked_until = None, u_created_at = 0, u_updated_at = 0\<rparr>"

theorem enough_failures_lock_witness:
  "\<exists>rows'. record_failures 7 default_lockout [secs 1, secs 5] [locking_user] = Some rows'
     \<and> (\<exists>u' \<in> set rows'. u_locked_until u' = Some (secs 905))"
proof -
  have "lock_duration_secs_for default_lockout 10 = 900"
    by (simp add: lock_duration_steps steps_over_def default_lockout_def escalation_steps_def u64_max_def)
  moreover have "\<exists>rows' u'. record_failures 7 default_lockout [secs 1, secs 5] [locking_user] = Some rows' \<and> u' \<in> set rows'
    \<and> u_failed_login_count u' = 10 \<and> u_locked_until u' = Some (secs 5 + secs (int (lock_duration_secs_for default_lockout (u_failed_login_count u'))))"
    using enough_failures_lock [of default_lockout "[secs 1, secs 5]" locking_user "[locking_user]" 7]
    by (auto simp: default_lockout_def locking_user_def sane_durations_def countable_failures_def i32_range_def i32_max_def max_duration_secs_def)
  ultimately show ?thesis
    by (force simp: secs_def)
qed

end
