(* ===== verification/Signing_Keys.thy ===== *)
theory Signing_Keys
  imports Store
begin

text \<open>
  Signing keys: the entity and the choice of the current signer (\<open>domain/signing_key.rs\<close>), the table
  (\<open>infrastructure/repositories/signing_key.rs\<close>) and \<open>KeyService\<close> (\<open>application/key_service.rs\<close>): bootstrap,
  rotation with a published successor, and the administrative operations.

  The state of the actions is the table \<open>signing_keys\<close>.  Key generation, encryption of private keys
  and date formatting are fields of \<open>key_env\<close>, as are the readings of the clock: \<open>ke_now\<close> is the reading an operation makes
  itself, \<open>ke_now_material\<close> the later one inside \<open>new_key_material\<close>, after the key pair has been generated.
  \<open>ORDER BY created_at DESC\<close> and \<open>ORDER BY not_before DESC LIMIT 1\<close> are stable sorts here: the database leaves
  the order of ties open, which no theorem relies on.
\<close>

section \<open>The entity\<close>

record signing_key_row =
  sr_kid :: string
  sr_algorithm :: string
  sr_public_key :: string
  sr_private_key_encrypted :: string
  sr_status :: signing_key_status
  sr_not_before :: instant
  sr_not_after :: instant
  sr_created_at :: instant
  sr_updated_at :: instant

definition is_usable_for_signing_at :: "signing_key_row \<Rightarrow> instant \<Rightarrow> bool" where
  "is_usable_for_signing_at k now \<longleftrightarrow> sr_status k = KeyActive \<and> sr_not_before k \<le> now \<and> now < sr_not_after k"

definition is_pending_at :: "signing_key_row \<Rightarrow> instant \<Rightarrow> bool" where
  "is_pending_at k now \<longleftrightarrow> sr_status k = KeyActive \<and> now < sr_not_before k"

text \<open>\<open>Iterator::max_by_key\<close>: the last of the greatest elements.\<close>

fun max_by_key :: "('a \<Rightarrow> int) \<Rightarrow> 'a list \<Rightarrow> 'a option" where
  "max_by_key f [] = None"
| "max_by_key f (x # xs) =
     (case max_by_key f xs of None \<Rightarrow> Some x | Some m \<Rightarrow> if f m \<ge> f x then Some m else Some x)"

definition current_signer_at :: "signing_key_row list \<Rightarrow> instant \<Rightarrow> signing_key_row option" where
  "current_signer_at keys now = max_by_key sr_not_before (filter (\<lambda>k. is_usable_for_signing_at k now) keys)"

section \<open>The environment\<close>

record key_env =
  ke_now :: instant
  ke_now_material :: instant
  ke_db_now :: instant
  ke_ci :: "string \<Rightarrow> string"
  ke_fault :: "string \<Rightarrow> string option"
  ke_lock_acquired :: bool
  ke_generate_keypair :: "signing_algorithm \<Rightarrow> string + string \<times> string"
  ke_format_date :: "instant \<Rightarrow> string"
  ke_random_token :: string
  ke_encrypt :: "string \<Rightarrow> string + string"
  ke_decrypt :: "string \<Rightarrow> string + string"
  ke_public_jwk :: "string \<Rightarrow> string \<Rightarrow> string \<Rightarrow> string + string"

type_synonym key_table = "signing_key_row list"

definition key_call :: "key_env \<Rightarrow> string \<Rightarrow> (key_table, domain_error, 'a) action \<Rightarrow> (key_table, domain_error, 'a) action" where
  "key_call env op m = (case ke_fault env op of Some msg \<Rightarrow> failE (Repository msg) | None \<Rightarrow> m)"

section \<open>The table\<close>

definition key_insert :: "key_env \<Rightarrow> signing_key_row \<Rightarrow> (key_table, domain_error, unit) action" where
  "key_insert env k = key_call env ''insert'' (\<lambda>rows.
     if list_ex (\<lambda>r. ke_ci env (sr_kid r) = ke_ci env (sr_kid k)) rows then (Inl (Repository ''duplicate entry''), rows)
     else (Inr (), rows @ [k\<lparr>sr_created_at := ke_db_now env, sr_updated_at := ke_db_now env\<rparr>]))"

text \<open>The advisory lock serialises check and insertion; both are one step.\<close>

definition insert_if_no_active :: "key_env \<Rightarrow> signing_key_row \<Rightarrow> (key_table, domain_error, bool) action" where
  "insert_if_no_active env k =
     (if \<not> ke_lock_acquired env then failE (Repository ''failed to acquire signing key bootstrap lock'')
      else bindE (getsE (\<lambda>rows. list_ex (\<lambda>r. is_usable_for_signing_at r (ke_db_now env)) rows)) (\<lambda>active.
        if active then retE False else bindE (key_insert env k) (\<lambda>_. retE True)))"

definition key_find_active :: "key_env \<Rightarrow> (key_table, domain_error, signing_key_row option) action" where
  "key_find_active env = key_call env ''find_active'' (getsE (\<lambda>rows.
     case sort_key (\<lambda>k. - sr_not_before k) (filter (\<lambda>k. is_usable_for_signing_at k (ke_db_now env)) rows) of
       [] \<Rightarrow> None | k # _ \<Rightarrow> Some k))"

definition list_published :: "key_env \<Rightarrow> (key_table, domain_error, signing_key_row list) action" where
  "list_published env = key_call env ''list_published'' (getsE (\<lambda>rows.
     sort_key (\<lambda>k. - sr_created_at k) (filter (\<lambda>k. (sr_status k = KeyActive \<or> sr_status k = KeyRetired) \<and> sr_not_after k > ke_db_now env) rows)))"

definition key_find_by_kid :: "key_env \<Rightarrow> string \<Rightarrow> (key_table, domain_error, signing_key_row option) action" where
  "key_find_by_kid env kid = key_call env ''find_by_kid'' (getsE (find (\<lambda>r. ke_ci env (sr_kid r) = ke_ci env kid)))"

definition list_all_keys :: "key_env \<Rightarrow> (key_table, domain_error, signing_key_row list) action" where
  "list_all_keys env = key_call env ''list_all'' (getsE (sort_key (\<lambda>k. - sr_created_at k)))"

definition update_status :: "key_env \<Rightarrow> string \<Rightarrow> signing_key_status \<Rightarrow> (key_table, domain_error, unit) action" where
  "update_status env kid st = key_call env ''update_status'' (\<lambda>rows.
     if list_ex (\<lambda>r. ke_ci env (sr_kid r) = ke_ci env kid) rows
     then (Inr (), map (\<lambda>r. if ke_ci env (sr_kid r) = ke_ci env kid then r\<lparr>sr_status := st, sr_updated_at := ke_db_now env\<rparr> else r) rows)
     else (Inl NotFound, rows))"

definition key_delete :: "key_env \<Rightarrow> string \<Rightarrow> (key_table, domain_error, unit) action" where
  "key_delete env kid = key_call env ''delete'' (modifyE (filter (\<lambda>r. ke_ci env (sr_kid r) \<noteq> ke_ci env kid)))"

section \<open>The service\<close>

definition key_validity :: duration where
  "key_validity = secs (365 * 86400)"

record active_key_material =
  ak_kid :: string
  ak_algorithm :: string
  ak_private_pem :: string

text \<open>Errors of the internal operations (\<open>anyhow\<close>) keep the failed step and its cause, not yet rendered as text.\<close>

datatype key_error = KeyStep string domain_error | KeyOther string

datatype key_management_error = KeyNotFound string | KeyValidation message_key | KeyInternal key_error

definition key_internal :: "domain_error \<Rightarrow> key_management_error" where
  "key_internal e = KeyInternal (KeyStep [] e)"

definition step :: "string \<Rightarrow> (key_table, domain_error, 'a) action \<Rightarrow> (key_table, key_error, 'a) action" where
  "step what m = mapErrE (KeyStep what) m"

fun alg_tag :: "signing_algorithm \<Rightarrow> string" where
  "alg_tag Rs256 = ''rs''"
| "alg_tag Es256 = ''es''"

definition new_key_material :: "key_env \<Rightarrow> signing_algorithm \<Rightarrow> duration \<Rightarrow> key_error + signing_key_row" where
  "new_key_material env algorithm publish_lead =
     rbind (map_err KeyOther (ke_generate_keypair env algorithm)) (\<lambda>(private_pem, public_pem).
     let now = ke_now_material env;
         not_before = now + max publish_lead 0;
         kid = ke_format_date env now @ ''-'' @ alg_tag algorithm @ ''-'' @ ke_random_token env in
     rbind (map_err KeyOther (ke_encrypt env private_pem)) (\<lambda>private_key_encrypted.
     Inr \<lparr>sr_kid = kid, sr_algorithm = enum_as_str signing_algorithm_table algorithm, sr_public_key = public_pem,
          sr_private_key_encrypted = private_key_encrypted, sr_status = KeyActive, sr_not_before = not_before,
          sr_not_after = not_before + key_validity, sr_created_at = now, sr_updated_at = now\<rparr>))"

definition generate_key_internal :: "key_env \<Rightarrow> signing_algorithm \<Rightarrow> duration \<Rightarrow> (key_table, key_error, signing_key_row) action" where
  "generate_key_internal env algorithm publish_lead =
     bindE (liftR (new_key_material env algorithm publish_lead)) (\<lambda>key.
     bindE (step ''insert signing key'' (key_insert env key)) (\<lambda>_.
     retE key))"

text \<open>The algorithm a bootstrapped key continues with: that of the most recently created key.\<close>

definition inherited_algorithm :: "signing_key_row list \<Rightarrow> signing_algorithm" where
  "inherited_algorithm keys =
     (case keys of [] \<Rightarrow> Rs256
      | k # _ \<Rightarrow> (case enum_parse ''SigningAlgorithm'' signing_algorithm_table (sr_algorithm k) of Inr a \<Rightarrow> a | Inl _ \<Rightarrow> Rs256))"

definition ensure_active_key :: "key_env \<Rightarrow> (key_table, key_error, unit) action" where
  "ensure_active_key env =
     bindE (step ''list signing keys'' (list_all_keys env)) (\<lambda>keys.
     if current_signer_at keys (ke_now env) \<noteq> None then retE ()
     else bindE (liftR (new_key_material env (inherited_algorithm keys) 0)) (\<lambda>key.
          bindE (step ''bootstrap signing key'' (insert_if_no_active env key)) (\<lambda>_.
          retE ())))"

definition active_signing_key :: "key_env \<Rightarrow> (key_table, key_error, active_key_material) action" where
  "active_signing_key env =
     bindE (step ''find active key'' (key_find_active env)) (\<lambda>found.
     bindE (liftR (ok_or (KeyOther ''no active signing key'') found)) (\<lambda>key.
     bindE (liftR (map_err KeyOther (ke_decrypt env (sr_private_key_encrypted key)))) (\<lambda>private_pem.
     retE \<lparr>ak_kid = sr_kid key, ak_algorithm = sr_algorithm key, ak_private_pem = private_pem\<rparr>)))"

definition signing_kid :: "key_env \<Rightarrow> (key_table, key_error, string option) action" where
  "signing_kid env = bindE (step ''find active key'' (key_find_active env)) (\<lambda>found. retE (map_option sr_kid found))"

definition jwks :: "key_env \<Rightarrow> (key_table, key_error, string list) action" where
  "jwks env =
     bindE (step ''list published keys'' (list_published env)) (\<lambda>keys.
     liftR (map_err KeyOther (collect_results (\<lambda>k. ke_public_jwk env (sr_kid k) (sr_algorithm k) (sr_public_key k)) keys)))"

fun retire_all :: "key_env \<Rightarrow> string list \<Rightarrow> (key_table, key_error, unit) action" where
  "retire_all env [] = retE ()"
| "retire_all env (kid # kids) =
     bindE (step ''retire superseded key'' (update_status env kid KeyRetired)) (\<lambda>_. retire_all env kids)"

definition rotate_if_needed :: "key_env \<Rightarrow> nat \<Rightarrow> nat \<Rightarrow> (key_table, key_error, unit) action" where
  "rotate_if_needed env lead_days publish_lead_hours =
     (let now = ke_now env in
      bindE (step ''list signing keys'' (list_all_keys env)) (\<lambda>keys.
      case current_signer_at keys now of
        None \<Rightarrow> bindE (generate_key_internal env (inherited_algorithm keys) 0) (\<lambda>_. retE ())
      | Some active \<Rightarrow>
          bindE (retire_all env (map sr_kid (filter (\<lambda>k. sr_status k = KeyActive \<and> sr_kid k \<noteq> sr_kid active \<and> sr_not_before k \<le> now) keys))) (\<lambda>_.
          if find (\<lambda>k. is_pending_at k now) keys \<noteq> None then retE ()
          else if sr_not_after active - now > secs (86400 * int lead_days) then retE ()
          else let signs_from = min (now + secs (3600 * int publish_lead_hours)) (sr_not_after active) in
            bindE (liftR (map_err (KeyStep ''unknown algorithm on active key'')
                     (enum_parse ''SigningAlgorithm'' signing_algorithm_table (sr_algorithm active)))) (\<lambda>algorithm.
            bindE (generate_key_internal env algorithm (signs_from - now)) (\<lambda>_.
            retE ())))))"

definition list_keys :: "key_env \<Rightarrow> (key_table, key_management_error, signing_key_row list) action" where
  "list_keys env = mapErrE key_internal (list_all_keys env)"

definition capped_publish_lead :: "key_env \<Rightarrow> duration \<Rightarrow> (key_table, key_error, duration) action" where
  "capped_publish_lead env publish_lead =
     (if publish_lead \<le> 0 then retE 0
      else bindE (step ''list signing keys'' (list_all_keys env)) (\<lambda>keys.
        case current_signer_at keys (ke_now env) of
          None \<Rightarrow> retE 0
        | Some active \<Rightarrow> retE (min publish_lead (sr_not_after active - ke_now env))))"

definition generate_key :: "key_env \<Rightarrow> signing_algorithm \<Rightarrow> duration \<Rightarrow> (key_table, key_management_error, signing_key_row) action" where
  "generate_key env algorithm publish_lead =
     bindE (mapErrE KeyInternal (capped_publish_lead env publish_lead)) (\<lambda>lead.
     mapErrE KeyInternal (generate_key_internal env algorithm lead))"

definition retire_key :: "key_env \<Rightarrow> string \<Rightarrow> (key_table, key_management_error, unit) action" where
  "retire_key env kid =
     bindE (mapErrE key_internal (list_all_keys env)) (\<lambda>keys.
     bindE (liftR (ok_or (KeyNotFound kid) (find (\<lambda>k. sr_kid k = kid) keys))) (\<lambda>key.
     bindE (guardE (sr_status key \<noteq> KeyRetired) (KeyValidation (message_new ''api-signing-key-retire-failed''))) (\<lambda>_.
     bindE (guardE (list_ex (\<lambda>other. sr_kid other \<noteq> kid \<and> is_usable_for_signing_at other (ke_now env)) keys)
              (KeyValidation (message_new ''api-signing-key-retire-last-active''))) (\<lambda>_.
     mapErrE (\<lambda>e. case e of NotFound \<Rightarrow> KeyNotFound kid | other \<Rightarrow> key_internal other) (update_status env kid KeyRetired)))))"

definition delete_key :: "key_env \<Rightarrow> string \<Rightarrow> (key_table, key_management_error, unit) action" where
  "delete_key env kid =
     bindE (mapErrE key_internal (key_find_by_kid env kid)) (\<lambda>found.
     bindE (liftR (ok_or (KeyNotFound kid) found)) (\<lambda>key.
     bindE (guardE (sr_status key \<noteq> KeyActive) (KeyValidation (message_new ''api-signing-key-delete-failed''))) (\<lambda>_.
     mapErrE key_internal (key_delete env kid))))"

section \<open>The current signer\<close>

lemma max_by_key_None [simp]: "max_by_key f xs = None \<longleftrightarrow> xs = []"
  by (cases xs) (auto split: option.splits)

lemma max_by_key_Some: "max_by_key f xs = Some m \<Longrightarrow> m \<in> set xs \<and> (\<forall>x \<in> set xs. f x \<le> f m)"
  by (induction f xs arbitrary: m rule: max_by_key.induct) (fastforce split: option.splits if_splits)+

lemma current_signer_Some:
  "current_signer_at keys now = Some k \<Longrightarrow> k \<in> set keys \<and> is_usable_for_signing_at k now
     \<and> (\<forall>j \<in> set keys. is_usable_for_signing_at j now \<longrightarrow> sr_not_before j \<le> sr_not_before k)"
  by (auto simp: current_signer_at_def dest: max_by_key_Some)

lemma current_signer_None: "current_signer_at keys now = None \<longleftrightarrow> (\<forall>k \<in> set keys. \<not> is_usable_for_signing_at k now)"
  by (auto simp: current_signer_at_def filter_empty_conv)

lemma current_signer_unique:
  assumes "k \<in> set keys" "is_usable_for_signing_at k now"
    and "\<And>j. j \<in> set keys \<Longrightarrow> is_usable_for_signing_at j now \<Longrightarrow> j \<noteq> k \<Longrightarrow> sr_not_before j < sr_not_before k"
  shows "current_signer_at keys now = Some k"
proof (cases "current_signer_at keys now")
  case None
  then show ?thesis using assms by (auto simp: current_signer_None)
next
  case (Some m)
  then show ?thesis using current_signer_Some [OF Some] assms by fastforce
qed

lemma head_of_sort_key: "sort_key f xs = y # ys \<Longrightarrow> y \<in> set xs \<and> (\<forall>x \<in> set xs. f y \<le> f x)" for f :: "'a \<Rightarrow> int"
proof -
  assume a: "sort_key f xs = y # ys"
  have "sorted (map f (y # ys))" "set (y # ys) = set xs"
    using sorted_sort_key [of f xs] set_sort [of f xs] by (simp_all add: a)
  then show ?thesis by auto
qed

definition distinct_starts :: "instant \<Rightarrow> key_table \<Rightarrow> bool" where
  "distinct_starts now rows \<longleftrightarrow>
     (\<forall>k \<in> set rows. \<forall>j \<in> set rows. is_usable_for_signing_at k now \<and> is_usable_for_signing_at j now
        \<and> sr_not_before k = sr_not_before j \<longrightarrow> k = j)"

text \<open>The key that signs is the key the administration shows as signing: when the usable keys start at different
  times and database and service read the same clock, the SQL of \<open>find_active\<close> and the rule
  \<open>current_signer_at\<close> over \<open>list_all\<close> select the same key, none in the same cases.\<close>

theorem find_active_is_current_signer:
  assumes "ke_fault env ''find_active'' = None" "ke_fault env ''list_all'' = None" "distinct_starts (ke_db_now env) rows"
  shows "\<exists>keys. list_all_keys env rows = (Inr keys, rows) \<and>
    key_find_active env rows = (Inr (current_signer_at keys (ke_db_now env)), rows)"
proof -
  let ?keys = "sort_key (\<lambda>k. - sr_created_at k) rows" and ?us = "filter (\<lambda>k. is_usable_for_signing_at k (ke_db_now env)) rows"
  have "(case sort_key (\<lambda>k. - sr_not_before k) ?us of [] \<Rightarrow> None | k # _ \<Rightarrow> Some k) = current_signer_at ?keys (ke_db_now env)"
  proof (cases "sort_key (\<lambda>k. - sr_not_before k) ?us")
    case Nil
    then have "?us = []" by (metis length_0_conv length_sort)
    then show ?thesis by (simp add: Nil current_signer_None filter_empty_conv eq_commute [of None])
  next
    case (Cons k ks)
    from head_of_sort_key [OF this] have k: "k \<in> set rows" "is_usable_for_signing_at k (ke_db_now env)"
      and m: "\<And>j. j \<in> set rows \<Longrightarrow> is_usable_for_signing_at j (ke_db_now env) \<Longrightarrow> sr_not_before j \<le> sr_not_before k" by auto
    have "current_signer_at ?keys (ke_db_now env) = Some k"
    proof (rule current_signer_unique)
      fix j assume "j \<in> set ?keys" "is_usable_for_signing_at j (ke_db_now env)" "j \<noteq> k"
      then show "sr_not_before j < sr_not_before k"
        using m [of j] assms(3) k unfolding distinct_starts_def by (metis order_le_imp_less_or_eq set_sort)
    qed (use k in auto)
    then show ?thesis by (simp add: Cons)
  qed
  then show ?thesis
    using assms(1,2) by (simp add: list_all_keys_def key_find_active_def key_call_def getsE_def)
qed

end
