(* ===== verification/Key_Rotation.thy ===== *)
theory Key_Rotation
  imports Signing_Keys
begin

text \<open>
  Continuity of signing.  A table is \<open>chained\<close> at a time when every key that is published but not yet signing
  takes over no later than some key that signs now ends; this survives the passing of time and
  every operation but \<open>retire_key\<close>, which may remove the key a successor was chained to.  The life of a
  deployment is a sequence of runs of the rotation job, administrative operations and ticks of the clock; as long as the
  job has succeeded within its lead time, some key can sign.

  The readings of the clock inside one operation are taken as one (\<open>steady\<close>).  Without this the promise fails: the cap on
  the hand-over is computed before the key pair is generated and applied to a later reading.
\<close>

section \<open>The invariant\<close>

definition keys_inv :: "(string \<Rightarrow> string) \<Rightarrow> key_table \<Rightarrow> bool" where
  "keys_inv ci rows \<longleftrightarrow> distinct (map (\<lambda>k. ci (sr_kid k)) rows) \<and> (\<forall>k \<in> set rows. sr_not_after k = sr_not_before k + key_validity)"

definition chained :: "instant \<Rightarrow> key_table \<Rightarrow> bool" where
  "chained now rows \<longleftrightarrow> (\<forall>p \<in> set rows. is_pending_at p now \<longrightarrow>
     (\<exists>k \<in> set rows. is_usable_for_signing_at k now \<and> sr_not_before p \<le> sr_not_after k))"

definition covers :: "key_table \<Rightarrow> instant \<Rightarrow> instant \<Rightarrow> bool" where
  "covers rows a b \<longleftrightarrow> (\<forall>t. a \<le> t \<and> t < b \<longrightarrow> (\<exists>k \<in> set rows. is_usable_for_signing_at k t))"

definition steady :: "key_env \<Rightarrow> bool" where
  "steady env \<longleftrightarrow> ke_now_material env = ke_now env"

lemma key_validity_pos: "0 < key_validity"
  by (simp add: key_validity_def secs_def nanos_per_sec_def)

lemma chained_later:
  assumes "chained now rows" "now \<le> now'"
  shows "chained now' rows"
  unfolding chained_def
proof (intro ballI impI)
  fix p assume p: "p \<in> set rows" "is_pending_at p now'"
  then have "is_pending_at p now" using assms(2) by (simp add: is_pending_at_def)
  then obtain k where "k \<in> set rows" "is_usable_for_signing_at k now" "sr_not_before p \<le> sr_not_after k"
    using assms(1) p(1) by (auto simp: chained_def)
  moreover have "is_usable_for_signing_at k now'"
    using calculation p(2) assms(2) by (simp add: is_usable_for_signing_at_def is_pending_at_def)
  ultimately show "\<exists>k \<in> set rows. is_usable_for_signing_at k now' \<and> sr_not_before p \<le> sr_not_after k" by blast
qed

lemma covers_later: "covers rows a b \<Longrightarrow> a \<le> a' \<Longrightarrow> covers rows a' b"
  by (simp add: covers_def)

lemma covers_mono: "covers rows a b \<Longrightarrow> set rows \<subseteq> set rows' \<Longrightarrow> covers rows' a b"
  unfolding covers_def by blast

text \<open>Every successor is chained to the current signer, which lasts longest.\<close>

lemma chained_signer:
  assumes "keys_inv ci rows" "chained now rows" "current_signer_at keys now = Some a" "set keys = set rows"
    and "p \<in> set rows" "is_pending_at p now"
  shows "sr_not_before p \<le> sr_not_after a"
proof -
  note a = current_signer_Some [OF assms(3)]
  obtain k where k: "k \<in> set rows" "is_usable_for_signing_at k now" "sr_not_before p \<le> sr_not_after k"
    using assms(2,5,6) by (auto simp: chained_def)
  then have "sr_not_before k \<le> sr_not_before a" using a assms(4) by blast
  then show ?thesis using assms(1) k a assms(4) by (auto simp: keys_inv_def)
qed

section \<open>Retiring the superseded keys\<close>

definition retired :: "key_env \<Rightarrow> signing_key_row \<Rightarrow> signing_key_row" where
  "retired env r = r\<lparr>sr_status := KeyRetired, sr_updated_at := ke_db_now env\<rparr>"

lemma retired_fields [simp]:
  "sr_kid (retired env r) = sr_kid r" "sr_not_before (retired env r) = sr_not_before r"
  "sr_not_after (retired env r) = sr_not_after r" "sr_status (retired env r) = KeyRetired"
  "\<not> is_usable_for_signing_at (retired env r) t" "\<not> is_pending_at (retired env r) t"
  "retired env (retired env r) = retired env r"
  by (simp_all add: retired_def is_usable_for_signing_at_def is_pending_at_def)

definition retire_kids :: "key_env \<Rightarrow> string set \<Rightarrow> key_table \<Rightarrow> key_table" where
  "retire_kids env K rows = map (\<lambda>r. if ke_ci env (sr_kid r) \<in> ke_ci env ` K then retired env r else r) rows"

lemma update_status_state:
  "update_status env kid KeyRetired rows = (r, rows') \<Longrightarrow> rows' = rows \<or> rows' = retire_kids env {kid} rows"
  by (auto simp: update_status_def key_call_def failE_def retire_kids_def retired_def split: option.splits if_splits)

lemma retire_kids_empty [simp]: "retire_kids env {} rows = rows"
  by (simp add: retire_kids_def)

lemma retire_kids_union: "retire_kids env K (retire_kids env L rows) = retire_kids env (L \<union> K) rows"
  by (auto simp: retire_kids_def image_Un)

lemma retire_all_state: "retire_all env kids rows = (r, rows') \<Longrightarrow> \<exists>K \<subseteq> set kids. rows' = retire_kids env K rows"
proof (induction kids arbitrary: rows)
  case Nil
  then show ?case by (auto simp: retE_def intro: exI [of _ "{}"])
next
  case (Cons kid kids)
  obtain r1 rows1 where u: "update_status env kid KeyRetired rows = (r1, rows1)" by (cases "update_status env kid KeyRetired rows")
  then obtain L where L: "L \<subseteq> {kid}" "rows1 = retire_kids env L rows"
    using update_status_state [OF u] by (metis empty_subsetI order_refl retire_kids_empty)
  show ?case
  proof (cases r1)
    case (Inl e)
    then have "rows' = rows1" using Cons.prems u by (simp add: step_def bindE_def mapErrE_def)
    then show ?thesis using L by auto
  next
    case (Inr x)
    then have "retire_all env kids rows1 = (r, rows')" using Cons.prems u by (simp add: step_def bindE_def mapErrE_def)
    from Cons.IH [OF this] obtain K where "K \<subseteq> set kids" "rows' = retire_kids env K rows1" by blast
    then show ?thesis using L by (intro exI [of _ "L \<union> K"]) (auto simp: retire_kids_union)
  qed
qed

text \<open>With distinct identifiers only the intended rows are retired.\<close>

lemma retire_kids_spares:
  assumes "keys_inv (ke_ci env) rows" "K \<subseteq> sr_kid ` {k \<in> set rows. P k}" "r \<in> set rows" "\<not> P r"
  shows "r \<in> set (retire_kids env K rows)"
proof -
  have inj: "inj_on (\<lambda>k. ke_ci env (sr_kid k)) (set rows)"
    using assms(1) by (simp add: keys_inv_def distinct_map)
  have "ke_ci env (sr_kid r) \<notin> ke_ci env ` K"
  proof
    assume "ke_ci env (sr_kid r) \<in> ke_ci env ` K"
    then obtain k where "k \<in> set rows" "P k" "ke_ci env (sr_kid r) = ke_ci env (sr_kid k)" using assms(2) by auto
    then show False using inj_onD [OF inj, of r k] assms(3,4) by auto
  qed
  then show ?thesis using assms(3) by (force simp: retire_kids_def)
qed

lemma retire_kids_back: "r \<in> set (retire_kids env K rows) \<Longrightarrow> is_usable_for_signing_at r t \<or> is_pending_at r t \<Longrightarrow> r \<in> set rows"
  by (auto simp: retire_kids_def split: if_splits)

lemma retire_kids_inv: "keys_inv (ke_ci env) rows \<Longrightarrow> keys_inv (ke_ci env) (retire_kids env K rows)"
proof -
  assume a: "keys_inv (ke_ci env) rows"
  have "map (\<lambda>k. ke_ci env (sr_kid k)) (retire_kids env K rows) = map (\<lambda>k. ke_ci env (sr_kid k)) rows"
    by (auto simp: retire_kids_def)
  moreover have "\<forall>k \<in> set (retire_kids env K rows). sr_not_after k = sr_not_before k + key_validity"
    using a by (auto simp: keys_inv_def retire_kids_def)
  ultimately show ?thesis using a by (simp only: keys_inv_def)
qed

text \<open>Keys that sign now and keys that will sign survive; in particular the table stays chained.\<close>

definition keeps_signers :: "instant \<Rightarrow> key_table \<Rightarrow> key_table \<Rightarrow> bool" where
  "keeps_signers now rows rows' \<longleftrightarrow>
     (\<forall>k \<in> set rows'. is_pending_at k now \<longrightarrow> k \<in> set rows)
     \<and> (\<forall>p \<in> set rows. is_pending_at p now \<longrightarrow> p \<in> set rows')
     \<and> (\<forall>a. is_usable_for_signing_at a now \<and> a \<in> set rows \<longrightarrow>
          (\<exists>b \<in> set rows'. is_usable_for_signing_at b now \<and> sr_not_after a \<le> sr_not_after b))"

lemma keeps_signers_refl [simp]: "keeps_signers now rows rows"
  by (auto simp: keeps_signers_def)

lemma keeps_signers_chained: "keeps_signers now rows rows' \<Longrightarrow> chained now rows \<Longrightarrow> chained now rows'"
  unfolding keeps_signers_def chained_def by (meson order_trans)

lemma keeps_signers_covers:
  assumes "keeps_signers now rows rows'" "covers rows now b"
  shows "covers rows' now b"
  unfolding covers_def
proof (intro allI impI)
  fix t assume t: "now \<le> t \<and> t < b"
  then obtain k where k: "k \<in> set rows" "is_usable_for_signing_at k t" using assms(2) by (auto simp: covers_def)
  show "\<exists>k \<in> set rows'. is_usable_for_signing_at k t"
  proof (cases "is_pending_at k now")
    case True
    then show ?thesis using assms(1) k by (auto simp: keeps_signers_def)
  next
    case False
    then have "is_usable_for_signing_at k now" using k t by (auto simp: is_usable_for_signing_at_def is_pending_at_def)
    then obtain l where "l \<in> set rows'" "is_usable_for_signing_at l now" "sr_not_after k \<le> sr_not_after l"
      using assms(1) k(1) by (auto simp: keeps_signers_def)
    then show ?thesis using k(2) t by (auto simp: is_usable_for_signing_at_def)
  qed
qed

lemma retire_superseded_keeps:
  assumes inv: "keys_inv (ke_ci env) rows" and a: "current_signer_at keys now = Some a" "set keys = set rows"
    and K: "K \<subseteq> sr_kid ` {k \<in> set rows. sr_status k = KeyActive \<and> sr_kid k \<noteq> sr_kid a \<and> sr_not_before k \<le> now}"
  shows "keeps_signers now rows (retire_kids env K rows) \<and> a \<in> set (retire_kids env K rows)"
proof -
  note s = current_signer_Some [OF a(1)]
  note spare = retire_kids_spares [OF inv K]
  have A: "a \<in> set (retire_kids env K rows)" using spare [of a] s a(2) by blast
  have P: "p \<in> set (retire_kids env K rows)" if "p \<in> set rows" "is_pending_at p now" for p
    using spare [of p] that by (auto simp: is_pending_at_def)
  have "sr_not_after k \<le> sr_not_after a" if "k \<in> set rows" "is_usable_for_signing_at k now" for k
    using s that inv a(2) by (auto simp: keys_inv_def)
  then show ?thesis
    using A P s retire_kids_back [of _ env K rows now] unfolding keeps_signers_def by blast
qed

section \<open>Adding a key\<close>

definition new_key :: "key_env \<Rightarrow> duration \<Rightarrow> key_table \<Rightarrow> signing_key_row \<Rightarrow> bool" where
  "new_key env lead rows k \<longleftrightarrow>
     sr_status k = KeyActive \<and> sr_not_before k = ke_now_material env + max lead 0
     \<and> sr_not_after k = sr_not_before k + key_validity \<and> ke_ci env (sr_kid k) \<notin> (\<lambda>r. ke_ci env (sr_kid r)) ` set rows"

lemma key_insert_state:
  "key_insert env k rows = (r, rows') \<Longrightarrow> (rows' = rows \<and> (\<exists>e. r = Inl e)) \<or>
     (r = Inr () \<and> rows' = rows @ [k\<lparr>sr_created_at := ke_db_now env, sr_updated_at := ke_db_now env\<rparr>]
      \<and> ke_ci env (sr_kid k) \<notin> (\<lambda>r. ke_ci env (sr_kid r)) ` set rows)"
  by (auto simp: key_insert_def key_call_def failE_def list_ex_iff split: option.splits if_splits)

lemma new_key_material_fields:
  "new_key_material env alg lead = Inr k \<Longrightarrow> sr_status k = KeyActive \<and> sr_not_before k = ke_now_material env + max lead 0
     \<and> sr_not_after k = sr_not_before k + key_validity"
  by (auto simp: new_key_material_def rbind_Inr_iff Let_def split: prod.splits)

lemma generate_key_internal_state:
  assumes "generate_key_internal env alg lead rows = (r, rows')"
  shows "(rows' = rows \<and> (\<exists>e. r = Inl e)) \<or> (\<exists>k. new_key env lead rows k \<and> rows' = rows @ [k])"
proof (cases "new_key_material env alg lead")
  case (Inl e)
  then show ?thesis using assms by (auto simp: generate_key_internal_def bindE_def liftR_def) metis
next
  case (Inr k)
  obtain r1 rows1 where i: "key_insert env k rows = (r1, rows1)" by (cases "key_insert env k rows")
  have "rows' = rows1" "(\<exists>e. r1 = Inl e) \<longrightarrow> (\<exists>e. r = Inl e)"
    using assms Inr i by (auto simp: generate_key_internal_def bindE_def liftR_def step_def mapErrE_def retE_def split: sum.splits)
  then show ?thesis
    using key_insert_state [OF i] new_key_material_fields [OF Inr] by (fastforce simp: new_key_def)
qed

lemma add_key_inv: "keys_inv (ke_ci env) rows \<Longrightarrow> new_key env lead rows k \<Longrightarrow> keys_inv (ke_ci env) (rows @ [k])"
  by (auto simp: keys_inv_def new_key_def)

lemma add_key_chained:
  "chained now rows \<Longrightarrow> (is_pending_at k now \<Longrightarrow> \<exists>a \<in> set rows. is_usable_for_signing_at a now \<and> sr_not_before k \<le> sr_not_after a) \<Longrightarrow>
   chained now (rows @ [k])"
  unfolding chained_def by fastforce

text \<open>What every operation of the service keeps, at the time of the operation.\<close>

definition continues :: "(string \<Rightarrow> string) \<Rightarrow> instant \<Rightarrow> key_table \<Rightarrow> key_table \<Rightarrow> bool" where
  "continues ci now rows rows' \<longleftrightarrow>
     (keys_inv ci rows \<and> chained now rows \<longrightarrow> keys_inv ci rows' \<and> chained now rows' \<and> (\<forall>b. covers rows now b \<longrightarrow> covers rows' now b))"

lemma continues_refl [simp]: "continues ci now rows rows"
  by (simp add: continues_def)

lemma continues_trans: "continues ci now a b \<Longrightarrow> continues ci now b c \<Longrightarrow> continues ci now a c"
  by (simp add: continues_def)

lemma continues_add:
  assumes "new_key env lead rows k" "steady env"
    and "0 < lead \<Longrightarrow> \<exists>a \<in> set rows. is_usable_for_signing_at a (ke_now env) \<and> ke_now env + lead \<le> sr_not_after a"
  shows "continues (ke_ci env) (ke_now env) rows (rows @ [k])"
proof -
  have p: "\<exists>a \<in> set rows. is_usable_for_signing_at a (ke_now env) \<and> sr_not_before k \<le> sr_not_after a" if "is_pending_at k (ke_now env)"
    using assms that by (auto simp: new_key_def is_pending_at_def steady_def max_def split: if_splits)
  have sub: "set rows \<subseteq> set (rows @ [k])" by auto
  show ?thesis
    unfolding continues_def
    by (intro impI conjI allI; elim conjE) (rule add_key_inv [OF _ assms(1)] add_key_chained [OF _ p] covers_mono [OF _ sub]; assumption)+
qed

lemma continues_signers:
  "keeps_signers now rows rows' \<Longrightarrow> (keys_inv ci rows \<Longrightarrow> keys_inv ci rows') \<Longrightarrow> continues ci now rows rows'"
  by (auto simp: continues_def keeps_signers_chained keeps_signers_covers)

section \<open>The rotation job\<close>

lemma list_all_keys_state:
  "list_all_keys env rows = (r, rows') \<Longrightarrow> rows' = rows \<and> (\<forall>keys. r = Inr keys \<longrightarrow> set keys = set rows)"
  by (auto simp: list_all_keys_def key_call_def failE_def getsE_def split: option.splits)

definition lead_time :: "nat \<Rightarrow> duration" where
  "lead_time lead_days = secs (86400 * int lead_days)"

lemma lead_time_bound: "lead_days \<le> 365 \<Longrightarrow> 0 \<le> lead_time lead_days \<and> lead_time lead_days \<le> key_validity"
  by (simp add: lead_time_def key_validity_def secs_def nanos_per_sec_def)

definition rotate_tail :: "key_env \<Rightarrow> nat \<Rightarrow> nat \<Rightarrow> signing_key_row list \<Rightarrow> signing_key_row \<Rightarrow> (key_table, key_error, unit) action" where
  "rotate_tail env ld ph keys active =
     (if find (\<lambda>k. is_pending_at k (ke_now env)) keys \<noteq> None then retE ()
      else if sr_not_after active - ke_now env > lead_time ld then retE ()
      else let signs_from = min (ke_now env + secs (3600 * int ph)) (sr_not_after active) in
        bindE (liftR (map_err (KeyStep ''unknown algorithm on active key'')
                 (enum_parse ''SigningAlgorithm'' signing_algorithm_table (sr_algorithm active)))) (\<lambda>algorithm.
        bindE (generate_key_internal env algorithm (signs_from - ke_now env)) (\<lambda>_.
        retE ())))"

lemma rotate_tail_state:
  assumes "rotate_tail env ld ph keys a rows = (r, rows')"
  shows "rows' = rows \<and> (r = Inr () \<longrightarrow> (\<exists>p \<in> set keys. is_pending_at p (ke_now env)) \<or> sr_not_after a - ke_now env > lead_time ld)
    \<or> (\<exists>k. new_key env (min (ke_now env + secs (3600 * int ph)) (sr_not_after a) - ke_now env) rows k \<and> rows' = rows @ [k])"
proof (cases "find (\<lambda>k. is_pending_at k (ke_now env)) keys \<noteq> None \<or> sr_not_after a - ke_now env > lead_time ld")
  case True
  then show ?thesis
    using assms by (auto simp: rotate_tail_def retE_def find_None_iff split: if_splits)
next
  case False
  then show ?thesis
    using assms generate_key_internal_state
    by (auto simp: rotate_tail_def Let_def bindE_def liftR_def retE_def split: sum.splits prod.splits) blast+
qed

lemma rotate_run:
  assumes "rotate_if_needed env ld ph rows = (r, rows')"
  obtains (error) e where "r = Inl e" "rows' = rows"
    | (bootstrap) keys k where "set keys = set rows" "current_signer_at keys (ke_now env) = None"
        "new_key env 0 rows k" "rows' = rows @ [k]"
    | (stopped) keys a K e where "set keys = set rows" "current_signer_at keys (ke_now env) = Some a"
        "K \<subseteq> sr_kid ` {k \<in> set rows. sr_status k = KeyActive \<and> sr_kid k \<noteq> sr_kid a \<and> sr_not_before k \<le> ke_now env}"
        "r = Inl e" "rows' = retire_kids env K rows"
    | (tail) keys a K where "set keys = set rows" "current_signer_at keys (ke_now env) = Some a"
        "K \<subseteq> sr_kid ` {k \<in> set rows. sr_status k = KeyActive \<and> sr_kid k \<noteq> sr_kid a \<and> sr_not_before k \<le> ke_now env}"
        "rotate_tail env ld ph keys a (retire_kids env K rows) = (r, rows')"
proof -
  obtain r0 rows0 where l: "list_all_keys env rows = (r0, rows0)" by (cases "list_all_keys env rows")
  note l' = list_all_keys_state [OF l]
  show ?thesis
  proof (cases r0)
    case (Inl e)
    then show ?thesis using assms l l' error by (auto simp: rotate_if_needed_def Let_def bindE_def step_def mapErrE_def)
  next
    case (Inr keys)
    then have ks: "set keys = set rows" using l' by simp
    show ?thesis
    proof (cases "current_signer_at keys (ke_now env)")
      case None
      then obtain r1 where "generate_key_internal env (inherited_algorithm keys) 0 rows = (r1, rows')" "\<forall>e. r1 = Inl e \<longrightarrow> r = Inl e"
        using assms l l' Inr
        by (auto simp: rotate_if_needed_def Let_def bindE_def step_def mapErrE_def retE_def split: sum.splits prod.splits)
      from generate_key_internal_state [OF this(1)] this(2) show ?thesis using error bootstrap [OF ks None] by blast
    next
      case (Some a)
      let ?kids = "map sr_kid (filter (\<lambda>k. sr_status k = KeyActive \<and> sr_kid k \<noteq> sr_kid a \<and> sr_not_before k \<le> ke_now env) keys)"
      obtain r1 rows1 where t: "retire_all env ?kids rows = (r1, rows1)" by (cases "retire_all env ?kids rows")
      from retire_all_state [OF t] obtain K where K: "K \<subseteq> set ?kids" "rows1 = retire_kids env K rows" by blast
      have sub: "K \<subseteq> sr_kid ` {k \<in> set rows. sr_status k = KeyActive \<and> sr_kid k \<noteq> sr_kid a \<and> sr_not_before k \<le> ke_now env}"
        using K(1) ks by auto
      have whole: "rotate_if_needed env ld ph rows = (case r1 of Inl e \<Rightarrow> (Inl e, rows1) | Inr _ \<Rightarrow> rotate_tail env ld ph keys a rows1)"
        using l l' Inr Some t
        by (simp add: rotate_if_needed_def Let_def bindE_def step_def mapErrE_def rotate_tail_def lead_time_def split: sum.splits)
      show ?thesis
        using assms whole K(2) by (cases r1) (auto intro: stopped [OF ks Some sub] tail [OF ks Some sub])
    qed
  qed
qed

lemma retired_superseded:
  assumes "keys_inv (ke_ci env) rows" "chained (ke_now env) rows"
    and "set keys = set rows" "current_signer_at keys (ke_now env) = Some a"
    and "K \<subseteq> sr_kid ` {k \<in> set rows. sr_status k = KeyActive \<and> sr_kid k \<noteq> sr_kid a \<and> sr_not_before k \<le> ke_now env}"
  shows "continues (ke_ci env) (ke_now env) rows (retire_kids env K rows)" "a \<in> set (retire_kids env K rows)"
    "is_usable_for_signing_at a (ke_now env)" "keys_inv (ke_ci env) (retire_kids env K rows)"
    "\<And>p. p \<in> set keys \<Longrightarrow> is_pending_at p (ke_now env) \<Longrightarrow> p \<in> set (retire_kids env K rows) \<and> sr_not_before p \<le> sr_not_after a"
proof -
  note k = retire_superseded_keeps [OF assms(1) assms(4,3,5)]
  show "continues (ke_ci env) (ke_now env) rows (retire_kids env K rows)"
    using k retire_kids_inv by (blast intro: continues_signers)
  show "a \<in> set (retire_kids env K rows)" using k by simp
  show "is_usable_for_signing_at a (ke_now env)" using current_signer_Some [OF assms(4)] by simp
  show "keys_inv (ke_ci env) (retire_kids env K rows)" using assms(1) by (rule retire_kids_inv)
  show "p \<in> set (retire_kids env K rows) \<and> sr_not_before p \<le> sr_not_after a" if "p \<in> set keys" "is_pending_at p (ke_now env)" for p
    using k that assms(3) chained_signer [OF assms(1,2,4,3)] by (auto simp: keeps_signers_def)
qed

lemma handover_lead:
  fixes now :: instant
  assumes "is_usable_for_signing_at a now"
  shows "0 < min (now + secs (3600 * int ph)) (sr_not_after a) - now \<Longrightarrow>
      is_usable_for_signing_at a now \<and> now + (min (now + secs (3600 * int ph)) (sr_not_after a) - now) \<le> sr_not_after a"
    and "0 \<le> min (now + secs (3600 * int ph)) (sr_not_after a) - now"
  using assms by (auto simp: is_usable_for_signing_at_def secs_def nanos_per_sec_def)

lemma rotate_continues:
  assumes "rotate_if_needed env ld ph rows = (r, rows')" "steady env" "keys_inv (ke_ci env) rows" "chained (ke_now env) rows"
  shows "continues (ke_ci env) (ke_now env) rows rows'"
  using assms(1)
proof (cases rule: rotate_run)
  case error
  then show ?thesis by simp
next
  case (bootstrap keys k)
  then show ?thesis using assms(2) by (auto intro: continues_add)
next
  case (stopped keys a K e)
  then show ?thesis using retired_superseded(1) [OF assms(3,4)] by blast
next
  case (tail keys a K)
  note s = retired_superseded [OF assms(3,4) tail(1,2,3)]
  from rotate_tail_state [OF tail(4)] show ?thesis
  proof (elim disjE exE conjE)
    fix k
    assume k: "new_key env (min (ke_now env + secs (3600 * int ph)) (sr_not_after a) - ke_now env) (retire_kids env K rows) k"
      "rows' = retire_kids env K rows @ [k]"
    have "continues (ke_ci env) (ke_now env) (retire_kids env K rows) rows'"
      unfolding k(2) using k(1) assms(2) handover_lead(1) [OF s(3)] s(2) by (intro continues_add) blast+
    with s(1) show ?thesis by (rule continues_trans)
  qed (use s(1) in simp)
qed

lemma covers_by_two:
  assumes "a \<in> set rows" "is_usable_for_signing_at a now" "k \<in> set rows" "sr_status k = KeyActive"
    and "sr_not_before k \<le> sr_not_after a" "b \<le> sr_not_after k"
  shows "covers rows now b"
  unfolding covers_def
proof (intro allI impI)
  fix t assume t: "now \<le> t \<and> t < b"
  show "\<exists>k \<in> set rows. is_usable_for_signing_at k t"
  proof (cases "t < sr_not_after a")
    case True
    then show ?thesis using assms(1,2) t by (force simp: is_usable_for_signing_at_def)
  next
    case False
    then show ?thesis using assms t by (force simp: is_usable_for_signing_at_def)
  qed
qed

lemma rotate_covers:
  assumes "rotate_if_needed env ld ph rows = (Inr (), rows')" "steady env" "keys_inv (ke_ci env) rows" "chained (ke_now env) rows"
    and "ld \<le> 365"
  shows "covers rows' (ke_now env) (ke_now env + lead_time ld)"
  using assms(1)
proof (cases rule: rotate_run)
  case (bootstrap keys k)
  then have "is_usable_for_signing_at k (ke_now env)" "sr_not_after k = ke_now env + key_validity"
    using assms(2) key_validity_pos by (auto simp: new_key_def steady_def is_usable_for_signing_at_def)
  then show ?thesis
    using covers_by_two [of k rows' "ke_now env" k] bootstrap(4) lead_time_bound [OF assms(5)] key_validity_pos
    by (auto simp: is_usable_for_signing_at_def)
next
  case (tail keys a K)
  note s = retired_superseded [OF assms(3,4) tail(1,2,3)]
  from rotate_tail_state [OF tail(4)] show ?thesis
  proof (elim disjE conjE exE)
    assume rows': "rows' = retire_kids env K rows"
      and "Inr () = Inr () \<longrightarrow> (\<exists>p \<in> set keys. is_pending_at p (ke_now env)) \<or> sr_not_after a - ke_now env > lead_time ld"
    then consider p where "p \<in> set keys" "is_pending_at p (ke_now env)" | "sr_not_after a - ke_now env > lead_time ld" by blast
    then show ?thesis
    proof cases
      case 1
      with s(5) [OF 1] s(4) show ?thesis
        using covers_by_two [OF s(2,3), of p] lead_time_bound [OF assms(5)] rows' by (auto simp: is_pending_at_def keys_inv_def)
    next
      case 2
      then show ?thesis
        using covers_by_two [OF s(2,3,2)] s(3) rows' by (auto simp: is_usable_for_signing_at_def)
    qed
  next
    fix k
    assume k: "new_key env (min (ke_now env + secs (3600 * int ph)) (sr_not_after a) - ke_now env) (retire_kids env K rows) k"
      "rows' = retire_kids env K rows @ [k]"
    let ?lead = "min (ke_now env + secs (3600 * int ph)) (sr_not_after a) - ke_now env"
    have nb: "sr_not_before k = ke_now env + ?lead" "sr_status k = KeyActive" "sr_not_after k = sr_not_before k + key_validity"
      using k(1) assms(2) handover_lead(2) [OF s(3)] by (auto simp: new_key_def steady_def)
    have "ke_now env + lead_time ld \<le> sr_not_after k"
      using nb lead_time_bound [OF assms(5)] handover_lead(2) [OF s(3), of ph] by linarith
    then show ?thesis
      using covers_by_two [of a rows' "ke_now env" k] s(2,3) k(2) nb by auto
  qed
qed simp_all

section \<open>The other operations\<close>

lemma generate_key_continues:
  assumes "generate_key env alg lead rows = (r, rows')" "steady env"
  shows "continues (ke_ci env) (ke_now env) rows rows'"
proof -
  obtain r0 rows0 where c: "capped_publish_lead env lead rows = (r0, rows0)" by (cases "capped_publish_lead env lead rows")
  have rows0: "rows0 = rows" and lead: "\<And>l. r0 = Inr l \<Longrightarrow> 0 < l \<Longrightarrow>
      \<exists>a \<in> set rows. is_usable_for_signing_at a (ke_now env) \<and> ke_now env + l \<le> sr_not_after a"
    using c list_all_keys_state [of env rows]
    by (auto simp: capped_publish_lead_def bindE_def step_def mapErrE_def retE_def
        split: if_splits sum.splits prod.splits option.splits dest!: current_signer_Some)
  show ?thesis
  proof (cases r0)
    case (Inl e)
    then show ?thesis using assms c rows0 by (simp add: generate_key_def bindE_def mapErrE_def)
  next
    case (Inr l)
    then obtain r1 where "generate_key_internal env alg l rows = (r1, rows')"
      using assms(1) c rows0 by (auto simp: generate_key_def bindE_def mapErrE_def split: prod.splits)
    from generate_key_internal_state [OF this] show ?thesis
      using continues_add [OF _ assms(2)] lead [OF Inr] by fastforce
  qed
qed

lemma ensure_active_key_continues:
  assumes "ensure_active_key env rows = (r, rows')" "steady env"
  shows "continues (ke_ci env) (ke_now env) rows rows'"
proof -
  have "rows' = rows \<or> (\<exists>k. new_key env 0 rows k \<and> rows' = rows @ [k])"
  proof -
    obtain r0 rows0 where l: "list_all_keys env rows = (r0, rows0)" by (cases "list_all_keys env rows")
    have "rows0 = rows" using list_all_keys_state [OF l] by simp
    show ?thesis
    proof (cases "\<exists>keys m. r0 = Inr keys \<and> current_signer_at keys (ke_now env) = None \<and> new_key_material env (inherited_algorithm keys) 0 = Inr m")
      case False
      then show ?thesis
        using assms(1) l \<open>rows0 = rows\<close>
        by (auto simp: ensure_active_key_def bindE_def step_def mapErrE_def retE_def liftR_def split: sum.splits if_splits)
    next
      case True
      then obtain keys m where m: "r0 = Inr keys" "current_signer_at keys (ke_now env) = None"
        "new_key_material env (inherited_algorithm keys) 0 = Inr m" by blast
      obtain r1 rows1 where i: "insert_if_no_active env m rows = (r1, rows1)" by (cases "insert_if_no_active env m rows")
      have "rows' = rows1"
        using assms(1) l \<open>rows0 = rows\<close> m i
        by (auto simp: ensure_active_key_def bindE_def step_def mapErrE_def retE_def liftR_def split: sum.splits)
      moreover have "rows1 = rows \<or> (\<exists>r2. key_insert env m rows = (r2, rows1))"
        using i by (auto simp: insert_if_no_active_def failE_def bindE_def getsE_def retE_def split: if_splits sum.splits prod.splits)
      ultimately show ?thesis
        using key_insert_state [of env m rows] new_key_material_fields [OF m(3)] by (fastforce simp: new_key_def)
    qed
  qed
  then show ?thesis using continues_add [OF _ assms(2)] by fastforce
qed

lemma filter_active_continues:
  assumes "\<And>k. k \<in> set rows \<Longrightarrow> sr_status k = KeyActive \<Longrightarrow> P k"
  shows "continues ci now rows (filter P rows)"
proof (rule continues_signers)
  show "keeps_signers now rows (filter P rows)"
    using assms by (force simp: keeps_signers_def is_usable_for_signing_at_def is_pending_at_def)
  show "keys_inv ci rows \<Longrightarrow> keys_inv ci (filter P rows)" by (auto simp: keys_inv_def distinct_map_filter)
qed

lemma delete_key_rows:
  assumes "delete_key env kid rows = (r, rows')" "keys_inv (ke_ci env) rows" "rows' \<noteq> rows"
  obtains P where "rows' = filter P rows" "\<And>k. k \<in> set rows \<Longrightarrow> sr_status k = KeyActive \<Longrightarrow> P k"
proof -
  from assms(1,3) obtain key where key: "find (\<lambda>r. ke_ci env (sr_kid r) = ke_ci env kid) rows = Some key" "sr_status key \<noteq> KeyActive"
    and rows': "rows' = filter (\<lambda>r. ke_ci env (sr_kid r) \<noteq> ke_ci env kid) rows"
    by (auto simp: delete_key_def key_find_by_kid_def key_delete_def key_call_def bindE_def mapErrE_def getsE_def modifyE_def
        liftR_def guardE_def failE_def retE_def split: option.splits if_splits sum.splits prod.splits)
  have "k = key" if "k \<in> set rows" "ke_ci env (sr_kid k) = ke_ci env kid" for k
    using that key(1) assms(2) find_Some_mem [OF key(1)]
    by (auto simp: keys_inv_def distinct_map dest: inj_onD [of _ _ k key])
  with key(2) rows' that show ?thesis by blast
qed

lemma delete_key_continues:
  assumes "delete_key env kid rows = (r, rows')" "keys_inv (ke_ci env) rows"
  shows "continues (ke_ci env) (ke_now env) rows rows'"
proof (cases "rows' = rows")
  case False
  obtain P where "rows' = filter P rows" "\<And>k. k \<in> set rows \<Longrightarrow> sr_status k = KeyActive \<Longrightarrow> P k"
    using delete_key_rows [OF assms False] by blast
  then show ?thesis by (simp add: filter_active_continues)
qed simp

section \<open>The life of a deployment\<close>

text \<open>\<open>key_life ci ld ph latest now rows\<close>: the table is \<open>rows\<close> at time \<open>now\<close> and the rotation job last succeeded at \<open>latest\<close>.  It starts
  with a successful run; afterwards time passes, the job runs (and may fail), keys are generated, bootstrapped and deleted.\<close>

inductive key_life :: "(string \<Rightarrow> string) \<Rightarrow> nat \<Rightarrow> nat \<Rightarrow> instant \<Rightarrow> instant \<Rightarrow> key_table \<Rightarrow> bool" for ci ld ph where
  begins: "keys_inv ci rows \<Longrightarrow> chained (ke_now env) rows \<Longrightarrow> ke_ci env = ci \<Longrightarrow> steady env \<Longrightarrow>
    rotate_if_needed env ld ph rows = (Inr (), rows') \<Longrightarrow> key_life ci ld ph (ke_now env) (ke_now env) rows'"
| tick: "key_life ci ld ph latest now rows \<Longrightarrow> now \<le> now' \<Longrightarrow> key_life ci ld ph latest now' rows"
| rotates: "key_life ci ld ph latest (ke_now env) rows \<Longrightarrow> ke_ci env = ci \<Longrightarrow> steady env \<Longrightarrow>
    rotate_if_needed env ld ph rows = (r, rows') \<Longrightarrow> key_life ci ld ph (if r = Inr () then ke_now env else latest) (ke_now env) rows'"
| generates: "key_life ci ld ph latest (ke_now env) rows \<Longrightarrow> ke_ci env = ci \<Longrightarrow> steady env \<Longrightarrow>
    generate_key env alg lead rows = (g, rows') \<Longrightarrow> key_life ci ld ph latest (ke_now env) rows'"
| bootstraps: "key_life ci ld ph latest (ke_now env) rows \<Longrightarrow> ke_ci env = ci \<Longrightarrow> steady env \<Longrightarrow>
    ensure_active_key env rows = (e, rows') \<Longrightarrow> key_life ci ld ph latest (ke_now env) rows'"
| deletes: "key_life ci ld ph latest (ke_now env) rows \<Longrightarrow> ke_ci env = ci \<Longrightarrow>
    delete_key env kid rows = (x, rows') \<Longrightarrow> key_life ci ld ph latest (ke_now env) rows'"

lemma key_life_inv:
  assumes "key_life ci ld ph latest now rows" "ld \<le> 365"
  shows "keys_inv ci rows \<and> chained now rows \<and> covers rows now (latest + lead_time ld)"
  using assms(1)
proof induction
  case (begins rows env rows')
  then show ?case using rotate_continues rotate_covers [OF _ _ _ _ assms(2)] by (fastforce simp: continues_def)
next
  case (tick latest now rows now')
  then show ?case using chained_later covers_later by blast
next
  case (rotates latest env rows r rows')
  then have "continues ci (ke_now env) rows rows'" using rotate_continues by blast
  then show ?case using rotates rotate_covers [OF _ _ _ _ assms(2), of env ph rows rows'] by (auto simp: continues_def)
next
  case (generates latest env rows alg lead g rows')
  then show ?case using generate_key_continues by (fastforce simp: continues_def)
next
  case (bootstraps latest env rows e rows')
  then show ?case using ensure_active_key_continues by (fastforce simp: continues_def)
next
  case (deletes latest env rows kid x rows')
  then show ?case using delete_key_continues by (fastforce simp: continues_def)
qed

text \<open>(C14) Signing never stops while the rotation job does its work, if no time passes between the readings of the clock inside one
  operation (\<open>steady\<close>; \<open>handover_gap\<close> below shows what happens otherwise): in every such life of a deployment (any interleaving of
  rotation runs that succeed or fail, generated and bootstrapped keys, deletions, and time passing between them), as long as less
  than the lead time has passed since the job last succeeded, some key can sign, and every published successor takes
  over no later than a signing key ends.\<close>

theorem signing_never_stops:
  assumes "key_life ci ld ph latest now rows" "ld \<le> 365" "now < latest + lead_time ld"
  shows "(\<exists>k. current_signer_at rows now = Some k) \<and> chained now rows"
proof -
  note i = key_life_inv [OF assms(1,2)]
  then have "\<exists>k \<in> set rows. is_usable_for_signing_at k now" using assms(3) by (auto simp: covers_def)
  then show ?thesis using i current_signer_None [of rows now] by auto
qed

section \<open>A sample deployment\<close>

definition sample_key :: signing_key_row where
  "sample_key = \<lparr>sr_kid = ''k1'', sr_algorithm = ''RS256'', sr_public_key = ''pub'', sr_private_key_encrypted = ''enc'', sr_status = KeyActive,
     sr_not_before = 0, sr_not_after = key_validity, sr_created_at = 0, sr_updated_at = 0\<rparr>"

definition sample_key_env :: "instant \<Rightarrow> instant \<Rightarrow> key_env" where
  "sample_key_env now material = \<lparr>ke_now = now, ke_now_material = material, ke_db_now = now, ke_ci = id, ke_fault = (\<lambda>_. None), ke_lock_acquired = True,
     ke_generate_keypair = (\<lambda>_. Inr (''priv'', ''pub'')), ke_format_date = (\<lambda>_. ''20260101''), ke_random_token = ''x'',
     ke_encrypt = Inr, ke_decrypt = Inr, ke_public_jwk = (\<lambda>k _ _. Inr k)\<rparr>"

definition ten_days_left :: instant where
  "ten_days_left = secs (355 * 86400)"

definition successor :: "instant \<Rightarrow> signing_key_row" where
  "successor nb = \<lparr>sr_kid = ''20260101-rs-x'', sr_algorithm = ''RS256'', sr_public_key = ''pub'', sr_private_key_encrypted = ''priv'', sr_status = KeyActive,
     sr_not_before = nb, sr_not_after = nb + key_validity, sr_created_at = ten_days_left, sr_updated_at = ten_days_left\<rparr>"

lemma sample_rotation:
  "rotate_if_needed (sample_key_env ten_days_left m) 30 24 [sample_key] = (Inr (), [sample_key, successor (m + secs 86400)])"
  "rotate_if_needed (sample_key_env ten_days_left m) 30 480 [sample_key] = (Inr (), [sample_key, successor (m + secs (10 * 86400))])"
  by (simp_all add: rotate_if_needed_def list_all_keys_def key_call_def step_def mapErrE_def bindE_def getsE_def retE_def liftR_def
      current_signer_at_def is_usable_for_signing_at_def is_pending_at_def sample_key_def sample_key_env_def ten_days_left_def
      key_validity_def secs_def nanos_per_sec_def enum_parse_def signing_algorithm_table_def generate_key_internal_def
      new_key_material_def key_insert_def successor_def)

lemma sample_key_inv: "keys_inv id [sample_key]" "chained ten_days_left [sample_key]"
  by (simp_all add: keys_inv_def chained_def sample_key_def is_pending_at_def ten_days_left_def secs_def nanos_per_sec_def)

theorem find_active_is_current_signer_witness:
  "key_find_active (sample_key_env ten_days_left ten_days_left) [sample_key] = (Inr (Some sample_key), [sample_key])"
proof -
  let ?env = "sample_key_env ten_days_left ten_days_left"
  have "current_signer_at [sample_key] ten_days_left = Some sample_key"
    by (simp add: current_signer_at_def is_usable_for_signing_at_def sample_key_def ten_days_left_def key_validity_def secs_def nanos_per_sec_def)
  moreover have "list_all_keys ?env [sample_key] = (Inr [sample_key], [sample_key])"
    by (simp add: list_all_keys_def key_call_def sample_key_env_def getsE_def)
  ultimately show ?thesis
    using find_active_is_current_signer [of ?env "[sample_key]"] by (simp add: sample_key_env_def distinct_starts_def)
qed

theorem signing_never_stops_witness:
  "\<exists>rows. key_life id 30 24 ten_days_left (secs (380 * 86400)) rows \<and> (\<exists>k. current_signer_at rows (secs (380 * 86400)) = Some k)"
proof -
  let ?env = "sample_key_env ten_days_left ten_days_left"
  have n: "ke_now ?env = ten_days_left" "ke_ci ?env = id" "steady ?env" by (simp_all add: sample_key_env_def steady_def)
  have "key_life id 30 24 (ke_now ?env) (ke_now ?env) [sample_key, successor (ten_days_left + secs 86400)]"
    by (rule begins [OF sample_key_inv(1) _ n(2,3) sample_rotation(1)]) (simp add: n(1) sample_key_inv(2))
  from tick [OF this [unfolded n(1)]]
  have l: "key_life id 30 24 ten_days_left (secs (380 * 86400)) [sample_key, successor (ten_days_left + secs 86400)]"
    by (simp add: ten_days_left_def secs_def nanos_per_sec_def)
  moreover have "secs (380 * 86400) < ten_days_left + lead_time 30"
    by (simp add: lead_time_def ten_days_left_def secs_def nanos_per_sec_def)
  ultimately show ?thesis
    using signing_never_stops [OF l] by fastforce
qed

section \<open>Limits\<close>

text \<open>No operation removes the last key that can sign: when some key can sign at the time of the operation, some key still can
  after \<open>retire_key\<close>, \<open>delete_key\<close> or a run of the rotation job, whatever their outcome.\<close>

theorem last_signer_kept:
  assumes "keys_inv (ke_ci env) rows" "k \<in> set rows" "is_usable_for_signing_at k (ke_now env)"
  shows "(\<forall>kid r rows'. retire_key env kid rows = (r, rows') \<longrightarrow> (\<exists>k' \<in> set rows'. is_usable_for_signing_at k' (ke_now env)))
    \<and> (\<forall>kid r rows'. delete_key env kid rows = (r, rows') \<longrightarrow> (\<exists>k' \<in> set rows'. is_usable_for_signing_at k' (ke_now env)))
    \<and> (\<forall>ld ph r rows'. rotate_if_needed env ld ph rows = (r, rows') \<longrightarrow> (\<exists>k' \<in> set rows'. is_usable_for_signing_at k' (ke_now env)))"
proof (intro conjI allI impI)
  fix kid r rows'
  assume r: "retire_key env kid rows = (r, rows')"
  show "\<exists>k' \<in> set rows'. is_usable_for_signing_at k' (ke_now env)"
  proof (cases "rows' = rows")
    case False
    then obtain keys other r1 where o: "set keys = set rows" "other \<in> set keys" "sr_kid other \<noteq> kid" "is_usable_for_signing_at other (ke_now env)"
      "find (\<lambda>k. sr_kid k = kid) keys \<noteq> None" "update_status env kid KeyRetired rows = (r1, rows')"
      using r list_all_keys_state [of env rows]
      by (auto simp: retire_key_def bindE_def mapErrE_def liftR_def guardE_def failE_def retE_def list_ex_iff
          split: sum.splits prod.splits if_splits option.splits)
    then obtain j where j: "j \<in> set rows" "sr_kid j = kid" by (auto simp: find_None_iff)
    have "{kid} \<subseteq> sr_kid ` {k \<in> set rows. sr_kid k = kid}" using j by auto
    from retire_kids_spares [OF assms(1) this, of other] o update_status_state [OF o(6)] show ?thesis by auto
  qed (use assms in blast)
next
  fix kid r rows'
  assume d: "delete_key env kid rows = (r, rows')"
  have "k \<in> set rows'"
  proof (cases "rows' = rows")
    case False
    obtain P where "rows' = filter P rows" "\<And>k. k \<in> set rows \<Longrightarrow> sr_status k = KeyActive \<Longrightarrow> P k"
      using delete_key_rows [OF d assms(1) False] by blast
    then show ?thesis using assms(2,3) by (simp add: is_usable_for_signing_at_def)
  qed (use assms(2) in simp)
  then show "\<exists>k' \<in> set rows'. is_usable_for_signing_at k' (ke_now env)" using assms(3) by blast
next
  fix ld ph r rows'
  assume "rotate_if_needed env ld ph rows = (r, rows')"
  then show "\<exists>k' \<in> set rows'. is_usable_for_signing_at k' (ke_now env)"
  proof (cases rule: rotate_run)
    case (stopped keys a K e)
    then show ?thesis using retire_superseded_keeps [OF assms(1) stopped(2,1,3)] assms(2,3) by (auto simp: keeps_signers_def)
  next
    case (tail keys a K)
    obtain b where "b \<in> set (retire_kids env K rows)" "is_usable_for_signing_at b (ke_now env)"
      using retire_superseded_keeps [OF assms(1) tail(2,1,3)] assms(2,3) by (auto simp: keeps_signers_def)
    then show ?thesis using rotate_tail_state [OF tail(4)] by auto
  qed (use assms in auto)
qed

theorem last_signer_kept_witness:
  "\<exists>k' \<in> set (snd (retire_key (sample_key_env ten_days_left ten_days_left) ''k1'' [sample_key])).
     is_usable_for_signing_at k' ten_days_left"
proof -
  let ?env = "sample_key_env ten_days_left ten_days_left"
  have u: "is_usable_for_signing_at sample_key (ke_now ?env)" and i: "keys_inv (ke_ci ?env) [sample_key]"
    using sample_key_inv
    by (simp_all add: is_usable_for_signing_at_def sample_key_def ten_days_left_def key_validity_def secs_def nanos_per_sec_def sample_key_env_def)
  have n: "ke_now ?env = ten_days_left" by (simp add: sample_key_env_def)
  obtain r rows' where r: "retire_key ?env ''k1'' [sample_key] = (r, rows')" by (cases "retire_key ?env ''k1'' [sample_key]")
  from last_signer_kept [OF i _ u] have "\<forall>kid r rows'. retire_key ?env kid [sample_key] = (r, rows') \<longrightarrow>
      (\<exists>k' \<in> set rows'. is_usable_for_signing_at k' (ke_now ?env))" by simp
  then show ?thesis using r n by auto
qed

text \<open>The hand-over can leave a gap.  The start of a successor is capped at the end of the current key, but as a delay that is
  added to a later reading of the clock: when the cap applies and generating the key pair takes any time at
  all, the successor starts that much after the current key has ended, and in between no key can sign.\<close>

theorem handover_gap:
  assumes "is_usable_for_signing_at a (ke_now env)" "sr_not_after a - ke_now env \<le> lead_time ld"
    and "sr_not_after a \<le> ke_now env + secs (3600 * int ph)" "ke_now env < ke_now_material env"
    and "rotate_if_needed env ld ph [a] = (Inr (), rows')"
    and "sr_not_after a \<le> t" "t < sr_not_after a + (ke_now_material env - ke_now env)"
  shows "current_signer_at rows' t = None"
  using assms(5)
proof (cases rule: rotate_run)
  case (bootstrap keys k)
  then show ?thesis using assms(1) by (simp add: current_signer_None)
next
  case (tail keys a' K)
  have "a' = a" using current_signer_Some [OF tail(2)] tail(1) by simp
  with tail(3) have "K = {}" by auto
  then have K: "retire_kids env K [a] = [a]" by simp
  have "\<not> is_pending_at a (ke_now env)" using assms(1) by (auto simp: is_usable_for_signing_at_def is_pending_at_def)
  then obtain k where k: "new_key env (sr_not_after a - ke_now env) [a] k" "rows' = [a, k]"
    using rotate_tail_state [OF tail(4)] tail(1) assms(2,3) K \<open>a' = a\<close> by auto
  have "0 \<le> sr_not_after a - ke_now env" using assms(1) by (simp add: is_usable_for_signing_at_def)
  then have "t < sr_not_before k" using k(1) assms(7) by (simp add: new_key_def)
  then show ?thesis using assms(6) k(2) by (simp add: current_signer_None is_usable_for_signing_at_def)
qed simp_all

theorem handover_gap_witness:
  "\<exists>rows'. rotate_if_needed (sample_key_env ten_days_left (ten_days_left + secs 2)) 30 480 [sample_key] = (Inr (), rows')
     \<and> current_signer_at rows' (key_validity + secs 1) = None"
proof -
  let ?env = "sample_key_env ten_days_left (ten_days_left + secs 2)"
  have f: "ke_now ?env = ten_days_left" "ke_now_material ?env = ten_days_left + secs 2" "sr_not_after sample_key = key_validity"
    by (simp_all add: sample_key_env_def sample_key_def)
  have h: "is_usable_for_signing_at sample_key (ke_now ?env)" "sr_not_after sample_key - ke_now ?env \<le> lead_time 30"
    "sr_not_after sample_key \<le> ke_now ?env + secs (3600 * int 480)" "ke_now ?env < ke_now_material ?env"
    "sr_not_after sample_key \<le> key_validity + secs 1"
    "key_validity + secs 1 < sr_not_after sample_key + (ke_now_material ?env - ke_now ?env)"
    unfolding f by (simp_all add: is_usable_for_signing_at_def sample_key_def lead_time_def ten_days_left_def key_validity_def secs_def nanos_per_sec_def)
  note r = sample_rotation(2) [of "ten_days_left + secs 2"]
  from handover_gap [OF h(1-4) r h(5,6)] r show ?thesis by blast
qed

end
