(* ===== verification/Access_Token.thy ===== *)
theory Access_Token
  imports Client_Authentication Signing_Keys
begin

text \<open>
  Verification of access tokens the provider has issued (\<open>application/access_token_verification.rs\<close>)
  and the table of revoked tokens (\<open>infrastructure/repositories/revoked_access_token.rs\<close>, with its rows
  removed by \<open>expired_records.rs\<close>).

  Decoding a JWT, loading a PEM key and parsing a UUID are third-party code: fields of the
  record \<open>verifier\<close>, which also holds the rows of \<open>signing_keys\<close>, the clock and the accepted skew.
  \<open>reads_back\<close> states what the code relies on: a token encoded under a stored key is decoded to its header and
  claims.  Claims are integers without a width: the sums of \<open>exp\<close> and the skew stay far from the
  end of \<open>i64\<close> for tokens the provider signs.
\<close>

section \<open>The verifier\<close>

record verifier =
  vr_decode_header :: "string \<Rightarrow> (string option \<times> string option) option"
  vr_keys :: "signing_key_row list"
  vr_load_public :: "signing_algorithm \<Rightarrow> string \<Rightarrow> string + string"
  vr_decode :: "signing_algorithm \<Rightarrow> string \<Rightarrow> string \<Rightarrow> access_token_claims option"
  vr_parse_uuid :: "string \<Rightarrow> uuid option"
  vr_now :: instant
  vr_clock_skew :: duration

datatype access_token_rejection =
    TokMalformed | TokNotAnAccessToken | TokMissingKeyId | TokUnknownSigningKey | TokInvalidSignature
  | TokIssuerMismatch | TokAudienceMismatch | TokExpired | TokRevoked | TokUnavailable string

fun rejection_reason :: "access_token_rejection \<Rightarrow> string" where
  "rejection_reason TokMalformed = ''malformed token''"
| "rejection_reason TokNotAnAccessToken = ''token typ must be `at+jwt`''"
| "rejection_reason TokMissingKeyId = ''token has no kid''"
| "rejection_reason TokUnknownSigningKey = ''unknown signing key''"
| "rejection_reason TokInvalidSignature = ''signature verification failed''"
| "rejection_reason TokIssuerMismatch = ''issuer mismatch''"
| "rejection_reason TokAudienceMismatch = ''audience mismatch''"
| "rejection_reason TokExpired = ''token expired''"
| "rejection_reason TokRevoked = ''token has been revoked''"
| "rejection_reason (TokUnavailable _) = ''verification material unavailable''"

definition decoding_key_for :: "verifier \<Rightarrow> string \<Rightarrow> string \<Rightarrow> string + string \<times> signing_algorithm" where
  "decoding_key_for vr algorithm public_pem =
     (if algorithm = ''RS256'' then rbind (vr_load_public vr Rs256 public_pem) (\<lambda>k. Inr (k, Rs256))
      else if algorithm = ''ES256'' then rbind (vr_load_public vr Es256 public_pem) (\<lambda>k. Inr (k, Es256))
      else Inl (''unsupported algorithm for verification: '' @ algorithm))"

section \<open>Repository calls\<close>

definition repo_key_find :: "env \<Rightarrow> verifier \<Rightarrow> string \<Rightarrow> (db, domain_error, signing_key_row option) action" where
  "repo_key_find env vr kid = db_query env ''signing_keys.find_by_kid''
     (\<lambda>_. find (\<lambda>k. e_ci env (sr_kid k) = e_ci env kid) (vr_keys vr))"

text \<open>\<open>INSERT IGNORE\<close>: a \<open>jti\<close> that is already there is left as it is.\<close>

definition revoked_insert :: "(string \<Rightarrow> string) \<Rightarrow> revoked_access_token \<Rightarrow> revoked_access_token list \<Rightarrow> revoked_access_token list" where
  "revoked_insert ci r rows = (if list_ex (\<lambda>x. ci (ra_jti x) = ci (ra_jti r)) rows then rows else rows @ [r])"

definition repo_revoked_insert :: "env \<Rightarrow> revoked_access_token \<Rightarrow> (db, domain_error, unit) action" where
  "repo_revoked_insert env r = db_call env ''revoked_access_tokens.revoke''
     (modifyE (\<lambda>d. d\<lparr>db_revoked := revoked_insert (e_ci env) r (db_revoked d)\<rparr>))"

definition revoked_is :: "(string \<Rightarrow> string) \<Rightarrow> string \<Rightarrow> revoked_access_token list \<Rightarrow> bool" where
  "revoked_is ci jti rows \<longleftrightarrow> length (filter (\<lambda>x. ci (ra_jti x) = ci jti) rows) > 0"

definition repo_revoked_is :: "env \<Rightarrow> string \<Rightarrow> (db, domain_error, bool) action" where
  "repo_revoked_is env jti = db_query env ''revoked_access_tokens.is_revoked'' (\<lambda>d. revoked_is (e_ci env) jti (db_revoked d))"

definition revoked_purge :: "instant \<Rightarrow> revoked_access_token list \<Rightarrow> revoked_access_token list" where
  "revoked_purge now rows = filter (\<lambda>r. \<not> ra_expires_at r \<le> now) rows"

section \<open>The verification\<close>

definition issuer_of :: "env \<Rightarrow> tenant_id \<Rightarrow> string" where
  "issuer_of env t = tenant_issuer (e_uuid_str env) (e_base_issuer env) t"

definition unavailable :: "domain_error \<Rightarrow> access_token_rejection" where
  "unavailable e = TokUnavailable (error_display e)"

definition verify_issued :: "env \<Rightarrow> verifier \<Rightarrow> tenant_id \<Rightarrow> string \<Rightarrow> (db, access_token_rejection, access_token_claims) action" where
  "verify_issued env vr t token =
     bindE (liftR (ok_or TokMalformed (vr_decode_header vr token))) (\<lambda>(typ, hkid).
     bindE (guardE (typ = Some ''at+jwt'') TokNotAnAccessToken) (\<lambda>_.
     bindE (liftR (ok_or TokMissingKeyId hkid)) (\<lambda>kid.
     bindE (mapErrE unavailable (repo_key_find env vr kid)) (\<lambda>found.
     bindE (liftR (ok_or TokUnknownSigningKey found)) (\<lambda>key.
     bindE (liftR (map_err TokUnavailable (decoding_key_for vr (sr_algorithm key) (sr_public_key key)))) (\<lambda>(dk, alg).
     bindE (liftR (ok_or TokInvalidSignature (vr_decode vr alg dk token))) (\<lambda>claims.
     if at_iss claims \<noteq> issuer_of env t then failE TokIssuerMismatch else retE claims)))))))"

definition access_is_expired :: "verifier \<Rightarrow> access_token_claims \<Rightarrow> bool" where
  "access_is_expired vr claims \<longleftrightarrow> at_exp claims + num_seconds (vr_clock_skew vr) \<le> timestamp (vr_now vr)"

definition verify_for_userinfo :: "env \<Rightarrow> verifier \<Rightarrow> tenant_id \<Rightarrow> string \<Rightarrow> (db, access_token_rejection, access_token_claims) action" where
  "verify_for_userinfo env vr t token =
     bindE (verify_issued env vr t token) (\<lambda>claims.
     bindE (guardE (at_aud claims = userinfo_audience (issuer_of env t)) TokAudienceMismatch) (\<lambda>_.
     bindE (guardE (\<not> access_is_expired vr claims) TokExpired) (\<lambda>_.
     bindE (if at_jti claims \<noteq> [] then mapErrE unavailable (repo_revoked_is env (at_jti claims)) else retE False) (\<lambda>revoked.
     if revoked then failE TokRevoked else retE claims))))"

section \<open>What verification establishes\<close>

text \<open>The claims a token carries under the stored keys.\<close>

definition token_claims :: "env \<Rightarrow> verifier \<Rightarrow> string \<Rightarrow> access_token_claims option" where
  "token_claims env vr token =
     Option.bind (vr_decode_header vr token) (\<lambda>(typ, hkid).
     if typ \<noteq> Some ''at+jwt'' then None else
     Option.bind hkid (\<lambda>kid.
     Option.bind (find (\<lambda>k. e_ci env (sr_kid k) = e_ci env kid) (vr_keys vr)) (\<lambda>key.
     Option.bind (res_ok (decoding_key_for vr (sr_algorithm key) (sr_public_key key))) (\<lambda>(dk, alg).
     vr_decode vr alg dk token))))"

lemma verify_issued_Inr_iff:
  "verify_issued env vr t token d = (Inr claims, d') \<longleftrightarrow>
     d' = d \<and> e_fault env ''signing_keys.find_by_kid'' = None \<and> token_claims env vr token = Some claims \<and> at_iss claims = issuer_of env t"
  by (auto simp: verify_issued_def token_claims_def bindE_Inr_iff repo_key_find_def Inr_eq_iff res_ok_Some_iff bind_eq_Some_conv
      split: prod.splits if_splits)

lemma keeps_verify_issued [action_inv]: "keeps f (verify_issued env vr t token)"
  unfolding verify_issued_def repo_key_find_def by (intro action_inv)

lemma keeps_verify_for_userinfo [action_inv]: "keeps f (verify_for_userinfo env vr t token)"
  unfolding verify_for_userinfo_def repo_revoked_is_def by (intro action_inv)

lemma verify_for_userinfo_state: "verify_for_userinfo env vr t token d = (r, d') \<Longrightarrow> d' = d"
  using keepsD [OF keeps_verify_for_userinfo [of "\<lambda>x. x"]] by simp

definition usable_token :: "env \<Rightarrow> verifier \<Rightarrow> tenant_id \<Rightarrow> string \<Rightarrow> access_token_claims \<Rightarrow> bool" where
  "usable_token env vr t token claims \<longleftrightarrow>
     token_claims env vr token = Some claims \<and> at_iss claims = issuer_of env t
     \<and> at_aud claims = userinfo_audience (issuer_of env t) \<and> \<not> access_is_expired vr claims"

definition no_verifier_faults :: "env \<Rightarrow> bool" where
  "no_verifier_faults env \<longleftrightarrow> e_fault env ''signing_keys.find_by_kid'' = None \<and> e_fault env ''revoked_access_tokens.is_revoked'' = None"

lemma verify_for_userinfo_Inr:
  "verify_for_userinfo env vr t token d = (Inr claims, d') \<Longrightarrow>
     d' = d \<and> usable_token env vr t token claims \<and> (at_jti claims \<noteq> [] \<longrightarrow> \<not> revoked_is (e_ci env) (at_jti claims) (db_revoked d))"
  by (auto simp: verify_for_userinfo_def usable_token_def bindE_Inr_iff verify_issued_Inr_iff repo_revoked_is_def split: if_splits)

lemma verify_for_userinfo_accepts:
  assumes "no_verifier_faults env" "usable_token env vr t token claims"
    and "at_jti claims \<noteq> [] \<longrightarrow> \<not> revoked_is (e_ci env) (at_jti claims) (db_revoked d)"
  shows "verify_for_userinfo env vr t token d = (Inr claims, d)"
  using assms
  by (auto simp: verify_for_userinfo_def usable_token_def no_verifier_faults_def bindE_Inr_iff verify_issued_Inr_iff repo_revoked_is_def)

lemma revoked_is_iff: "revoked_is ci jti rows \<longleftrightarrow> (\<exists>x \<in> set rows. ci (ra_jti x) = ci jti)"
  by (auto simp: revoked_is_def filter_empty_conv)

lemma revoked_after_insert: "revoked_is ci jti (revoked_insert ci r rows) \<longleftrightarrow> revoked_is ci jti rows \<or> ci (ra_jti r) = ci jti"
  by (auto simp: revoked_is_iff revoked_insert_def list_ex_iff)

lemma revoked_after_purge:
  "revoked_is ci jti (revoked_purge now rows) \<longleftrightarrow> (\<exists>x \<in> set rows. ci (ra_jti x) = ci jti \<and> now < ra_expires_at x)"
  by (auto simp: revoked_is_iff revoked_purge_def not_le)

section \<open>Tokens the provider signs\<close>

text \<open>What the code relies on of the JWT library and of the key store: a token encoded under the signing key has the header
  it was given, and the stored public key of that \<open>kid\<close> decodes it to the encoded claims.\<close>

definition reads_back :: "env \<Rightarrow> verifier \<Rightarrow> bool" where
  "reads_back env vr \<longleftrightarrow>
     (\<forall>alg pem kid typ claims token. e_jwt_encode env alg pem kid typ claims = Some token \<longrightarrow>
        vr_decode_header vr token = Some (Some typ, Some kid))
     \<and> (\<forall>key. e_active_signing_key env = Inr key \<longrightarrow>
        (\<exists>row alg dk. find (\<lambda>k. e_ci env (sr_kid k) = e_ci env (sk_kid key)) (vr_keys vr) = Some row
           \<and> decoding_key_for vr (sr_algorithm row) (sr_public_key row) = Inr (dk, alg)
           \<and> (\<forall>claims token. e_jwt_encode env alg (sk_private_pem key) (sk_kid key) ''at+jwt'' (AccessClaims claims) = Some token \<longrightarrow>
                vr_decode vr alg dk token = Some claims)
           \<and> sk_algorithm key = enum_as_str signing_algorithm_table alg))"

end
