(* ===== verification/Token_Services.thy ===== *)
theory Token_Services
  imports Access_Token
begin

text \<open>
  The endpoints that accept tokens: \<open>/userinfo\<close> (\<open>application/userinfo.rs\<close>), \<open>/introspect\<close>
  (\<open>application/introspection.rs\<close>) and \<open>/revoke\<close> (\<open>application/revocation.rs\<close>).

  Introspection and revocation treat a repository error as an inactive token or as nothing revoked; these
  branches are kept (\<open>tryE\<close>).  \<open>tracing\<close> output is left out.
\<close>

section \<open>UserInfo\<close>

record user_info_claims =
  ui_sub :: string
  ui_email :: "string option"
  ui_email_verified :: "bool option"
  ui_preferred_username :: "string option"
  ui_name :: "string option"

datatype presented_access_token = Bearer string | Dpop string "string option"

fun presented_token_string :: "presented_access_token \<Rightarrow> string" where
  "presented_token_string (Bearer token) = token"
| "presented_token_string (Dpop token _) = token"

datatype user_info_error = InvalidToken string | UiInvalidDpopProof string | InsufficientScope | UiInternal string

fun userinfo_rejection :: "access_token_rejection \<Rightarrow> user_info_error" where
  "userinfo_rejection (TokUnavailable e) = UiInternal e"
| "userinfo_rejection other = InvalidToken (rejection_reason other)"

fun userinfo_dpop_failure :: "dpop_proof_failure \<Rightarrow> user_info_error" where
  "userinfo_dpop_failure (DpopRejected r) = UiInvalidDpopProof (dpop_reason r)"
| "userinfo_dpop_failure (DpopUnavailable e) = UiInternal e"

definition check_key_binding ::
  "env \<Rightarrow> tenant_id \<Rightarrow> access_token_claims \<Rightarrow> presented_access_token \<Rightarrow> (db, user_info_error, unit) action" where
  "check_key_binding env t claims presented =
     (case (claims_dpop_jkt claims, presented) of
        (None, Bearer _) \<Rightarrow> retE ()
      | (None, Dpop _ _) \<Rightarrow> failE (InvalidToken ''the access token is not bound to a key; use the Bearer scheme'')
      | (Some _, Bearer _) \<Rightarrow> failE (InvalidToken ''the access token is bound to a key; use the DPoP scheme with a proof'')
      | (Some _, Dpop _ None) \<Rightarrow> failE (UiInvalidDpopProof ''a DPoP proof is required'')
      | (Some bound, Dpop token (Some proof)) \<Rightarrow>
          bindE (mapErrE userinfo_dpop_failure (dpop_verify env proof ''GET'' (issuer_of env t @ ''/userinfo'') (Some token))) (\<lambda>verified.
          guardE (vd_jkt verified = bound) (UiInvalidDpopProof ''the DPoP proof was made by another key'')))"

definition repo_user_find_by_sub :: "env \<Rightarrow> uuid \<Rightarrow> (db, domain_error, user option) action" where
  "repo_user_find_by_sub env sub = db_query env ''users.find_by_sub'' (\<lambda>d. find (\<lambda>u. u_sub u = sub) (db_users d))"

definition user_info_for :: "env \<Rightarrow> string list \<Rightarrow> user \<Rightarrow> user_info_claims" where
  "user_info_for env scopes user =
     (let has = (\<lambda>s. enum_as_str scope_table s \<in> set scopes)
      in \<lparr>ui_sub = e_uuid_str env (u_sub user),
          ui_email = (if has Email then Some (u_email user) else None),
          ui_email_verified = (if has Email then Some (u_email_verified user) else None),
          ui_preferred_username = (if has Profile then u_preferred_username user else None),
          ui_name = (if has Profile then u_name user else None)\<rparr>)"

definition userinfo ::
  "env \<Rightarrow> verifier \<Rightarrow> tenant_id \<Rightarrow> presented_access_token \<Rightarrow> (db, user_info_error, user_info_claims) action" where
  "userinfo env vr t presented =
     bindE (mapErrE userinfo_rejection (verify_for_userinfo env vr t (presented_token_string presented))) (\<lambda>claims.
     bindE (check_key_binding env t claims presented) (\<lambda>_.
     bindE (guardE (\<not> subject_is_client claims) (InvalidToken ''client_credentials tokens have no end-user subject'')) (\<lambda>_.
     let scopes = split_whitespace (at_scope claims) in
     bindE (guardE (enum_as_str scope_table OpenId \<in> set scopes) InsufficientScope) (\<lambda>_.
     bindE (liftR (ok_or (InvalidToken ''invalid subject'') (vr_parse_uuid vr (at_sub claims)))) (\<lambda>sub.
     bindE (mapErrE (\<lambda>e. UiInternal (error_display e)) (repo_user_find_by_sub env sub)) (\<lambda>found.
     bindE (liftR (ok_or (InvalidToken ''unknown subject'') found)) (\<lambda>user.
     bindE (guardE (user_is_active user) (InvalidToken ''user is not active'')) (\<lambda>_.
     retE (user_info_for env scopes user)))))))))"

section \<open>Introspection\<close>

record introspection_response =
  in_active :: bool
  in_scope :: "string option"
  in_client_id :: "string option"
  in_username :: "string option"
  in_token_type :: "string option"
  in_exp :: "int option"
  in_iat :: "int option"
  in_sub :: "string option"
  in_iss :: "string option"
  in_jti :: "string option"
  in_cnf_jkt :: "string option"

definition inactive :: introspection_response where
  "inactive = \<lparr>in_active = False, in_scope = None, in_client_id = None, in_username = None, in_token_type = None, in_exp = None,
     in_iat = None, in_sub = None, in_iss = None, in_jti = None, in_cnf_jkt = None\<rparr>"

record service_error =
  se_code :: oauth_error_code
  se_description :: string

definition service_error_new :: "oauth_error_code \<Rightarrow> string \<Rightarrow> service_error" where
  "service_error_new c s = \<lparr>se_code = c, se_description = s\<rparr>"

definition introspect_authenticate ::
  "env \<Rightarrow> tenant_id \<Rightarrow> presented_client_credentials \<Rightarrow> (db, service_error, client) action" where
  "introspect_authenticate env t cr =
     bindE (liftR (map_err (\<lambda>_. service_error_new InvalidRequest ''client credentials must be presented with a single authentication method'')
              (ensure_single_method cr))) (\<lambda>_.
     bindE (liftR (map_err (\<lambda>_. service_error_new InvalidClient ''client authentication is required for introspection'')
              (credentials_resolve_client_id (e_jwt env) cr))) (\<lambda>client_id.
     bindE (mapErrE (\<lambda>e. service_error_new InvalidClient (error_display e)) (repo_client_find env t client_id)) (\<lambda>found.
     bindE (liftR (ok_or (service_error_new InvalidClient ''unknown client'') found)) (\<lambda>client.
     bindE (guardE (client_is_active client) (service_error_new InvalidClient ''client is disabled'')) (\<lambda>_.
     bindE (mapErrE (\<lambda>e. case e of AuthFailed _ \<Rightarrow> service_error_new InvalidClient ''client authentication failed''
                         | AuthInternal _ \<Rightarrow> service_error_new ServerError ''internal server error'')
              (client_authenticate env t client cr)) (\<lambda>outcome.
     bindE (guardE (outcome = OutcomeAuthenticated) (service_error_new InvalidClient ''introspection requires a confidential client'')) (\<lambda>_.
     retE client)))))))"

definition client_subject_is_active :: "env \<Rightarrow> tenant_id \<Rightarrow> string \<Rightarrow> (db, 'e, bool) action" where
  "client_subject_is_active env t sub =
     bindE (tryE (repo_client_find env t sub)) (\<lambda>found.
     retE (case found of Inr (Some client) \<Rightarrow> client_is_active client | _ \<Rightarrow> False))"

definition subject_is_active :: "env \<Rightarrow> verifier \<Rightarrow> string \<Rightarrow> (db, 'e, bool) action" where
  "subject_is_active env vr sub =
     (case vr_parse_uuid vr sub of
        None \<Rightarrow> retE False
      | Some uid \<Rightarrow>
          bindE (tryE (repo_user_find_by_sub env uid)) (\<lambda>found.
          retE (case found of Inr (Some user) \<Rightarrow> user_is_active user | _ \<Rightarrow> False)))"

definition active_access :: "access_token_claims \<Rightarrow> introspection_response" where
  "active_access claims =
     \<lparr>in_active = True, in_scope = Some (at_scope claims), in_client_id = Some (at_client_id claims), in_username = None,
      in_token_type = Some (if at_cnf_jkt claims \<noteq> None then ''DPoP'' else ''Bearer''), in_exp = Some (at_exp claims), in_iat = Some (at_iat claims),
      in_sub = Some (at_sub claims), in_iss = Some (at_iss claims), in_jti = Some (at_jti claims), in_cnf_jkt = at_cnf_jkt claims\<rparr>"

definition introspect_access_token :: "env \<Rightarrow> verifier \<Rightarrow> tenant_id \<Rightarrow> string \<Rightarrow> (db, 'e, introspection_response) action" where
  "introspect_access_token env vr t token =
     bindE (tryE (verify_for_userinfo env vr t token)) (\<lambda>verified.
     case verified of
       Inl _ \<Rightarrow> retE inactive
     | Inr claims \<Rightarrow>
         bindE (if subject_is_client claims then client_subject_is_active env t (at_sub claims)
                else subject_is_active env vr (at_sub claims)) (\<lambda>active.
         retE (if active then active_access claims else inactive)))"

definition active_refresh :: "env \<Rightarrow> string \<Rightarrow> refresh_token \<Rightarrow> user \<Rightarrow> introspection_response" where
  "active_refresh env issuer rt user =
     \<lparr>in_active = True, in_scope = Some (join '' '' (rt_scope rt)), in_client_id = Some (rt_client_id rt), in_username = None,
      in_token_type = Some ''refresh_token'', in_exp = Some (timestamp (rt_expires_at rt)), in_iat = None,
      in_sub = Some (e_uuid_str env (u_sub user)), in_iss = Some issuer, in_jti = None, in_cnf_jkt = rt_dpop_jkt rt\<rparr>"

definition introspect_refresh_token :: "env \<Rightarrow> tenant_id \<Rightarrow> string \<Rightarrow> string \<Rightarrow> (db, 'e, introspection_response) action" where
  "introspect_refresh_token env t token issuer =
     bindE (tryE (repo_refresh_find env t (sha256_hex (e_lib env) token))) (\<lambda>found.
     case found of
       Inr (Some rt) \<Rightarrow>
         if \<not> rt_is_valid_at rt (e_now env) then retE inactive
         else bindE (tryE (repo_user_find env (rt_user_id rt))) (\<lambda>user.
           retE (case user of Inr (Some u) \<Rightarrow> if user_is_active u then active_refresh env issuer rt u else inactive | _ \<Rightarrow> inactive))
     | _ \<Rightarrow> retE inactive)"

definition introspect ::
  "env \<Rightarrow> verifier \<Rightarrow> tenant_id \<Rightarrow> string \<Rightarrow> string option \<Rightarrow> presented_client_credentials \<Rightarrow> (db, service_error, introspection_response) action" where
  "introspect env vr t token token_type_hint cr =
     bindE (introspect_authenticate env t cr) (\<lambda>_.
     if token = [] then retE inactive
     else let issuer = issuer_of env t in
       if token_type_hint = Some ''refresh_token'' then
         bindE (introspect_refresh_token env t token issuer) (\<lambda>resp.
         if in_active resp then retE resp else introspect_access_token env vr t token)
       else
         bindE (introspect_access_token env vr t token) (\<lambda>resp.
         if in_active resp then retE resp else introspect_refresh_token env t token issuer))"

section \<open>Revocation\<close>

definition revoke_load_client ::
  "env \<Rightarrow> request_context \<Rightarrow> tenant_id \<Rightarrow> presented_client_credentials \<Rightarrow> (db, service_error, client) action" where
  "revoke_load_client env ctx t cr =
     bindE (liftR (map_err (\<lambda>_. service_error_new InvalidRequest ''client credentials must be presented with a single authentication method'')
              (ensure_single_method cr))) (\<lambda>_.
     bindE (liftR (map_err (\<lambda>f. service_error_new (if f = ClientIdMismatch then InvalidRequest else InvalidClient) ''client_id is required'')
              (credentials_resolve_client_id (e_jwt env) cr))) (\<lambda>client_id.
     bindE (mapErrE (\<lambda>e. service_error_new ServerError (error_display e)) (repo_client_find env t client_id)) (\<lambda>found.
     bindE (liftR (ok_or (service_error_new InvalidClient ''unknown client'') found)) (\<lambda>client.
     bindE (guardE (client_is_active client) (service_error_new InvalidClient ''client is disabled'')) (\<lambda>_.
     bindE (tryE (client_authenticate env t client cr)) (\<lambda>outcome.
     case outcome of
       Inr _ \<Rightarrow> retE client
     | Inl (AuthFailed _) \<Rightarrow>
         bindE (audit_record env ctx ''client.authentication_failed'' AuditFailure (Some t) None (Some (c_client_id client)) (Some ''revocation'')) (\<lambda>_.
         failE (service_error_new InvalidClient ''client authentication failed''))
     | Inl (AuthInternal _) \<Rightarrow> failE (service_error_new ServerError ''internal server error'')))))))"

definition not_your_token :: service_error where
  "not_your_token = service_error_new UnauthorizedClient ''the token was not issued to this client''"

definition try_revoke_refresh_token :: "env \<Rightarrow> tenant_id \<Rightarrow> string \<Rightarrow> client \<Rightarrow> (db, service_error, bool) action" where
  "try_revoke_refresh_token env t token client =
     (let h = sha256_hex (e_lib env) token in
      bindE (tryE (repo_refresh_find env t h)) (\<lambda>found.
      case found of
        Inr (Some stored) \<Rightarrow>
          if rt_client_id stored \<noteq> c_client_id client then failE not_your_token
          else bindE (tryE (repo_refresh_revoke env h (e_now env))) (\<lambda>revoked.
            retE (case revoked of Inr n \<Rightarrow> n > 0 | Inl _ \<Rightarrow> False))
      | _ \<Rightarrow> retE False))"

definition try_revoke_access_token :: "env \<Rightarrow> verifier \<Rightarrow> tenant_id \<Rightarrow> string \<Rightarrow> client \<Rightarrow> (db, service_error, bool) action" where
  "try_revoke_access_token env vr t token client =
     bindE (tryE (verify_issued env vr t token)) (\<lambda>verified.
     case verified of
       Inl _ \<Rightarrow> retE False
     | Inr claims \<Rightarrow>
         if at_client_id claims \<noteq> c_client_id client then failE not_your_token
         else if at_jti claims = [] \<or> access_is_expired vr claims then retE True
         else (case from_timestamp (e_jwt env) (at_exp claims) of
             None \<Rightarrow> retE False
           | Some expires_at \<Rightarrow>
               bindE (tryE (repo_revoked_insert env \<lparr>ra_jti = at_jti claims, ra_revoked_at = e_now env, ra_expires_at = expires_at\<rparr>)) (\<lambda>r.
               retE (case r of Inr _ \<Rightarrow> True | Inl _ \<Rightarrow> False))))"

definition revoke ::
  "env \<Rightarrow> verifier \<Rightarrow> request_context \<Rightarrow> tenant_id \<Rightarrow> string \<Rightarrow> string option \<Rightarrow> presented_client_credentials \<Rightarrow> (db, service_error, unit) action" where
  "revoke env vr ctx t token token_type_hint cr =
     (if token = [] then retE ()
      else bindE (revoke_load_client env ctx t cr) (\<lambda>client.
        bindE (if token_type_hint = Some ''access_token'' then
                 bindE (try_revoke_access_token env vr t token client) (\<lambda>done.
                 if \<not> done then try_revoke_refresh_token env t token client else retE True)
               else
                 bindE (try_revoke_refresh_token env t token client) (\<lambda>done.
                 if \<not> done then try_revoke_access_token env vr t token client else retE True)) (\<lambda>_.
        audit_record env ctx ''refresh_token.used'' AuditSuccess (Some t) None (Some (c_client_id client)) (Some ''revocation''))))"

end
