(* ===== verification/Token_Lifecycle.thy ===== *)
theory Token_Lifecycle
  imports Token_Services Token_Samples
begin

text \<open>
  The life of an access token across the endpoints: issued by \<open>/token\<close>, accepted by \<open>/userinfo\<close>, reported by \<open>/introspect\<close>,
  ended by \<open>/revoke\<close>.  The last theorem shows where a revocation does not last: the row that records it is
  removed when the token expires, while verification still accepts the token for the clock skew.
\<close>

section \<open>Issued tokens are accepted\<close>

lemma token_claims_later [simp]: "token_claims env (vr\<lparr>vr_now := n\<rparr>) token = token_claims env vr token"
  by (simp add: token_claims_def decoding_key_for_def cong: if_cong)

lemma signing_tables: "enum_as_str signing_algorithm_table Rs256 = ''RS256''" "enum_as_str signing_algorithm_table Es256 = ''ES256''"
  by (simp_all add: signing_algorithm_table_def)

lemma signed_token_claims:
  assumes "reads_back env vr" "sign_access_token env claims = Inr token"
  shows "token_claims env vr token = Some claims"
proof -
  from assms(2) obtain key where key: "e_active_signing_key env = Inr key" "jwt_sign env key ''at+jwt'' (AccessClaims claims) = Some token"
    by (auto simp: sign_access_token_def sign_token_def rbind_Inr_iff map_err_Inr_iff Inr_eq_iff)
  from assms(1) key(1) obtain row alg dk where row: "find (\<lambda>k. e_ci env (sr_kid k) = e_ci env (sk_kid key)) (vr_keys vr) = Some row"
    and dk: "decoding_key_for vr (sr_algorithm row) (sr_public_key row) = Inr (dk, alg)"
    and dec: "\<And>claims token. e_jwt_encode env alg (sk_private_pem key) (sk_kid key) ''at+jwt'' (AccessClaims claims) = Some token \<Longrightarrow>
        vr_decode vr alg dk token = Some claims"
    and alg: "sk_algorithm key = enum_as_str signing_algorithm_table alg"
    unfolding reads_back_def by blast
  have enc: "e_jwt_encode env alg (sk_private_pem key) (sk_kid key) ''at+jwt'' (AccessClaims claims) = Some token"
    using key(2) alg by (cases alg) (auto simp: jwt_sign_def signing_tables)
  then have "vr_decode_header vr token = Some (Some ''at+jwt'', Some (sk_kid key))"
    using assms(1) unfolding reads_back_def by blast
  then show ?thesis
    using row dk dec [OF enc] by (simp add: token_claims_def)
qed

text \<open>What \<open>/userinfo\<close> needs of the database when a token is presented: the token's \<open>jti\<close> is not revoked and its subject is an
  active user.\<close>

definition subject_known :: "env \<Rightarrow> db \<Rightarrow> access_token_claims \<Rightarrow> uuid \<Rightarrow> user \<Rightarrow> bool" where
  "subject_known env d claims sub user \<longleftrightarrow>
     \<not> revoked_is (e_ci env) (at_jti claims) (db_revoked d) \<and> find (\<lambda>u. u_sub u = sub) (db_users d) = Some user \<and> user_is_active user"

lemma userinfo_accepts:
  assumes "no_verifier_faults env" "e_fault env ''users.find_by_sub'' = None" "usable_token env vr t token claims"
    and "claims_dpop_jkt claims = None" "\<not> subject_is_client claims" "''openid'' \<in> set (split_whitespace (at_scope claims))"
    and "vr_parse_uuid vr (at_sub claims) = Some sub" "subject_known env d claims sub user"
  shows "userinfo env vr t (Bearer token) d = (Inr (user_info_for env (split_whitespace (at_scope claims)) user), d)"
proof -
  have "verify_for_userinfo env vr t token d = (Inr claims, d)"
    using assms(1,3,8) by (intro verify_for_userinfo_accepts) (auto simp: subject_known_def)
  moreover have "enum_as_str scope_table OpenId = ''openid''"
    by (simp add: scope_table_def)
  ultimately show ?thesis
    using assms(2,4-8)
    by (auto simp: userinfo_def bindE_Inr_iff check_key_binding_def repo_user_find_by_sub_def subject_known_def Let_def)
qed

text \<open>What the answer of \<open>/userinfo\<close> may say of the user under the granted scopes.\<close>

definition discloses :: "env \<Rightarrow> string list \<Rightarrow> user \<Rightarrow> user_info_claims \<Rightarrow> bool" where
  "discloses env scopes u info \<longleftrightarrow>
     ui_sub info = e_uuid_str env (u_sub u)
     \<and> ui_email info = (if ''email'' \<in> set scopes then Some (u_email u) else None)
     \<and> ui_email_verified info = (if ''email'' \<in> set scopes then Some (u_email_verified u) else None)
     \<and> ui_preferred_username info = (if ''profile'' \<in> set scopes then u_preferred_username u else None)
     \<and> ui_name info = (if ''profile'' \<in> set scopes then u_name u else None)"

lemma user_info_discloses: "discloses env scopes u (user_info_for env scopes u)"
  by (simp add: discloses_def user_info_for_def Let_def scope_table_def)

text \<open>(C26) A token that was issued can be used: after a successful code exchange without DPoP whose grant includes \<open>openid\<close>, the access
  token is accepted as a bearer token by \<open>/userinfo\<close> of the same tenant at every moment before its expiry plus the clock skew,
  as long as it has not been revoked and the subject is an active user; the answer names the user the code
  was issued for, gives the address only under \<open>email\<close>, the names only under \<open>profile\<close>, and says nothing else.  Relied on: the JWT
  library reads back what it encoded under the stored signing key, UUIDs parse to what was printed, and the scopes of the grant
  are plain words.\<close>

theorem issued_token_accepted:
  assumes "exchange env ctx t cmd d = (Inr tok, d1)" "tc_grant_type cmd = Some ''authorization_code''" "tc_dpop_proof cmd = None"
    and "codes_inv (db_codes d)" "\<forall>r \<in> set (db_codes d). ''openid'' \<in> set (g_scope (co_grant r)) \<and> (\<forall>s \<in> set (g_scope (co_grant r)). ws_free s \<and> s \<noteq> [])"
    and "reads_back env vr" "\<forall>u. vr_parse_uuid vr (e_uuid_str env u) = Some u"
    and "no_verifier_faults env" "e_fault env ''users.find_by_sub'' = None"
    and "timestamp (vr_now vr) < timestamp (e_now env) + u64_as_i64 (e_access_token_ttl env) + num_seconds (vr_clock_skew vr)"
  shows "\<exists>r user claims. r \<in> set (db_codes d) \<and> active_user_of d (au_user_id (co_authentication r)) user
    \<and> token_claims env vr (is_access_token tok) = Some claims
    \<and> (\<forall>d2 now_user. subject_known env d2 claims (u_sub user) now_user \<longrightarrow>
         (\<exists>info. userinfo env vr t (Bearer (is_access_token tok)) d2 = (Inr info, d2)
            \<and> discloses env (g_scope (co_grant r)) now_user info))"
proof -
  obtain client_id r user ac where r: "r \<in> set (db_codes d)" "active_user_of d (au_user_id (co_authentication r)) user"
    and s: "Inr (is_access_token tok) = sign_access_token env ac"
    and ac: "access_claims_for env t client_id user (g_scope (co_grant r)) None ac"
    using code_grant_justified [OF assms(1,2,4)] assms(3) by fastforce
  have tc: "token_claims env vr (is_access_token tok) = Some ac"
    by (rule signed_token_claims [OF assms(6) s [symmetric]])
  have sp: "split_whitespace (at_scope ac) = g_scope (co_grant r)"
    using ac bspec [OF assms(5) r(1)] by (simp add: access_claims_for_def split_whitespace_join)
  have "usable_token env vr t (is_access_token tok) ac"
    using tc ac assms(10) by (simp add: usable_token_def access_claims_for_def issuer_of_def userinfo_audience_def access_is_expired_def)
  then have "userinfo env vr t (Bearer (is_access_token tok)) d2 = (Inr (user_info_for env (g_scope (co_grant r)) u2), d2)"
    if "subject_known env d2 ac (u_sub user) u2" for d2 u2
    using userinfo_accepts [OF assms(8,9) _ _ _ _ _ that] sp ac bspec [OF assms(5) r(1)] assms(7)
    by (simp add: access_claims_for_def claims_dpop_jkt_def)
  then show ?thesis using r tc user_info_discloses by blast
qed

section \<open>Introspection\<close>

lemma introspect_authenticate_Inr:
  assumes "introspect_authenticate env t cr d = (Inr c, d')"
  shows "core d' = core d \<and> client_is_active c \<and> c_client_type c = Confidential \<and> client_proved env t c cr d"
proof -
  from assms obtain client_id where f: "client_find_by_client_id (e_ci env) t client_id (db_clients d) = Some c" and a: "client_is_active c"
    and au: "client_authenticate env t c cr d = (Inr OutcomeAuthenticated, d')"
    by (auto simp: introspect_authenticate_def bindE_Inr_iff repo_client_find_def)
  have "c_client_type c = Confidential"
    using au by (cases "c_client_type c") (auto simp: client_authenticate_def bindE_Inr_iff select_credential_def)
  then show ?thesis
    using a client_authenticate_proved [OF au] keepsD [OF keeps_client_authenticate au] by simp
qed

lemma db_query_try: "db_query env op f d = (r, d') \<Longrightarrow> d' = d \<and> (\<forall>x. r = Inr x \<longrightarrow> x = f d)"
  by (auto simp: db_query_def db_call_def getsE_def failE_def split: option.splits)

lemma client_subject_Inr:
  assumes "client_subject_is_active env t sub d = (Inr b, d')"
  shows "d' = d \<and> (b \<longrightarrow> (\<exists>c. client_find_by_client_id (e_ci env) t sub (db_clients d) = Some c \<and> client_is_active c))"
proof -
  obtain r d0 where q: "repo_client_find env t sub d = (r, d0)" by (cases "repo_client_find env t sub d")
  then show ?thesis
    using assms db_query_try [OF q [unfolded repo_client_find_def]]
    by (auto simp: client_subject_is_active_def bindE_Inr_iff split: sum.splits option.splits)
qed

lemma user_subject_Inr:
  assumes "subject_is_active env vr sub d = (Inr b, d')"
  shows "d' = d \<and> (b \<longrightarrow> (\<exists>i u. vr_parse_uuid vr sub = Some i \<and> find (\<lambda>u. u_sub u = i) (db_users d) = Some u \<and> user_is_active u))"
proof (cases "vr_parse_uuid vr sub")
  case None
  then show ?thesis using assms by (simp add: subject_is_active_def)
next
  case (Some i)
  obtain r d0 where q: "repo_user_find_by_sub env i d = (r, d0)" by (cases "repo_user_find_by_sub env i d")
  then show ?thesis
    using Some assms db_query_try [OF q [unfolded repo_user_find_by_sub_def]]
    by (auto simp: subject_is_active_def bindE_Inr_iff split: sum.splits option.splits)
qed

text \<open>The two kinds of credentials that work, with the answer that describes them.\<close>

definition live_access :: "env \<Rightarrow> verifier \<Rightarrow> tenant_id \<Rightarrow> string \<Rightarrow> db \<Rightarrow> introspection_response \<Rightarrow> bool" where
  "live_access env vr t token d resp \<longleftrightarrow>
     (\<exists>claims. usable_token env vr t token claims \<and> resp = active_access claims
        \<and> (at_jti claims \<noteq> [] \<longrightarrow> \<not> revoked_is (e_ci env) (at_jti claims) (db_revoked d))
        \<and> (if subject_is_client claims then (\<exists>c. client_find_by_client_id (e_ci env) t (at_sub claims) (db_clients d) = Some c \<and> client_is_active c)
           else (\<exists>sub u. vr_parse_uuid vr (at_sub claims) = Some sub \<and> find (\<lambda>u. u_sub u = sub) (db_users d) = Some u \<and> user_is_active u)))"

definition live_refresh :: "env \<Rightarrow> tenant_id \<Rightarrow> string \<Rightarrow> string \<Rightarrow> db \<Rightarrow> introspection_response \<Rightarrow> bool" where
  "live_refresh env t token issuer d resp \<longleftrightarrow>
     (\<exists>rt u. rt_find_by_hash t (sha256_hex (e_lib env) token) (db_refresh d) = Some rt \<and> rt_is_valid_at rt (e_now env)
        \<and> user_find_by_id (rt_user_id rt) (db_users d) = Some u \<and> user_is_active u \<and> resp = active_refresh env issuer rt u)"

lemma introspect_access_Inr:
  assumes "introspect_access_token env vr t token d = (Inr resp :: 'e + introspection_response, d')"
  shows "d' = d \<and> (in_active resp \<longrightarrow> live_access env vr t token d resp)"
proof -
  from assms obtain v d0 where v0: "verify_for_userinfo env vr t token d = (v, d0)"
    and rest0: "(case v of Inl _ \<Rightarrow> retE inactive
     | Inr claims \<Rightarrow>
         bindE (if subject_is_client claims then client_subject_is_active env t (at_sub claims)
                else subject_is_active env vr (at_sub claims)) (\<lambda>active.
         retE (if active then active_access claims else inactive))) d0 = (Inr resp :: 'e + introspection_response, d')"
    unfolding introspect_access_token_def bindE_Inr_iff tryE_iff by blast
  have "d0 = d" using v0 by (rule verify_for_userinfo_state)
  note v = v0 [unfolded this] and rest = rest0 [unfolded this]
  show ?thesis
  proof (cases v)
    case (Inl e)
    then show ?thesis using rest by (auto simp: inactive_def)
  next
    case (Inr claims)
    then obtain b :: bool and d1 where b: "((if subject_is_client claims then client_subject_is_active env t (at_sub claims)
                else subject_is_active env vr (at_sub claims)) :: (db, 'e, bool) action) d = (Inr b, d1)"
      and r: "d' = d1" "resp = (if b then active_access claims else inactive)"
      using rest by (auto simp: bindE_Inr_iff)
    show ?thesis
    proof (cases "subject_is_client claims")
      case True
      then show ?thesis using b r verify_for_userinfo_Inr [OF v [unfolded Inr]] client_subject_Inr [of env t "at_sub claims" d b d1]
        by (auto simp: inactive_def live_access_def)
    next
      case False
      then show ?thesis using b r verify_for_userinfo_Inr [OF v [unfolded Inr]] user_subject_Inr [of env vr "at_sub claims" d b d1]
        by (auto simp: inactive_def live_access_def)
    qed
  qed
qed

lemma introspect_refresh_Inr:
  assumes "introspect_refresh_token env t token issuer d = (Inr resp :: 'e + introspection_response, d')"
  shows "d' = d \<and> (in_active resp \<longrightarrow> live_refresh env t token issuer d resp)"
  using assms
  by (auto simp: live_refresh_def introspect_refresh_token_def bindE_Inr_iff repo_refresh_find_def repo_user_find_def inactive_def db_query_def db_call_def getsE_def failE_def
      split: if_splits option.splits sum.splits)

lemmas introspect_access_state = introspect_access_Inr [THEN conjunct1]
lemmas introspect_refresh_state = introspect_refresh_Inr [THEN conjunct1]

lemma first_active:
  assumes "bindE m (\<lambda>r. if in_active r then retE r else n) d = (Inr resp, d')"
    and "\<And>r e. m d = (Inr r, e) \<Longrightarrow> e = d" "\<And>r e. n d = (Inr r, e) \<Longrightarrow> e = d"
  shows "d' = d \<and> (in_active resp \<longrightarrow> m d = (Inr resp, d) \<or> n d = (Inr resp, d))"
proof -
  from assms(1) obtain x e where x: "m d = (Inr x, e)"
    and y: "(if in_active x then retE x else n) e = (Inr resp, d')"
    by (auto simp: bindE_Inr_iff)
  from assms(2) [OF x] have "e = d" .
  with x y assms(3) show ?thesis by (cases "in_active x") auto
qed

text \<open>(C27) Introspection says \<open>active\<close> only of credentials that work: the caller is an active confidential client that has
  authenticated, and the token is either an access token of this tenant whose signature, audience and expiry verify, whose \<open>jti\<close>
  is not revoked and whose subject (user or client) is active, or a stored refresh token of this tenant that is neither
  revoked nor expired, of an active user; the answer carries that token's data, and nothing but the replay guard of client
  assertions changes.\<close>

theorem introspection_sound:
  assumes "introspect env vr t token hint cr d = (Inr resp, d')"
  shows "core d' = core d \<and> (\<exists>c. client_is_active c \<and> c_client_type c = Confidential \<and> client_proved env t c cr d) \<and>
    (in_active resp \<longrightarrow> live_access env vr t token d resp \<or> live_refresh env t token (issuer_of env t) d resp)"
proof -
  from assms obtain c d1 where a: "introspect_authenticate env t cr d = (Inr c, d1)"
    and rest: "(if token = [] then retE inactive
     else let issuer = issuer_of env t in
       if hint = Some ''refresh_token'' then
         bindE (introspect_refresh_token env t token issuer) (\<lambda>resp.
         if in_active resp then retE resp else introspect_access_token env vr t token)
       else
         bindE (introspect_access_token env vr t token) (\<lambda>resp.
         if in_active resp then retE resp else introspect_refresh_token env t token issuer)) d1 = (Inr resp :: service_error + introspection_response, d')"
    unfolding introspect_def bindE_Inr_iff by blast
  note a' = introspect_authenticate_Inr [OF a]
  then have cf: "db_clients d1 = db_clients d" "db_users d1 = db_users d" "db_refresh d1 = db_refresh d" "db_revoked d1 = db_revoked d"
    using core_fields [of d1 d] by simp_all
  have "d' = d1 \<and> (in_active resp \<longrightarrow> introspect_access_token env vr t token d1 = (Inr resp :: service_error + introspection_response, d1) \<or>
      introspect_refresh_token env t token (issuer_of env t) d1 = (Inr resp :: service_error + introspection_response, d1))"
  proof (cases "token = []")
    case True
    then show ?thesis using rest by (simp add: inactive_def)
  next
    case False
    show ?thesis
    proof (cases "hint = Some ''refresh_token''")
      case True
      with rest False have "bindE (introspect_refresh_token env t token (issuer_of env t))
          (\<lambda>r. if in_active r then retE r else introspect_access_token env vr t token) d1 = (Inr resp :: service_error + introspection_response, d')"
        by (simp add: Let_def)
      from this introspect_refresh_state introspect_access_state
      have "d' = d1 \<and> (in_active resp \<longrightarrow> introspect_refresh_token env t token (issuer_of env t) d1 = (Inr resp :: service_error + introspection_response, d1) \<or>
          introspect_access_token env vr t token d1 = (Inr resp :: service_error + introspection_response, d1))"
        by (rule first_active)
      then show ?thesis by blast
    next
      case h: False
      with rest False have "bindE (introspect_access_token env vr t token)
          (\<lambda>r. if in_active r then retE r else introspect_refresh_token env t token (issuer_of env t)) d1 = (Inr resp :: service_error + introspection_response, d')"
        by (simp add: Let_def)
      from this introspect_access_state introspect_refresh_state
      have "d' = d1 \<and> (in_active resp \<longrightarrow> introspect_access_token env vr t token d1 = (Inr resp :: service_error + introspection_response, d1) \<or>
          introspect_refresh_token env t token (issuer_of env t) d1 = (Inr resp :: service_error + introspection_response, d1))"
        by (rule first_active)
      then show ?thesis by blast
    qed
  qed
  then show ?thesis
    using a' introspect_access_Inr [where 'e = service_error, of env vr t token d1 resp d1]
      introspect_refresh_Inr [where 'e = service_error, of env t token "issuer_of env t" d1 resp d1]
    unfolding live_access_def live_refresh_def cf by blast
qed

section \<open>Revocation\<close>

lemma revoke_load_client_core: "keeps core (revoke_load_client env ctx t cr)"
proof -
  have "keeps core (case e of AuthFailed _ \<Rightarrow> bindE (audit_record env ctx ty res (Some t) None c reason) (\<lambda>_. failE x) | AuthInternal _ \<Rightarrow> failE y)"
    for e ty res c reason and x y :: service_error
    by (cases e) (auto intro!: action_inv keeps_failE)
  then show ?thesis
    unfolding revoke_load_client_def by (intro action_inv keeps_case_sum)
qed

lemma keeps_try_revoke_access: "keeps db_refresh (try_revoke_access_token env vr t token c)"
  unfolding try_revoke_access_token_def
  by (intro action_inv keeps_case_sum keeps_case_option) (auto simp: repo_revoked_insert_def modifyE_def intro!: keepsI action_inv)

definition fault_free :: "env \<Rightarrow> bool" where
  "fault_free env \<longleftrightarrow> (\<forall>op. e_fault env op = None)"

lemma revoked_access_row:
  assumes "try_revoke_access_token env vr t token c d = (Inr b, d')" "fault_free env"
    and "token_claims env vr token = Some claims" "at_iss claims = issuer_of env t" "at_jti claims \<noteq> []" "\<not> access_is_expired vr claims"
    and "jl_timestamp_in_range (e_jwt env) (at_exp claims)"
  shows "revoked_is (e_ci env) (at_jti claims) (db_revoked d')"
proof -
  have "verify_issued env vr t token d = (Inr claims, d)"
    using assms(2-4) by (simp add: verify_issued_Inr_iff fault_free_def)
  then show ?thesis
    using assms(1,2,5-7)
    by (auto simp: try_revoke_access_token_def bindE_Inr_iff from_timestamp_def repo_revoked_insert_def fault_free_def db_call_def modifyE_def
        revoked_after_insert split: if_splits)
qed

lemma revoked_not_accepted:
  assumes "token_claims env vr token = Some claims" "at_jti claims \<noteq> []" "revoked_is (e_ci env) (at_jti claims) (db_revoked d)"
  shows "verify_for_userinfo env (vr\<lparr>vr_now := n\<rparr>) t token d \<noteq> (Inr x, d'')"
proof
  assume "verify_for_userinfo env (vr\<lparr>vr_now := n\<rparr>) t token d = (Inr x, d'')"
  from verify_for_userinfo_Inr [OF this] have "token_claims env vr token = Some x"
    "at_jti x \<noteq> [] \<longrightarrow> \<not> revoked_is (e_ci env) (at_jti x) (db_revoked d)"
    by (simp_all add: usable_token_def)
  then show False using assms by simp
qed

lemma revoked_not_introspected:
  assumes "token_claims env vr token = Some claims" "at_jti claims \<noteq> []" "revoked_is (e_ci env) (at_jti claims) (db_revoked d)"
    and "introspect_access_token env (vr\<lparr>vr_now := n\<rparr>) t token d = (Inr resp :: service_error + introspection_response, d'')"
  shows "\<not> in_active resp"
  using introspect_access_Inr [OF assms(4)] assms(1-3) by (auto simp: live_access_def usable_token_def)

lemma revoked_is_mono: "revoked_is ci j rows \<Longrightarrow> set rows \<subseteq> set rows' \<Longrightarrow> revoked_is ci j rows'"
  by (auto simp: revoked_is_def filter_empty_conv)

text \<open>(C28) Revocation takes effect at once and stays: when \<open>/revoke\<close> answers with success for a live access token of this tenant,
  no statement of the database having failed (the code answers success even when the insert fails), whatever the type hint, the
  token's \<open>jti\<close> is recorded; from then on, in every state that still holds the recorded rows and at any time, \<open>/userinfo\<close> does not
  accept the token and its introspection as an access token does not say active.\<close>

theorem revocation_effective:
  assumes "revoke env vr ctx t token hint cr d = (Inr (), d')" "token \<noteq> []" "fault_free env"
    and "token_claims env vr token = Some claims" "at_iss claims = issuer_of env t" "at_jti claims \<noteq> []" "\<not> access_is_expired vr claims"
    and "jl_timestamp_in_range (e_jwt env) (at_exp claims)"
    and "rt_find_by_hash t (sha256_hex (e_lib env) token) (db_refresh d) = None"
  shows "revoked_is (e_ci env) (at_jti claims) (db_revoked d')
    \<and> (\<forall>d2 n. set (db_revoked d') \<subseteq> set (db_revoked d2) \<longrightarrow>
         (\<forall>x d''. verify_for_userinfo env (vr\<lparr>vr_now := n\<rparr>) t token d2 \<noteq> (Inr x, d''))
         \<and> (\<forall>resp d''. introspect_access_token env (vr\<lparr>vr_now := n\<rparr>) t token d2 = (Inr resp :: service_error + introspection_response, d'')
              \<longrightarrow> \<not> in_active resp))"
proof -
  have af: "db_revoked e' = db_revoked e" if "audit_record env ctx ty res tt u cc reason e = (r, e')" for ty res tt u cc reason r e e'
    using audit_record_same [OF that] same_data_fields by blast
  from assms(1,2) obtain c d1 b d2 where l: "revoke_load_client env ctx t cr d = (Inr c, d1)"
    and m: "(if hint = Some ''access_token'' then
                 bindE (try_revoke_access_token env vr t token c) (\<lambda>done.
                 if \<not> done then try_revoke_refresh_token env t token c else retE True)
               else
                 bindE (try_revoke_refresh_token env t token c) (\<lambda>done.
                 if \<not> done then try_revoke_access_token env vr t token c else retE True)) d1 = (Inr b, d2)"
    and d': "db_revoked d' = db_revoked d2"
    by (auto simp: revoke_def bindE_Inr_iff dest: af)
  have "db_refresh d1 = db_refresh d" using keepsD [OF revoke_load_client_core l] core_fields by blast
  then have f: "repo_refresh_find env t (sha256_hex (e_lib env) token) e = (Inr None, e)" if "db_refresh e = db_refresh d1" for e
    using assms(3,9) that by (simp add: repo_refresh_find_def fault_free_def)
  have nr: "try_revoke_refresh_token env t token c e = (Inr False, e)" if "db_refresh e = db_refresh d1" for e
    using f [OF that] by (auto simp: try_revoke_refresh_token_def Let_def bindE_Inr_iff)
  have row: "revoked_is (e_ci env) (at_jti claims) (db_revoked e')" and ref: "db_refresh e' = db_refresh e"
    if "try_revoke_access_token env vr t token c e = (Inr x, e')" for x e e'
    using revoked_access_row [OF that assms(3-8)] keepsD [OF keeps_try_revoke_access that] by simp_all
  have "revoked_is (e_ci env) (at_jti claims) (db_revoked d2)"
  proof (cases "hint = Some ''access_token''")
    case True
    then obtain x e1 where x: "try_revoke_access_token env vr t token c d1 = (Inr x, e1)"
      and y: "(if \<not> x then try_revoke_refresh_token env t token c else retE True) e1 = (Inr b, d2)"
      using m by (auto simp: bindE_Inr_iff)
    have "d2 = e1" using y nr [OF ref [OF x]] by (auto split: if_splits)
    then show ?thesis using row [OF x] by simp
  next
    case False
    then have "try_revoke_access_token env vr t token c d1 = (Inr b, d2)"
      using m nr [OF refl] by (auto simp: bindE_Inr_iff)
    then show ?thesis by (rule row)
  qed
  with d' have r: "revoked_is (e_ci env) (at_jti claims) (db_revoked d')" by simp
  have later: "revoked_is (e_ci env) (at_jti claims) (db_revoked d2)" if "set (db_revoked d') \<subseteq> set (db_revoked d2)" for d2
    using revoked_is_mono [OF r that] .
  show ?thesis
    using r revoked_not_accepted [OF assms(4,6) later] revoked_not_introspected [OF assms(4,6) later] by blast
qed

text \<open>(C39) A revocation does not outlast the token's \<open>exp\<close>, but the token does: the row that records it carries \<open>exp\<close> and
  is purged from that moment on, while verification accepts the token until \<open>exp\<close> plus the clock skew.  A token that is refused
  as revoked is accepted again after a purge that runs in between.\<close>

theorem revoked_token_revives:
  assumes "no_verifier_faults env" "usable_token env vr t token claims" "at_jti claims \<noteq> []"
    and "revoked_is (e_ci env) (at_jti claims) (db_revoked d)"
    and "\<forall>r \<in> set (db_revoked d). e_ci env (ra_jti r) = e_ci env (at_jti claims) \<longrightarrow> from_timestamp (e_jwt env) (at_exp claims) = Some (ra_expires_at r)"
    and "secs (at_exp claims) \<le> vr_now vr"
  shows "verify_for_userinfo env vr t token d = (Inl TokRevoked, d)
    \<and> (let d' = d\<lparr>db_revoked := revoked_purge (vr_now vr) (db_revoked d)\<rparr> in verify_for_userinfo env vr t token d' = (Inr claims, d'))"
proof -
  have v: "verify_issued env vr t token d = (Inr claims, d)"
    using assms(1,2) by (simp add: verify_issued_Inr_iff usable_token_def no_verifier_faults_def)
  have "verify_for_userinfo env vr t token d = (Inl TokRevoked, d)"
    using v assms(1-4) by (simp add: verify_for_userinfo_def bindE_def guardE_def retE_def failE_def usable_token_def repo_revoked_is_def
        no_verifier_faults_def db_query_def db_call_def getsE_def mapErrE_def)
  moreover have "\<not> revoked_is (e_ci env) (at_jti claims) (revoked_purge (vr_now vr) (db_revoked d))"
    using assms(5,6) by (auto simp: revoked_after_purge from_timestamp_def split: if_splits)
  ultimately show ?thesis
    using verify_for_userinfo_accepts [OF assms(1,2)] by (simp add: Let_def)
qed

section \<open>A sample life\<close>

text \<open>A JWT library that encodes just one access token and the ID tokens, under one stored key.\<close>

definition life_base :: env where
  "life_base = token_env\<lparr>e_uuid_str := (\<lambda>u. replicate u CHR ''1'')\<rparr>"

definition life_claims :: access_token_claims where
  "life_claims = user_access_claims life_base 1 ''app'' ''openid offline_access'' sample_user None"

definition life_env :: env where
  "life_env = life_base\<lparr>e_jwt_encode := (\<lambda>_ _ kid typ c.
     if kid = ''k'' \<and> typ = ''at+jwt'' \<and> c = AccessClaims life_claims then Some ''T''
     else if kid = ''k'' \<and> typ = ''JWT'' then Some ''I'' else None)\<rparr>"

definition life_verifier :: "instant \<Rightarrow> verifier" where
  "life_verifier now = \<lparr>vr_decode_header = (\<lambda>s. if s = ''T'' then Some (Some ''at+jwt'', Some ''k'') else if s = ''I'' then Some (Some ''JWT'', Some ''k'') else None),
     vr_keys = [\<lparr>sr_kid = ''k'', sr_algorithm = ''RS256'', sr_public_key = ''pub'', sr_private_key_encrypted = ''enc'', sr_status = KeyActive,
                 sr_not_before = 0, sr_not_after = secs 1000, sr_created_at = 0, sr_updated_at = 0\<rparr>],
     vr_load_public = (\<lambda>_ pem. Inr pem), vr_decode = (\<lambda>_ _ s. if s = ''T'' then Some life_claims else None),
     vr_parse_uuid = (\<lambda>s. Some (length s)), vr_now = now, vr_clock_skew = secs 60\<rparr>"

lemma life_reads_back: "reads_back life_env (life_verifier now)"
  by (auto simp: reads_back_def life_env_def life_base_def life_verifier_def token_env_def decoding_key_for_def signing_tables split: if_splits)

lemma life_faults: "fault_free life_env" "no_verifier_faults life_env" "e_fault life_env op = None"
  by (simp_all add: fault_free_def no_verifier_faults_def life_env_def life_base_def token_env_def)

lemma life_token_claims: "token_claims life_env (life_verifier now) ''T'' = Some life_claims"
  by (simp add: token_claims_def life_verifier_def life_env_def life_base_def token_env_def decoding_key_for_def)

lemma life_claims_fields:
  "at_iss life_claims = issuer_of life_env 1" "at_aud life_claims = userinfo_audience (issuer_of life_env 1)" "at_exp life_claims = 300"
  "at_jti life_claims = ''a''"
  by (simp_all add: life_claims_def user_access_claims_def Let_def issuer_of_def life_env_def life_base_def token_env_def timestamp_def nanos_per_sec_def
      u64_as_i64_def)

lemma life_usable: "n < 360 \<Longrightarrow> usable_token life_env (life_verifier (secs n)) 1 ''T'' life_claims"
  by (simp add: usable_token_def life_token_claims life_claims_fields access_is_expired_def)
    (simp add: life_verifier_def timestamp_def num_seconds_def secs_def nanos_per_sec_def)

lemma life_exchange: "is_ok (exchange life_env token_ctx 1 token_cmd token_db)"
  by code_simp

theorem issued_token_accepted_witness:
  "\<exists>tok d1 info. exchange life_env token_ctx 1 token_cmd token_db = (Inr tok, d1)
     \<and> userinfo life_env (life_verifier (secs 330)) 1 (Bearer (is_access_token tok)) token_db = (Inr info, token_db)"
proof -
  obtain tok d1 where e: "exchange life_env token_ctx 1 token_cmd token_db = (Inr tok, d1)"
    using life_exchange by (rule is_okE)
  let ?vr = "life_verifier (secs 330)"
  have c: "codes_inv (db_codes token_db)" "tc_grant_type token_cmd = Some ''authorization_code''" "tc_dpop_proof token_cmd = None"
    by (simp_all add: token_db_def codes_inv_def token_cmd_def)
  have sc: "\<forall>r \<in> set (db_codes token_db). ''openid'' \<in> set (g_scope (co_grant r)) \<and> (\<forall>s \<in> set (g_scope (co_grant r)). ws_free s \<and> s \<noteq> [])"
    by (auto simp: token_db_def token_code_def ws_free_def byte_val_def ascii_ws_def)
  have u: "\<forall>x. vr_parse_uuid ?vr (e_uuid_str life_env x) = Some x"
    by (simp add: life_verifier_def life_env_def life_base_def)
  have n: "timestamp (vr_now ?vr) < timestamp (e_now life_env) + u64_as_i64 (e_access_token_ttl life_env) + num_seconds (vr_clock_skew ?vr)"
    by (simp add: life_verifier_def life_env_def life_base_def token_env_def timestamp_def num_seconds_def secs_def nanos_per_sec_def u64_as_i64_def)
  from issued_token_accepted [OF e c(2,3,1) sc life_reads_back u life_faults(2) life_faults(3) n]
  obtain r :: authorization_code and user :: user and claims :: access_token_claims where a: "active_user_of token_db (au_user_id (co_authentication r)) user"
      "\<forall>d2 u2. subject_known life_env d2 claims (u_sub user) u2 \<longrightarrow>
         (\<exists>info. userinfo life_env ?vr 1 (Bearer (is_access_token tok)) d2 = (Inr info, d2) \<and> discloses life_env (g_scope (co_grant r)) u2 info)"
    by blast
  have "user = sample_user"
    using a(1) by (auto simp: active_user_of_def token_db_def user_find_by_id_def split: if_splits)
  then have "subject_known life_env token_db claims (u_sub user) sample_user"
    by (simp add: subject_known_def revoked_is_def user_is_active_def sample_user_def token_db_def)
  with a(2) e show ?thesis by blast
qed

theorem revoked_token_revives_witness:
  "\<exists>d. revoked_is id ''a'' (db_revoked d) \<and> verify_for_userinfo life_env (life_verifier (secs 330)) 1 ''T'' d = (Inl TokRevoked, d)
     \<and> (\<exists>d'. verify_for_userinfo life_env (life_verifier (secs 330)) 1 ''T'' d' = (Inr life_claims, d'))"
proof -
  let ?d = "token_db\<lparr>db_revoked := [\<lparr>ra_jti = ''a'', ra_revoked_at = 0, ra_expires_at = secs 300\<rparr>]\<rparr>" and ?vr = "life_verifier (secs 330)"
  have ci: "e_ci life_env = id" "from_timestamp (e_jwt life_env) 300 = Some (300 * nanos_per_sec)"
    by (simp_all add: life_env_def life_base_def token_env_def from_timestamp_def sample_jwt_def secs_def)
  have r: "revoked_is id ''a'' (db_revoked ?d)" by (simp add: revoked_is_def)
  have n: "vr_now ?vr = secs 330" by (simp add: life_verifier_def)
  have "verify_for_userinfo life_env ?vr 1 ''T'' ?d = (Inl TokRevoked, ?d)
    \<and> (let d' = ?d\<lparr>db_revoked := revoked_purge (vr_now ?vr) (db_revoked ?d)\<rparr> in verify_for_userinfo life_env ?vr 1 ''T'' d' = (Inr life_claims, d'))"
    by (rule revoked_token_revives [OF life_faults(2) life_usable])
      (use r in \<open>simp_all add: life_claims_fields ci life_verifier_def secs_def nanos_per_sec_def\<close>)
  then show ?thesis using r unfolding Let_def by blast
qed

definition app_credentials :: presented_client_credentials where
  "app_credentials = tc_credentials token_cmd"

definition service_credentials :: presented_client_credentials where
  "service_credentials = app_credentials\<lparr>cr_body_client_id := Some ''svc'', cr_body_client_secret := Some ''s''\<rparr>"

theorem revocation_effective_witness:
  "\<exists>d'. revoke life_env (life_verifier (secs 10)) token_ctx 1 ''T'' None app_credentials token_db = (Inr (), d') \<and> revoked_is id ''a'' (db_revoked d')"
proof -
  have "is_ok (revoke life_env (life_verifier (secs 10)) token_ctx 1 ''T'' None app_credentials token_db)" by code_simp
  then obtain x d' where e: "revoke life_env (life_verifier (secs 10)) token_ctx 1 ''T'' None app_credentials token_db = (Inr x, d')"
    by (rule is_okE)
  have ci: "e_ci life_env = id" "jl_timestamp_in_range (e_jwt life_env) 300"
    by (simp_all add: life_env_def life_base_def token_env_def sample_jwt_def)
  have l: "\<not> access_is_expired (life_verifier (secs 10)) life_claims"
    using life_usable [of 10] by (simp add: usable_token_def)
  have f: "rt_find_by_hash 1 (sha256_hex (e_lib life_env) ''T'') (db_refresh token_db) = None" by code_simp
  have j: "at_jti life_claims \<noteq> []" "jl_timestamp_in_range (e_jwt life_env) (at_exp life_claims)" "''T'' \<noteq> []"
    by (simp_all add: life_claims_fields ci)
  have e': "revoke life_env (life_verifier (secs 10)) token_ctx 1 ''T'' None app_credentials token_db = (Inr (), d')" using e by simp
  from revocation_effective [OF e' j(3) life_faults(1) life_token_claims life_claims_fields(1) j(1) l j(2) f] e'
  show ?thesis by (auto simp: life_claims_fields ci)
qed

theorem introspection_sound_witness:
  "\<exists>resp d'. introspect life_env (life_verifier (secs 10)) 1 ''r'' (Some ''refresh_token'') service_credentials token_db = (Inr resp, d')
     \<and> core d' = core token_db"
proof -
  have "is_ok (introspect life_env (life_verifier (secs 10)) 1 ''r'' (Some ''refresh_token'') service_credentials token_db)" by code_simp
  then obtain resp d' where e: "introspect life_env (life_verifier (secs 10)) 1 ''r'' (Some ''refresh_token'') service_credentials token_db = (Inr resp, d')"
    by (rule is_okE)
  from introspection_sound [OF e] e show ?thesis by blast
qed

end
