(* ===== verification/Authorize.thy ===== *)
theory Authorize
  imports Client_Authentication
begin

text \<open>
  The authorization flow: restoring a single sign-on session (\<open>application/sso_restore.rs\<close>), the policy gate
  (\<open>application/authentication_policy_gate.rs\<close>), the authorization endpoint and its continuation
  (\<open>application/authorize.rs\<close>), consent (\<open>application/consent.rs\<close>), the issuance of codes
  (\<open>application/code_issuance.rs\<close>) and the end of a sign-in (\<open>application/sign_in_completion.rs\<close>).

  The clocks, lifetimes, fresh random values and tenant settings a request of the flow reads are fields of
  \<open>flow\<close>; \<open>fl_append_query\<close> is \<open>Url::parse\<close> with \<open>query_pairs_mut\<close> (\<open>None\<close> for a string that is no URL),
  \<open>fl_tenant_resolve\<close> the cached look-up of a tenant and \<open>fl_device_gate\<close> the gate of registered devices.
  An early \<open>return\<close> of an outcome is \<open>Inl\<close>; \<open>returning\<close> forgets how an outcome was returned.
\<close>

definition returning :: "('s, 'r, 'r) action \<Rightarrow> 's \<Rightarrow> 'r \<times> 's" where
  "returning m s = (case m s of (Inl r, s') \<Rightarrow> (r, s') | (Inr r, s') \<Rightarrow> (r, s'))"

record sso_session_lifetime =
  sl_idle :: duration
  sl_absolute :: duration
  sl_bound :: duration

datatype session_binding = Unbound | DeviceKey | AppApproval

datatype admission = Admitted | EnrollmentRequired string

record sign_in =
  si_tenant_id :: tenant_id
  si_user_id :: uuid
  si_home_tenant_id :: tenant_id
  si_methods :: "authentication_method list"
  si_client_id :: "string option"
  si_success_event :: string
  si_success_detail :: "string option"

record flow =
  fl_now :: instant
  fl_restore_now :: instant
  fl_issue_now :: instant
  fl_auth_session_ttl :: duration
  fl_code_ttl :: duration
  fl_handle :: string
  fl_id_start :: string
  fl_id_exchange :: string
  fl_id_completion :: string
  fl_code :: string
  fl_sso_id :: string
  fl_policy_default :: "tenant_id \<Rightarrow> domain_error + default_policy_effect"
  fl_sso_lifetime :: "tenant_id \<Rightarrow> domain_error + sso_session_lifetime"
  fl_tenant_resolve :: "tenant_id \<Rightarrow> domain_error + tenant option"
  fl_append_query :: "string \<Rightarrow> (string \<times> string) list \<Rightarrow> string option"
  fl_device_gate :: "(sign_in \<Rightarrow> bool \<Rightarrow> request_context \<Rightarrow> instant \<Rightarrow> (db, domain_error, admission) action) option"

section \<open>Repository calls\<close>

definition repo_sessions_create :: "env \<Rightarrow> auth_session \<Rightarrow> (db, domain_error, unit) action" where
  "repo_sessions_create env s = db_call env ''auth_sessions.create''
     (tryStateE (\<lambda>d. rbind (auth_session_create (e_db_now env) s (db_auth_sessions d)) (\<lambda>rows. Inr (d\<lparr>db_auth_sessions := rows\<rparr>))))"

definition repo_sessions_find :: "env \<Rightarrow> tenant_id \<Rightarrow> string \<Rightarrow> (db, domain_error, auth_session option) action" where
  "repo_sessions_find env t h =
     bindE (db_query env ''auth_sessions.find'' (\<lambda>d. auth_session_find t h (db_auth_sessions d))) liftR"

definition repo_sessions_find_by_handoff :: "env \<Rightarrow> tenant_id \<Rightarrow> string \<Rightarrow> (db, domain_error, auth_session option) action" where
  "repo_sessions_find_by_handoff env t h =
     bindE (db_query env ''auth_sessions.find_by_handoff'' (\<lambda>d. auth_session_find_by_handoff t h (db_auth_sessions d))) liftR"

definition repo_sessions_save_exchange :: "env \<Rightarrow> handoff_exchange \<Rightarrow> (db, domain_error, bool) action" where
  "repo_sessions_save_exchange env ex = db_call env ''auth_sessions.save_handoff_exchange''
     (\<lambda>d. case save_handoff_exchange (e_lib env) ex (db_auth_sessions d) of
        Inl e \<Rightarrow> (Inl e, d) | Inr (won, rows) \<Rightarrow> (Inr won, d\<lparr>db_auth_sessions := rows\<rparr>))"

definition repo_sessions_save_authentication :: "env \<Rightarrow> authentication_completion \<Rightarrow> (db, domain_error, unit) action" where
  "repo_sessions_save_authentication env c = db_call env ''auth_sessions.save_authentication''
     (tryStateE (\<lambda>d. rbind (save_authentication (e_lib env) c (db_auth_sessions d)) (\<lambda>rows. Inr (d\<lparr>db_auth_sessions := rows\<rparr>))))"

definition repo_sessions_delete :: "env \<Rightarrow> string \<Rightarrow> (db, domain_error, unit) action" where
  "repo_sessions_delete env h = db_call env ''auth_sessions.delete''
     (modifyE (\<lambda>d. d\<lparr>db_auth_sessions := auth_session_delete h (db_auth_sessions d)\<rparr>))"

definition repo_sso_find :: "env \<Rightarrow> string \<Rightarrow> (db, domain_error, sso_session option) action" where
  "repo_sso_find env h = db_query env ''sso_sessions.find_by_hash'' (\<lambda>d. sso_find_by_hash h (db_sso d))"

definition repo_sso_create :: "env \<Rightarrow> sso_session \<Rightarrow> (db, domain_error, unit) action" where
  "repo_sso_create env s = db_call env ''sso_sessions.create''
     (tryStateE (\<lambda>d. rbind (sso_create (e_db_now env) s (db_sso d)) (\<lambda>rows. Inr (d\<lparr>db_sso := rows\<rparr>))))"

definition repo_sso_delete :: "env \<Rightarrow> string \<Rightarrow> (db, domain_error, unit) action" where
  "repo_sso_delete env h = db_call env ''sso_sessions.delete'' (modifyE (\<lambda>d. d\<lparr>db_sso := sso_delete h (db_sso d)\<rparr>))"

definition repo_sso_extend_idle :: "env \<Rightarrow> string \<Rightarrow> instant \<Rightarrow> (db, domain_error, unit) action" where
  "repo_sso_extend_idle env h until = db_call env ''sso_sessions.extend_idle''
     (modifyE (\<lambda>d. d\<lparr>db_sso := sso_extend_idle h until (db_sso d)\<rparr>))"

definition repo_is_active_member :: "env \<Rightarrow> tenant_id \<Rightarrow> uuid \<Rightarrow> (db, domain_error, bool) action" where
  "repo_is_active_member env t u = db_query env ''memberships.is_active_member''
     (\<lambda>d. is_active_member t u (db_memberships d) (db_users d) (db_tenants d))"

definition repo_consent_find :: "env \<Rightarrow> tenant_id \<Rightarrow> uuid \<Rightarrow> string \<Rightarrow> (db, domain_error, client_consent option) action" where
  "repo_consent_find env t u c = db_query env ''consents.find'' (\<lambda>d. consent_find (e_ci env) t u c (db_consents d))"

definition repo_consent_upsert :: "env \<Rightarrow> client_consent \<Rightarrow> (db, domain_error, unit) action" where
  "repo_consent_upsert env c = db_call env ''consents.upsert''
     (modifyE (\<lambda>d. d\<lparr>db_consents := consent_upsert (e_ci env) c (db_consents d)\<rparr>))"

definition repo_policies_enabled :: "env \<Rightarrow> tenant_id \<Rightarrow> (db, domain_error, authentication_policy list) action" where
  "repo_policies_enabled env t = db_query env ''policies.list_enabled_for_tenant''
     (\<lambda>d. policy_list_enabled_for_tenant (e_ci env) t (db_policies d))"

definition repo_codes_create :: "env \<Rightarrow> authorization_code \<Rightarrow> (db, domain_error, unit) action" where
  "repo_codes_create env c = db_call env ''codes.create''
     (tryStateE (\<lambda>d. rbind (code_create (e_db_now env) c (db_codes d)) (\<lambda>rows. Inr (d\<lparr>db_codes := rows\<rparr>))))"

lemmas flow_repo_defs = repo_sessions_create_def repo_sessions_find_def repo_sessions_find_by_handoff_def
  repo_sessions_save_exchange_def repo_sessions_save_authentication_def repo_sessions_delete_def repo_sso_find_def
  repo_sso_create_def repo_sso_delete_def repo_sso_extend_idle_def repo_is_active_member_def repo_consent_find_def
  repo_consent_upsert_def repo_policies_enabled_def repo_codes_create_def

section \<open>Restoring a single sign-on session\<close>

record restored_sso =
  rs_user_id :: uuid
  rs_auth_time :: instant
  rs_session_hash :: string
  rs_authentication_methods :: "authentication_method list"
  rs_authentication_strength :: authentication_strength
  rs_mfa_completed_at :: "instant option"
  rs_absolute_ttl_secs :: nat

definition try_resume ::
  "env \<Rightarrow> flow \<Rightarrow> request_context \<Rightarrow> tenant_id \<Rightarrow> string \<Rightarrow> (db, domain_error, restored_sso option) action" where
  "try_resume env fl ctx t session_id =
     (let session_hash = sha256_hex (e_lib env) session_id; now = fl_restore_now fl in
      bindE (repo_sso_find env session_hash) (\<lambda>found.
      case found of None \<Rightarrow> retE None
      | Some session \<Rightarrow>
        if \<not> sso_is_valid_at session now then
          bindE (repo_sso_delete env session_hash) (\<lambda>_.
          bindE (audit_record env ctx ''sso_session.expired'' AuditFailure (Some t) (Some (ss_user_id session)) None
                   (Some ''idle or absolute timeout'')) (\<lambda>_.
          retE None))
        else
          bindE (repo_user_find env (ss_user_id session)) (\<lambda>user.
          case user of None \<Rightarrow> retE None
          | Some u \<Rightarrow>
            if \<not> (user_is_active u \<and> \<not> is_locked_at u now) then retE None
            else
              bindE (repo_is_active_member env t (ss_user_id session)) (\<lambda>member.
              if \<not> member then retE None
              else
                bindE (liftR (fl_sso_lifetime fl (u_tenant_id u))) (\<lambda>lifetime.
                bindE (repo_sso_extend_idle env session_hash (now + sl_idle lifetime)) (\<lambda>_.
                bindE (audit_record env ctx ''sso_session.resumed'' AuditSuccess (Some t) (Some (ss_user_id session)) None None) (\<lambda>_.
                retE (Some \<lparr>rs_user_id = ss_user_id session, rs_auth_time = ss_auth_time session, rs_session_hash = session_hash,
                   rs_authentication_methods = ss_authentication_methods session,
                   rs_authentication_strength = ss_authentication_strength session,
                   rs_mfa_completed_at = ss_mfa_completed_at session, rs_absolute_ttl_secs = absolute_ttl_secs session\<rparr>))))))))"

section \<open>The policy gate\<close>

datatype policy_audience = OidcClient string | Unaddressed

record policy_query =
  pq_tenant_id :: tenant_id
  pq_audience :: policy_audience
  pq_user_id :: uuid
  pq_ip_address :: "string option"
  pq_requested_acr :: "string list"
  pq_now :: instant

definition policy_decide :: "env \<Rightarrow> flow \<Rightarrow> policy_query \<Rightarrow> (db, domain_error, policy_decision) action" where
  "policy_decide env fl q =
     bindE (case pq_audience q of
              OidcClient client_id \<Rightarrow> bindE (repo_app_by_oidc_client env (pq_tenant_id q) client_id) (\<lambda>a. retE (map_option ap_id a))
            | Unaddressed \<Rightarrow> retE None) (\<lambda>application_id.
     bindE (liftR (fl_policy_default fl (pq_tenant_id q))) (\<lambda>default_effect.
     bindE (repo_policies_enabled env (pq_tenant_id q)) (\<lambda>policies.
     retE (evaluate_policies policies
       \<lparr>ac_application_id = application_id, ac_user_id = pq_user_id q, ac_ip_address = pq_ip_address q, ac_now = pq_now q,
        ac_requested_acr = pq_requested_acr q\<rparr> default_effect))))"

section \<open>Issuing a code\<close>

datatype code_issuance = CodeIssued string | CodeApplicationDenied string

definition issue_code ::
  "env \<Rightarrow> flow \<Rightarrow> request_context \<Rightarrow> tenant_id \<Rightarrow> authorization_request \<Rightarrow> authentication \<Rightarrow> (db, domain_error, code_issuance) action" where
  "issue_code env fl ctx t request a =
     bindE (application_check env ctx t (r_client_id request) (au_user_id a)) (\<lambda>gate.
     case gate of GateDenied name _ \<Rightarrow> retE (CodeApplicationDenied name)
     | GateAllowed \<Rightarrow>
       (let (row, code) = code_issue (e_lib env) (fl_code fl) t request a (fl_issue_now fl) (fl_code_ttl fl) in
        bindE (repo_codes_create env row) (\<lambda>_.
        bindE (audit_record env ctx ''authorization_code.issued'' AuditSuccess (Some t) (Some (au_user_id a))
                 (Some (r_client_id request)) None) (\<lambda>_.
        retE (CodeIssued code)))))"

section \<open>Consent\<close>

definition consent_is_granted ::
  "env \<Rightarrow> tenant_id \<Rightarrow> uuid \<Rightarrow> authorization_request \<Rightarrow> (db, domain_error, bool) action" where
  "consent_is_granted env t u request =
     (let needed = scopes_needing_consent request in
      if needed = [] then retE True
      else bindE (repo_consent_find env t u (r_client_id request)) (\<lambda>c.
        retE (case c of None \<Rightarrow> False | Some consent \<Rightarrow> consent_covers consent needed)))"

record authorization_dispatch =
  di_location :: string
  di_form_post :: "(string \<times> string) list option"

definition dispatch_of :: "authorization_response \<Rightarrow> authorization_dispatch" where
  "dispatch_of response =
     \<lparr>di_location = location response,
      di_form_post = (if is_form_post response then Some (ar_parameters response) else None)\<rparr>"

record consent_info =
  ci_auth_session_id :: string
  ci_client_name :: string
  ci_client_id :: string
  ci_requested_scopes :: "string list"
  ci_redirect_uri :: string

datatype consent_outcome =
    Approved authorization_dispatch
  | Denied authorization_dispatch
  | ConsentApplicationNotPermitted string
  | ConsentSessionExpired
  | ConsentInternal string

definition live_session :: "env \<Rightarrow> flow \<Rightarrow> tenant_id \<Rightarrow> string \<Rightarrow> (db, domain_error, auth_session option) action" where
  "live_session env fl t auth_session_id =
     (case from_presented auth_session_id of None \<Rightarrow> retE None
      | Some i \<Rightarrow>
        bindE (repo_sessions_find env t (id_hash_of_plain (e_lib env) i)) (\<lambda>found.
        case found of None \<Rightarrow> retE None
        | Some session \<Rightarrow>
          if auth_session_is_expired_at session (fl_now fl)
          then bindE (tryE (repo_sessions_delete env (as_id_hash session))) (\<lambda>_. retE None)
          else retE (Some session)))"

definition consent_screen :: "env \<Rightarrow> flow \<Rightarrow> tenant_id \<Rightarrow> string \<Rightarrow> (db, domain_error, consent_info option) action" where
  "consent_screen env fl t auth_session_id =
     bindE (live_session env fl t auth_session_id) (\<lambda>found.
     case found of None \<Rightarrow> retE None
     | Some session \<Rightarrow>
       if completed_authentication session = None then retE None
       else let request = as_request session in
         bindE (repo_client_find env t (r_client_id request)) (\<lambda>c.
         retE (Some \<lparr>ci_auth_session_id = auth_session_id,
            ci_client_name = (case c of Some x \<Rightarrow> c_app_name x | None \<Rightarrow> r_client_id request),
            ci_client_id = r_client_id request, ci_requested_scopes = scopes_needing_consent request,
            ci_redirect_uri = r_redirect_uri request\<rparr>)))"

definition consent_approve :: "env \<Rightarrow> flow \<Rightarrow> request_context \<Rightarrow> tenant_id \<Rightarrow> string \<Rightarrow> (db, consent_outcome, consent_outcome) action" where
  "consent_approve env fl ctx t auth_session_id =
     bindE (mapErrE (\<lambda>e. ConsentInternal (error_display e)) (live_session env fl t auth_session_id)) (\<lambda>found.
     bindE (liftR (ok_or ConsentSessionExpired found)) (\<lambda>session.
     bindE (liftR (ok_or ConsentSessionExpired (completed_authentication session))) (\<lambda>authentication.
     let request = as_request session; now = fl_now fl in
     bindE (mapErrE (\<lambda>e. ConsentInternal (error_display e)) (repo_consent_upsert env
        \<lparr>cs_user_id = au_user_id authentication, cs_tenant_id = t, cs_client_id = r_client_id request, cs_scopes = r_scope request,
         cs_granted_at = now, cs_updated_at = now\<rparr>)) (\<lambda>_.
     bindE (audit_record env ctx ''consent.granted'' AuditSuccess (Some t) (Some (au_user_id authentication))
              (Some (r_client_id request)) None) (\<lambda>_.
     bindE (mapErrE (\<lambda>e. ConsentInternal (error_display e)) (issue_code env fl ctx t request authentication)) (\<lambda>issuance.
     case issuance of CodeApplicationDenied name \<Rightarrow> retE (ConsentApplicationNotPermitted name)
     | CodeIssued code \<Rightarrow>
       bindE (tryE (repo_sessions_delete env (as_id_hash session))) (\<lambda>_.
       retE (Approved (dispatch_of (success_response request code))))))))))"

definition consent_deny :: "env \<Rightarrow> flow \<Rightarrow> request_context \<Rightarrow> tenant_id \<Rightarrow> string \<Rightarrow> (db, consent_outcome, consent_outcome) action" where
  "consent_deny env fl ctx t auth_session_id =
     bindE (mapErrE (\<lambda>e. ConsentInternal (error_display e)) (live_session env fl t auth_session_id)) (\<lambda>found.
     bindE (liftR (ok_or ConsentSessionExpired found)) (\<lambda>session.
     bindE (audit_record env ctx ''consent.denied'' AuditFailure (Some t) (identified_user session)
              (Some (r_client_id (as_request session))) (Some ''user_denied'')) (\<lambda>_.
     bindE (tryE (repo_sessions_delete env (as_id_hash session))) (\<lambda>_.
     retE (Denied (dispatch_of (error_response (as_request session) AccessDenied ''user denied consent'')))))))"

section \<open>The authorization endpoint\<close>

datatype authorize_outcome =
    HandoffToWeb string
  | AuthorizeErrorRedirect string
  | FatalError oauth_error_code string

text \<open>\<open>NON_ALPHANUMERIC\<close> of \<open>percent_encoding\<close>: every byte but letters and digits is escaped.\<close>

definition is_alnum :: "char \<Rightarrow> bool" where
  "is_alnum c \<longleftrightarrow> (let b = byte_val c in 65 \<le> b \<and> b \<le> 90 \<or> 97 \<le> b \<and> b \<le> 122 \<or> 48 \<le> b \<and> b \<le> 57)"

definition encode_non_alnum :: "string \<Rightarrow> string" where
  "encode_non_alnum s = concat (map (\<lambda>c. if is_alnum c then [c]
     else [CHR ''%'', hex_digit (byte_val c div 16), hex_digit (byte_val c mod 16)]) s)"

definition append_query :: "flow \<Rightarrow> string \<Rightarrow> (string \<times> string) list \<Rightarrow> string" where
  "append_query fl redirect_uri pairs =
     (case fl_append_query fl redirect_uri pairs of
        Some url \<Rightarrow> url
      | None \<Rightarrow> redirect_uri @ (if CHR ''?'' \<in> set redirect_uri then ''&'' else ''?'')
          @ join ''&'' (map (\<lambda>(key, v). key @ ''='' @ encode_non_alnum v) pairs))"

definition code_redirect :: "flow \<Rightarrow> string \<Rightarrow> string \<Rightarrow> string \<Rightarrow> string" where
  "code_redirect fl redirect_uri code state = append_query fl redirect_uri [(''code'', code), (''state'', state)]"

definition error_redirect_with_state :: "flow \<Rightarrow> string \<Rightarrow> oauth_error_code \<Rightarrow> string \<Rightarrow> string option \<Rightarrow> string" where
  "error_redirect_with_state fl redirect_uri err description state =
     append_query fl redirect_uri ([(''error'', oauth_error_as_str err), (''error_description'', description)]
       @ (case state of Some s \<Rightarrow> [(''state'', s)] | None \<Rightarrow> []))"

definition redirect_with_error :: "flow \<Rightarrow> authorization_request \<Rightarrow> oauth_error_code \<Rightarrow> string \<Rightarrow> string" where
  "redirect_with_error fl request err description =
     error_redirect_with_state fl (r_redirect_uri request) err description (Some (r_state request))"

definition handle_ttl_secs :: int where
  "handle_ttl_secs = 60"

definition authorize ::
  "env \<Rightarrow> flow \<Rightarrow> tenant_id \<Rightarrow> authorization_parameters \<Rightarrow> (db, authorize_outcome, authorize_outcome) action" where
  "authorize env fl t params =
     bindE (liftR (ok_or (FatalError InvalidRequest ''client_id is required'') (non_empty (p_client_id params)))) (\<lambda>client_id.
     bindE (mapErrE (\<lambda>_. FatalError ServerError ''internal error'') (repo_client_find env t client_id)) (\<lambda>found.
     bindE (liftR (ok_or (FatalError InvalidClient ''unknown client_id'') found)) (\<lambda>client.
     bindE (liftR (map_err (\<lambda>rejection. case rejection of
                NotRedirectable err description \<Rightarrow> FatalError err description
              | Redirectable redirect_uri state err description \<Rightarrow>
                  AuthorizeErrorRedirect (error_redirect_with_state fl redirect_uri err description state))
              (accept params client))) (\<lambda>request.
     let (session, handle) = auth_session_start (e_lib env) (fl_handle fl) (fl_id_start fl) t request (fl_now fl)
                               (fl_auth_session_ttl fl) (secs handle_ttl_secs) in
     bindE (mapErrE (\<lambda>_. AuthorizeErrorRedirect (redirect_with_error fl (as_request session) ServerError ''failed to start authorization''))
              (repo_sessions_create env session)) (\<lambda>_.
     retE (HandoffToWeb handle))))))"

section \<open>Resuming the flow\<close>

datatype resume_outcome =
    ResumeRedirect authorization_dispatch nat
  | ResumeErrorRedirect authorization_dispatch
  | ResumeConsentRequired string nat
  | ResumeLoginRequired string
  | ResumeApplicationNotPermitted string
  | ExpiredHandle
  | ResumeInternal string

definition resume_error :: "authorization_request \<Rightarrow> oauth_error_code \<Rightarrow> string \<Rightarrow> resume_outcome" where
  "resume_error request err description = ResumeErrorRedirect (dispatch_of (error_response request err description))"

definition exchange_handoff_action ::
  "env \<Rightarrow> flow \<Rightarrow> tenant_id \<Rightarrow> string \<Rightarrow> instant \<Rightarrow> (db, resume_outcome, auth_session \<times> string) action" where
  "exchange_handoff_action env fl t presented now =
     bindE (liftR (ok_or ExpiredHandle (from_presented presented))) (\<lambda>handle.
     bindE (mapErrE (\<lambda>e. ResumeInternal (error_display e)) (repo_sessions_find_by_handoff env t (handoff_hash (e_lib env) handle))) (\<lambda>found.
     bindE (liftR (ok_or ExpiredHandle found)) (\<lambda>stored.
     bindE (liftR (ok_or ExpiredHandle (exchange_handoff (e_lib env) (fl_id_exchange fl) stored now))) (\<lambda>(session, ex).
     bindE (mapErrE (\<lambda>e. ResumeInternal (error_display e)) (repo_sessions_save_exchange env ex)) (\<lambda>won.
     if won then retE (session, ir_issued (he_rotation ex)) else failE ExpiredHandle)))))"

datatype restored_policy = PolicyOk | Reauthenticate | PolicyDenied | PolicyInternal string

definition restored_verdict :: "policy_decision \<Rightarrow> authentication_method list \<Rightarrow> restored_policy" where
  "restored_verdict decision methods =
     (let user_verified = (WebAuthn \<in> set methods) in
      case decision of
        DenyDecision _ \<Rightarrow> PolicyDenied
      | RequireMfaDecision _ \<Rightarrow> if list_ex is_second_factor methods then PolicyOk else Reauthenticate
      | RequireMethodsDecision _ \<Rightarrow> if unmet_method_requirement decision methods user_verified = None then PolicyOk else Reauthenticate
      | AllowDecision _ \<Rightarrow> PolicyOk)"

definition evaluate_for_restored_session ::
  "env \<Rightarrow> flow \<Rightarrow> request_context \<Rightarrow> tenant_id \<Rightarrow> authorization_request \<Rightarrow> uuid \<Rightarrow> authentication_method list \<Rightarrow> instant
   \<Rightarrow> (db, 'e, restored_policy) action" where
  "evaluate_for_restored_session env fl ctx t request u methods now =
     bindE (tryE (policy_decide env fl \<lparr>pq_tenant_id = t, pq_audience = OidcClient (r_client_id request), pq_user_id = u,
        pq_ip_address = cx_ip_address ctx, pq_requested_acr = requested_acr request, pq_now = now\<rparr>)) (\<lambda>decided.
     case decided of Inl e \<Rightarrow> retE (PolicyInternal (error_display e))
     | Inr decision \<Rightarrow> retE (restored_verdict decision methods))"

definition check_consent :: "env \<Rightarrow> tenant_id \<Rightarrow> uuid \<Rightarrow> authorization_request \<Rightarrow> (db, 'e, bool) action" where
  "check_consent env t u request =
     bindE (tryE (consent_is_granted env t u request)) (\<lambda>r. retE (case r of Inr granted \<Rightarrow> granted | Inl _ \<Rightarrow> False))"

definition issue_restored_code ::
  "env \<Rightarrow> flow \<Rightarrow> request_context \<Rightarrow> tenant_id \<Rightarrow> auth_session \<Rightarrow> authentication \<Rightarrow> nat \<Rightarrow> (db, 'e, resume_outcome) action" where
  "issue_restored_code env fl ctx t session a ttl =
     (let request = as_request session in
      bindE (tryE (issue_code env fl ctx t request a)) (\<lambda>issued.
      case issued of
        Inr (CodeApplicationDenied name) \<Rightarrow>
          if forbids_interaction request
          then bindE (tryE (repo_sessions_delete env (as_id_hash session))) (\<lambda>_.
               retE (resume_error request AccessDenied ''application not permitted''))
          else retE (ResumeApplicationNotPermitted name)
      | Inr (CodeIssued code) \<Rightarrow>
          bindE (tryE (repo_sessions_delete env (as_id_hash session))) (\<lambda>_.
          retE (ResumeRedirect (dispatch_of (success_response request code)) ttl))
      | Inl _ \<Rightarrow> retE (resume_error request ServerError ''failed to issue authorization code'')))"

definition authorize_restored ::
  "env \<Rightarrow> flow \<Rightarrow> request_context \<Rightarrow> tenant_id \<Rightarrow> auth_session \<Rightarrow> authentication \<Rightarrow> nat \<Rightarrow> (db, 'e, resume_outcome) action" where
  "authorize_restored env fl ctx t session a ttl =
     (let request = as_request session in
      bindE (if forces_consent request then retE False else check_consent env t (au_user_id a) request) (\<lambda>consented.
      if consented then issue_restored_code env fl ctx t session a ttl
      else if forbids_interaction request
      then bindE (tryE (repo_sessions_delete env (as_id_hash session))) (\<lambda>_.
           retE (resume_error request ConsentRequired ''consent required''))
      else
        let (session', completion) = complete_authentication (e_lib env) (fl_id_completion fl) session a in
        bindE (tryE (repo_sessions_save_authentication env completion)) (\<lambda>saved.
        case saved of Inl _ \<Rightarrow> retE (resume_error (as_request session') ServerError ''failed to start consent'')
        | Inr _ \<Rightarrow> retE (ResumeConsentRequired (ir_issued (ac_rotation completion)) ttl))))"

text \<open>\<open>Some(outcome)\<close> ends the request and is \<open>Inl\<close>; \<open>None\<close>, the fall-back to a sign-in, is \<open>Inr ()\<close>.\<close>

definition complete_with_sso ::
  "env \<Rightarrow> flow \<Rightarrow> request_context \<Rightarrow> tenant_id \<Rightarrow> auth_session \<Rightarrow> string option \<Rightarrow> instant \<Rightarrow> (db, resume_outcome, unit) action" where
  "complete_with_sso env fl ctx t session sso_session_id now =
     (if forces_reauthentication (as_request session) then retE ()
      else case non_empty sso_session_id of None \<Rightarrow> retE ()
      | Some sso_id \<Rightarrow>
        bindE (tryE (try_resume env fl ctx t sso_id)) (\<lambda>r.
        case r of Inl _ \<Rightarrow> retE () | Inr None \<Rightarrow> retE ()
        | Inr (Some restored) \<Rightarrow>
          bindE (evaluate_for_restored_session env fl ctx t (as_request session) (rs_user_id restored)
                   (rs_authentication_methods restored) now) (\<lambda>verdict.
          case verdict of
            Reauthenticate \<Rightarrow> retE ()
          | PolicyDenied \<Rightarrow>
              bindE (tryE (repo_sessions_delete env (as_id_hash session))) (\<lambda>_.
              failE (resume_error (as_request session) AccessDenied ''denied by authentication policy''))
          | PolicyInternal e \<Rightarrow> failE (ResumeInternal e)
          | PolicyOk \<Rightarrow>
              if authentication_is_too_old (as_request session) (rs_auth_time restored) now then retE ()
              else bindE (authorize_restored env fl ctx t session
                \<lparr>au_user_id = rs_user_id restored, au_auth_time = rs_auth_time restored,
                 au_sso_sid = Some (sid_of (e_lib env) (rs_session_hash restored)),
                 au_methods = Some (rs_authentication_methods restored)\<rparr> (rs_absolute_ttl_secs restored)) failE)))"

record resume_command =
  rc_handle :: string
  rc_sso_session_id :: "string option"

definition resume :: "env \<Rightarrow> flow \<Rightarrow> request_context \<Rightarrow> tenant_id \<Rightarrow> resume_command \<Rightarrow> (db, resume_outcome, resume_outcome) action" where
  "resume env fl ctx t cmd =
     (let now = fl_now fl in
      bindE (exchange_handoff_action env fl t (rc_handle cmd) now) (\<lambda>(session, auth_session_id).
      bindE (complete_with_sso env fl ctx t session (rc_sso_session_id cmd) now) (\<lambda>_.
      if forbids_interaction (as_request session)
      then bindE (tryE (repo_sessions_delete env (as_id_hash session))) (\<lambda>_.
           retE (resume_error (as_request session) LoginRequired ''login required''))
      else retE (ResumeLoginRequired auth_session_id))))"

record continue_command =
  cc_auth_session_id :: string
  cc_sso_session_id :: "string option"

definition continue_with_sso ::
  "env \<Rightarrow> flow \<Rightarrow> request_context \<Rightarrow> tenant_id \<Rightarrow> continue_command \<Rightarrow> (db, resume_outcome, resume_outcome) action" where
  "continue_with_sso env fl ctx t cmd =
     (let now = fl_now fl in
      bindE (liftR (ok_or ExpiredHandle (from_presented (cc_auth_session_id cmd)))) (\<lambda>auth_session_id.
      bindE (mapErrE (\<lambda>e. ResumeInternal (error_display e)) (repo_sessions_find env t (id_hash_of_plain (e_lib env) auth_session_id))) (\<lambda>found.
      bindE (liftR (ok_or ExpiredHandle found)) (\<lambda>session.
      if auth_session_is_expired_at session now then retE ExpiredHandle
      else if as_progress session \<noteq> Anonymous then retE (ResumeLoginRequired auth_session_id)
      else bindE (complete_with_sso env fl ctx t session (cc_sso_session_id cmd) now) (\<lambda>_.
        retE (ResumeLoginRequired auth_session_id))))))"

record login_context =
  lc_login_hint :: "string option"
  lc_ui_locales :: "string option"
  lc_redirect_uri :: string
  lc_client_name :: "string option"
  lc_tenant_name :: "string option"

datatype login_context_outcome = LoginContextOk login_context | LoginContextExpired | LoginContextInternal string

definition login_context_of ::
  "env \<Rightarrow> flow \<Rightarrow> tenant_id \<Rightarrow> string \<Rightarrow> (db, login_context_outcome, login_context_outcome) action" where
  "login_context_of env fl t presented =
     bindE (liftR (ok_or LoginContextExpired (from_presented presented))) (\<lambda>i.
     bindE (mapErrE (\<lambda>e. LoginContextInternal (error_display e)) (repo_sessions_find env t (id_hash_of_plain (e_lib env) i))) (\<lambda>found.
     bindE (liftR (ok_or LoginContextExpired found)) (\<lambda>session.
     if auth_session_is_expired_at session (fl_now fl) then retE LoginContextExpired
     else let request = as_request session in
       bindE (tryE (repo_client_find env t (r_client_id request))) (\<lambda>c.
       retE (LoginContextOk \<lparr>lc_login_hint = r_login_hint request, lc_ui_locales = r_ui_locales request,
         lc_redirect_uri = r_redirect_uri request,
         lc_client_name = (case c of Inr found \<Rightarrow> map_option c_app_name found | Inl _ \<Rightarrow> None),
         lc_tenant_name = (case fl_tenant_resolve fl t of Inr found \<Rightarrow> map_option t_name found | Inl _ \<Rightarrow> None)\<rparr>)))))"

section \<open>The end of a sign-in\<close>

datatype lifetime_basis =
    BoundOnRegisteredDevice | ByAppApproval | BoundOnUnregisteredDevice | NotBound | NotExtendedBySetting

definition lifetime_is_long :: "lifetime_basis \<Rightarrow> bool" where
  "lifetime_is_long b \<longleftrightarrow> b = BoundOnRegisteredDevice \<or> b = ByAppApproval"

definition lifetime_basis_of :: "session_binding \<Rightarrow> bool \<Rightarrow> duration \<Rightarrow> duration \<Rightarrow> lifetime_basis" where
  "lifetime_basis_of binding device_registered absolute_ttl bound_ttl =
     (case binding of
        Unbound \<Rightarrow> NotBound
      | DeviceKey \<Rightarrow> if \<not> device_registered then BoundOnUnregisteredDevice
                     else if bound_ttl > absolute_ttl then BoundOnRegisteredDevice else NotExtendedBySetting
      | AppApproval \<Rightarrow> if bound_ttl > absolute_ttl then ByAppApproval else NotExtendedBySetting)"

definition lifetime_for ::
  "instant \<Rightarrow> instant \<Rightarrow> session_binding \<Rightarrow> bool \<Rightarrow> duration \<Rightarrow> duration \<Rightarrow> instant \<times> instant" where
  "lifetime_for created_at current_idle binding device_registered absolute_ttl bound_ttl =
     (if lifetime_is_long (lifetime_basis_of binding device_registered absolute_ttl bound_ttl)
      then let absolute = created_at + bound_ttl in (absolute, absolute)
      else let absolute = created_at + absolute_ttl in (min current_idle absolute, absolute))"

record established_sso =
  es_session :: sso_session
  es_session_id :: string

datatype establishment = Established established_sso | DeviceEnrollmentRequired string

definition admit :: "flow \<Rightarrow> sign_in \<Rightarrow> session_binding \<Rightarrow> request_context \<Rightarrow> instant \<Rightarrow> (db, domain_error, admission) action" where
  "admit fl s binding ctx now =
     (case fl_device_gate fl of None \<Rightarrow> retE Admitted | Some gate \<Rightarrow> gate s (binding = AppApproval) ctx now)"

definition establish_sso_with_binding ::
  "env \<Rightarrow> flow \<Rightarrow> sign_in \<Rightarrow> session_binding \<Rightarrow> request_context \<Rightarrow> instant \<Rightarrow> (db, domain_error, establishment) action" where
  "establish_sso_with_binding env fl s binding ctx now =
     bindE (admit fl s binding ctx now) (\<lambda>adm.
     case adm of EnrollmentRequired ticket \<Rightarrow> retE (DeviceEnrollmentRequired ticket)
     | Admitted \<Rightarrow>
       bindE (liftR (fl_sso_lifetime fl (si_home_tenant_id s))) (\<lambda>lifetime.
       let (idle_expires_at, absolute_expires_at) =
             lifetime_for now (now + sl_idle lifetime) binding False (sl_absolute lifetime) (sl_bound lifetime);
           session = sso_establish (sha256_hex (e_lib env) (fl_sso_id fl)) (si_user_id s) now
             (idle_expires_at - now) (absolute_expires_at - now) (si_methods s) (cx_user_agent ctx) (cx_ip_address ctx)
       in bindE (repo_sso_create env session) (\<lambda>_.
          bindE (audit_record env ctx ''sso_session.created'' AuditSuccess (Some (si_tenant_id s)) (Some (si_user_id s)) (si_client_id s) None) (\<lambda>_.
          bindE (audit_record env ctx (si_success_event s) AuditSuccess (Some (si_tenant_id s)) (Some (si_user_id s)) (si_client_id s)
                   (si_success_detail s)) (\<lambda>_.
          retE (Established \<lparr>es_session = session, es_session_id = fl_sso_id fl\<rparr>))))))"

definition establish_sso :: "env \<Rightarrow> flow \<Rightarrow> sign_in \<Rightarrow> request_context \<Rightarrow> instant \<Rightarrow> (db, domain_error, establishment) action" where
  "establish_sso env fl s ctx now = establish_sso_with_binding env fl s Unbound ctx now"

datatype authorization_continuation =
    ContinuationConsentRequired string
  | ContinuationApplicationNotPermitted string
  | Authorized authorization_dispatch

definition continue_authorization ::
  "env \<Rightarrow> flow \<Rightarrow> tenant_id \<Rightarrow> auth_session \<Rightarrow> established_sso \<Rightarrow> instant \<Rightarrow> request_context
   \<Rightarrow> (db, domain_error, authorization_continuation) action" where
  "continue_authorization env fl t session0 sso now ctx =
     (let a = \<lparr>au_user_id = ss_user_id (es_session sso), au_auth_time = now,
               au_sso_sid = Some (sid_of (e_lib env) (ss_session_hash (es_session sso))),
               au_methods = Some (ss_authentication_methods (es_session sso))\<rparr>;
          (session, completion) = complete_authentication (e_lib env) (fl_id_completion fl) session0 a
      in bindE (repo_sessions_save_authentication env completion) (\<lambda>_.
         bindE (consent_is_granted env t (au_user_id a) (as_request session)) (\<lambda>consented.
         if \<not> consented then retE (ContinuationConsentRequired (ir_issued (ac_rotation completion)))
         else
           bindE (issue_code env fl ctx t (as_request session) a) (\<lambda>issuance.
           case issuance of CodeApplicationDenied name \<Rightarrow> retE (ContinuationApplicationNotPermitted name)
           | CodeIssued code \<Rightarrow>
             bindE (tryE (repo_sessions_delete env (as_id_hash session))) (\<lambda>_.
             retE (Authorized (dispatch_of (success_response (as_request session) code))))))))"

end
