(* ===== verification/Authorize_Flow.thy ===== *)
theory Authorize_Flow
  imports Authorize Token_Samples Auth_Session_Flow
begin

text \<open>
  What the authorization flow guarantees: which facts of the database stand behind every code that is issued,
  on the way over a restored single sign-on session, over the consent screen and at the end of a sign-in; how
  \<open>prompt\<close> is honoured; and that a code can be redeemed for what it was issued for.
\<close>

section \<open>Frames\<close>

text \<open>A projection that neither the logs, the authorization sessions nor the single sign-on sessions enter.\<close>

definition side_free :: "(db \<Rightarrow> 'x) \<Rightarrow> bool" where
  "side_free f \<longleftrightarrow> log_free f \<and> (\<forall>d rows. f (d\<lparr>db_auth_sessions := rows\<rparr>) = f d) \<and> (\<forall>d rows. f (d\<lparr>db_sso := rows\<rparr>) = f d)"

definition base :: "db \<Rightarrow> db" where
  "base d = d\<lparr>db_audit := [], db_history := [], db_auth_sessions := [], db_sso := []\<rparr>"

lemma side_free_fields [simp]:
  "side_free base" "side_free db_codes" "side_free db_consents" "side_free db_users" "side_free db_policies"
  by (simp_all add: side_free_def log_free_def base_def)

lemma side_free_log [simp]: "side_free f \<Longrightarrow> log_free f"
  by (simp add: side_free_def)

lemma base_fields:
  "base d' = base d \<Longrightarrow> db_clients d' = db_clients d \<and> db_users d' = db_users d \<and> db_tenants d' = db_tenants d
     \<and> db_codes d' = db_codes d \<and> db_consents d' = db_consents d \<and> db_applications d' = db_applications d
     \<and> db_bindings d' = db_bindings d \<and> db_assignments d' = db_assignments d \<and> db_memberships d' = db_memberships d
     \<and> db_policies d' = db_policies d"
  by (cases d; cases d') (simp add: base_def)

lemma keeps_modifyE: "(\<And>d. f (g d) = f d) \<Longrightarrow> keeps f (modifyE g)"
  by (simp add: keeps_def modifyE_def)

lemma keeps_flow_queries [action_inv]:
  "keeps f (repo_sessions_find env t h)" "keeps f (repo_sessions_find_by_handoff env t h)" "keeps f (repo_sso_find env h)"
  "keeps f (repo_is_active_member env t u)" "keeps f (repo_consent_find env t u c)" "keeps f (repo_policies_enabled env t)"
  unfolding flow_repo_defs by (intro action_inv)+

lemma keeps_sessions [action_inv]:
  assumes "side_free f"
  shows "keeps f (repo_sessions_create env s)" "keeps f (repo_sessions_save_exchange env ex)"
    "keeps f (repo_sessions_save_authentication env c)" "keeps f (repo_sessions_delete env h)"
    "keeps f (repo_sso_create env ss)" "keeps f (repo_sso_delete env h)" "keeps f (repo_sso_extend_idle env h until)"
proof -
  have "keeps f (\<lambda>d. case save_handoff_exchange (e_lib env) ex (db_auth_sessions d) of
        Inl e \<Rightarrow> (Inl e, d) | Inr (won, rows) \<Rightarrow> (Inr won, d\<lparr>db_auth_sessions := rows\<rparr>))"
    using assms by (auto simp: keeps_def side_free_def split: sum.splits prod.splits)
  then show "keeps f (repo_sessions_save_exchange env ex)"
    unfolding repo_sessions_save_exchange_def by (rule keeps_db_call)
qed (use assms in \<open>auto simp: flow_repo_defs side_free_def rbind_Inr_iff intro!: keeps_db_call keeps_tryStateE keeps_modifyE\<close>)

lemma keeps_try_resume [action_inv]: "side_free f \<Longrightarrow> keeps f (try_resume env fl ctx t sid)"
  unfolding try_resume_def Let_def by (intro action_inv) simp_all

lemma keeps_policy_decide [action_inv]: "keeps f (policy_decide env fl q)"
  unfolding policy_decide_def by (cases "pq_audience q") (auto intro!: action_inv)

lemma keeps_consent_is_granted [action_inv]: "keeps f (consent_is_granted env t u q)"
  unfolding consent_is_granted_def Let_def by (intro action_inv)

lemma keeps_evaluate_for_restored [action_inv]: "keeps f (evaluate_for_restored_session env fl ctx t q u ms now)"
  unfolding evaluate_for_restored_session_def by (intro action_inv)

lemma keeps_check_consent [action_inv]: "keeps f (check_consent env t u q)"
  unfolding check_consent_def by (intro action_inv)

lemma keeps_exchange_handoff [action_inv]: "side_free f \<Longrightarrow> keeps f (exchange_handoff_action env fl t h now)"
  unfolding exchange_handoff_action_def by (intro action_inv) simp_all

lemma keeps_live_session [action_inv]: "side_free f \<Longrightarrow> keeps f (live_session env fl t i)"
  unfolding live_session_def by (intro action_inv) simp_all

section \<open>The step that issues\<close>

text \<open>Whatever changes the codes happens after a step that keeps them.\<close>

lemma bindE_changes:
  assumes "bindE m n d = (r, d')" "keeps f m" "f d' \<noteq> f d"
  obtains a d1 where "m d = (Inr a, d1)" "n a d1 = (r, d')" "f d1 = f d" "f d' \<noteq> f d1"
proof -
  obtain x d1 where x: "m d = (x, d1)" by fastforce
  then have "f d1 = f d" using assms(2) keepsD by metis
  with assms x show ?thesis by (cases x) (auto simp: bindE_def intro: that)
qed

lemma keeps_no_change: "keeps f m \<Longrightarrow> f d' \<noteq> f d \<Longrightarrow> m d \<noteq> (r, d')"
  using keepsD by metis

lemma bindE_then_keeps:
  assumes "bindE m n d = (r, d')" "\<And>a. keeps f (n a)"
  shows "\<exists>x d1. m d = (x, d1) \<and> f d' = f d1"
proof -
  obtain x d1 where x: "m d = (x, d1)" by fastforce
  show ?thesis
  proof (cases x)
    case (Inl e)
    then show ?thesis using assms(1) x by (auto simp: bindE_def)
  next
    case (Inr a)
    then have "n a d1 = (r, d')" using assms(1) x by (simp add: bindE_def)
    then show ?thesis using x keepsD [OF assms(2)] by blast
  qed
qed

definition issued_code_row :: "env \<Rightarrow> flow \<Rightarrow> tenant_id \<Rightarrow> authorization_request \<Rightarrow> authentication \<Rightarrow> authorization_code" where
  "issued_code_row env fl t q a =
     \<lparr>co_hash = sha256_hex (e_lib env) (fl_code fl), co_tenant_id = t, co_grant = code_grant_of q, co_authentication = a,
      co_expires_at = fl_issue_now fl + fl_code_ttl fl, co_used_at = None, co_created_at = e_db_now env, co_updated_at = e_db_now env\<rparr>"

lemma repo_codes_create_state:
  assumes "repo_codes_create env c d = (r, d')"
  shows "d' = d \<and> (\<exists>e. r = Inl e)
    \<or> r = Inr () \<and> co_hash c \<notin> co_hash ` set (db_codes d)
      \<and> d' = d\<lparr>db_codes := db_codes d @ [c\<lparr>co_created_at := e_db_now env, co_updated_at := e_db_now env\<rparr>]\<rparr>"
  using assms
  by (auto simp: repo_codes_create_def db_call_def tryStateE_def code_create_def list_ex_iff failE_def
      split: option.splits if_splits sum.splits)

lemma audit_then:
  assumes "bindE (audit_record env ctx ty res tt u c reason) n d = (r, d')"
  obtains d1 where "same_data d d1" "n () d1 = (r, d')"
proof -
  obtain x d1 where x: "audit_record env ctx ty res tt u c reason d = (x :: 'a + unit, d1)" by fastforce
  with audit_record_same [OF x] assms show ?thesis by (auto simp: bindE_def intro: that)
qed

lemma gate_then:
  assumes "bindE (application_check env ctx t c u) n d = (r, d')"
  obtains gate d1 where "same_data d d1" "n gate d1 = (r, d')" "gate = GateAllowed \<longleftrightarrow> \<not> gate_denies env d t c u"
proof -
  obtain x d1 where x: "application_check env ctx t c u d = (x :: 'a + application_gate, d1)" by fastforce
  obtain gate where g: "x = Inr gate" and s: "same_data d d1" using application_check_total [OF x] by blast
  have "gate = GateAllowed \<longleftrightarrow> \<not> gate_denies env d t c u"
    using application_check_denied_iff [of env ctx t c u d, where 'e = 'a] x g by (cases gate) auto
  with g s x assms show ?thesis by (auto simp: bindE_def intro: that)
qed

lemma same_data_codes: "same_data d d1 \<Longrightarrow> same_data (d\<lparr>db_codes := rows\<rparr>) (d1\<lparr>db_codes := rows\<rparr>)"
  by (cases d; cases d1) (simp add: same_data_def)

lemma issue_code_alt:
  "issue_code env fl ctx t q a =
     bindE (application_check env ctx t (r_client_id q) (au_user_id a)) (\<lambda>gate.
     case gate of GateDenied name _ \<Rightarrow> retE (CodeApplicationDenied name)
     | GateAllowed \<Rightarrow>
       bindE (repo_codes_create env (issued_code_row env fl t q a)) (\<lambda>_.
       bindE (audit_record env ctx ''authorization_code.issued'' AuditSuccess (Some t) (Some (au_user_id a)) (Some (r_client_id q)) None) (\<lambda>_.
       retE (CodeIssued (fl_code fl)))))"
proof -
  have "code_create (e_db_now env) (fst (code_issue (e_lib env) (fl_code fl) t q a (fl_issue_now fl) (fl_code_ttl fl))) rows
      = code_create (e_db_now env) (issued_code_row env fl t q a) rows" for rows
    by (auto simp: code_create_def code_issue_def issued_code_row_def code_hash_def)
  then have "repo_codes_create env (fst (code_issue (e_lib env) (fl_code fl) t q a (fl_issue_now fl) (fl_code_ttl fl)))
      = repo_codes_create env (issued_code_row env fl t q a)"
    by (simp add: repo_codes_create_def)
  then show ?thesis
    by (simp add: issue_code_def code_issue_def Let_def cong del: application_gate.case_cong_weak)
qed

lemma issue_code_cases:
  assumes "issue_code env fl ctx t q a d = (r, d')"
  shows "same_data d d' \<and> r \<noteq> Inr (CodeIssued (fl_code fl)) \<and> (gate_denies env d t (r_client_id q) (au_user_id a) \<longleftrightarrow> (\<exists>n. r = Inr (CodeApplicationDenied n)))
    \<or> r = Inr (CodeIssued (fl_code fl)) \<and> \<not> gate_denies env d t (r_client_id q) (au_user_id a)
      \<and> sha256_hex (e_lib env) (fl_code fl) \<notin> co_hash ` set (db_codes d)
      \<and> same_data (d\<lparr>db_codes := db_codes d @ [issued_code_row env fl t q a]\<rparr>) d'"
proof -
  let ?row = "issued_code_row env fl t q a"
  have row: "?row\<lparr>co_created_at := e_db_now env, co_updated_at := e_db_now env\<rparr> = ?row"
    "co_hash ?row = sha256_hex (e_lib env) (fl_code fl)"
    by (simp_all add: issued_code_row_def)
  obtain gate d1 where same: "same_data d d1"
    and n: "(case gate of GateDenied name _ \<Rightarrow> retE (CodeApplicationDenied name)
       | GateAllowed \<Rightarrow>
         bindE (repo_codes_create env ?row) (\<lambda>_.
         bindE (audit_record env ctx ''authorization_code.issued'' AuditSuccess (Some t) (Some (au_user_id a)) (Some (r_client_id q)) None) (\<lambda>_.
         retE (CodeIssued (fl_code fl))))) d1 = (r, d')"
    and g: "gate = GateAllowed \<longleftrightarrow> \<not> gate_denies env d t (r_client_id q) (au_user_id a)"
    using assms unfolding issue_code_alt by (rule gate_then)
  have d1: "db_codes d1 = db_codes d" using same_data_fields [OF same] by simp
  show ?thesis
  proof (cases gate)
    case (GateDenied name x)
    then show ?thesis using n g same by auto
  next
    case GateAllowed
    obtain x d2 where x: "repo_codes_create env ?row d1 = (x, d2)" by fastforce
    from repo_codes_create_state [OF x] show ?thesis
    proof (elim disjE conjE exE)
      fix e assume "d2 = d1" "x = Inl e"
      then show ?thesis using n GateAllowed x g same by (auto simp: bindE_def)
    next
      assume ok: "x = Inr ()" "co_hash ?row \<notin> co_hash ` set (db_codes d1)"
        and d2: "d2 = d1\<lparr>db_codes := db_codes d1 @ [?row\<lparr>co_created_at := e_db_now env, co_updated_at := e_db_now env\<rparr>]\<rparr>"
      then have "bindE (audit_record env ctx ''authorization_code.issued'' AuditSuccess (Some t) (Some (au_user_id a)) (Some (r_client_id q)) None)
         (\<lambda>_. retE (CodeIssued (fl_code fl))) d2 = (r, d')" using n GateAllowed x by (simp add: bindE_def)
      then obtain d3 where "same_data d2 d3" "retE (CodeIssued (fl_code fl)) d3 = (r, d')" by (rule audit_then)
      then have "r = Inr (CodeIssued (fl_code fl))" "same_data d2 d'" by simp_all
      moreover have "same_data (d\<lparr>db_codes := db_codes d @ [issued_code_row env fl t q a]\<rparr>) d2"
        using same_data_codes [OF same] unfolding d2 row d1 .
      ultimately have "same_data (d\<lparr>db_codes := db_codes d @ [?row]\<rparr>) d'" by (metis same_data_trans)
      then show ?thesis using \<open>r = _\<close> ok(2) row(2) d1 g GateAllowed by simp
    qed
  qed
qed

lemma issue_code_issues:
  assumes "issue_code env fl ctx t q a d = (r, d')" "db_codes d' \<noteq> db_codes d"
  shows "r = Inr (CodeIssued (fl_code fl))" "\<not> gate_denies env d t (r_client_id q) (au_user_id a)"
    "db_codes d' = db_codes d @ [issued_code_row env fl t q a]"
  using issue_code_cases [OF assms(1)] assms(2) same_data_fields by force+

section \<open>What a restored session rests on\<close>

definition sso_restorable :: "env \<Rightarrow> flow \<Rightarrow> tenant_id \<Rightarrow> string \<Rightarrow> db \<Rightarrow> sso_session \<Rightarrow> user \<Rightarrow> bool" where
  "sso_restorable env fl t sid d s u \<longleftrightarrow>
     sso_find_by_hash (sha256_hex (e_lib env) sid) (db_sso d) = Some s \<and> sso_is_valid_at s (fl_restore_now fl)
     \<and> user_find_by_id (ss_user_id s) (db_users d) = Some u \<and> user_is_active u \<and> \<not> is_locked_at u (fl_restore_now fl)
     \<and> is_active_member t (ss_user_id s) (db_memberships d) (db_users d) (db_tenants d)"

definition policy_admits ::
  "env \<Rightarrow> flow \<Rightarrow> request_context \<Rightarrow> tenant_id \<Rightarrow> authorization_request \<Rightarrow> uuid \<Rightarrow> authentication_method list \<Rightarrow> db \<Rightarrow> bool" where
  "policy_admits env fl ctx t q u methods d \<longleftrightarrow>
     (\<exists>default_effect. fl_policy_default fl t = Inr default_effect
       \<and> meets_decision (evaluate_policies (policy_list_enabled_for_tenant (e_ci env) t (db_policies d))
            \<lparr>ac_application_id = map_option ap_id
                (app_find_by_oidc_client_id (e_ci env) t (r_client_id q) (db_applications d) (db_bindings d) (db_clients d)),
             ac_user_id = u, ac_ip_address = cx_ip_address ctx, ac_now = fl_now fl, ac_requested_acr = requested_acr q\<rparr> default_effect)
          methods (WebAuthn \<in> set methods))"

definition consented :: "env \<Rightarrow> tenant_id \<Rightarrow> uuid \<Rightarrow> authorization_request \<Rightarrow> db \<Rightarrow> bool" where
  "consented env t u q d \<longleftrightarrow> (\<forall>s \<in> set (r_scope q). s = ''openid'' \<or>
     (\<exists>c. consent_find (e_ci env) t u (r_client_id q) (db_consents d) = Some c \<and> s \<in> set (cs_scopes c)))"

lemma scopes_needing_consent_set: "set (scopes_needing_consent q) = {s \<in> set (r_scope q). s \<noteq> ''openid''}"
  by (auto simp: scopes_needing_consent_def openid_str)

lemma try_resume_Some:
  assumes "try_resume env fl ctx t sid d = (Inr (Some r), d')"
  shows "\<exists>s u. sso_restorable env fl t sid d s u \<and> rs_user_id r = ss_user_id s \<and> rs_auth_time r = ss_auth_time s
     \<and> rs_session_hash r = sha256_hex (e_lib env) sid \<and> rs_authentication_methods r = ss_authentication_methods s"
  using assms
  by (auto simp: try_resume_def Let_def bindE_Inr_iff flow_repo_defs repo_user_find_def sso_restorable_def
      split: option.splits if_splits)

lemma restored_verdict_ok: "restored_verdict dec ms = PolicyOk \<longleftrightarrow> meets_decision dec ms (WebAuthn \<in> set ms)"
  by (cases dec) (auto simp: restored_verdict_def Let_def from_methods_MultiFactor_iff list_ex_iff)

lemma policy_decide_Inr:
  assumes "policy_decide env fl q d = (Inr dec, d')" "pq_audience q = OidcClient c"
  shows "\<exists>default_effect. fl_policy_default fl (pq_tenant_id q) = Inr default_effect
     \<and> dec = evaluate_policies (policy_list_enabled_for_tenant (e_ci env) (pq_tenant_id q) (db_policies d))
          \<lparr>ac_application_id = map_option ap_id
             (app_find_by_oidc_client_id (e_ci env) (pq_tenant_id q) c (db_applications d) (db_bindings d) (db_clients d)),
           ac_user_id = pq_user_id q, ac_ip_address = pq_ip_address q, ac_now = pq_now q, ac_requested_acr = pq_requested_acr q\<rparr> default_effect"
proof -
  from assms obtain default_effect where "fl_policy_default fl (pq_tenant_id q) = Inr default_effect"
    by (cases "fl_policy_default fl (pq_tenant_id q)") (auto simp: policy_decide_def bindE_Inr_iff)
  with assms show ?thesis
    by (auto simp: policy_decide_def bindE_Inr_iff repo_app_by_oidc_client_def repo_policies_enabled_def)
qed

lemma evaluate_for_restored_ok:
  assumes "evaluate_for_restored_session env fl ctx t q u ms (fl_now fl) d = (Inr PolicyOk, d')"
  shows "policy_admits env fl ctx t q u ms d"
proof -
  let ?q = "\<lparr>pq_tenant_id = t, pq_audience = OidcClient (r_client_id q), pq_user_id = u,
        pq_ip_address = cx_ip_address ctx, pq_requested_acr = requested_acr q, pq_now = fl_now fl\<rparr>"
  obtain x d1 where x: "policy_decide env fl ?q d = (x, d1)" by fastforce
  with assms obtain dec where "x = Inr dec" "restored_verdict dec ms = PolicyOk"
    by (cases x) (auto simp: evaluate_for_restored_session_def bindE_def tryE_def)
  with x show ?thesis using policy_decide_Inr unfolding policy_admits_def restored_verdict_ok by fastforce
qed

lemma consent_is_granted_True:
  assumes "consent_is_granted env t u q d = (Inr True, d')"
  shows "consented env t u q d"
proof (cases "scopes_needing_consent q = []")
  case True
  then have "set (scopes_needing_consent q) = {}" by simp
  then show ?thesis by (auto simp: consented_def scopes_needing_consent_set)
next
  case False
  with assms obtain c where "consent_find (e_ci env) t u (r_client_id q) (db_consents d) = Some c" "consent_covers c (scopes_needing_consent q)"
    by (auto simp: consent_is_granted_def Let_def bindE_Inr_iff repo_consent_find_def split: option.splits)
  moreover from this have "\<forall>s \<in> set (scopes_needing_consent q). s \<in> set (cs_scopes c)"
    by (simp add: consent_covers_def list_all_iff)
  ultimately show ?thesis unfolding scopes_needing_consent_set by (auto simp: consented_def)
qed

lemma try_then:
  assumes "bindE (tryE m) n d = (r, d')"
  obtains x d1 where "m d = (x, d1)" "n x d1 = (r, d')"
  using assms by (cases "m d") (auto simp: bindE_def tryE_def intro: that)

lemma check_consent_True:
  assumes "check_consent env t u q d = (Inr True, d')"
  shows "consented env t u q d"
proof -
  from assms obtain x d1 where "consent_is_granted env t u q d = (x, d1)"
    and "retE (case x of Inr granted \<Rightarrow> granted | Inl _ \<Rightarrow> False) d1 = (Inr True :: 'a + bool, d')"
    unfolding check_consent_def by (rule try_then)
  then show ?thesis using consent_is_granted_True by (cases x) auto
qed

section \<open>Issuing over a restored session\<close>

lemma issue_restored_code_issues:
  assumes "issue_restored_code env fl ctx t session a ttl d = (r, d')" "db_codes d' \<noteq> db_codes d"
  shows "\<not> gate_denies env d t (r_client_id (as_request session)) (au_user_id a)
     \<and> db_codes d' = db_codes d @ [issued_code_row env fl t (as_request session) a]
     \<and> r = Inr (ResumeRedirect (dispatch_of (success_response (as_request session) (fl_code fl))) ttl)"
proof -
  let ?q = "as_request session"
  from assms(1) obtain x d1 where x: "issue_code env fl ctx t ?q a d = (x, d1)"
    and n: "(case x of
        Inr (CodeApplicationDenied name) \<Rightarrow>
          if forbids_interaction ?q
          then bindE (tryE (repo_sessions_delete env (as_id_hash session))) (\<lambda>_.
               retE (resume_error ?q AccessDenied ''application not permitted''))
          else retE (ResumeApplicationNotPermitted name)
      | Inr (CodeIssued code) \<Rightarrow>
          bindE (tryE (repo_sessions_delete env (as_id_hash session))) (\<lambda>_.
          retE (ResumeRedirect (dispatch_of (success_response ?q code)) ttl))
      | Inl _ \<Rightarrow> retE (resume_error ?q ServerError ''failed to issue authorization code'')) d1 = (r, d')"
    unfolding issue_restored_code_def Let_def by (rule try_then)
  have del: "keeps db_codes (bindE (tryE (repo_sessions_delete env h)) (\<lambda>_. retE z))" for h and z :: resume_outcome
    by (intro action_inv) simp
  have c: "db_codes d' = db_codes d1"
    using n keepsD [OF del] by (cases x) (auto split: code_issuance.splits if_splits)
  with assms(2) have i: "db_codes d1 \<noteq> db_codes d" by simp
  note f = issue_code_issues [OF x i]
  have "r = Inr (ResumeRedirect (dispatch_of (success_response ?q (fl_code fl))) ttl)"
    using n f(1) by (auto elim: try_then)
  then show ?thesis using f c by simp
qed

lemma authorize_restored_issues:
  fixes r :: "'a + resume_outcome"
  assumes "authorize_restored env fl ctx t session a ttl d = (r, d')" "db_codes d' \<noteq> db_codes d"
  shows "\<not> forces_consent (as_request session) \<and> consented env t (au_user_id a) (as_request session) d
     \<and> \<not> gate_denies env d t (r_client_id (as_request session)) (au_user_id a)
     \<and> db_codes d' = db_codes d @ [issued_code_row env fl t (as_request session) a]
     \<and> r = Inr (ResumeRedirect (dispatch_of (success_response (as_request session) (fl_code fl))) ttl)"
proof -
  let ?q = "as_request session"
  let ?ask = "if forces_consent ?q then retE False else check_consent env t (au_user_id a) ?q :: (db, 'a, bool) action"
  let ?rest = "\<lambda>consented. if consented then issue_restored_code env fl ctx t session a ttl
      else if forbids_interaction ?q
      then bindE (tryE (repo_sessions_delete env (as_id_hash session))) (\<lambda>_.
           retE (resume_error ?q ConsentRequired ''consent required''))
      else
        let (session', completion) = complete_authentication (e_lib env) (fl_id_completion fl) session a in
        bindE (tryE (repo_sessions_save_authentication env completion)) (\<lambda>saved.
        case saved of Inl _ \<Rightarrow> retE (resume_error (as_request session') ServerError ''failed to start consent'')
        | Inr _ \<Rightarrow> retE (ResumeConsentRequired (ir_issued (ac_rotation completion)) ttl)) :: (db, 'a, resume_outcome) action"
  have k: "keeps db_codes ?ask" by (intro action_inv)
  have "bindE ?ask ?rest d = (r, d')" using assms(1) by (simp add: authorize_restored_def Let_def)
  then obtain b d1 where b: "?ask d = (Inr b, d1)" and n: "?rest b d1 = (r, d')" and c: "db_codes d1 = db_codes d" "db_codes d' \<noteq> db_codes d1"
    by (rule bindE_changes [OF _ k assms(2)])
  have "keeps db_codes (?rest False)"
    unfolding Let_def if_False by (intro action_inv) simp_all
  then have "?rest False d1 \<noteq> (r, d')" using c(2) by (rule keeps_no_change)
  with n have True: "b" by (cases b) auto
  with n have i: "issue_restored_code env fl ctx t session a ttl d1 = (r, d')" by simp
  from b True have f: "\<not> forces_consent ?q" "check_consent env t (au_user_id a) ?q d = (Inr True :: 'a + bool, d1)"
    by (auto split: if_splits)
  have "core d1 = core d" using f(2) keepsD [OF keeps_check_consent] by blast
  then have "gate_denies env d1 t (r_client_id ?q) (au_user_id a) = gate_denies env d t (r_client_id ?q) (au_user_id a)"
    by (rule core_gate_denies)
  then show ?thesis
    using issue_restored_code_issues [OF i c(2)] f(1) check_consent_True [OF f(2)] c(1) by simp
qed

definition restored_authentication :: "env \<Rightarrow> sso_session \<Rightarrow> authentication" where
  "restored_authentication env s = \<lparr>au_user_id = ss_user_id s, au_auth_time = ss_auth_time s,
     au_sso_sid = Some (sid_of (e_lib env) (ss_session_hash s)), au_methods = Some (ss_authentication_methods s)\<rparr>"

text \<open>Everything that stands behind a code issued for the request \<open>q\<close> over a restored session.\<close>

definition code_over_sso ::
  "env \<Rightarrow> flow \<Rightarrow> request_context \<Rightarrow> tenant_id \<Rightarrow> authorization_request \<Rightarrow> string option \<Rightarrow> db \<Rightarrow> db \<Rightarrow> bool" where
  "code_over_sso env fl ctx t q sso d d' \<longleftrightarrow> (\<exists>sid s u. sso = Some sid \<and> sso_restorable env fl t sid d s u
     \<and> \<not> forces_reauthentication q \<and> \<not> forces_consent q
     \<and> policy_admits env fl ctx t q (ss_user_id s) (ss_authentication_methods s) d
     \<and> \<not> authentication_is_too_old q (ss_auth_time s) (fl_now fl)
     \<and> consented env t (ss_user_id s) q d \<and> \<not> gate_denies env d t (r_client_id q) (ss_user_id s)
     \<and> db_codes d' = db_codes d @ [issued_code_row env fl t q (restored_authentication env s)])"

lemma base_gate_denies: "base d' = base d \<Longrightarrow> gate_denies env d' t c u = gate_denies env d t c u"
  using base_fields [of d' d] by (simp add: gate_denies_def split: option.split)

lemma base_consented: "base d' = base d \<Longrightarrow> consented env t u q d' = consented env t u q d"
  using base_fields [of d' d] by (simp add: consented_def)

lemma base_policy_admits: "base d' = base d \<Longrightarrow> policy_admits env fl ctx t q u ms d' = policy_admits env fl ctx t q u ms d"
  using base_fields [of d' d] by (simp add: policy_admits_def)

lemma evaluated_issues:
  fixes r :: "resume_outcome + unit"
  assumes "bindE (evaluate_for_restored_session env fl ctx t q u ms (fl_now fl)) (\<lambda>verdict.
          case verdict of
            Reauthenticate \<Rightarrow> retE ()
          | PolicyDenied \<Rightarrow> bindE (tryE (repo_sessions_delete env h)) (\<lambda>_. failE z)
          | PolicyInternal e \<Rightarrow> failE (ResumeInternal e)
          | PolicyOk \<Rightarrow> if old then retE () else bindE (authorize_restored env fl ctx t session a ttl) failE) d = (r, d')"
    and "db_codes d' \<noteq> db_codes d"
  obtains d2 r2 where "policy_admits env fl ctx t q u ms d" "\<not> old" "base d2 = base d"
    "authorize_restored env fl ctx t session a ttl d2 = (r2 :: resume_outcome + resume_outcome, d')"
proof -
  obtain v d2 where v: "evaluate_for_restored_session env fl ctx t q u ms (fl_now fl) d = (Inr v :: resume_outcome + restored_policy, d2)"
    and n: "(case v of
            Reauthenticate \<Rightarrow> retE ()
          | PolicyDenied \<Rightarrow> bindE (tryE (repo_sessions_delete env h)) (\<lambda>_. failE z)
          | PolicyInternal e \<Rightarrow> failE (ResumeInternal e)
          | PolicyOk \<Rightarrow> if old then retE () else bindE (authorize_restored env fl ctx t session a ttl) failE) d2 = (r, d')"
    and c: "db_codes d2 = db_codes d" "db_codes d' \<noteq> db_codes d2"
    using assms by (rule bindE_changes [OF _ keeps_evaluate_for_restored])
  have del: "keeps db_codes (bindE (tryE (repo_sessions_delete env h)) (\<lambda>_. failE z) :: (db, resume_outcome, unit) action)"
    by (intro action_inv) simp
  have ok: "v = PolicyOk" "\<not> old" using n c(2) keepsD [OF del] by (cases v; auto split: if_splits)+
  then have "bindE (authorize_restored env fl ctx t session a ttl) failE d2 = (r, d')" using n by simp
  then obtain r2 d3 where "authorize_restored env fl ctx t session a ttl d2 = (r2 :: resume_outcome + resume_outcome, d3)" "d' = d3"
    by (cases "authorize_restored env fl ctx t session a ttl d2 :: (resume_outcome + resume_outcome) \<times> db")
      (auto simp: bindE_def failE_def split: sum.splits)
  moreover have "base d2 = base d" using v by (rule keepsD [OF keeps_evaluate_for_restored])
  moreover have "policy_admits env fl ctx t q u ms d" using v ok(1) evaluate_for_restored_ok by blast
  ultimately show ?thesis using ok(2) that by blast
qed

lemma complete_with_sso_issues:
  assumes "complete_with_sso env fl ctx t session sso (fl_now fl) d = (r, d')" "db_codes d' \<noteq> db_codes d"
  shows "code_over_sso env fl ctx t (as_request session) sso d d'"
proof -
  let ?q = "as_request session"
  have fr: "\<not> forces_reauthentication ?q" using assms by (auto simp: complete_with_sso_def)
  obtain sid where sid: "non_empty sso = Some sid"
    using assms fr by (cases "non_empty sso") (auto simp: complete_with_sso_def)
  from assms(1) obtain x d1 where x: "try_resume env fl ctx t sid d = (x, d1)"
    and n: "(case x of Inl _ \<Rightarrow> retE () | Inr None \<Rightarrow> retE ()
        | Inr (Some restored) \<Rightarrow>
          bindE (evaluate_for_restored_session env fl ctx t ?q (rs_user_id restored) (rs_authentication_methods restored) (fl_now fl)) (\<lambda>verdict.
          case verdict of
            Reauthenticate \<Rightarrow> retE ()
          | PolicyDenied \<Rightarrow>
              bindE (tryE (repo_sessions_delete env (as_id_hash session))) (\<lambda>_.
              failE (resume_error ?q AccessDenied ''denied by authentication policy''))
          | PolicyInternal e \<Rightarrow> failE (ResumeInternal e)
          | PolicyOk \<Rightarrow>
              if authentication_is_too_old ?q (rs_auth_time restored) (fl_now fl) then retE ()
              else bindE (authorize_restored env fl ctx t session
                \<lparr>au_user_id = rs_user_id restored, au_auth_time = rs_auth_time restored,
                 au_sso_sid = Some (sid_of (e_lib env) (rs_session_hash restored)),
                 au_methods = Some (rs_authentication_methods restored)\<rparr> (rs_absolute_ttl_secs restored)) failE)) d1 = (r, d')"
    using fr sid unfolding complete_with_sso_def by (auto elim: try_then)
  have b1: "base d1 = base d" using x keepsD [OF keeps_try_resume [of base]] by simp
  then have c1: "db_codes d1 = db_codes d" using base_fields by blast
  obtain restored where xr: "x = Inr (Some restored)" using n assms(2) c1 by (cases x) (auto split: option.splits)
  obtain s u where s: "sso_restorable env fl t sid d s u" "rs_user_id restored = ss_user_id s" "rs_auth_time restored = ss_auth_time s"
    "rs_session_hash restored = sha256_hex (e_lib env) sid" "rs_authentication_methods restored = ss_authentication_methods s"
    using try_resume_Some x xr by blast
  have sh: "ss_session_hash s = sha256_hex (e_lib env) sid"
    using s(1) by (auto simp: sso_restorable_def sso_find_by_hash_def dest: find_Some_mem)
  let ?a = "restored_authentication env s"
  have i: "db_codes d' \<noteq> db_codes d1" using assms(2) c1 by simp
  obtain d2 r2 where p: "policy_admits env fl ctx t ?q (ss_user_id s) (ss_authentication_methods s) d1"
    and "\<not> authentication_is_too_old ?q (ss_auth_time s) (fl_now fl)" and b2: "base d2 = base d1"
    and au: "authorize_restored env fl ctx t session ?a (rs_absolute_ttl_secs restored) d2 = (r2 :: resume_outcome + resume_outcome, d')"
    using n unfolding xr sum.case option.case s(2-5) sh [symmetric] restored_authentication_def [symmetric]
    by (rule evaluated_issues [OF _ i])
  moreover have b: "base d2 = base d" using b1 b2 by simp
  moreover have c2: "db_codes d2 = db_codes d" using base_fields [OF b] by simp
  moreover have "sso = Some sid" using sid by (simp add: non_empty_Some)
  ultimately show ?thesis
    using authorize_restored_issues [OF au] assms(2) s(1) fr p
    unfolding code_over_sso_def base_gate_denies [OF b] base_consented [OF b] base_policy_admits [OF b1]
    by (auto simp: restored_authentication_def)
qed

lemma keeps_exchange_sso: "keeps db_sso (exchange_handoff_action env fl t h now)"
proof -
  have "keeps db_sso (repo_sessions_save_exchange env ex)" for ex
    unfolding repo_sessions_save_exchange_def by (intro keeps_db_call) (auto simp: keeps_def split: sum.splits prod.splits)
  then show ?thesis
    unfolding exchange_handoff_action_def
    by (intro keeps_bindE keeps_mapErrE keeps_liftR keeps_case_prod keeps_if keeps_retE keeps_failE keeps_flow_queries)
qed

lemma exchange_handoff_request: "exchange_handoff lib j s now = Some (s', ex) \<Longrightarrow>
    as_request s' = as_request s \<and> handoff_is_valid_at s now \<and> \<not> auth_session_is_expired_at s now"
  by (auto simp: exchange_handoff_def rotate_id_def Let_def split: if_splits)

lemma exchange_handoff_action_Inr:
  assumes "exchange_handoff_action env fl t h now d = (Inr (session, i), d')"
  shows "\<exists>stored. auth_session_find_by_handoff t (handoff_hash (e_lib env) h) (db_auth_sessions d) = Inr (Some stored)
     \<and> handoff_is_valid_at stored now \<and> \<not> auth_session_is_expired_at stored now \<and> as_request session = as_request stored"
proof -
  from assms obtain stored ex where
    "auth_session_find_by_handoff t (handoff_hash (e_lib env) h) (db_auth_sessions d) = Inr (Some stored)"
    "exchange_handoff (e_lib env) (fl_id_exchange fl) stored now = Some (session, ex)"
    by (auto simp: exchange_handoff_action_def bindE_Inr_iff repo_sessions_find_by_handoff_def from_presented_def split: if_splits prod.splits) (metis (no_types))
  then show ?thesis using exchange_handoff_request by blast
qed

lemma code_over_sso_base:
  "base d1 = base d \<Longrightarrow> db_sso d1 = db_sso d \<Longrightarrow> code_over_sso env fl ctx t q sso d1 d' = code_over_sso env fl ctx t q sso d d'"
  using base_fields [of d1 d] base_gate_denies [of d1 d] base_consented [of d1 d] base_policy_admits [of d1 d]
  unfolding code_over_sso_def sso_restorable_def by simp

lemma resume_code_issued:
  assumes "resume env fl ctx t cmd d = (r, d')" and "db_codes d' \<noteq> db_codes d"
  shows "\<exists>stored. auth_session_find_by_handoff t (handoff_hash (e_lib env) (rc_handle cmd)) (db_auth_sessions d) = Inr (Some stored)
     \<and> handoff_is_valid_at stored (fl_now fl) \<and> \<not> auth_session_is_expired_at stored (fl_now fl)
     \<and> code_over_sso env fl ctx t (as_request stored) (rc_sso_session_id cmd) d d'"
proof -
  let ?fin = "\<lambda>session i. if forbids_interaction (as_request session)
      then bindE (tryE (repo_sessions_delete env (as_id_hash session))) (\<lambda>_. retE (resume_error (as_request session) LoginRequired ''login required''))
      else retE (ResumeLoginRequired i) :: (db, resume_outcome, resume_outcome) action"
  obtain p d1 where e: "exchange_handoff_action env fl t (rc_handle cmd) (fl_now fl) d = (Inr p, d1)"
    and n: "(case p of (session, i) \<Rightarrow> bindE (complete_with_sso env fl ctx t session (rc_sso_session_id cmd) (fl_now fl)) (\<lambda>_. ?fin session i)) d1 = (r, d')"
    and c: "db_codes d1 = db_codes d" "db_codes d' \<noteq> db_codes d1"
    using assms(1) unfolding resume_def Let_def
    by (rule bindE_changes [OF _ keeps_exchange_handoff [OF side_free_fields(2)] assms(2)])
  obtain session i where p: "p = (session, i)" by fastforce
  have k: "keeps db_codes (?fin session i)" by (intro action_inv) simp
  from n p have n': "bindE (complete_with_sso env fl ctx t session (rc_sso_session_id cmd) (fl_now fl)) (\<lambda>_. ?fin session i) d1 = (r, d')"
    by (simp only: prod.case)
  obtain x d2 where x: "complete_with_sso env fl ctx t session (rc_sso_session_id cmd) (fl_now fl) d1 = (x, d2)" "db_codes d' = db_codes d2"
    using bindE_then_keeps [OF n' k] by blast
  have b: "base d1 = base d" "db_sso d1 = db_sso d"
    using e keepsD [OF keeps_exchange_handoff [of base]] keepsD [OF keeps_exchange_sso] by simp_all
  have "code_over_sso env fl ctx t (as_request session) (rc_sso_session_id cmd) d1 d2"
    using complete_with_sso_issues [OF x(1)] x(2) c(2) by simp
  then have "code_over_sso env fl ctx t (as_request session) (rc_sso_session_id cmd) d d'"
    unfolding code_over_sso_base [OF b] using x(2) by (simp add: code_over_sso_def)
  then show ?thesis using exchange_handoff_action_Inr e p by fastforce
qed

text \<open>(C8) A code issued when the flow is resumed is justified: the handle named a stored session of this tenant, both
  unexpired; the request asked neither for a new sign-in nor for consent; the presented single sign-on session was valid
  and its user active, unlocked and a member of the tenant with an active home tenant; the tenant's policies admit the
  methods of that session for this client; its age is within \<open>max_age\<close>; the user has consented to every scope but
  \<open>openid\<close>; the application gate does not refuse; and exactly one code is added, bound to the accepted
  request and to that authentication.\<close>

theorem resume_code_justified:
  assumes "resume env fl ctx t cmd d = (r, d')" and "db_codes d' \<noteq> db_codes d"
  shows "\<exists>stored. auth_session_find_by_handoff t (handoff_hash (e_lib env) (rc_handle cmd)) (db_auth_sessions d) = Inr (Some stored)
     \<and> handoff_is_valid_at stored (fl_now fl) \<and> \<not> auth_session_is_expired_at stored (fl_now fl)
     \<and> code_over_sso env fl ctx t (as_request stored) (rc_sso_session_id cmd) d d'"
  using assms by (rule resume_code_issued)

section \<open>Requests that forbid interaction\<close>

definition shows_screen :: "resume_outcome \<Rightarrow> bool" where
  "shows_screen out \<longleftrightarrow> (\<exists>i. out = ResumeLoginRequired i) \<or> (\<exists>i n. out = ResumeConsentRequired i n)
     \<or> (\<exists>name. out = ResumeApplicationNotPermitted name)"

lemma silent_outcomes [simp]:
  "\<not> shows_screen (ResumeRedirect di n)" "\<not> shows_screen (resume_error q e m)" "\<not> shows_screen ExpiredHandle"
  "\<not> shows_screen (ResumeInternal msg)"
  by (simp_all add: shows_screen_def resume_error_def)

lemma try_retE [simp]: "bindE (tryE m) (\<lambda>_. retE z) d = (r, d') \<longleftrightarrow> r = Inr z \<and> d' = snd (m d)"
  by (cases "m d") (auto simp: bindE_def tryE_def)

lemma try_failE [simp]: "bindE (tryE m) (\<lambda>_. failE z) d = (r, d') \<longleftrightarrow> r = Inl z \<and> d' = snd (m d)"
  by (cases "m d") (auto simp: bindE_def tryE_def)

lemma never_fails_tryE: "never_fails (tryE m)"
  by (auto simp: never_fails_def tryE_def split: prod.splits)

lemma never_failsD: "never_fails m \<Longrightarrow> m d = (y, d') \<Longrightarrow> \<exists>z. y = Inr z"
  unfolding never_fails_def by (cases y) auto

lemma never_fails_if: "never_fails m \<Longrightarrow> never_fails n \<Longrightarrow> never_fails (if b then m else n)"
  by simp

lemmas never_fails_steps = never_fails_bindE never_fails_tryE never_fails_retE never_fails_if

lemma never_fails_issue_restored: "never_fails (issue_restored_code env fl ctx t session a ttl)"
  unfolding issue_restored_code_def Let_def
  by (intro never_fails_steps) (auto split: sum.splits code_issuance.splits intro!: never_fails_steps)

lemma never_fails_authorize_restored: "never_fails (authorize_restored env fl ctx t session a ttl)"
  unfolding authorize_restored_def check_consent_def Let_def
  by (intro never_fails_steps never_fails_issue_restored) (auto split: sum.splits prod.splits intro!: never_fails_steps)

lemma authorize_restored_silent:
  fixes r :: "'a + resume_outcome"
  assumes "authorize_restored env fl ctx t session a ttl d = (r, d')" "forbids_interaction (as_request session)" "r = Inr out"
  shows "\<not> shows_screen out"
proof -
  have i: "\<not> shows_screen out" if "issue_restored_code env fl ctx t session a ttl d1 = (Inr out :: 'a + resume_outcome, d')" for d1
    using that assms(2) unfolding issue_restored_code_def Let_def
    by (rule_tac try_then) (auto split: sum.splits code_issuance.splits)
  from assms have "bindE (if forces_consent (as_request session) then retE False else check_consent env t (au_user_id a) (as_request session))
      (\<lambda>b. if b then issue_restored_code env fl ctx t session a ttl
       else bindE (tryE (repo_sessions_delete env (as_id_hash session))) (\<lambda>_. retE (resume_error (as_request session) ConsentRequired ''consent required''))) d
      = (Inr out :: 'a + resume_outcome, d')"
    by (simp only: authorize_restored_def Let_def if_True)
  then obtain b d1 where "(if b then issue_restored_code env fl ctx t session a ttl
       else bindE (tryE (repo_sessions_delete env (as_id_hash session))) (\<lambda>_. retE (resume_error (as_request session) ConsentRequired ''consent required''))) d1
      = (Inr out :: 'a + resume_outcome, d')"
    unfolding bindE_Inr_iff by blast
  then show ?thesis using i by (cases b) auto
qed

lemma complete_with_sso_silent:
  assumes "complete_with_sso env fl ctx t session sso now d = (Inl out, d')" "forbids_interaction (as_request session)"
  shows "\<not> shows_screen out"
proof -
  let ?q = "as_request session"
  have fr: "\<not> forces_reauthentication ?q" using assms by (auto simp: complete_with_sso_def)
  obtain sid where sid: "non_empty sso = Some sid"
    using assms fr by (cases "non_empty sso") (auto simp: complete_with_sso_def)
  obtain x d1 where x: "try_resume env fl ctx t sid d = (x, d1)" by fastforce
  then obtain restored where xr: "x = Inr (Some restored)"
    using assms fr sid by (cases x) (auto simp: complete_with_sso_def bindE_def tryE_def split: option.splits)
  obtain v d2 where v: "evaluate_for_restored_session env fl ctx t ?q (rs_user_id restored) (rs_authentication_methods restored) now d1
      = (v :: resume_outcome + restored_policy, d2)" by fastforce
  then obtain verdict where vv: "v = Inr verdict"
    by (auto simp: evaluate_for_restored_session_def bindE_def tryE_def split: prod.splits sum.splits)
  obtain y d3 where y: "authorize_restored env fl ctx t session
     \<lparr>au_user_id = rs_user_id restored, au_auth_time = rs_auth_time restored, au_sso_sid = Some (sid_of (e_lib env) (rs_session_hash restored)),
      au_methods = Some (rs_authentication_methods restored)\<rparr> (rs_absolute_ttl_secs restored) d2 = (y :: resume_outcome + resume_outcome, d3)"
    by fastforce
  then obtain z where z: "y = Inr z" using never_failsD [OF never_fails_authorize_restored] by blast
  have "out = z \<or> out = resume_error ?q AccessDenied ''denied by authentication policy'' \<or> (\<exists>msg. out = ResumeInternal msg)"
    using assms(1) fr sid x xr v vv y z
    by (cases verdict) (auto simp: complete_with_sso_def bindE_def tryE_def split: if_splits prod.splits)
  then show ?thesis using authorize_restored_silent [OF y assms(2) z] by auto
qed

lemma err_only_ok_or: "P e \<Longrightarrow> err_only P (liftR (ok_or e x))"
  by (cases x) auto

lemma err_only_mapErrE: "(\<And>e. P (h e)) \<Longrightarrow> err_only P (mapErrE h m)"
  by (auto simp: err_only_def mapErrE_Inl_iff)

lemma exchange_handoff_silent: "err_only (\<lambda>z. \<not> shows_screen z) (exchange_handoff_action env fl t h now)"
  unfolding exchange_handoff_action_def
  by (intro err_only_bindE err_only_ok_or err_only_mapErrE)
    (auto intro!: err_only_bindE err_only_ok_or err_only_mapErrE split: prod.splits)

text \<open>(C13) A request with \<open>prompt=none\<close> is answered without a screen: resuming it ends with a redirect to the relying
  party (a code or an error), with an expired handle or an internal error, never at the sign-in form, the consent
  screen or the refusal of an application.\<close>

theorem prompt_none_is_silent:
  assumes "returning (resume env fl ctx t cmd) d = (out, d')"
    and "auth_session_find_by_handoff t (handoff_hash (e_lib env) (rc_handle cmd)) (db_auth_sessions d) = Inr (Some stored)"
    and "forbids_interaction (as_request stored)"
  shows "\<not> shows_screen out"
proof -
  obtain x d1 where e: "exchange_handoff_action env fl t (rc_handle cmd) (fl_now fl) d = (x, d1)" by fastforce
  show ?thesis
  proof (cases x)
    case (Inl out')
    have "\<not> shows_screen out'" using e Inl exchange_handoff_silent unfolding err_only_def by blast
    moreover have "out = out'" using assms(1) e Inl by (simp add: returning_def resume_def Let_def bindE_def)
    ultimately show ?thesis by simp
  next
    case (Inr p)
    obtain session i where p: "p = (session, i)" by fastforce
    have q: "forbids_interaction (as_request session)"
      using exchange_handoff_action_Inr e Inr p assms(2,3) by fastforce
    obtain y d2 where y: "complete_with_sso env fl ctx t session (rc_sso_session_id cmd) (fl_now fl) d1 = (y, d2)" by fastforce
    show ?thesis
    proof (cases y)
      case (Inl z)
      then have "out = z" using assms(1) e Inr p y by (simp add: returning_def resume_def Let_def bindE_def)
      then show ?thesis using complete_with_sso_silent y Inl q by simp
    next
      case inr: (Inr z)
      then show ?thesis using assms(1) e Inr p y q
        by (auto simp: returning_def resume_def Let_def bindE_def tryE_def split: prod.splits)
    qed
  qed
qed

section \<open>Continuing in another window\<close>

lemma sessions_find_eq:
  "repo_sessions_find env t h d =
     (case e_fault env ''auth_sessions.find'' of Some m \<Rightarrow> Inl (Repository m) | None \<Rightarrow> auth_session_find t h (db_auth_sessions d), d)"
  by (cases "e_fault env ''auth_sessions.find''")
    (simp_all add: repo_sessions_find_def bindE_def db_query_def db_call_def failE_def getsE_def liftR_def)

text \<open>Reopening the sign-in form issues a code only for a session that is stored under the presented identifier,
  unexpired and still anonymous, over a restored session with the same justification as on resuming; a sign-in
  that has begun in this flow is never overtaken.\<close>

theorem continue_code_justified:
  assumes "continue_with_sso env fl ctx t cmd d = (r, d')" and "db_codes d' \<noteq> db_codes d"
  shows "\<exists>stored. auth_session_find t (id_hash_of_plain (e_lib env) (cc_auth_session_id cmd)) (db_auth_sessions d) = Inr (Some stored)
     \<and> \<not> auth_session_is_expired_at stored (fl_now fl) \<and> as_progress stored = Anonymous
     \<and> code_over_sso env fl ctx t (as_request stored) (cc_sso_session_id cmd) d d'"
proof -
  let ?h = "id_hash_of_plain (e_lib env) (cc_auth_session_id cmd)"
  let ?found = "case e_fault env ''auth_sessions.find'' of Some m \<Rightarrow> Inl (Repository m) | None \<Rightarrow> auth_session_find t ?h (db_auth_sessions d)"
  have ne: "cc_auth_session_id cmd \<noteq> []" using assms by (auto simp: continue_with_sso_def Let_def liftR_def from_presented_def bindE_def)
  obtain session where f: "?found = Inr (Some session)"
    using assms ne
    by (cases ?found; cases "projr ?found")
      (auto simp: continue_with_sso_def Let_def liftR_def sessions_find_eq from_presented_def bindE_def mapErrE_def)
  then have st: "auth_session_find t ?h (db_auth_sessions d) = Inr (Some session)" by (simp split: option.splits)
  have n: "(if auth_session_is_expired_at session (fl_now fl) then retE ExpiredHandle
      else if as_progress session \<noteq> Anonymous then retE (ResumeLoginRequired (cc_auth_session_id cmd))
      else bindE (complete_with_sso env fl ctx t session (cc_sso_session_id cmd) (fl_now fl)) (\<lambda>_.
        retE (ResumeLoginRequired (cc_auth_session_id cmd)))) d = (r, d')"
    using assms(1) ne f by (simp add: continue_with_sso_def Let_def liftR_def sessions_find_eq from_presented_def bindE_def mapErrE_def)
  then have live: "\<not> auth_session_is_expired_at session (fl_now fl)" "as_progress session = Anonymous"
    and b: "bindE (complete_with_sso env fl ctx t session (cc_sso_session_id cmd) (fl_now fl)) (\<lambda>_. retE (ResumeLoginRequired (cc_auth_session_id cmd))) d = (r, d')"
    using assms(2) by (auto split: if_splits)
  obtain x d2 where x: "complete_with_sso env fl ctx t session (cc_sso_session_id cmd) (fl_now fl) d = (x, d2)" "db_codes d' = db_codes d2"
    using bindE_then_keeps [OF b keeps_retE] by blast
  have "code_over_sso env fl ctx t (as_request session) (cc_sso_session_id cmd) d d2"
    using complete_with_sso_issues [OF x(1)] x(2) assms(2) by simp
  then show ?thesis using st live x(2) by (auto simp: code_over_sso_def)
qed

section \<open>Consent\<close>

lemma live_session_Some:
  assumes "live_session env fl t i d = (Inr (Some session), d')"
  shows "d' = d \<and> auth_session_find t (id_hash_of_plain (e_lib env) i) (db_auth_sessions d) = Inr (Some session)
     \<and> \<not> auth_session_is_expired_at session (fl_now fl)"
proof -
  have "i \<noteq> []" using assms by (auto simp: live_session_def from_presented_def split: if_splits)
  with assms show ?thesis
    by (auto simp: live_session_def from_presented_def bindE_Inr_iff sessions_find_eq split: option.splits if_splits)
qed

lemma gate_denies_cong:
  "db_applications d' = db_applications d \<Longrightarrow> db_bindings d' = db_bindings d \<Longrightarrow> db_clients d' = db_clients d
     \<Longrightarrow> db_assignments d' = db_assignments d \<Longrightarrow> gate_denies env d' t c u = gate_denies env d t c u"
  by (simp add: gate_denies_def split: option.split)

text \<open>What follows an issued code keeps the tables: the outcome is that of the issuance.\<close>

lemma mapErrE_id: "mapErrE (\<lambda>e. e) m = m"
proof
  show "mapErrE (\<lambda>e. e) m s = m s" for s by (cases "m s"; cases "fst (m s)") (auto simp: mapErrE_def)
qed

lemma issue_code_then:
  assumes "bindE (mapErrE F (issue_code env fl ctx t q a)) K d = (r, d')" "db_codes d' \<noteq> db_codes d"
    and "\<And>x. keeps (\<lambda>d. (db_codes d, db_consents d)) (K x)"
  obtains d1 where "K (CodeIssued (fl_code fl)) d1 = (r, d')" "\<not> gate_denies env d t (r_client_id q) (au_user_id a)"
    "db_codes d' = db_codes d @ [issued_code_row env fl t q a]" "db_consents d' = db_consents d"
    "db_auth_sessions d1 = db_auth_sessions d"
proof -
  obtain y d1 where y: "issue_code env fl ctx t q a d = (y, d1)" by fastforce
  have "mapErrE F (issue_code env fl ctx t q a) d = (map_err F y, d1)" using y by (simp add: mapErrE_def)
  then have k: "(db_codes d', db_consents d') = (db_codes d1, db_consents d1)"
    using bindE_then_keeps [OF assms(1), of "\<lambda>d. (db_codes d, db_consents d)"] assms(3) by fastforce
  then have i: "db_codes d1 \<noteq> db_codes d" using assms(2) by simp
  note f = issue_code_issues [OF y i]
  have "K (CodeIssued (fl_code fl)) d1 = (r, d')" using assms(1) y f(1) by (simp add: bindE_def mapErrE_def)
  moreover have "db_consents d1 = db_consents d" "db_auth_sessions d1 = db_auth_sessions d"
    using issue_code_cases [OF y] i same_data_fields by force+
  ultimately show ?thesis using f k that by simp
qed

text \<open>(C11) A code issued when the user approves on the consent screen rests on an unexpired session of this
  tenant, stored under the presented identifier, whose sign-in is complete; the approval is recorded for exactly the scopes
  of the request; the application gate does not refuse; and the code carries that request and that authentication.\<close>

theorem approve_code_justified:
  assumes "consent_approve env fl ctx t i d = (r, d')" and "db_codes d' \<noteq> db_codes d"
  shows "\<exists>session a c. auth_session_find t (id_hash_of_plain (e_lib env) i) (db_auth_sessions d) = Inr (Some session)
     \<and> \<not> auth_session_is_expired_at session (fl_now fl) \<and> completed_authentication session = Some a
     \<and> consent_find (e_ci env) t (au_user_id a) (r_client_id (as_request session)) (db_consents d') = Some c
     \<and> cs_scopes c = r_scope (as_request session)
     \<and> \<not> gate_denies env d t (r_client_id (as_request session)) (au_user_id a)
     \<and> db_codes d' = db_codes d @ [issued_code_row env fl t (as_request session) a]
     \<and> r = Inr (Approved (dispatch_of (success_response (as_request session) (fl_code fl))))"
proof -
  let ?F = "\<lambda>e. ConsentInternal (error_display e)"
  obtain x d0 where x: "live_session env fl t i d = (x, d0)" by fastforce
  have "db_codes d0 = db_codes d" using keepsD [OF keeps_live_session [OF side_free_fields(2)] x] .
  then obtain session a where s: "x = Inr (Some session)" "completed_authentication session = Some a"
    using assms x
    by (cases x; cases "projr x"; cases "completed_authentication (the (projr x))")
      (auto simp: consent_approve_def bindE_def mapErrE_def liftR_def)
  note l = live_session_Some [OF x [unfolded s(1)]]
  let ?q = "as_request session"
  let ?c = "\<lparr>cs_user_id = au_user_id a, cs_tenant_id = t, cs_client_id = r_client_id ?q, cs_scopes = r_scope ?q,
         cs_granted_at = fl_now fl, cs_updated_at = fl_now fl\<rparr>"
  let ?K = "\<lambda>issuance. (case issuance of CodeApplicationDenied name \<Rightarrow> retE (ConsentApplicationNotPermitted name)
     | CodeIssued code \<Rightarrow>
       bindE (tryE (repo_sessions_delete env (as_id_hash session))) (\<lambda>_.
       retE (Approved (dispatch_of (success_response ?q code))))) :: (db, consent_outcome, consent_outcome) action"
  have "bindE (mapErrE ?F (repo_consent_upsert env ?c)) (\<lambda>_.
     bindE (audit_record env ctx ''consent.granted'' AuditSuccess (Some t) (Some (au_user_id a)) (Some (r_client_id ?q)) None) (\<lambda>_.
     bindE (mapErrE ?F (issue_code env fl ctx t ?q a)) ?K)) d = (r, d')"
    using assms(1) x s l unfolding consent_approve_def Let_def by (simp add: bindE_step mapErrE_def liftR_def)
  moreover have "keeps db_codes (mapErrE ?F (repo_consent_upsert env ?c))"
    unfolding repo_consent_upsert_def by (intro keeps_mapErrE keeps_db_call keeps_modifyE) simp
  ultimately obtain d1 where u: "mapErrE ?F (repo_consent_upsert env ?c) d = (Inr (), d1)"
    and n1: "bindE (audit_record env ctx ''consent.granted'' AuditSuccess (Some t) (Some (au_user_id a)) (Some (r_client_id ?q)) None) (\<lambda>_.
     bindE (mapErrE ?F (issue_code env fl ctx t ?q a)) ?K) d1 = (r, d')"
    using assms(2) by (auto elim: bindE_changes)
  from u have d1: "d1 = d\<lparr>db_consents := consent_upsert (e_ci env) ?c (db_consents d)\<rparr>"
    by (auto simp: repo_consent_upsert_def mapErrE_Inr_iff)
  obtain d2 where same: "same_data d1 d2" and n2: "bindE (mapErrE ?F (issue_code env fl ctx t ?q a)) ?K d2 = (r, d')"
    using n1 by (rule audit_then)
  note sf = same_data_fields [OF same]
  have k: "keeps (\<lambda>d. (db_codes d, db_consents d)) (?K z)" for z
    by (cases z) (auto intro!: action_inv simp: side_free_def log_free_def)
  have i2: "db_codes d' \<noteq> db_codes d2" using assms(2) sf d1 by simp
  obtain d3 where "?K (CodeIssued (fl_code fl)) d3 = (r, d')" "\<not> gate_denies env d2 t (r_client_id ?q) (au_user_id a)"
    "db_codes d' = db_codes d2 @ [issued_code_row env fl t ?q a]" "db_consents d' = db_consents d2"
    "db_auth_sessions d3 = db_auth_sessions d2"
    using n2 i2 k by (rule issue_code_then)
  moreover have "gate_denies env d2 t (r_client_id ?q) (au_user_id a) = gate_denies env d t (r_client_id ?q) (au_user_id a)"
    by (rule gate_denies_cong) (use sf d1 in simp_all)
  moreover have "consent_find (e_ci env) t (au_user_id a) (r_client_id ?q) (db_consents d2) \<noteq> None"
    "\<And>c. consent_find (e_ci env) t (au_user_id a) (r_client_id ?q) (db_consents d2) = Some c \<Longrightarrow> cs_scopes c = r_scope ?q"
    using sf d1 by (auto simp: consent_find_upsert consent_key_def split: option.splits)
  ultimately show ?thesis using l s(2) sf d1 by auto
qed

section \<open>The end of a sign-in\<close>

definition sign_in_authentication :: "env \<Rightarrow> established_sso \<Rightarrow> instant \<Rightarrow> authentication" where
  "sign_in_authentication env sso now = \<lparr>au_user_id = ss_user_id (es_session sso), au_auth_time = now,
     au_sso_sid = Some (sid_of (e_lib env) (ss_session_hash (es_session sso))),
     au_methods = Some (ss_authentication_methods (es_session sso))\<rparr>"

lemma complete_authentication_parts:
  "complete_authentication lib j s a = (s', c) \<Longrightarrow> as_request s' = as_request s \<and> ac_authentication c = a
     \<and> ir_issued (ac_rotation c) = j \<and> ir_previous (ac_rotation c) = as_id_hash s \<and> as_id_hash s' = id_hash_of_plain lib j"
  by (auto simp: complete_authentication_def rotate_id_def Let_def)

text \<open>The flow's session can no longer be found, neither under the identifier it came with nor under the rotated one.\<close>

definition session_over :: "env \<Rightarrow> auth_session \<Rightarrow> string \<Rightarrow> db \<Rightarrow> bool" where
  "session_over env session rotated_id d \<longleftrightarrow> as_id_hash session \<notin> asr_id_hash ` set (db_auth_sessions d)
     \<and> rotated_id \<notin> asr_id_hash ` set (db_auth_sessions d)"

lemma saved_session_moved:
  assumes "repo_sessions_save_authentication env c d = (Inr x, d1)" "row \<in> set (db_auth_sessions d1)"
    and "asr_id_hash row = ir_previous (ac_rotation c)"
  shows "asr_id_hash row = id_hash_of_plain (e_lib env) (ir_issued (ac_rotation c))"
  using assms
  by (auto simp: repo_sessions_save_authentication_def db_call_def tryStateE_def save_authentication_def Let_def rbind_Inr_iff
      split: option.splits if_splits sum.splits)

lemma consent_reads: "keeps db_auth_sessions (consent_is_granted env t u q)"
  unfolding consent_is_granted_def Let_def repo_consent_find_def by (intro action_inv)

text \<open>(C12) A code issued at the end of a sign-in rests on recorded consent to every scope of the request but
  \<open>openid\<close> and on the application gate, and carries the request of the flow and exactly the authentication that
  was established: user, time, session and methods.  The authorization session is over: unless the database refuses its deletion,
  an error the code ignores, no row answers its identifiers, the one the flow came with and the one it was rotated to.\<close>

theorem sign_in_code_justified:
  assumes "continue_authorization env fl t session sso now ctx d = (r, d')" and "db_codes d' \<noteq> db_codes d"
  shows "consented env t (ss_user_id (es_session sso)) (as_request session) d
     \<and> \<not> gate_denies env d t (r_client_id (as_request session)) (ss_user_id (es_session sso))
     \<and> db_codes d' = db_codes d @ [issued_code_row env fl t (as_request session) (sign_in_authentication env sso now)]
     \<and> r = Inr (Authorized (dispatch_of (success_response (as_request session) (fl_code fl))))
     \<and> (e_fault env ''auth_sessions.delete'' = None \<longrightarrow>
          session_over env session (id_hash_of_plain (e_lib env) (fl_id_completion fl)) d')"
proof -
  let ?a = "sign_in_authentication env sso now"
  let ?q = "as_request session"
  obtain s' c where sc: "complete_authentication (e_lib env) (fl_id_completion fl) session ?a = (s', c)" by fastforce
  note p = complete_authentication_parts [OF sc]
  let ?K = "\<lambda>issuance. (case issuance of CodeApplicationDenied name \<Rightarrow> retE (ContinuationApplicationNotPermitted name)
     | CodeIssued code \<Rightarrow>
       bindE (tryE (repo_sessions_delete env (as_id_hash s'))) (\<lambda>_.
       retE (Authorized (dispatch_of (success_response ?q code))))) :: (db, domain_error, authorization_continuation) action"
  have k: "keeps (\<lambda>d. (db_codes d, db_consents d)) (?K z)" for z
    by (cases z) (auto intro!: action_inv simp: side_free_def log_free_def)
  have u: "au_user_id ?a = ss_user_id (es_session sso)" by (simp add: sign_in_authentication_def)
  have "bindE (repo_sessions_save_authentication env c) (\<lambda>_.
     bindE (consent_is_granted env t (au_user_id ?a) ?q) (\<lambda>b.
     if \<not> b then retE (ContinuationConsentRequired (ir_issued (ac_rotation c)))
     else bindE (issue_code env fl ctx t ?q ?a) ?K)) d = (r, d')"
    using assms(1)
    unfolding continue_authorization_def Let_def sign_in_authentication_def [symmetric] sc prod.case p [THEN conjunct1] .
  then obtain x d1 where sv: "repo_sessions_save_authentication env c d = (Inr x, d1)"
    and n1: "bindE (consent_is_granted env t (au_user_id ?a) ?q) (\<lambda>b.
     if \<not> b then retE (ContinuationConsentRequired (ir_issued (ac_rotation c)))
     else bindE (issue_code env fl ctx t ?q ?a) ?K) d1 = (r, d')" and c1: "db_codes d1 = db_codes d" "db_codes d' \<noteq> db_codes d1"
    by (rule bindE_changes [OF _ keeps_sessions(3) [OF side_free_fields(2)] assms(2)])
  have b1: "base d1 = base d" using sv by (rule keepsD [OF keeps_sessions(3) [OF side_free_fields(1)]])
  from n1 obtain b d2 where g: "consent_is_granted env t (au_user_id ?a) ?q d1 = (Inr b, d2)"
    and n: "(if \<not> b then retE (ContinuationConsentRequired (ir_issued (ac_rotation c)))
     else bindE (issue_code env fl ctx t ?q ?a) ?K) d2 = (r, d')" and c2: "db_codes d2 = db_codes d1" "db_codes d' \<noteq> db_codes d2"
    by (rule bindE_changes [OF _ keeps_consent_is_granted c1(2)])
  then have "b" "bindE (issue_code env fl ctx t ?q ?a) ?K d2 = (r, d')" by (cases b; auto)+
  note n2 = this(2) and g = g this(1)
  have b2: "base d2 = base d" using keepsD [OF keeps_consent_is_granted g(1), of base] b1 by simp
  from g have "consented env t (au_user_id ?a) ?q d"
    using consent_is_granted_True [of env t "au_user_id ?a" ?q d1 d2] base_consented [OF b1] by simp
  moreover obtain d3 where d3: "?K (CodeIssued (fl_code fl)) d3 = (r, d')" "\<not> gate_denies env d2 t (r_client_id ?q) (au_user_id ?a)"
    "db_codes d' = db_codes d2 @ [issued_code_row env fl t ?q ?a]" "db_consents d' = db_consents d2"
    "db_auth_sessions d3 = db_auth_sessions d2"
    using n2 c2(2) k by (rule issue_code_then [where F = "\<lambda>e. e", unfolded mapErrE_id])
  moreover have "session_over env session (id_hash_of_plain (e_lib env) (fl_id_completion fl)) d'"
    if del: "e_fault env ''auth_sessions.delete'' = None"
  proof -
    have "db_auth_sessions d2 = db_auth_sessions d1" using keepsD [OF consent_reads g(1)] .
    then have "db_auth_sessions d3 = db_auth_sessions d1" using d3(5) by simp
    moreover have "db_auth_sessions d' = auth_session_delete (as_id_hash s') (db_auth_sessions d3)"
      using d3(1) del by (auto simp: bindE_def tryE_def repo_sessions_delete_def db_call_def modifyE_def)
    moreover have "\<forall>row \<in> set (db_auth_sessions d1). asr_id_hash row = as_id_hash session
        \<longrightarrow> asr_id_hash row = id_hash_of_plain (e_lib env) (fl_id_completion fl)"
      using saved_session_moved [OF sv] p by simp
    ultimately show ?thesis using p by (auto simp: session_over_def auth_session_delete_def)
  qed
  moreover have "db_codes d2 = db_codes d" using base_fields [OF b2] by simp
  ultimately show ?thesis unfolding u base_gate_denies [OF b2] by simp
qed

end
