(* ===== verification/Authorize_Lifecycle.thy ===== *)
theory Authorize_Lifecycle
  imports Authorize_Flow Token_Lifecycle
begin

text \<open>
  The authorization flow from end to end: that a sign-in with recorded consent ends with a code, whatever \<open>prompt\<close> says,
  and that tokens obtained for a code tell of the sign-in the code was issued for.
\<close>

section \<open>A consented sign-in completes\<close>

lemma consent_is_granted_eq:
  assumes "fault_free env"
  shows "consent_is_granted env t u q d = (Inr (consented env t u q d), d)"
proof (cases "scopes_needing_consent q = []")
  case True
  then have "\<forall>s \<in> set (r_scope q). s = ''openid''" using scopes_needing_consent_set [of q] by auto
  with True show ?thesis by (simp add: consent_is_granted_def consented_def retE_def)
next
  case False
  have "consented env t u q d \<longleftrightarrow> (\<forall>s \<in> set (scopes_needing_consent q).
     \<exists>c. consent_find (e_ci env) t u (r_client_id q) (db_consents d) = Some c \<and> s \<in> set (cs_scopes c))"
    unfolding scopes_needing_consent_set by (auto simp: consented_def)
  with False assms show ?thesis
    by (cases "consent_find (e_ci env) t u (r_client_id q) (db_consents d)")
      (auto simp: consent_is_granted_def Let_def bindE_def repo_consent_find_def db_query_def db_call_def getsE_def retE_def
        fault_free_def consent_covers_def list_all_iff)
qed

lemma issue_code_succeeds:
  assumes "fault_free env" "\<not> gate_denies env d t (r_client_id q) (au_user_id a)"
    and "sha256_hex (e_lib env) (fl_code fl) \<notin> co_hash ` set (db_codes d)"
  shows "\<exists>d'. issue_code env fl ctx t q a d = (Inr (CodeIssued (fl_code fl)), d')
     \<and> same_data (d\<lparr>db_codes := db_codes d @ [issued_code_row env fl t q a]\<rparr>) d'"
proof -
  obtain r d' where r: "issue_code env fl ctx t q a d = (r, d')" by fastforce
  from r obtain gate d1 where same: "same_data d d1"
    and n: "(case gate of GateDenied name _ \<Rightarrow> retE (CodeApplicationDenied name)
       | GateAllowed \<Rightarrow>
         bindE (repo_codes_create env (issued_code_row env fl t q a)) (\<lambda>_.
         bindE (audit_record env ctx ''authorization_code.issued'' AuditSuccess (Some t) (Some (au_user_id a)) (Some (r_client_id q)) None) (\<lambda>_.
         retE (CodeIssued (fl_code fl))))) d1 = (r, d')"
    and g: "gate = GateAllowed \<longleftrightarrow> \<not> gate_denies env d t (r_client_id q) (au_user_id a)"
    unfolding issue_code_alt by (rule gate_then)
  have "co_hash (issued_code_row env fl t q a) \<notin> co_hash ` set (db_codes d1)"
    using assms(3) same_data_fields [OF same] by (simp add: issued_code_row_def)
  then have "\<not> list_ex (\<lambda>x. co_hash x = co_hash (issued_code_row env fl t q a)) (db_codes d1)" by (auto simp: list_ex_iff) (metis imageI)
  then obtain d2 where "repo_codes_create env (issued_code_row env fl t q a) d1 = (Inr (), d2)"
    using assms(1) by (auto simp: repo_codes_create_def db_call_def fault_free_def tryStateE_def code_create_def)
  then have "bindE (audit_record env ctx ''authorization_code.issued'' AuditSuccess (Some t) (Some (au_user_id a)) (Some (r_client_id q)) None) (\<lambda>_.
         retE (CodeIssued (fl_code fl))) d2 = (r, d')"
    using n g assms(2) by (simp add: bindE_def)
  then obtain d3 where "retE (CodeIssued (fl_code fl)) d3 = (r, d')" by (rule audit_then)
  then have "r = Inr (CodeIssued (fl_code fl))" by simp
  then show ?thesis using issue_code_cases [OF r] r by auto
qed

lemma consented_sign_in_completes:
  assumes "fault_free env" "consented env t (ss_user_id (es_session sso)) (as_request session) d"
    and "\<not> gate_denies env d t (r_client_id (as_request session)) (ss_user_id (es_session sso))"
    and "sha256_hex (e_lib env) (fl_code fl) \<notin> co_hash ` set (db_codes d)"
    and "id_hash_of_plain (e_lib env) (fl_id_completion fl) \<notin> asr_id_hash ` set (db_auth_sessions d)"
  shows "\<exists>d'. continue_authorization env fl t session sso now ctx d
       = (Inr (Authorized (dispatch_of (success_response (as_request session) (fl_code fl)))), d')
     \<and> db_codes d' = db_codes d @ [issued_code_row env fl t (as_request session) (sign_in_authentication env sso now)]"
proof -
  let ?a = "sign_in_authentication env sso now"
  let ?q = "as_request session"
  obtain s' c where sc: "complete_authentication (e_lib env) (fl_id_completion fl) session ?a = (s', c)" by fastforce
  note p = complete_authentication_parts [OF sc]
  have u: "au_user_id ?a = ss_user_id (es_session sso)" by (simp add: sign_in_authentication_def)
  have "\<not> id_conflict (\<lambda>r. asr_id_hash r = as_id_hash session) (id_hash_of_plain (e_lib env) (fl_id_completion fl)) (db_auth_sessions d)"
    using assms(5) by (force simp: id_conflict_def list_ex_iff)
  then obtain rows where "save_authentication (e_lib env) c (db_auth_sessions d) = Inr rows"
    using p by (auto simp: save_authentication_def Let_def)
  then have sv: "repo_sessions_save_authentication env c d = (Inr (), d\<lparr>db_auth_sessions := rows\<rparr>)"
    using assms(1) by (simp add: repo_sessions_save_authentication_def db_call_def fault_free_def)
  let ?d = "d\<lparr>db_auth_sessions := rows\<rparr>"
  have b: "base ?d = base d" by (simp add: base_def)
  have g: "consent_is_granted env t (au_user_id ?a) ?q ?d = (Inr True, ?d)"
    using consent_is_granted_eq [OF assms(1)] assms(2) base_consented [OF b] u by simp
  obtain d1 where i: "issue_code env fl ctx t ?q ?a ?d = (Inr (CodeIssued (fl_code fl)), d1)"
    and sd: "same_data (?d\<lparr>db_codes := db_codes ?d @ [issued_code_row env fl t ?q ?a]\<rparr>) d1"
    using issue_code_succeeds [OF assms(1), of ?d t ?q ?a fl ctx] assms(3,4) base_gate_denies [OF b] u by auto
  obtain x d2 where del: "repo_sessions_delete env (as_id_hash s') d1 = (x, d2)" by fastforce
  have "continue_authorization env fl t session sso now ctx d = (Inr (Authorized (dispatch_of (success_response ?q (fl_code fl)))), d2)"
    unfolding continue_authorization_def Let_def sign_in_authentication_def [symmetric] sc prod.case p [THEN conjunct1]
    using sv g i del by (simp add: bindE_def tryE_def)
  moreover have "db_codes d2 = db_codes d1" using del by (rule keepsD [OF keeps_sessions(4) [OF side_free_fields(2)]])
  ultimately show ?thesis using same_data_fields [OF sd] by auto
qed

text \<open>After a sign-in, \<open>prompt=consent\<close> is not honoured: with consent on record the flow ends with a code and no consent
  screen, although the same request over a restored single sign-on session never issues a code without one.\<close>

theorem prompt_consent_skipped:
  assumes "fault_free env" "forces_consent (as_request session)"
    and "consented env t (ss_user_id (es_session sso)) (as_request session) d"
    and "\<not> gate_denies env d t (r_client_id (as_request session)) (ss_user_id (es_session sso))"
    and "sha256_hex (e_lib env) (fl_code fl) \<notin> co_hash ` set (db_codes d)"
    and "id_hash_of_plain (e_lib env) (fl_id_completion fl) \<notin> asr_id_hash ` set (db_auth_sessions d)"
  shows "(\<exists>d'. continue_authorization env fl t session sso now ctx d
       = (Inr (Authorized (dispatch_of (success_response (as_request session) (fl_code fl)))), d')
       \<and> db_codes d' = db_codes d @ [issued_code_row env fl t (as_request session) (sign_in_authentication env sso now)])
     \<and> (\<forall>cookie r d'. complete_with_sso env fl ctx t session cookie (fl_now fl) d = (r, d') \<longrightarrow> db_codes d' = db_codes d)"
  using consented_sign_in_completes [OF assms(1,3-6)] complete_with_sso_issues assms(2) unfolding code_over_sso_def by blast

section \<open>From the sign-in to the tokens\<close>

lemma issued_code_redeemed:
  assumes "exchange env' ctx' t' cmd d2 = (Inr tok, d3)" "tc_grant_type cmd = Some ''authorization_code''" "codes_inv (db_codes d2)"
    and "tc_code cmd = Some (fl_code fl)" "e_lib env' = e_lib env" "issued_code_row env fl t q a \<in> set (db_codes d2)"
  shows "t' = t \<and> (\<exists>c user ic v. established_client env' t cmd d2 (r_client_id q) c \<and> active_user_of d2 (au_user_id a) user
     \<and> tc_redirect_uri cmd = Some (r_redirect_uri q)
     \<and> tc_code_verifier cmd = Some v \<and> s256_challenge (e_lib env) v = pk_challenge (r_pkce q)
     \<and> map_option Inr (is_id_token tok) = Some (sign_id_token env' ic)
     \<and> it_sub ic = e_uuid_str env' (u_sub user) \<and> it_aud ic = r_client_id q \<and> it_auth_time ic = timestamp (au_auth_time a)
     \<and> it_nonce ic = r_nonce q \<and> it_sid ic = au_sso_sid a \<and> tells_methods (au_methods a) ic)"
proof -
  let ?row = "issued_code_row env fl t q a"
  obtain client_id c r user ic where e: "established_client env' t' cmd d2 client_id c" and r: "r \<in> set (db_codes d2)"
    and re: "redeemable_code env' t' cmd client_id r" and u: "active_user_of d2 (au_user_id (co_authentication r)) user"
    and ic: "map_option Inr (is_id_token tok) = Some (sign_id_token env' ic)"
      "id_claims_for env' t' client_id user (au_auth_time (co_authentication r)) (g_nonce (co_grant r))
         (au_sso_sid (co_authentication r)) (au_methods (co_authentication r)) (grant_includes (co_grant r)) ic"
    using code_grant_justified [OF assms(1-3)] by blast
  have "co_hash r = co_hash ?row" using re assms(4,5) by (simp add: redeemable_code_def issued_code_row_def code_hash_def)
  then have "r = ?row" using assms(3,6) r by (simp add: codes_inv_def eq_key_imp_eq_value distinct_map inj_on_def)
  then show ?thesis using e re u ic assms(5)
    by (auto simp: redeemable_code_def issued_code_row_def code_grant_of_def id_claims_for_def)
qed


end
