(* ===== verification/Authorize_Samples.thy ===== *)
theory Authorize_Samples
  imports Authorize_Lifecycle
begin

text \<open>
  A flow of the sample deployment: a started session with its handle, a single sign-on session of the user with two factors,
  a membership and a recorded consent.  The properties of the authorization flow are applied to it.
\<close>

definition flow_request :: authorization_request where
  "flow_request = sample_request\<lparr>r_scope := [''openid'', ''offline_access''], r_prompt := [], r_max_age := None,
     r_pkce := \<lparr>pk_challenge = sample_verifier, pk_method = S256\<rparr>\<rparr>"

definition flow_row :: "authorization_request \<Rightarrow> auth_session_row" where
  "flow_row q = auth_session_row_of 100 (fst (auth_session_start toy_crypto ''h'' ''s'' 1 q 100 600 60))"

definition flow_sso :: sso_session where
  "flow_sso = sso_establish ''cookie'' 9 50 1000 10000 [Password, Totp] None None"

definition flow_consent :: client_consent where
  "flow_consent = \<lparr>cs_user_id = 9, cs_tenant_id = 1, cs_client_id = ''app'', cs_scopes = [''openid'', ''offline_access''],
     cs_granted_at = 60, cs_updated_at = 60\<rparr>"

definition flow_db :: "authorization_request \<Rightarrow> db" where
  "flow_db q = token_db\<lparr>db_auth_sessions := [flow_row q], db_sso := [flow_sso], db_memberships := [new_home 1 9 0],
     db_consents := [flow_consent]\<rparr>"

definition sample_flow :: flow where
  "sample_flow = \<lparr>fl_now = 110, fl_restore_now = 110, fl_issue_now = 110, fl_auth_session_ttl = 600, fl_code_ttl = 600,
     fl_handle = ''h2'', fl_id_start = ''i0'', fl_id_exchange = ''i1'', fl_id_completion = ''i2'', fl_code = ''new'', fl_sso_id = ''z'',
     fl_policy_default = (\<lambda>_. Inr DefaultAllow),
     fl_sso_lifetime = (\<lambda>_. Inr \<lparr>sl_idle = 1000, sl_absolute = 10000, sl_bound = 20000\<rparr>),
     fl_tenant_resolve = (\<lambda>_. Inr None), fl_append_query = (\<lambda>_ _. None), fl_device_gate = None\<rparr>"

definition resume_cmd :: resume_command where
  "resume_cmd = \<lparr>rc_handle = ''h'', rc_sso_session_id = Some ''cookie''\<rparr>"

lemma sample_resume_issues:
  "length (db_codes (snd (resume token_env sample_flow token_ctx 1 resume_cmd (flow_db flow_request)))) = 2"
  by code_simp

theorem resume_code_justified_witness:
  "\<exists>s u. sso_restorable token_env sample_flow 1 ''cookie'' (flow_db flow_request) s u"
proof -
  obtain r d' where r: "resume token_env sample_flow token_ctx 1 resume_cmd (flow_db flow_request) = (r, d')" by fastforce
  have "length (db_codes d') = 2" using sample_resume_issues r by simp
  then have "db_codes d' \<noteq> db_codes (flow_db flow_request)" by (auto simp: flow_db_def token_db_def)
  from resume_code_justified [OF r this] show ?thesis unfolding code_over_sso_def resume_cmd_def by auto
qed

definition continue_cmd :: continue_command where
  "continue_cmd = \<lparr>cc_auth_session_id = ''s'', cc_sso_session_id = Some ''cookie''\<rparr>"

lemma sample_continue_issues:
  "length (db_codes (snd (continue_with_sso token_env sample_flow token_ctx 1 continue_cmd (flow_db flow_request)))) = 2"
  by code_simp

theorem continue_code_justified_witness:
  "\<exists>stored. auth_session_find 1 ''s'' (db_auth_sessions (flow_db flow_request)) = Inr (Some stored) \<and> as_progress stored = Anonymous"
proof -
  obtain r d' where r: "continue_with_sso token_env sample_flow token_ctx 1 continue_cmd (flow_db flow_request) = (r, d')" by fastforce
  have "length (db_codes d') = 2" using sample_continue_issues r by simp
  then have "db_codes d' \<noteq> db_codes (flow_db flow_request)" by (auto simp: flow_db_def token_db_def)
  from continue_code_justified [OF r this] show ?thesis
    by (auto simp: continue_cmd_def id_hash_of_plain_def sha256_hex_def token_env_def toy_crypto_def)
qed

definition silent_request :: authorization_request where
  "silent_request = flow_request\<lparr>r_prompt := [PromptNone]\<rparr>"

lemma sample_silent_stored:
  "case auth_session_find_by_handoff 1 (handoff_hash (e_lib token_env) (rc_handle resume_cmd)) (db_auth_sessions (flow_db silent_request)) of
     Inr (Some s) \<Rightarrow> forbids_interaction (as_request s) | _ \<Rightarrow> False"
  by code_simp

theorem prompt_none_is_silent_witness:
  "\<not> shows_screen (fst (returning (resume token_env sample_flow token_ctx 1 resume_cmd) (flow_db silent_request)))"
proof -
  obtain out d' where r: "returning (resume token_env sample_flow token_ctx 1 resume_cmd) (flow_db silent_request) = (out, d')" by fastforce
  obtain stored where "auth_session_find_by_handoff 1 (handoff_hash (e_lib token_env) (rc_handle resume_cmd)) (db_auth_sessions (flow_db silent_request))
      = Inr (Some stored)" "forbids_interaction (as_request stored)"
    using sample_silent_stored by (auto split: sum.splits option.splits)
  from prompt_none_is_silent [OF r this] r show ?thesis by simp
qed

definition approved_db :: db where
  "approved_db = (flow_db flow_request)\<lparr>db_consents := [],
     db_auth_sessions := [(flow_row flow_request)\<lparr>asr_authenticated_user_id := Some 9, asr_auth_time := Some 105\<rparr>]\<rparr>"

lemma sample_approve_issues: "length (db_codes (snd (consent_approve token_env sample_flow token_ctx 1 ''s'' approved_db))) = 2"
  by code_simp

theorem approve_code_justified_witness:
  "\<exists>session a. auth_session_find 1 ''s'' (db_auth_sessions approved_db) = Inr (Some session) \<and> completed_authentication session = Some a
     \<and> db_codes (snd (consent_approve token_env sample_flow token_ctx 1 ''s'' approved_db))
        = db_codes approved_db @ [issued_code_row token_env sample_flow 1 (as_request session) a]"
proof -
  obtain r d' where r: "consent_approve token_env sample_flow token_ctx 1 ''s'' approved_db = (r, d')" by fastforce
  have "length (db_codes d') = 2" using sample_approve_issues r by simp
  then have "db_codes d' \<noteq> db_codes approved_db" by (auto simp: approved_db_def flow_db_def token_db_def)
  from approve_code_justified [OF r this] r show ?thesis
    by (auto simp: id_hash_of_plain_def sha256_hex_def token_env_def toy_crypto_def)
qed

definition flow_session :: "authorization_request \<Rightarrow> auth_session" where
  "flow_session q = fst (auth_session_start toy_crypto ''h'' ''s'' 1 q 100 600 60)"

definition flow_established :: established_sso where
  "flow_established = \<lparr>es_session = flow_sso, es_session_id = ''cookie''\<rparr>"

lemma sample_sign_in_issues:
  "length (db_codes (snd (continue_authorization token_env sample_flow 1 (flow_session flow_request) flow_established 110 token_ctx (flow_db flow_request)))) = 2"
  by code_simp

theorem sign_in_code_justified_witness:
  "consented token_env 1 9 flow_request (flow_db flow_request)"
proof -
  obtain r d' where r: "continue_authorization token_env sample_flow 1 (flow_session flow_request) flow_established 110 token_ctx (flow_db flow_request) = (r, d')"
    by fastforce
  have "length (db_codes d') = 2" using sample_sign_in_issues r by simp
  then have "db_codes d' \<noteq> db_codes (flow_db flow_request)" by (auto simp: flow_db_def token_db_def)
  from sign_in_code_justified [OF r this] show ?thesis
    by (simp add: flow_session_def auth_session_start_def flow_established_def flow_sso_def sso_establish_def Let_def)
qed

definition consent_request :: authorization_request where
  "consent_request = flow_request\<lparr>r_prompt := [PromptConsent]\<rparr>"

theorem prompt_consent_skipped_witness:
  "\<exists>out d'. continue_authorization token_env sample_flow 1 (flow_session consent_request) flow_established 110 token_ctx (flow_db consent_request)
     = (Inr (Authorized out), d')"
proof -
  let ?d = "flow_db consent_request"
  have "fault_free token_env" by (simp add: fault_free_def token_env_def)
  moreover have "forces_consent (as_request (flow_session consent_request))" by code_simp
  moreover have "consented token_env 1 (ss_user_id (es_session flow_established)) (as_request (flow_session consent_request)) ?d"
    by (simp add: consented_def flow_session_def auth_session_start_def flow_established_def flow_sso_def sso_establish_def Let_def
        consent_request_def flow_request_def sample_request_def flow_db_def token_env_def flow_consent_def consent_find_def consent_key_def)
  moreover have "\<not> gate_denies token_env ?d 1 (r_client_id (as_request (flow_session consent_request))) (ss_user_id (es_session flow_established))"
    by (simp add: gate_denies_def flow_db_def token_db_def app_find_by_oidc_client_id_def)
  moreover have "sha256_hex (e_lib token_env) (fl_code sample_flow) \<notin> co_hash ` set (db_codes ?d)"
    by (simp add: flow_db_def token_db_def token_env_def sample_flow_def sha256_hex_def toy_crypto_def token_code_def sample_code_def
        code_issue_def code_hash_def)
  moreover have "id_hash_of_plain (e_lib token_env) (fl_id_completion sample_flow) \<notin> asr_id_hash ` set (db_auth_sessions ?d)"
    by (simp add: flow_db_def flow_row_def auth_session_row_of_def auth_session_start_def id_hash_of_plain_def token_env_def sample_flow_def
        sha256_hex_def toy_crypto_def Let_def)
  ultimately show ?thesis using prompt_consent_skipped by blast
qed

definition after_resume :: db where
  "after_resume = snd (resume token_env sample_flow token_ctx 1 resume_cmd (flow_db flow_request))"

definition redeem_cmd :: token_command where
  "redeem_cmd = token_cmd\<lparr>tc_code := Some ''new''\<rparr>"

lemma sample_redeem: "is_ok (exchange token_env token_ctx 1 redeem_cmd after_resume)" "distinct (map co_hash (db_codes after_resume))"
  by code_simp+


end
