(* ===== verification/Account_Services.thy ===== *)
theory Account_Services
  imports Authorize Lockout
begin

text \<open>
  What the operations on accounts share: repository calls of the tables of users, authenticators, login identifiers,
  domains and retired passwords, the resolution of the name typed at a sign-in
  (\<open>application/login_user_resolution.rs\<close>), the password policy service (\<open>application/password_policy.rs\<close>), the
  consumption of one-time codes (\<open>application/authenticator_management.rs\<close>), the CSRF tokens
  (\<open>contracts/src/csrf.rs\<close>) and the limit per address.

  \<open>account\<close> carries what these services are built with beside \<open>env\<close>: the settings of a tenant, the password hasher, the leak check, the decryption of stored secrets, the library of one-time passwords, the HMAC under the CSRF key,
  the case mappings of Unicode and their clocks.  A request that panics ends with \<open>Panicked\<close>.
\<close>

datatype 'r exit = Return 'r | Panicked

definition settle :: "('s, 'r exit, 'r) action \<Rightarrow> 's \<Rightarrow> 'r exit \<times> 's" where
  "settle m s = (case m s of (Inl e, s') \<Rightarrow> (e, s') | (Inr r, s') \<Rightarrow> (Return r, s'))"

record account =
  ac_password_policy :: "tenant_id \<Rightarrow> domain_error + password_policy"
  ac_lockout :: "tenant_id \<Rightarrow> domain_error + lockout_policy"
  ac_step_up_max_age :: "tenant_id \<Rightarrow> domain_error + 64 word"
  ac_limiter :: limiter
  ac_hmac :: "string \<Rightarrow> string"
  ac_hash :: "string \<Rightarrow> domain_error + string"
  ac_verify :: "string \<Rightarrow> string \<Rightarrow> domain_error + bool"
  ac_is_breached :: "string \<Rightarrow> domain_error + bool"
  ac_decrypt :: "string \<Rightarrow> string + string"
  ac_totp_build :: "string \<Rightarrow> string + (string \<Rightarrow> nat \<Rightarrow> bool)"
  ac_totp_clock :: "string + nat"
  ac_lower :: "string \<Rightarrow> string"
  ac_upper :: "string \<Rightarrow> string"
  ac_failure_now :: instant
  ac_totp_now :: instant
  ac_code_now :: instant
  ac_history_now :: instant
  ac_id_password :: string

definition internal :: "(string \<Rightarrow> 'r) \<Rightarrow> (db, domain_error, 'a) action \<Rightarrow> (db, 'r exit, 'a) action" where
  "internal f m = mapErrE (\<lambda>e. Return (f (error_display e))) m"

definition unwrap_panic :: "'a option \<Rightarrow> (db, 'r exit, 'a) action" where
  "unwrap_panic x = (case x of None \<Rightarrow> failE Panicked | Some a \<Rightarrow> retE a)"

section \<open>CSRF tokens\<close>

definition login_csrf_token :: "account \<Rightarrow> string \<Rightarrow> string" where
  "login_csrf_token ac auth_session_id = ac_hmac ac (''csrf:'' @ auth_session_id)"

definition consent_csrf_token :: "account \<Rightarrow> string \<Rightarrow> string" where
  "consent_csrf_token ac auth_session_id = ac_hmac ac (''consent-csrf:'' @ auth_session_id)"

definition byte_of :: "char \<Rightarrow> 8 word" where
  "byte_of c = word_of_nat (byte_val c)"

definition csrf_verify :: "string \<Rightarrow> string \<Rightarrow> bool" where
  "csrf_verify expected provided =
     (if length expected \<noteq> length provided then False
      else foldl (\<lambda>acc (a, b). or acc (xor (byte_of a) (byte_of b))) 0 (zip expected provided) = 0)"

section \<open>Repository calls\<close>

definition find_login_identifier ::
  "env \<Rightarrow> account \<Rightarrow> string \<Rightarrow> identifier_scope \<Rightarrow> tenant_id \<Rightarrow> string \<Rightarrow> (db, domain_error, login_identifier_match) action" where
  "find_login_identifier env ac op scope t input =
     (if lookup_candidates (ac_lower ac) (ac_upper ac) input = [] then retE (Unresolved IdNotFound)
      else db_query env op (\<lambda>d. resolve_login_identifier (e_ci env) (ac_lower ac) (ac_upper ac) scope t input
             (db_login_identifiers d) (db_users d) (db_memberships d) (db_tenants d)))"

definition repo_domain_find_tenant :: "env \<Rightarrow> string \<Rightarrow> (db, domain_error, tenant_id option) action" where
  "repo_domain_find_tenant env domain = db_query env ''tenant_domains.find_tenant_by_domain''
     (\<lambda>d. domain_find_tenant (e_ci env) domain (db_tenant_domains d))"

definition repo_record_login_failure ::
  "env \<Rightarrow> uuid \<Rightarrow> lockout_policy \<Rightarrow> instant \<Rightarrow> (db, domain_error, login_failure_record option) action" where
  "repo_record_login_failure env u lockout now d =
     (case record_login_failure u lockout now (db_users d) of
        None \<Rightarrow> (Inr None, d)
      | Some r \<Rightarrow>
          db_call env ''users.record_login_failure''
            (\<lambda>d. case r of Inl e \<Rightarrow> (Inl e, d)
               | Inr (failure, rows) \<Rightarrow>
                   db_call env ''users.record_login_failure(select)'' (retE (Some failure)) (d\<lparr>db_users := rows\<rparr>)) d)"

definition repo_update_login_state :: "env \<Rightarrow> uuid \<Rightarrow> int \<Rightarrow> instant option \<Rightarrow> (db, domain_error, unit) action" where
  "repo_update_login_state env u n until = db_call env ''users.update_login_state''
     (modifyE (\<lambda>d. d\<lparr>db_users := update_login_state u n until (db_users d)\<rparr>))"

definition user_update_password ::
  "(string \<Rightarrow> string) \<Rightarrow> instant \<Rightarrow> uuid \<Rightarrow> string \<Rightarrow> string \<Rightarrow> user list \<Rightarrow> bool \<times> user list" where
  "user_update_password ci db_now u expected_hash new_hash rows =
     (let hit = (\<lambda>r. u_id r = u \<and> ci (u_password_hash r) = ci expected_hash) in
      (length (filter hit rows) = 1,
       map (\<lambda>r. if hit r then r\<lparr>u_password_hash := new_hash, u_must_change_password := False, u_password_changed_at := Some db_now\<rparr>
                else r) rows))"

definition repo_update_password :: "env \<Rightarrow> uuid \<Rightarrow> string \<Rightarrow> string \<Rightarrow> (db, domain_error, bool) action" where
  "repo_update_password env u expected new = db_call env ''users.update_password''
     (stateE (\<lambda>d. case user_update_password (e_ci env) (e_db_now env) u expected new (db_users d) of
        (b, rows) \<Rightarrow> (b, d\<lparr>db_users := rows\<rparr>)))"

definition repo_save_password_verification :: "env \<Rightarrow> password_verification \<Rightarrow> (db, domain_error, unit) action" where
  "repo_save_password_verification env v = db_call env ''auth_sessions.save_password_verification''
     (tryStateE (\<lambda>d. rbind (save_password_verification (e_lib env) v (db_auth_sessions d)) (\<lambda>rows. Inr (d\<lparr>db_auth_sessions := rows\<rparr>))))"

definition repo_totp_find :: "env \<Rightarrow> uuid \<Rightarrow> (db, domain_error, totp_secret option) action" where
  "repo_totp_find env u = db_query env ''totp_secrets.find_by_user_id'' (\<lambda>d. totp_find_by_user_id u (db_authenticators d))"

definition repo_totp_record_step :: "env \<Rightarrow> uuid \<Rightarrow> int \<Rightarrow> instant \<Rightarrow> (db, domain_error, bool) action" where
  "repo_totp_record_step env u step at = db_call env ''totp_secrets.record_totp_step_if_newer''
     (stateE (\<lambda>d. case record_totp_step_if_newer u step at (db_authenticators d) of (b, rows) \<Rightarrow> (b, d\<lparr>db_authenticators := rows\<rparr>)))"

definition repo_authn_list :: "env \<Rightarrow> uuid \<Rightarrow> (db, domain_error, user_authenticator list) action" where
  "repo_authn_list env u = db_query env ''authenticators.list_for_user'' (\<lambda>d. authn_list_for_user u (db_authenticators d))"

definition repo_authn_consume ::
  "env \<Rightarrow> uuid \<Rightarrow> authenticator_type \<Rightarrow> string \<Rightarrow> instant \<Rightarrow> (db, domain_error, user_authenticator option) action" where
  "repo_authn_consume env u ty h now =
     bindE (db_call env ''authenticators.consume_single_use''
       (stateE (\<lambda>d. case authn_consume_single_use (e_ci env) u ty h now (db_authenticators d) of
          (n, rows) \<Rightarrow> (n, d\<lparr>db_authenticators := rows\<rparr>)))) (\<lambda>n.
     if n = 0 then retE None
     else db_query env ''authenticators.consume_single_use(select)'' (\<lambda>d. authn_consumed_row (e_ci env) u ty h (db_authenticators d)))"

definition repo_history_recent :: "env \<Rightarrow> uuid \<Rightarrow> nat \<Rightarrow> (db, domain_error, string list) action" where
  "repo_history_recent env u limit =
     (if limit = 0 then retE []
      else db_query env ''password_history.recent'' (\<lambda>d. history_recent u limit (db_password_history d)))"

definition repo_history_push :: "env \<Rightarrow> uuid \<Rightarrow> string \<Rightarrow> instant \<Rightarrow> nat \<Rightarrow> (db, domain_error, unit) action" where
  "repo_history_push env u h at retain = db_call env ''password_history.push''
     (modifyE (\<lambda>d. d\<lparr>db_password_history := history_push u h at retain (db_password_history d)\<rparr>))"

definition rate_check :: "account \<Rightarrow> request_context \<Rightarrow> instant \<Rightarrow> (db, 'e, bool) action" where
  "rate_check ac ctx now =
     (case cx_ip_address ctx of None \<Rightarrow> retE True
      | Some ip \<Rightarrow> stateE (\<lambda>d. case check_and_record (ac_limiter ac) ip now (db_attempts d) of (b, m) \<Rightarrow> (b, d\<lparr>db_attempts := m\<rparr>)))"

lemmas account_repo_defs = find_login_identifier_def repo_domain_find_tenant_def repo_record_login_failure_def
  repo_update_login_state_def repo_update_password_def repo_save_password_verification_def repo_totp_find_def
  repo_totp_record_step_def repo_authn_list_def repo_authn_consume_def repo_history_recent_def repo_history_push_def rate_check_def

section \<open>The name typed at a sign-in\<close>

definition should_continue :: "login_identifier_match \<Rightarrow> bool" where
  "should_continue m \<longleftrightarrow> m = Unresolved IdNotFound"

fun first_home_match ::
  "env \<Rightarrow> account \<Rightarrow> tenant_id \<Rightarrow> tenant_id \<Rightarrow> string list \<Rightarrow> (db, domain_error, login_identifier_match option) action" where
  "first_home_match env ac t home [] = retE None"
| "first_home_match env ac t home (candidate # rest) =
     bindE (find_login_identifier env ac ''users.find_member_by_login_identifier'' (ScopeMemberWithHomeTenant home) t candidate) (\<lambda>found.
     if \<not> should_continue found then retE (Some found) else first_home_match env ac t home rest)"

definition resolve_by_domain ::
  "env \<Rightarrow> account \<Rightarrow> tenant_id \<Rightarrow> string \<Rightarrow> (db, domain_error, login_identifier_match option) action" where
  "resolve_by_domain env ac t input =
     (case split_qualified_identifier input of None \<Rightarrow> retE None
      | Some (local_part, domain) \<Rightarrow>
        bindE (repo_domain_find_tenant env domain) (\<lambda>home.
        case home of None \<Rightarrow> retE None
        | Some home_tenant_id \<Rightarrow>
            first_home_match env ac t home_tenant_id (if home_tenant_id = t then [local_part] else [input, local_part])))"

definition resolve_login_user :: "env \<Rightarrow> account \<Rightarrow> tenant_id \<Rightarrow> string \<Rightarrow> (db, domain_error, login_identifier_match) action" where
  "resolve_login_user env ac t input =
     bindE (find_login_identifier env ac ''users.find_by_login_identifier'' ScopeHome t input) (\<lambda>found.
     if \<not> should_continue found then retE found
     else bindE (resolve_by_domain env ac t input) (\<lambda>by_domain.
       case by_domain of Some m \<Rightarrow> retE m
       | None \<Rightarrow> find_login_identifier env ac ''users.find_active_guest_by_login_identifier'' ScopeActiveGuest t input))"

section \<open>The password policy service\<close>

definition check_input :: "account \<Rightarrow> password_policy \<Rightarrow> string \<Rightarrow> (db, domain_error, password_rejection + unit) action" where
  "check_input ac p new_password =
     (case validate_password_length p new_password of
        Inl rejection \<Rightarrow> retE (Inl rejection)
      | Inr _ \<Rightarrow>
          if pp_reject_breached p
          then bindE (liftR (ac_is_breached ac new_password)) (\<lambda>b. retE (if b then Inl Breached else Inr ()))
          else retE (Inr ()))"

fun matches_retired :: "account \<Rightarrow> string \<Rightarrow> string list \<Rightarrow> (db, domain_error, bool) action" where
  "matches_retired ac password [] = retE False"
| "matches_retired ac password (h # hs) =
     bindE (liftR (ac_verify ac password h)) (\<lambda>b. if b then retE True else matches_retired ac password hs)"

definition check_reuse ::
  "env \<Rightarrow> account \<Rightarrow> password_policy \<Rightarrow> uuid option \<Rightarrow> string option \<Rightarrow> string \<Rightarrow> (db, domain_error, password_rejection + unit) action" where
  "check_reuse env ac p user_id current_hash new_password =
     (if \<not> checks_history p then retE (Inr ())
      else bindE (case current_hash of None \<Rightarrow> retE False | Some h \<Rightarrow> liftR (ac_verify ac new_password h)) (\<lambda>current.
        if current then retE (Inl Reused)
        else let retired_to_check = retired_hashes_to_check p in
          case user_id of
            None \<Rightarrow> retE (Inr ())
          | Some u \<Rightarrow>
              if retired_to_check > 0
              then bindE (repo_history_recent env u retired_to_check) (\<lambda>hashes.
                   bindE (matches_retired ac new_password hashes) (\<lambda>hit. retE (if hit then Inl Reused else Inr ())))
              else retE (Inr ())))"

definition password_validate ::
  "env \<Rightarrow> account \<Rightarrow> tenant_id \<Rightarrow> uuid option \<Rightarrow> string option \<Rightarrow> string \<Rightarrow> (db, domain_error, password_rejection + unit) action" where
  "password_validate env ac t user_id current_hash new_password =
     bindE (liftR (ac_password_policy ac t)) (\<lambda>p.
     bindE (check_input ac p new_password) (\<lambda>r.
     case r of Inl rejection \<Rightarrow> retE (Inl rejection) | Inr _ \<Rightarrow> check_reuse env ac p user_id current_hash new_password))"

definition password_validate_input ::
  "account \<Rightarrow> tenant_id \<Rightarrow> string \<Rightarrow> (db, domain_error, password_rejection + unit) action" where
  "password_validate_input ac t new_password = bindE (liftR (ac_password_policy ac t)) (\<lambda>p. check_input ac p new_password)"

definition password_validate_reuse ::
  "env \<Rightarrow> account \<Rightarrow> tenant_id \<Rightarrow> uuid option \<Rightarrow> string option \<Rightarrow> string \<Rightarrow> (db, domain_error, password_rejection + unit) action" where
  "password_validate_reuse env ac t user_id current_hash new_password =
     bindE (liftR (ac_password_policy ac t)) (\<lambda>p. check_reuse env ac p user_id current_hash new_password)"

definition record_password_change :: "env \<Rightarrow> account \<Rightarrow> tenant_id \<Rightarrow> uuid \<Rightarrow> string \<Rightarrow> (db, 'e, unit) action" where
  "record_password_change env ac t u retired_hash =
     (case ac_password_policy ac t of Inl _ \<Rightarrow> retE ()
      | Inr p \<Rightarrow> bindE (tryE (repo_history_push env u retired_hash (ac_history_now ac) (retained_history_len p))) (\<lambda>_. retE ()))"

section \<open>Second factors\<close>

definition user_has_confirmed_totp :: "env \<Rightarrow> uuid \<Rightarrow> (db, domain_error, bool) action" where
  "user_has_confirmed_totp env u =
     bindE (repo_totp_find env u) (\<lambda>s. retE (case s of Some x \<Rightarrow> totp_is_confirmed x | None \<Rightarrow> False))"

definition is_blocked_in_registry :: "env \<Rightarrow> uuid \<Rightarrow> authenticator_type \<Rightarrow> uuid option \<Rightarrow> (db, domain_error, bool) action" where
  "is_blocked_in_registry env u ty credential_id =
     bindE (repo_authn_list env u) (\<lambda>rows.
     retE (list_ex is_blocked (filter (\<lambda>a. credential_id = None \<or> credential_id = Some (ua_id a)) (filter (\<lambda>a. ua_type a = ty) rows))))"

definition normalize_single_use_code :: "account \<Rightarrow> authenticator_type \<Rightarrow> string \<Rightarrow> string" where
  "normalize_single_use_code ac ty code =
     (let stripped = filter (\<lambda>c. c \<noteq> CHR '' '' \<and> c \<noteq> CHR ''-'') (trim code) in
      if ty = AtRecoveryCode then ac_lower ac stripped else stripped)"

definition consume_single_use_code ::
  "env \<Rightarrow> account \<Rightarrow> uuid \<Rightarrow> authenticator_type \<Rightarrow> string \<Rightarrow> instant \<Rightarrow> (db, domain_error, bool) action" where
  "consume_single_use_code env ac u ty code now =
     (let normalized = normalize_single_use_code ac ty code in
      if normalized = [] then retE False
      else bindE (repo_authn_consume env u ty (sha256_hex (e_lib env) normalized) now) (\<lambda>c. retE (c \<noteq> None)))"

end
