(* ===== verification/Login.thy ===== *)
theory Login
  imports Account_Services
begin

text \<open>
  Signing in with a password (\<open>application/login.rs\<close>), with a second factor (\<open>application/mfa_login.rs\<close>) and through a
  forced change of the password (\<open>application/change_password.rs\<close>).

  An operation is an action whose early exits carry the outcome; \<open>settle\<close> forgets how it ended.  The argon2 run that
  only equalizes response times (\<open>verify_against_dummy\<close>) has no effect and is left out.
\<close>

record login_command =
  lo_auth_session_id :: "string option"
  lo_username :: string
  lo_password :: string
  lo_csrf_token :: string

datatype login_outcome =
    LoginSuccess authorization_dispatch string nat "string option"
  | LoginConsentRequired string string nat
  | LoginMfaRequired string
  | LoginPasswordChangeRequired string
  | LoginEmailVerificationRequired
  | LoginPolicyDenied
  | LoginApplicationNotPermitted string string nat
  | LoginDeviceEnrollmentRequired string
  | LoginMfaEnrollmentRequired
  | LoginSessionExpired
  | LoginCsrfMismatch
  | LoginRateLimited
  | LoginInvalidCredentials
  | LoginLocked
  | LoginInternal string

datatype mfa_login_outcome =
    MfaSuccess authorization_dispatch string nat "string option"
  | MfaConsentRequired string string nat
  | MfaSessionExpired
  | MfaCsrfMismatch
  | MfaInvalidCode
  | MfaRateLimited
  | MfaLocked
  | MfaApplicationNotPermitted string string nat
  | MfaPolicyDenied
  | MfaDeviceEnrollmentRequired string
  | MfaInternal string

record mfa_login_command =
  mf_auth_session_id :: "string option"
  mf_totp_code :: string
  mf_csrf_token :: string

record change_password_command =
  cp_auth_session_id :: "string option"
  cp_current_password :: string
  cp_new_password :: string
  cp_csrf_token :: string

datatype change_password_outcome =
    ChangeSuccess authorization_dispatch string nat
  | ChangeConsentRequired string string nat
  | ChangeMfaRequired string
  | ChangeApplicationNotPermitted string string nat
  | ChangePolicyDenied
  | ChangeMfaEnrollmentRequired
  | ChangeSessionExpired
  | ChangeCsrfMismatch
  | ChangeInvalidCurrentPassword
  | ChangeWeakPassword password_rejection
  | ChangeDeviceEnrollmentRequired string
  | ChangeInternal string

section \<open>Shared steps\<close>

text \<open>The session of the cookie; an expired one is deleted.\<close>

definition pending_session :: "env \<Rightarrow> flow \<Rightarrow> tenant_id \<Rightarrow> string option \<Rightarrow> (db, domain_error, (string \<times> auth_session) option) action" where
  "pending_session env fl t cookie =
     (case non_empty cookie of None \<Rightarrow> retE None
      | Some session_id \<Rightarrow>
        bindE (repo_sessions_find env t (id_hash_of_plain (e_lib env) session_id)) (\<lambda>found.
        case found of None \<Rightarrow> retE None
        | Some session \<Rightarrow>
          if auth_session_is_expired_at session (fl_now fl)
          then bindE (tryE (repo_sessions_delete env (as_id_hash session))) (\<lambda>_. retE None)
          else retE (Some (session_id, session))))"

definition session_client_id :: "auth_session \<Rightarrow> string" where
  "session_client_id s = r_client_id (as_request s)"

definition record_failure ::
  "env \<Rightarrow> request_context \<Rightarrow> string \<Rightarrow> tenant_id \<Rightarrow> uuid option \<Rightarrow> string \<Rightarrow> string \<Rightarrow> (db, 'e, unit) action" where
  "record_failure env ctx event t u client_id reason = audit_record env ctx event AuditFailure (Some t) u (Some client_id) (Some reason)"

definition session_policy ::
  "env \<Rightarrow> flow \<Rightarrow> request_context \<Rightarrow> tenant_id \<Rightarrow> auth_session \<Rightarrow> uuid \<Rightarrow> (db, domain_error, policy_decision) action" where
  "session_policy env fl ctx t session u =
     policy_decide env fl \<lparr>pq_tenant_id = t, pq_audience = OidcClient (session_client_id session), pq_user_id = u,
       pq_ip_address = cx_ip_address ctx, pq_requested_acr = requested_acr (as_request session), pq_now = fl_now fl\<rparr>"

definition method_required_reason :: "method_requirement \<Rightarrow> string" where
  "method_required_reason unmet = ''policy='' @ mr_policy_code unmet @ '' reason=method_required required=''
     @ required_methods_describe (mr_requirement unmet)"

definition reset_failures :: "env \<Rightarrow> user \<Rightarrow> (db, domain_error, unit) action" where
  "reset_failures env u =
     (if u_failed_login_count u > 0 \<or> u_locked_until u \<noteq> None then repo_update_login_state env (u_id u) 0 None else retE ())"

text \<open>The end of the three services: the session is established and the authorization goes on.\<close>

datatype signed_in = SignInEnrollment string | SignInContinued string nat authorization_continuation

definition finish_sign_in ::
  "env \<Rightarrow> flow \<Rightarrow> request_context \<Rightarrow> tenant_id \<Rightarrow> auth_session \<Rightarrow> user \<Rightarrow> authentication_method list \<Rightarrow> (db, domain_error, signed_in) action" where
  "finish_sign_in env fl ctx t session u methods =
     bindE (establish_sso env fl \<lparr>si_tenant_id = t, si_user_id = u_id u, si_home_tenant_id = u_tenant_id u, si_methods = methods,
              si_client_id = Some (session_client_id session), si_success_event = ''login.succeeded'', si_success_detail = None\<rparr>
              ctx (fl_now fl)) (\<lambda>established.
     case established of DeviceEnrollmentRequired ticket \<Rightarrow> retE (SignInEnrollment ticket)
     | Established sso \<Rightarrow>
         bindE (continue_authorization env fl t session sso (fl_now fl) ctx) (\<lambda>c.
         retE (SignInContinued (es_session_id sso) (absolute_ttl_secs (es_session sso)) c)))"

definition await_second_step ::
  "env \<Rightarrow> flow \<Rightarrow> account \<Rightarrow> auth_session \<Rightarrow> uuid \<Rightarrow> (db, domain_error, string) action" where
  "await_second_step env fl ac session u =
     (let (_, verification) = record_password_verification (e_lib env) (ac_id_password ac) session u (fl_now fl) in
      bindE (repo_save_password_verification env verification) (\<lambda>_. retE (ir_issued (pv_rotation verification))))"

section \<open>Password\<close>

fun login_continued :: "user \<Rightarrow> signed_in \<Rightarrow> login_outcome" where
  "login_continued u (SignInEnrollment ticket) = LoginDeviceEnrollmentRequired ticket"
| "login_continued u (SignInContinued sso ttl (ContinuationConsentRequired sid)) = LoginConsentRequired sid sso ttl"
| "login_continued u (SignInContinued sso ttl (ContinuationApplicationNotPermitted name)) = LoginApplicationNotPermitted name sso ttl"
| "login_continued u (SignInContinued sso ttl (Authorized dispatch)) = LoginSuccess dispatch sso ttl (u_language u)"

definition handle_password_failure ::
  "env \<Rightarrow> account \<Rightarrow> request_context \<Rightarrow> tenant_id \<Rightarrow> user \<Rightarrow> string \<Rightarrow> (db, login_outcome exit, login_outcome) action" where
  "handle_password_failure env ac ctx t u client_id =
     bindE (internal LoginInternal (liftR (ac_lockout ac (u_tenant_id u)))) (\<lambda>lockout.
     bindE (internal LoginInternal (repo_record_login_failure env (u_id u) lockout (ac_failure_now ac))) (\<lambda>recorded.
     bindE (unwrap_panic recorded) (\<lambda>failure.
     bindE (record_failure env ctx ''login.failed'' t (Some (u_id u)) client_id ''invalid_password'') (\<lambda>_.
     if lf_is_locked failure
     then bindE (record_failure env ctx ''login.locked'' t (Some (u_id u)) client_id ''too_many_failures'') (\<lambda>_. retE LoginLocked)
     else retE LoginInvalidCredentials))))"

definition single_factor_sign_in ::
  "env \<Rightarrow> flow \<Rightarrow> request_context \<Rightarrow> tenant_id \<Rightarrow> auth_session \<Rightarrow> user \<Rightarrow> policy_decision \<Rightarrow> (db, login_outcome exit, login_outcome) action" where
  "single_factor_sign_in env fl ctx t session u decision =
     (let denied = (\<lambda>reason out. bindE (record_failure env ctx ''login.policy_denied'' t (Some (u_id u)) (session_client_id session) reason)
                                   (\<lambda>_. retE out))
      in case decision of
        RequireMfaDecision code \<Rightarrow> denied (''policy='' @ code @ '' reason=mfa_not_enrolled'') LoginMfaEnrollmentRequired
      | _ \<Rightarrow>
        case unmet_method_requirement decision [Password] False of
          Some unmet \<Rightarrow> denied (method_required_reason unmet) LoginPolicyDenied
        | None \<Rightarrow>
            bindE (internal LoginInternal (reset_failures env u)) (\<lambda>_.
            bindE (internal LoginInternal (finish_sign_in env fl ctx t session u [Password])) (\<lambda>s.
            retE (login_continued u s))))"

definition after_policy ::
  "env \<Rightarrow> flow \<Rightarrow> account \<Rightarrow> request_context \<Rightarrow> tenant_id \<Rightarrow> auth_session \<Rightarrow> user \<Rightarrow> policy_decision
   \<Rightarrow> (db, login_outcome exit, login_outcome) action" where
  "after_policy env fl ac ctx t session u decision =
     bindE (internal LoginInternal (liftR (ac_password_policy ac (u_tenant_id u)))) (\<lambda>password_policy.
     bindE (unwrap_panic (password_change_required u password_policy (fl_now fl))) (\<lambda>change.
     if change
     then bindE (internal LoginInternal (await_second_step env fl ac session (u_id u))) (\<lambda>sid. retE (LoginPasswordChangeRequired sid))
     else
     bindE (internal LoginInternal (user_has_confirmed_totp env (u_id u))) (\<lambda>has_totp.
     if has_totp
     then bindE (internal LoginInternal (await_second_step env fl ac session (u_id u))) (\<lambda>sid. retE (LoginMfaRequired sid))
     else single_factor_sign_in env fl ctx t session u decision)))"

definition after_password ::
  "env \<Rightarrow> flow \<Rightarrow> account \<Rightarrow> request_context \<Rightarrow> tenant_id \<Rightarrow> auth_session \<Rightarrow> user \<Rightarrow> (db, login_outcome exit, login_outcome) action" where
  "after_password env fl ac ctx t session u =
     (let client_id = session_client_id session in
      if \<not> u_email_verified u
      then bindE (record_failure env ctx ''login.failed'' t (Some (u_id u)) client_id ''email_not_verified'') (\<lambda>_.
           retE LoginEmailVerificationRequired)
      else
      bindE (internal LoginInternal (session_policy env fl ctx t session (u_id u))) (\<lambda>decision.
      case decision of
        DenyDecision code \<Rightarrow>
          bindE (record_failure env ctx ''login.policy_denied'' t (Some (u_id u)) client_id (''policy='' @ code)) (\<lambda>_. retE LoginPolicyDenied)
      | _ \<Rightarrow> after_policy env fl ac ctx t session u decision))"

text \<open>Look-up, account state and password, for a live session and a valid token.\<close>

definition check_credentials ::
  "env \<Rightarrow> flow \<Rightarrow> account \<Rightarrow> request_context \<Rightarrow> tenant_id \<Rightarrow> login_command \<Rightarrow> auth_session \<Rightarrow> (db, login_outcome exit, login_outcome) action" where
  "check_credentials env fl ac ctx t cmd session =
     (let now = fl_now fl; client_id = session_client_id session in
      bindE (internal LoginInternal (resolve_login_user env ac t (lo_username cmd))) (\<lambda>resolved.
      case resolved of
        Unresolved reason \<Rightarrow>
          bindE (record_failure env ctx ''login.failed'' t None client_id (unresolved_audit_code reason)) (\<lambda>_. retE LoginInvalidCredentials)
      | Resolved u \<Rightarrow>
          if is_locked_at u now
          then bindE (record_failure env ctx ''login.locked'' t (Some (u_id u)) client_id ''account_locked'') (\<lambda>_. retE LoginLocked)
          else if \<not> user_is_active u
          then bindE (record_failure env ctx ''login.failed'' t (Some (u_id u)) client_id ''account_not_active'') (\<lambda>_.
               retE LoginInvalidCredentials)
          else
          bindE (internal LoginInternal (liftR (ac_verify ac (lo_password cmd) (u_password_hash u)))) (\<lambda>verified.
          if \<not> verified then handle_password_failure env ac ctx t u client_id
          else after_password env fl ac ctx t session u)))"

definition login ::
  "env \<Rightarrow> flow \<Rightarrow> account \<Rightarrow> request_context \<Rightarrow> tenant_id \<Rightarrow> login_command \<Rightarrow> (db, login_outcome exit, login_outcome) action" where
  "login env fl ac ctx t cmd =
     (let now = fl_now fl in
      bindE (internal LoginInternal (pending_session env fl t (lo_auth_session_id cmd))) (\<lambda>found.
      case found of None \<Rightarrow> retE LoginSessionExpired
      | Some (session_id, session) \<Rightarrow>
        let client_id = session_client_id session in
        if \<not> csrf_verify (login_csrf_token ac session_id) (lo_csrf_token cmd)
        then bindE (record_failure env ctx ''login.failed'' t None client_id ''csrf_mismatch'') (\<lambda>_. retE LoginCsrfMismatch)
        else
        bindE (rate_check ac ctx now) (\<lambda>within.
        if \<not> within
        then bindE (record_failure env ctx ''login.failed'' t None client_id ''ip_rate_limited'') (\<lambda>_. retE LoginRateLimited)
        else
        check_credentials env fl ac ctx t cmd session)))"

section \<open>Second factor\<close>

fun mfa_continued :: "user \<Rightarrow> signed_in \<Rightarrow> mfa_login_outcome" where
  "mfa_continued u (SignInEnrollment ticket) = MfaDeviceEnrollmentRequired ticket"
| "mfa_continued u (SignInContinued sso ttl (ContinuationConsentRequired sid)) = MfaConsentRequired sid sso ttl"
| "mfa_continued u (SignInContinued sso ttl (ContinuationApplicationNotPermitted name)) = MfaApplicationNotPermitted name sso ttl"
| "mfa_continued u (SignInContinued sso ttl (Authorized dispatch)) = MfaSuccess dispatch sso ttl (u_language u)"

definition single_use_factors :: "(authenticator_type \<times> authentication_method) list" where
  "single_use_factors = [(AtRecoveryCode, RecoveryCode), (AtEmailOtp, EmailOtp), (AtSmsOtp, SmsOtp)]"

fun try_single_use ::
  "env \<Rightarrow> account \<Rightarrow> request_context \<Rightarrow> tenant_id \<Rightarrow> uuid \<Rightarrow> string \<Rightarrow> (authenticator_type \<times> authentication_method) list
   \<Rightarrow> (db, string, authentication_method option) action" where
  "try_single_use env ac ctx t u code [] = retE None"
| "try_single_use env ac ctx t u code ((ty, m) # rest) =
     bindE (mapErrE error_display (consume_single_use_code env ac u ty code (ac_code_now ac))) (\<lambda>consumed.
     if consumed
     then bindE (audit_record env ctx ''recovery_code.used'' AuditSuccess (Some t) (Some u) None
                   (Some (''type='' @ enum_as_str authenticator_type_table ty))) (\<lambda>_.
          retE (Some m))
     else try_single_use env ac ctx t u code rest)"

definition try_totp :: "env \<Rightarrow> account \<Rightarrow> uuid \<Rightarrow> string \<Rightarrow> bool \<Rightarrow> (db, string, bool) action" where
  "try_totp env ac u code totp_blocked =
     bindE (mapErrE error_display (repo_totp_find env u)) (\<lambda>found.
     case found of None \<Rightarrow> retE False
     | Some record \<Rightarrow>
       if totp_is_confirmed record \<and> \<not> totp_blocked
       then bindE (liftR (ac_decrypt ac (ts_secret_encrypted record))) (\<lambda>secret.
            bindE (liftR (map_err totp_error_display (verify_totp_code (ac_totp_build ac) (ac_totp_clock ac) secret code))) (\<lambda>step.
            case step of None \<Rightarrow> retE False
            | Some n \<Rightarrow> mapErrE error_display (repo_totp_record_step env u (int n) (ac_totp_now ac))))
       else retE False)"

definition verify_second_factor ::
  "env \<Rightarrow> account \<Rightarrow> request_context \<Rightarrow> tenant_id \<Rightarrow> uuid \<Rightarrow> string \<Rightarrow> (db, string, authentication_method option) action" where
  "verify_second_factor env ac ctx t u code =
     bindE (mapErrE error_display (is_blocked_in_registry env u AtTotp None)) (\<lambda>totp_blocked.
     bindE (try_totp env ac u code totp_blocked) (\<lambda>accepted.
     if accepted then retE (Some Totp) else try_single_use env ac ctx t u code single_use_factors))"

definition handle_totp_failure ::
  "env \<Rightarrow> account \<Rightarrow> request_context \<Rightarrow> tenant_id \<Rightarrow> user \<Rightarrow> string \<Rightarrow> instant \<Rightarrow> (db, mfa_login_outcome exit, mfa_login_outcome) action" where
  "handle_totp_failure env ac ctx t u client_id now =
     bindE (internal MfaInternal (liftR (ac_lockout ac (u_tenant_id u)))) (\<lambda>lockout.
     bindE (internal MfaInternal (repo_record_login_failure env (u_id u) lockout now)) (\<lambda>recorded.
     bindE (unwrap_panic recorded) (\<lambda>failure.
     bindE (record_failure env ctx ''login.failed'' t (Some (u_id u)) client_id ''invalid_totp'') (\<lambda>_.
     if lf_is_locked failure
     then bindE (record_failure env ctx ''login.locked'' t (Some (u_id u)) client_id ''too_many_failures'') (\<lambda>_. retE MfaLocked)
     else retE MfaInvalidCode))))"

definition mfa_complete ::
  "env \<Rightarrow> flow \<Rightarrow> request_context \<Rightarrow> tenant_id \<Rightarrow> auth_session \<Rightarrow> user \<Rightarrow> authentication_method
   \<Rightarrow> (db, mfa_login_outcome exit, mfa_login_outcome) action" where
  "mfa_complete env fl ctx t session u second_factor =
     (let refused = (\<lambda>reason. bindE (record_failure env ctx ''login.failed'' t (Some (u_id u)) (session_client_id session) reason)
                                (\<lambda>_. retE MfaPolicyDenied))
      in bindE (internal MfaInternal (session_policy env fl ctx t session (u_id u))) (\<lambda>decision.
         case decision of
           DenyDecision code \<Rightarrow> refused ''policy_denied''
         | _ \<Rightarrow>
           case unmet_method_requirement decision [Password, second_factor] False of
             Some unmet \<Rightarrow> refused ''method_required''
           | None \<Rightarrow>
               bindE (internal MfaInternal (reset_failures env u)) (\<lambda>_.
               bindE (internal MfaInternal (finish_sign_in env fl ctx t session u [Password, second_factor])) (\<lambda>s.
               retE (mfa_continued u s)))))"

definition mfa_check ::
  "env \<Rightarrow> flow \<Rightarrow> account \<Rightarrow> request_context \<Rightarrow> tenant_id \<Rightarrow> mfa_login_command \<Rightarrow> auth_session \<Rightarrow> uuid
   \<Rightarrow> (db, mfa_login_outcome exit, mfa_login_outcome) action" where
  "mfa_check env fl ac ctx t cmd session user_id =
     (let now = fl_now fl; client_id = session_client_id session in
      bindE (internal MfaInternal (repo_user_find env user_id)) (\<lambda>user.
      case user of None \<Rightarrow> retE MfaSessionExpired
      | Some u \<Rightarrow>
        if is_locked_at u now
        then bindE (record_failure env ctx ''login.locked'' t (Some (u_id u)) client_id ''account_locked'') (\<lambda>_. retE MfaLocked)
        else if \<not> user_is_active u then retE (MfaInternal ''user not active'')
        else
        bindE (mapErrE (\<lambda>e. Return (MfaInternal e)) (verify_second_factor env ac ctx t user_id (mf_totp_code cmd))) (\<lambda>factor.
        case factor of None \<Rightarrow> handle_totp_failure env ac ctx t u client_id now
        | Some second_factor \<Rightarrow> mfa_complete env fl ctx t session u second_factor)))"

definition mfa_verify ::
  "env \<Rightarrow> flow \<Rightarrow> account \<Rightarrow> request_context \<Rightarrow> tenant_id \<Rightarrow> mfa_login_command \<Rightarrow> (db, mfa_login_outcome exit, mfa_login_outcome) action" where
  "mfa_verify env fl ac ctx t cmd =
     bindE (internal MfaInternal (pending_session env fl t (mf_auth_session_id cmd))) (\<lambda>found.
     case found of None \<Rightarrow> retE MfaSessionExpired
     | Some (session_id, session) \<Rightarrow>
     case password_verified_user session of None \<Rightarrow> retE MfaSessionExpired
     | Some user_id \<Rightarrow>
       if \<not> csrf_verify (login_csrf_token ac session_id) (mf_csrf_token cmd) then retE MfaCsrfMismatch
       else
       bindE (rate_check ac ctx (fl_now fl)) (\<lambda>within.
       if \<not> within
       then bindE (record_failure env ctx ''login.failed'' t None (session_client_id session) ''ip_rate_limited'') (\<lambda>_. retE MfaRateLimited)
       else mfa_check env fl ac ctx t cmd session user_id))"

text \<open>\<open>.ok()\<close> drops a failure of the look-up.\<close>

definition pending_mfa_user :: "env \<Rightarrow> flow \<Rightarrow> tenant_id \<Rightarrow> string \<Rightarrow> (db, 'e, uuid option) action" where
  "pending_mfa_user env fl t auth_session_id =
     bindE (tryE (repo_sessions_find env t (id_hash_of_plain (e_lib env) auth_session_id))) (\<lambda>r.
     retE (case r of Inr (Some session) \<Rightarrow>
        if auth_session_is_expired_at session (fl_now fl) then None else password_verified_user session | _ \<Rightarrow> None))"

definition has_mfa_pending :: "env \<Rightarrow> tenant_id \<Rightarrow> string \<Rightarrow> (db, 'e, bool) action" where
  "has_mfa_pending env t auth_session_id =
     bindE (tryE (repo_sessions_find env t (id_hash_of_plain (e_lib env) auth_session_id))) (\<lambda>r.
     retE (case r of Inr (Some session) \<Rightarrow> password_verified_user session \<noteq> None | _ \<Rightarrow> False))"

section \<open>Forced change of the password\<close>

fun change_continued :: "signed_in \<Rightarrow> change_password_outcome" where
  "change_continued (SignInEnrollment ticket) = ChangeDeviceEnrollmentRequired ticket"
| "change_continued (SignInContinued sso ttl (ContinuationConsentRequired sid)) = ChangeConsentRequired sid sso ttl"
| "change_continued (SignInContinued sso ttl (ContinuationApplicationNotPermitted name)) = ChangeApplicationNotPermitted name sso ttl"
| "change_continued (SignInContinued sso ttl (Authorized dispatch)) = ChangeSuccess dispatch sso ttl"

definition after_change ::
  "env \<Rightarrow> flow \<Rightarrow> request_context \<Rightarrow> tenant_id \<Rightarrow> string \<Rightarrow> auth_session \<Rightarrow> user
   \<Rightarrow> (db, change_password_outcome exit, change_password_outcome) action" where
  "after_change env fl ctx t session_id session u =
     (let client_id = session_client_id session;
          denied = (\<lambda>reason out. bindE (record_failure env ctx ''login.policy_denied'' t (Some (u_id u)) client_id reason) (\<lambda>_. retE out));
          sign_in = bindE (internal ChangeInternal (finish_sign_in env fl ctx t session u [Password])) (\<lambda>s. retE (change_continued s))
      in bindE (internal ChangeInternal (session_policy env fl ctx t session (u_id u))) (\<lambda>decision.
         case decision of
           DenyDecision code \<Rightarrow> denied (''policy='' @ code) ChangePolicyDenied
         | RequireMfaDecision code \<Rightarrow>
             bindE (internal ChangeInternal (user_has_confirmed_totp env (u_id u))) (\<lambda>has_totp.
             if has_totp then retE (ChangeMfaRequired session_id)
             else denied (''policy='' @ code @ '' reason=mfa_not_enrolled'') ChangeMfaEnrollmentRequired)
         | RequireMethodsDecision _ \<Rightarrow>
             (case unmet_method_requirement decision [Password] False of
                None \<Rightarrow> sign_in
              | Some unmet \<Rightarrow>
                  bindE (internal ChangeInternal (user_has_confirmed_totp env (u_id u))) (\<lambda>has_totp.
                  if has_totp \<and> satisfied_by_adding decision [Password] Totp False then retE (ChangeMfaRequired session_id)
                  else denied (method_required_reason unmet) ChangePolicyDenied))
         | AllowDecision _ \<Rightarrow> sign_in))"

definition store_new_password ::
  "env \<Rightarrow> account \<Rightarrow> request_context \<Rightarrow> tenant_id \<Rightarrow> string \<Rightarrow> user \<Rightarrow> string \<Rightarrow> (db, change_password_outcome exit, unit) action" where
  "store_new_password env ac ctx t client_id u new_password =
     bindE (internal ChangeInternal (password_validate env ac (u_tenant_id u) (Some (u_id u)) (Some (u_password_hash u)) new_password)) (\<lambda>valid.
     case valid of Inl rejection \<Rightarrow> failE (Return (ChangeWeakPassword rejection))
     | Inr _ \<Rightarrow>
       bindE (internal ChangeInternal (liftR (ac_hash ac new_password))) (\<lambda>new_hash.
       bindE (internal ChangeInternal (repo_update_password env (u_id u) (u_password_hash u) new_hash)) (\<lambda>won.
       if \<not> won then failE (Return ChangeInvalidCurrentPassword)
       else
       bindE (record_password_change env ac (u_tenant_id u) (u_id u) (u_password_hash u)) (\<lambda>_.
       audit_record env ctx ''password.changed'' AuditSuccess (Some t) (Some (u_id u)) (Some client_id) None))))"

definition change_check ::
  "env \<Rightarrow> flow \<Rightarrow> account \<Rightarrow> request_context \<Rightarrow> tenant_id \<Rightarrow> change_password_command \<Rightarrow> string \<Rightarrow> auth_session \<Rightarrow> uuid
   \<Rightarrow> (db, change_password_outcome exit, change_password_outcome) action" where
  "change_check env fl ac ctx t cmd session_id session user_id =
     (let client_id = session_client_id session in
      bindE (internal ChangeInternal (repo_user_find env user_id)) (\<lambda>user.
      case user of None \<Rightarrow> retE ChangeSessionExpired
      | Some u \<Rightarrow>
        bindE (internal ChangeInternal (liftR (ac_password_policy ac (u_tenant_id u)))) (\<lambda>policy.
        bindE (if \<not> user_is_active u then retE False else unwrap_panic (password_change_required u policy (fl_now fl))) (\<lambda>awaits_change.
        if \<not> awaits_change then retE ChangeSessionExpired
        else
        bindE (internal ChangeInternal (liftR (ac_verify ac (cp_current_password cmd) (u_password_hash u)))) (\<lambda>verified.
        if \<not> verified
        then bindE (record_failure env ctx ''login.failed'' t (Some (u_id u)) client_id ''invalid_current_password'') (\<lambda>_.
             retE ChangeInvalidCurrentPassword)
        else
        bindE (store_new_password env ac ctx t client_id u (cp_new_password cmd)) (\<lambda>_.
        after_change env fl ctx t session_id session u))))))"

definition change_password ::
  "env \<Rightarrow> flow \<Rightarrow> account \<Rightarrow> request_context \<Rightarrow> tenant_id \<Rightarrow> change_password_command
   \<Rightarrow> (db, change_password_outcome exit, change_password_outcome) action" where
  "change_password env fl ac ctx t cmd =
     bindE (internal ChangeInternal (pending_session env fl t (cp_auth_session_id cmd))) (\<lambda>found.
     case found of None \<Rightarrow> retE ChangeSessionExpired
     | Some (session_id, session) \<Rightarrow>
     case password_verified_user session of None \<Rightarrow> retE ChangeSessionExpired
     | Some user_id \<Rightarrow>
       if \<not> csrf_verify (login_csrf_token ac session_id) (cp_csrf_token cmd)
       then bindE (record_failure env ctx ''login.failed'' t (Some user_id) (session_client_id session) ''password_change_csrf_mismatch'')
              (\<lambda>_. retE ChangeCsrfMismatch)
       else change_check env fl ac ctx t cmd session_id session user_id)"

end
