(* ===== verification/Login_Flow.thy ===== *)
theory Login_Flow
  imports Login Authorize_Flow
begin

text \<open>
  What stands behind every single sign-on session that the three sign-in services with a password create: the password
  alone (\<open>login\<close>), the second factor (\<open>mfa_verify\<close>) and the forced change of the password (\<open>change_password\<close>).
  Each theorem starts from a change of the table of sessions and walks the operation backwards.
\<close>

section \<open>Frames\<close>

abbreviation reads :: "('s, 'e, 'a) action \<Rightarrow> bool" where
  "reads m \<equiv> keeps (\<lambda>s. s) m"

lemma keeps_reads: "reads m \<Longrightarrow> keeps f m"
  by (simp add: keeps_def)

lemma reads_db_query: "reads (db_query env op f)"
  by (rule keeps_db_query)

lemma keeps_internal [action_inv]: "keeps f m \<Longrightarrow> keeps f (internal F m)"
  unfolding internal_def by (rule keeps_mapErrE)

lemma keeps_unwrap_panic [action_inv]: "keeps f (unwrap_panic x)"
  by (cases x) (simp_all add: unwrap_panic_def keeps_retE keeps_failE)

lemma reads_account [action_inv]:
  "keeps f (find_login_identifier env ac op scope t input)" "keeps f (repo_domain_find_tenant env x)"
  "keeps f (repo_totp_find env u)" "keeps f (repo_authn_list env u)" "keeps f (repo_history_recent env u n)"
  unfolding account_repo_defs by (intro action_inv)+

lemma keeps_first_home [action_inv]: "keeps f (first_home_match env ac t home cs)"
  by (induction cs) (auto intro!: action_inv)

lemma keeps_resolve_by_domain [action_inv]: "keeps f (resolve_by_domain env ac t input)"
  unfolding resolve_by_domain_def by (intro action_inv)

lemma keeps_resolve_login_user [action_inv]: "keeps f (resolve_login_user env ac t input)"
  unfolding resolve_login_user_def by (intro action_inv)

lemma keeps_session_policy [action_inv]: "keeps f (session_policy env fl ctx t session u)"
  unfolding session_policy_def by (intro action_inv)

lemma keeps_confirmed_totp [action_inv]: "keeps f (user_has_confirmed_totp env u)"
  unfolding user_has_confirmed_totp_def by (intro action_inv)

lemma keeps_blocked [action_inv]: "keeps f (is_blocked_in_registry env u ty cid)"
  unfolding is_blocked_in_registry_def by (intro action_inv)

lemma keeps_matches_retired [action_inv]: "keeps f (matches_retired ac pw hs)"
  by (induction hs) (auto intro!: action_inv)

lemma keeps_password_checks [action_inv]:
  "keeps f (check_input ac p pw)" "keeps f (check_reuse env ac p uid h pw)" "keeps f (password_validate env ac t uid h pw)"
proof -
  show i: "keeps f (check_input ac p pw)" unfolding check_input_def by (intro action_inv)
  show r: "keeps f (check_reuse env ac p uid h pw)" for p unfolding check_reuse_def Let_def by (intro action_inv)
  show "keeps f (password_validate env ac t uid h pw)"
    unfolding password_validate_def check_input_def by (intro action_inv r)
qed

lemma keeps_record_failure [action_inv]: "log_free f \<Longrightarrow> keeps f (record_failure env ctx ev t u c reason)"
  unfolding record_failure_def by (rule keeps_audit)

lemma keeps_pending_session [action_inv]: "side_free f \<Longrightarrow> keeps f (pending_session env fl t c)"
  unfolding pending_session_def by (intro action_inv) simp_all

text \<open>A step that only reads, before anything that changes \<open>f\<close>.\<close>

lemma read_then:
  assumes "bindE m n d = (r, d')" "reads m" "f d' \<noteq> f d"
  obtains a where "m d = (Inr a, d)" "n a d = (r, d')"
proof -
  obtain x d1 where x: "m d = (x, d1)" by fastforce
  then have "d1 = d" using assms(2) keepsD by metis
  with assms x show ?thesis by (cases x) (auto simp: bindE_def intro: that)
qed

lemma internal_Inr [simp]: "internal F m s = (Inr a, s') \<longleftrightarrow> m s = (Inr a, s')"
  by (simp add: internal_def)

lemma internal_read_then:
  assumes "bindE (internal F m) n d = (r, d')" "reads m" "f d' \<noteq> f d"
  obtains a where "m d = (Inr a, d)" "n a d = (r, d')"
  using assms(1) keeps_internal [OF assms(2)] assms(3) by (rule read_then) (auto intro: that)

lemma internal_lift_then:
  assumes "bindE (internal F (liftR x)) n d = (r, d')" "f d' \<noteq> f d"
  obtains a where "x = Inr a" "n a d = (r, d')"
  using assms(1) keeps_liftR assms(2) by (rule internal_read_then) (auto intro: that)

lemma unwrap_panic_then:
  assumes "bindE (unwrap_panic x) n d = (r, d')" "f d' \<noteq> f d"
  obtains a where "x = Some a" "n a d = (r, d')"
  using assms by (cases x) (auto simp: unwrap_panic_def bindE_def retE_def failE_def intro: that)

section \<open>Facts a sign-in reads\<close>

text \<open>The name typed at tenant \<open>t\<close> denotes \<open>u\<close>: an active entry of the registry of \<open>t\<close>, or of the home tenant of an
  active member of \<open>t\<close>, that the input, or the local part of a qualified one, is a spelling of.\<close>

definition named_at :: "env \<Rightarrow> account \<Rightarrow> tenant_id \<Rightarrow> string \<Rightarrow> db \<Rightarrow> user \<Rightarrow> bool" where
  "named_at env ac t input d u \<longleftrightarrow> u \<in> set (db_users d) \<and>
     (\<exists>i \<in> set (db_login_identifiers d). \<exists>spelling. li_user_id i = u_id u
        \<and> (spelling = input \<or> (\<exists>domain. split_qualified_identifier input = Some (spelling, domain)))
        \<and> identifier_hits (e_ci env) (db_tenants d) (lookup_candidates (ac_lower ac) (ac_upper ac) spelling) i
        \<and> (li_tenant_id i = t
           \<or> li_tenant_id i = u_tenant_id u \<and> home_active (db_tenants d) u
             \<and> (\<exists>m \<in> set (db_memberships d). tm_user_id m = u_id u \<and> tm_tenant_id m = t \<and> tm_status m = MemberActive)))"

lemma find_login_identifier_Resolved:
  assumes "find_login_identifier env ac op scope t s d = (Inr (Resolved u), d')"
    and "s = input \<or> (\<exists>domain. split_qualified_identifier input = Some (s, domain))"
  shows "named_at env ac t input d u"
proof -
  let ?cs = "lookup_candidates (ac_lower ac) (ac_upper ac) s"
  have "resolve_login_identifier (e_ci env) (ac_lower ac) (ac_upper ac) scope t s
       (db_login_identifiers d) (db_users d) (db_memberships d) (db_tenants d) = Resolved u"
    using assms(1) by (auto simp: find_login_identifier_def split: if_splits)
  then have "u \<in> set (registry_users (e_ci env) scope t ?cs (db_login_identifiers d) (db_users d) (db_memberships d) (db_tenants d))"
    by (simp add: resolve_login_identifier_Resolved)
  then obtain i where i: "u \<in> set (db_users d)" "i \<in> set (db_login_identifiers d)" "li_user_id i = u_id u"
    "in_scope scope t (db_memberships d) (db_tenants d) i u" "identifier_hits (e_ci env) (db_tenants d) ?cs i"
    by (auto simp: registry_users_mem)
  have "li_tenant_id i = t \<or> li_tenant_id i = u_tenant_id u \<and> home_active (db_tenants d) u
             \<and> (\<exists>m \<in> set (db_memberships d). tm_user_id m = u_id u \<and> tm_tenant_id m = t \<and> tm_status m = MemberActive)"
    using i(4) by (cases scope) (auto simp: in_scope_def list_ex_iff)
  with i assms(2) show ?thesis unfolding named_at_def by blast
qed

lemma first_home_match_Resolved:
  assumes "first_home_match env ac t home cs d = (Inr (Some (Resolved u)), d')"
    and "\<forall>s \<in> set cs. s = input \<or> (\<exists>domain. split_qualified_identifier input = Some (s, domain))"
  shows "named_at env ac t input d u"
  using assms
proof (induction cs)
  case (Cons c cs)
  obtain x d1 where x: "find_login_identifier env ac ''users.find_member_by_login_identifier'' (ScopeMemberWithHomeTenant home) t c d = (x, d1)"
    by fastforce
  then have d1: "d1 = d" using keepsD [OF reads_account(1), where f = "\<lambda>s. s"] by blast
  show ?case
  proof (cases "x = Inr (Resolved u)")
    case True
    then show ?thesis using find_login_identifier_Resolved [of env ac _ _ t c d u d1 input] x Cons.prems(2) by auto
  next
    case False
    then have "first_home_match env ac t home cs d = (Inr (Some (Resolved u)), d')"
      using Cons.prems(1) x d1 by (cases x) (auto simp: bindE_def split: if_splits)
    then show ?thesis using Cons.IH Cons.prems(2) by auto
  qed
qed simp

lemma resolve_by_domain_Resolved:
  assumes "resolve_by_domain env ac t input d = (Inr (Some (Resolved u)), d')"
  shows "named_at env ac t input d u"
proof -
  from assms obtain local domain home where q: "split_qualified_identifier input = Some (local, domain)"
    and f: "first_home_match env ac t home (if home = t then [local] else [input, local]) d = (Inr (Some (Resolved u)), d')"
    by (auto simp: resolve_by_domain_def bindE_Inr_iff repo_domain_find_tenant_def simp del: first_home_match.simps split: option.splits)
  show ?thesis by (rule first_home_match_Resolved [OF f]) (auto simp: q)
qed

lemma resolve_login_user_Resolved:
  assumes "resolve_login_user env ac t input d = (Inr (Resolved u), d')"
  shows "named_at env ac t input d u"
proof -
  obtain x d1 where x: "find_login_identifier env ac ''users.find_by_login_identifier'' ScopeHome t input d = (x, d1)" by fastforce
  then have d1: "d1 = d" using keepsD [OF reads_account(1), where f = "\<lambda>s. s"] by blast
  show ?thesis
  proof (cases "x = Inr (Resolved u)")
    case True
    then show ?thesis using find_login_identifier_Resolved x by blast
  next
    case False
    then have n: "bindE (resolve_by_domain env ac t input) (\<lambda>by_domain.
       case by_domain of Some m \<Rightarrow> retE m
       | None \<Rightarrow> find_login_identifier env ac ''users.find_active_guest_by_login_identifier'' ScopeActiveGuest t input) d
         = (Inr (Resolved u), d')"
      using assms x d1 by (cases x) (auto simp: resolve_login_user_def bindE_def split: if_splits)
    obtain y d2 where y: "resolve_by_domain env ac t input d = (y, d2)" by fastforce
    then have d2: "d2 = d" using keepsD [OF keeps_resolve_by_domain, where f = "\<lambda>s. s"] by blast
    show ?thesis
    proof (cases "y = Inr (Some (Resolved u))")
      case True
      with y show ?thesis using resolve_by_domain_Resolved by blast
    next
      case False
      then have "find_login_identifier env ac ''users.find_active_guest_by_login_identifier'' ScopeActiveGuest t input d
          = (Inr (Resolved u), d')"
        using n y d2 by (cases y) (auto simp: bindE_def split: option.splits)
      then show ?thesis using find_login_identifier_Resolved by blast
    qed
  qed
qed

section \<open>The end of a sign-in\<close>

text \<open>A projection that the logs, the authorization sessions and the codes do not enter.\<close>

definition account_view :: "(db \<Rightarrow> 'x) \<Rightarrow> bool" where
  "account_view f \<longleftrightarrow> log_free f \<and> (\<forall>d rows. f (d\<lparr>db_auth_sessions := rows\<rparr>) = f d) \<and> (\<forall>d rows. f (d\<lparr>db_codes := rows\<rparr>) = f d)"

lemma account_view_fields [simp]:
  "account_view db_sso" "account_view db_authenticators" "account_view db_users" "account_view db_password_history"
  "account_view db_policies" "account_view db_attempts"
  by (simp_all add: account_view_def)

lemma account_view_log [simp]: "account_view f \<Longrightarrow> log_free f"
  by (simp add: account_view_def)

lemma keeps_view_sessions [action_inv]:
  assumes "account_view f"
  shows "keeps f (repo_sessions_save_authentication env c)" "keeps f (repo_sessions_delete env h)" "keeps f (repo_codes_create env code)"
    "keeps f (repo_save_password_verification env v)"
  using assms by (auto simp: flow_repo_defs account_repo_defs account_view_def rbind_Inr_iff intro!: keeps_db_call keeps_tryStateE keeps_modifyE)

lemma keeps_application_gate [action_inv]: "log_free f \<Longrightarrow> keeps f (application_check env ctx t c u)"
  by (rule keepsI) (meson application_check_total log_freeD)

lemma keeps_continue_authorization [action_inv]:
  "account_view f \<Longrightarrow> keeps f (continue_authorization env fl t session sso now ctx)"
  unfolding continue_authorization_def issue_code_def Let_def
  by (intro action_inv keeps_case_prod) (auto split: code_issuance.splits application_gate.splits intro!: action_inv)

definition gate_keeps :: "flow \<Rightarrow> (db \<Rightarrow> 'x) \<Rightarrow> bool" where
  "gate_keeps fl f \<longleftrightarrow> (\<forall>gate s b ctx now. fl_device_gate fl = Some gate \<longrightarrow> keeps f (gate s b ctx now))"

lemma keeps_admit [action_inv]: "gate_keeps fl f \<Longrightarrow> keeps f (admit fl s b ctx now)"
  by (auto simp: gate_keeps_def admit_def keeps_retE split: option.splits)

definition fresh_session :: "env \<Rightarrow> flow \<Rightarrow> uuid \<Rightarrow> authentication_method list \<Rightarrow> sso_session \<Rightarrow> bool" where
  "fresh_session env fl u methods s \<longleftrightarrow> ss_user_id s = u \<and> ss_authentication_methods s = methods
     \<and> ss_authentication_strength s = from_methods methods
     \<and> ss_auth_time s = fl_now fl \<and> ss_session_hash s = sha256_hex (e_lib env) (fl_sso_id fl)"

text \<open>\<open>m\<close> leaves the sessions as they are or adds one with \<open>P\<close>.\<close>

definition adds_session :: "(sso_session \<Rightarrow> bool) \<Rightarrow> (db, 'e, 'a) action \<Rightarrow> bool" where
  "adds_session P m \<longleftrightarrow> (\<forall>d x d'. m d = (x, d') \<longrightarrow> db_sso d' = db_sso d \<or> (\<exists>s. db_sso d' = db_sso d @ [s] \<and> P s))"

lemma adds_sessionD:
  "adds_session P m \<Longrightarrow> m d = (x, d') \<Longrightarrow> db_sso d' \<noteq> db_sso d \<Longrightarrow> \<exists>s. db_sso d' = db_sso d @ [s] \<and> P s"
  by (auto simp: adds_session_def)

lemma adds_keeps: "keeps db_sso m \<Longrightarrow> adds_session P m"
  by (auto simp: adds_session_def dest: keepsD)

lemma adds_bind_keeps: "adds_session P m \<Longrightarrow> (\<And>a. keeps db_sso (n a)) \<Longrightarrow> adds_session P (bindE m n)"
  unfolding adds_session_def by (metis bindE_then_keeps)

lemma adds_keeps_bind:
  assumes "keeps db_sso m" "\<And>a. adds_session P (n a)"
  shows "adds_session P (bindE m n)"
  unfolding adds_session_def
proof (intro allI impI)
  fix d x d' assume b: "bindE m n d = (x, d')"
  show "db_sso d' = db_sso d \<or> (\<exists>s. db_sso d' = db_sso d @ [s] \<and> P s)"
  proof (cases "db_sso d' = db_sso d")
    case False
    with b assms(1) obtain a d1 where "n a d1 = (x, d')" "db_sso d1 = db_sso d" "db_sso d' \<noteq> db_sso d1" by (rule bindE_changes)
    then show ?thesis using adds_sessionD [OF assms(2)] by metis
  qed simp
qed

lemma adds_repo_sso_create:
  assumes "P (s\<lparr>ss_created_at := e_db_now env, ss_updated_at := e_db_now env\<rparr>)"
  shows "adds_session P (repo_sso_create env s)"
  using assms
  by (auto simp: adds_session_def repo_sso_create_def db_call_def tryStateE_def sso_create_def failE_def split: option.splits if_splits sum.splits)

lemma establish_sso_adds:
  assumes "gate_keeps fl db_sso"
  shows "adds_session (fresh_session env fl (si_user_id si) (si_methods si)) (establish_sso env fl si ctx (fl_now fl))"
proof -
  have "adds_session (fresh_session env fl (si_user_id si) (si_methods si))
    (bindE (repo_sso_create env (sso_establish (sha256_hex (e_lib env) (fl_sso_id fl)) (si_user_id si) (fl_now fl) i a (si_methods si) ua ip)) K)"
    if "\<And>x. keeps db_sso (K x)" for i a ua ip and K :: "unit \<Rightarrow> (db, domain_error, establishment) action"
    using that by (intro adds_bind_keeps adds_repo_sso_create) (simp_all add: fresh_session_def sso_establish_def Let_def)
  then have "adds_session (fresh_session env fl (si_user_id si) (si_methods si))
    (let (idle_expires_at, absolute_expires_at) =
             lifetime_for (fl_now fl) (fl_now fl + sl_idle lifetime) Unbound False (sl_absolute lifetime) (sl_bound lifetime);
           session = sso_establish (sha256_hex (e_lib env) (fl_sso_id fl)) (si_user_id si) (fl_now fl)
             (idle_expires_at - fl_now fl) (absolute_expires_at - fl_now fl) (si_methods si) (cx_user_agent ctx) (cx_ip_address ctx)
       in bindE (repo_sso_create env session) (\<lambda>_.
          bindE (audit_record env ctx ''sso_session.created'' AuditSuccess (Some (si_tenant_id si)) (Some (si_user_id si)) (si_client_id si) None) (\<lambda>_.
          bindE (audit_record env ctx (si_success_event si) AuditSuccess (Some (si_tenant_id si)) (Some (si_user_id si)) (si_client_id si)
                   (si_success_detail si)) (\<lambda>_.
          retE (Established \<lparr>es_session = session, es_session_id = fl_sso_id fl\<rparr>)))))" for lifetime
    unfolding Let_def
    by (cases "lifetime_for (fl_now fl) (fl_now fl + sl_idle lifetime) Unbound False (sl_absolute lifetime) (sl_bound lifetime)")
      (simp add: keeps_bindE keeps_audit keeps_retE)
  then show ?thesis
    unfolding establish_sso_def establish_sso_with_binding_def
    by (intro adds_keeps_bind [OF keeps_admit [OF assms]])
      (auto split: admission.splits intro!: adds_keeps_bind [OF keeps_liftR] adds_keeps [OF keeps_retE])
qed

lemma finish_sign_in_adds:
  assumes "gate_keeps fl db_sso"
  shows "adds_session (fresh_session env fl (u_id u) methods) (finish_sign_in env fl ctx t session u methods)"
proof -
  have "adds_session (fresh_session env fl (u_id u) methods)
     (establish_sso env fl \<lparr>si_tenant_id = t, si_user_id = u_id u, si_home_tenant_id = u_tenant_id u, si_methods = methods,
              si_client_id = Some (session_client_id session), si_success_event = ''login.succeeded'', si_success_detail = None\<rparr> ctx (fl_now fl))"
    using establish_sso_adds [OF assms, of env "\<lparr>si_tenant_id = t, si_user_id = u_id u, si_home_tenant_id = u_tenant_id u, si_methods = methods,
              si_client_id = Some (session_client_id session), si_success_event = ''login.succeeded'', si_success_detail = None\<rparr>" ctx] by simp
  then show ?thesis
    unfolding finish_sign_in_def by (rule adds_bind_keeps) (auto split: establishment.splits intro!: action_inv)
qed

lemma keeps_reset_failures [action_inv]: "(\<And>d rows. f (d\<lparr>db_users := rows\<rparr>) = f d) \<Longrightarrow> keeps f (reset_failures env u)"
  unfolding reset_failures_def repo_update_login_state_def by (intro action_inv keeps_modifyE)

lemma keeps_rate_check [action_inv]: "(\<And>d m. f (d\<lparr>db_attempts := m\<rparr>) = f d) \<Longrightarrow> keeps f (rate_check ac ctx now)"
  unfolding rate_check_def by (auto intro!: action_inv keeps_stateE split: option.splits prod.splits)

lemma keeps_record_login_failure [action_inv]:
  assumes "\<And>d rows. f (d\<lparr>db_users := rows\<rparr>) = f d"
  shows "keeps f (repo_record_login_failure env u lockout now)"
proof (rule keepsI)
  fix d r d' assume a: "repo_record_login_failure env u lockout now d = (r, d')"
  show "f d' = f d"
  proof (cases "record_login_failure u lockout now (db_users d)")
    case (Some x)
    with a assms show ?thesis
      by (cases x) (auto simp: repo_record_login_failure_def db_call_def failE_def retE_def split: option.splits)
  qed (use a in \<open>simp add: repo_record_login_failure_def\<close>)
qed

lemma keeps_await_second_step [action_inv]: "account_view f \<Longrightarrow> keeps f (await_second_step env fl ac session u)"
  unfolding await_second_step_def Let_def by (auto intro!: action_inv split: prod.splits)

section \<open>Password\<close>

definition confirmed_totp :: "uuid \<Rightarrow> db \<Rightarrow> bool" where
  "confirmed_totp u d \<longleftrightarrow> (case totp_find_by_user_id u (db_authenticators d) of Some s \<Rightarrow> totp_is_confirmed s | None \<Rightarrow> False)"

definition no_change_due :: "account \<Rightarrow> flow \<Rightarrow> user \<Rightarrow> bool" where
  "no_change_due ac fl u \<longleftrightarrow>
     (\<exists>p. ac_password_policy ac (u_tenant_id u) = Inr p \<and> password_change_required u p (fl_now fl) = Some False)"

lemma session_policy_Inr:
  assumes "session_policy env fl ctx t session u d = (Inr dec, d')" "meets_decision dec methods (WebAuthn \<in> set methods)"
  shows "policy_admits env fl ctx t (as_request session) u methods d"
  using policy_decide_Inr [OF assms(1) [unfolded session_policy_def]] assms(2)
  unfolding policy_admits_def session_client_id_def by auto

lemma confirmed_totp_Inr: "user_has_confirmed_totp env u d = (Inr b, d') \<Longrightarrow> b = confirmed_totp u d"
  by (auto simp: user_has_confirmed_totp_def bindE_Inr_iff repo_totp_find_def confirmed_totp_def)

lemma adds_internal: "adds_session P m \<Longrightarrow> adds_session P (internal F m)"
  unfolding adds_session_def internal_def mapErrE_def by (fastforce split: sum.splits prod.splits)

text \<open>A step whose result ends the operation without a session.\<close>

lemma sso_kept: "m d = (r, d') \<Longrightarrow> db_sso d' \<noteq> db_sso d \<Longrightarrow> keeps db_sso m \<Longrightarrow> False"
  using keepsD by metis

lemma single_factor_signs_in:
  assumes r: "single_factor_sign_in env fl ctx t session u dec d = (r, d')" and c: "db_sso d' \<noteq> db_sso d"
    and g: "gate_keeps fl db_sso" and "\<nexists>code. dec = DenyDecision code"
  shows "meets_decision dec [Password] False \<and> (\<exists>s. db_sso d' = db_sso d @ [s] \<and> fresh_session env fl (u_id u) [Password] s)"
proof -
  have refused: False if "bindE (record_failure env ctx e t v i reason) (\<lambda>_. retE (out :: login_outcome)) d = (r, d')" for e v i reason out
    using that c by (rule sso_kept) (simp add: keeps_bindE keeps_record_failure keeps_retE)
  have m: "meets_decision dec [Password] False"
    using r assms(4) by (cases dec) (auto simp: single_factor_sign_in_def Let_def dest: refused split: option.splits)
  have "adds_session (fresh_session env fl (u_id u) [Password]) (single_factor_sign_in env fl ctx t session u dec)"
    unfolding single_factor_sign_in_def Let_def
    by (auto split: policy_decision.splits option.splits
        intro!: adds_keeps [OF keeps_bindE [OF keeps_record_failure keeps_retE]]
          adds_keeps_bind [OF keeps_internal [OF keeps_reset_failures]]
          adds_bind_keeps [OF adds_internal [OF finish_sign_in_adds [OF g]] keeps_retE])
  from adds_sessionD [OF this r c] m show ?thesis by blast
qed

lemma after_policy_signs_in:
  assumes r: "after_policy env fl ac ctx t session u dec d = (r, d')" and c: "db_sso d' \<noteq> db_sso d"
    and g: "gate_keeps fl db_sso" and nd: "\<nexists>code. dec = DenyDecision code"
  shows "no_change_due ac fl u \<and> \<not> confirmed_totp (u_id u) d \<and> meets_decision dec [Password] False
     \<and> (\<exists>s. db_sso d' = db_sso d @ [s] \<and> fresh_session env fl (u_id u) [Password] s)"
proof -
  have waits: False if "bindE (internal LoginInternal (await_second_step env fl ac session (u_id u))) (\<lambda>sid. retE (f sid)) d = (r, d')" for f
    using that c by (rule sso_kept) (simp add: keeps_bindE keeps_internal keeps_await_second_step keeps_retE)
  from r obtain p where p: "ac_password_policy ac (u_tenant_id u) = Inr p"
    and r1: "bindE (unwrap_panic (password_change_required u p (fl_now fl))) (\<lambda>change.
     if change
     then bindE (internal LoginInternal (await_second_step env fl ac session (u_id u))) (\<lambda>sid. retE (LoginPasswordChangeRequired sid))
     else
     bindE (internal LoginInternal (user_has_confirmed_totp env (u_id u))) (\<lambda>has_totp.
     if has_totp
     then bindE (internal LoginInternal (await_second_step env fl ac session (u_id u))) (\<lambda>sid. retE (LoginMfaRequired sid))
     else single_factor_sign_in env fl ctx t session u dec)) d = (r, d')"
    unfolding after_policy_def using c by (rule internal_lift_then)
  from r1 c obtain change where ch: "password_change_required u p (fl_now fl) = Some change"
    and r2: "(if change
     then bindE (internal LoginInternal (await_second_step env fl ac session (u_id u))) (\<lambda>sid. retE (LoginPasswordChangeRequired sid))
     else
     bindE (internal LoginInternal (user_has_confirmed_totp env (u_id u))) (\<lambda>has_totp.
     if has_totp
     then bindE (internal LoginInternal (await_second_step env fl ac session (u_id u))) (\<lambda>sid. retE (LoginMfaRequired sid))
     else single_factor_sign_in env fl ctx t session u dec)) d = (r, d')"
    by (rule unwrap_panic_then)
  have "\<not> change" using r2 waits by auto
  with r2 have "bindE (internal LoginInternal (user_has_confirmed_totp env (u_id u))) (\<lambda>has_totp.
     if has_totp
     then bindE (internal LoginInternal (await_second_step env fl ac session (u_id u))) (\<lambda>sid. retE (LoginMfaRequired sid))
     else single_factor_sign_in env fl ctx t session u dec) d = (r, d')" by simp
  from this keeps_confirmed_totp c obtain has_totp where h: "user_has_confirmed_totp env (u_id u) d = (Inr has_totp, d)"
    and r3: "(if has_totp
     then bindE (internal LoginInternal (await_second_step env fl ac session (u_id u))) (\<lambda>sid. retE (LoginMfaRequired sid))
     else single_factor_sign_in env fl ctx t session u dec) d = (r, d')" by (rule internal_read_then)
  have "\<not> has_totp" using r3 waits by auto
  then have "\<not> confirmed_totp (u_id u) d" "single_factor_sign_in env fl ctx t session u dec d = (r, d')"
    using confirmed_totp_Inr [OF h] r3 by simp_all
  with single_factor_signs_in [OF this(2) c g nd] p ch \<open>\<not> change\<close> show ?thesis unfolding no_change_due_def by auto
qed

lemma after_password_signs_in:
  assumes r: "after_password env fl ac ctx t session u d = (r, d')" and c: "db_sso d' \<noteq> db_sso d" and g: "gate_keeps fl db_sso"
  shows "u_email_verified u \<and> policy_admits env fl ctx t (as_request session) (u_id u) [Password] d \<and> no_change_due ac fl u
     \<and> \<not> confirmed_totp (u_id u) d \<and> (\<exists>s. db_sso d' = db_sso d @ [s] \<and> fresh_session env fl (u_id u) [Password] s)"
proof -
  have refused: False if "bindE (record_failure env ctx e t v i reason) (\<lambda>_. retE (out :: login_outcome)) d = (r, d')" for e v i reason out
    using that c by (rule sso_kept) (simp add: keeps_bindE keeps_record_failure keeps_retE)
  have v: "u_email_verified u" using r refused by (cases "u_email_verified u") (auto simp: after_password_def Let_def)
  with r have "bindE (internal LoginInternal (session_policy env fl ctx t session (u_id u))) (\<lambda>decision.
      case decision of
        DenyDecision code \<Rightarrow>
          bindE (record_failure env ctx ''login.policy_denied'' t (Some (u_id u)) (session_client_id session) (''policy='' @ code)) (\<lambda>_. retE LoginPolicyDenied)
      | _ \<Rightarrow> after_policy env fl ac ctx t session u decision) d = (r, d')" by (simp add: after_password_def Let_def)
  from this keeps_session_policy c obtain dec where dec: "session_policy env fl ctx t session (u_id u) d = (Inr dec, d)"
    and r1: "(case dec of
        DenyDecision code \<Rightarrow>
          bindE (record_failure env ctx ''login.policy_denied'' t (Some (u_id u)) (session_client_id session) (''policy='' @ code)) (\<lambda>_. retE LoginPolicyDenied)
      | _ \<Rightarrow> after_policy env fl ac ctx t session u dec) d = (r, d')" by (rule internal_read_then)
  have nd: "\<nexists>code. dec = DenyDecision code" using r1 refused by auto
  with r1 have "after_policy env fl ac ctx t session u dec d = (r, d')" by (cases dec) auto
  from after_policy_signs_in [OF this c g nd] v session_policy_Inr [OF dec, of "[Password]"] show ?thesis by auto
qed

lemma pending_session_Some:
  assumes "pending_session env fl t cookie d = (Inr (Some (sid, session)), d')"
  shows "d' = d \<and> cookie = Some sid \<and> auth_session_find t (id_hash_of_plain (e_lib env) sid) (db_auth_sessions d) = Inr (Some session)
     \<and> \<not> auth_session_is_expired_at session (fl_now fl)"
  using assms
  by (auto simp: pending_session_def bindE_Inr_iff sessions_find_eq non_empty_Some split: option.splits if_splits)

text \<open>The presented cookie names a live session of the tenant and the form carries its token.\<close>

definition form_session :: "env \<Rightarrow> flow \<Rightarrow> account \<Rightarrow> tenant_id \<Rightarrow> string option \<Rightarrow> string \<Rightarrow> db \<Rightarrow> auth_session \<Rightarrow> bool" where
  "form_session env fl ac t cookie token d session \<longleftrightarrow> (\<exists>sid. cookie = Some sid \<and> token = login_csrf_token ac sid
     \<and> auth_session_find t (id_hash_of_plain (e_lib env) sid) (db_auth_sessions d) = Inr (Some session)
     \<and> \<not> auth_session_is_expired_at session (fl_now fl))"

text \<open>The limit of the address of the request is not reached.\<close>

definition within_limit :: "flow \<Rightarrow> account \<Rightarrow> request_context \<Rightarrow> db \<Rightarrow> bool" where
  "within_limit fl ac ctx d \<longleftrightarrow> (\<forall>ip. cx_ip_address ctx = Some ip \<longrightarrow>
     length (filter (\<lambda>x. fl_now fl - rl_window (ac_limiter ac) < x) (times_of ip (db_attempts d))) < rl_max_attempts (ac_limiter ac))"

lemma byte_of_eq: "xor (byte_of a) (byte_of b) = 0 \<longleftrightarrow> a = b"
proof -
  have "byte_of a = byte_of b \<longleftrightarrow> a = b"
    using of_char_eq_iff [of a b, where 'a = nat] nat_of_char_less_256 [of a] nat_of_char_less_256 [of b]
    by (simp add: byte_of_def byte_val_def word_of_nat_eq_iff take_bit_eq_mod)
  moreover have "xor v w = 0 \<longleftrightarrow> v = w" for v w :: "8 word" by (auto simp: bit_eq_iff bit_simps)
  ultimately show ?thesis by simp
qed

lemma csrf_fold: "foldl (\<lambda>acc (a, b). or acc (xor (byte_of a) (byte_of b))) acc xs = 0 \<longleftrightarrow> acc = 0 \<and> (\<forall>(a, b) \<in> set xs. a = b)"
  by (induction xs arbitrary: acc) (auto simp: or_eq_0_iff byte_of_eq)

lemma csrf_verify_iff [simp]: "csrf_verify expected provided \<longleftrightarrow> provided = expected"
proof (cases "length expected = length provided")
  case True
  then have "(\<forall>(a, b) \<in> set (zip expected provided). a = b) \<longleftrightarrow> provided = expected"
    by (induction expected provided rule: list_induct2) auto
  with True show ?thesis by (simp add: csrf_verify_def csrf_fold)
qed (auto simp: csrf_verify_def)

lemma rate_check_Inr:
  assumes "rate_check ac ctx (fl_now fl) d = (Inr True, d')"
  shows "within_limit fl ac ctx d" "\<exists>m. d' = d\<lparr>db_attempts := m\<rparr>"
proof -
  show "within_limit fl ac ctx d"
    using assms by (auto simp: rate_check_def within_limit_def check_and_record_iff Let_def split: option.splits prod.splits)
  have "d = d\<lparr>db_attempts := db_attempts d\<rparr>" by simp
  then show "\<exists>m. d' = d\<lparr>db_attempts := m\<rparr>"
    using assms by (auto simp: rate_check_def split: option.splits prod.splits intro: exI [of _ "db_attempts d"])
qed

lemma keeps_pending_view [action_inv]: "account_view f \<Longrightarrow> keeps f (pending_session env fl t c)"
  unfolding pending_session_def by (intro action_inv) simp_all

lemma keeps_password_failure: "keeps db_sso (handle_password_failure env ac ctx t u i)"
  unfolding handle_password_failure_def by (intro action_inv) simp_all

lemma check_credentials_signs_in:
  assumes r: "check_credentials env fl ac ctx t cmd session d = (r, d')" and c: "db_sso d' \<noteq> db_sso d" and g: "gate_keeps fl db_sso"
  shows "\<exists>u s. named_at env ac t (lo_username cmd) d u \<and> \<not> is_locked_at u (fl_now fl) \<and> user_is_active u
     \<and> ac_verify ac (lo_password cmd) (u_password_hash u) = Inr True \<and> u_email_verified u \<and> no_change_due ac fl u
     \<and> \<not> confirmed_totp (u_id u) d \<and> policy_admits env fl ctx t (as_request session) (u_id u) [Password] d
     \<and> db_sso d' = db_sso d @ [s] \<and> fresh_session env fl (u_id u) [Password] s"
proof -
  have refused: False if "bindE (record_failure env ctx e t v i reason) (\<lambda>_. retE (out :: login_outcome)) d = (r, d')" for e v i reason out
    using that c by (rule sso_kept) (simp add: keeps_bindE keeps_record_failure keeps_retE)
  obtain m where m: "resolve_login_user env ac t (lo_username cmd) d = (Inr m, d)"
    and r1: "(case m of
        Unresolved reason \<Rightarrow>
          bindE (record_failure env ctx ''login.failed'' t None (session_client_id session) (unresolved_audit_code reason)) (\<lambda>_. retE LoginInvalidCredentials)
      | Resolved u \<Rightarrow>
          if is_locked_at u (fl_now fl)
          then bindE (record_failure env ctx ''login.locked'' t (Some (u_id u)) (session_client_id session) ''account_locked'') (\<lambda>_. retE LoginLocked)
          else if \<not> user_is_active u
          then bindE (record_failure env ctx ''login.failed'' t (Some (u_id u)) (session_client_id session) ''account_not_active'') (\<lambda>_.
               retE LoginInvalidCredentials)
          else
          bindE (internal LoginInternal (liftR (ac_verify ac (lo_password cmd) (u_password_hash u)))) (\<lambda>verified.
          if \<not> verified then handle_password_failure env ac ctx t u (session_client_id session)
          else after_password env fl ac ctx t session u)) d = (r, d')"
    using r [unfolded check_credentials_def Let_def] keeps_resolve_login_user c by (rule internal_read_then)
  from r1 obtain u where u: "m = Resolved u" by (cases m) (auto dest: refused)
  with r1 have l: "\<not> is_locked_at u (fl_now fl)" "user_is_active u" by (auto dest: refused split: if_splits)
  with r1 u have "bindE (internal LoginInternal (liftR (ac_verify ac (lo_password cmd) (u_password_hash u)))) (\<lambda>verified.
          if \<not> verified then handle_password_failure env ac ctx t u (session_client_id session)
          else after_password env fl ac ctx t session u) d = (r, d')" by simp
  from this c obtain verified where v: "ac_verify ac (lo_password cmd) (u_password_hash u) = Inr verified"
    and r2: "(if \<not> verified then handle_password_failure env ac ctx t u (session_client_id session)
          else after_password env fl ac ctx t session u) d = (r, d')" by (rule internal_lift_then)
  have "verified" using r2 sso_kept [OF _ c keeps_password_failure] by (auto split: if_splits)
  with r2 have "after_password env fl ac ctx t session u d = (r, d')" by simp
  from after_password_signs_in [OF this c g] l v \<open>verified\<close> resolve_login_user_Resolved [OF m [unfolded u]]
  show ?thesis by auto
qed

text \<open>The state after the rate limiter, seen from before it.\<close>

lemma attempts_views [simp]:
  "named_at env ac t i (d\<lparr>db_attempts := m\<rparr>) u = named_at env ac t i d u"
  "confirmed_totp v (d\<lparr>db_attempts := m\<rparr>) = confirmed_totp v d"
  "policy_admits env fl ctx t q v ms (d\<lparr>db_attempts := m\<rparr>) = policy_admits env fl ctx t q v ms d"
  by (simp_all add: named_at_def confirmed_totp_def policy_admits_def)

text \<open>
  (C15) Whenever \<open>login\<close> creates a single sign-on session, the cookie names a live authorization session of the tenant and
  the form carries its token, the address is within its limit, the name typed denotes an account registered at the tenant or
  an active member of it, the account is neither locked nor inactive nor unverified, the password is right and not due for
  a change, the account has no confirmed one-time password app, and the tenant's policies admit the password alone; the
  session is the only one added and is that user's, with the password as its one method and the time of the request.
\<close>

theorem login_session_sound:
  assumes "login env fl ac ctx t cmd d = (r, d')" and c: "db_sso d' \<noteq> db_sso d" and g: "gate_keeps fl db_sso"
  shows "\<exists>session u s. form_session env fl ac t (lo_auth_session_id cmd) (lo_csrf_token cmd) d session \<and> within_limit fl ac ctx d
     \<and> named_at env ac t (lo_username cmd) d u \<and> \<not> is_locked_at u (fl_now fl) \<and> user_is_active u
     \<and> ac_verify ac (lo_password cmd) (u_password_hash u) = Inr True \<and> u_email_verified u \<and> no_change_due ac fl u
     \<and> \<not> confirmed_totp (u_id u) d \<and> policy_admits env fl ctx t (as_request session) (u_id u) [Password] d
     \<and> db_sso d' = db_sso d @ [s] \<and> fresh_session env fl (u_id u) [Password] s"
proof -
  have refused: False if "bindE (record_failure env ctx e t v i reason) (\<lambda>_. retE (out :: login_outcome)) d1 = (r, d')"
    "db_sso d' \<noteq> db_sso d1" for e v i reason out d1
    using that by (rule sso_kept) (simp add: keeps_bindE keeps_record_failure keeps_retE)
  obtain found d1 where p: "internal LoginInternal (pending_session env fl t (lo_auth_session_id cmd)) d = (Inr found, d1)"
    and r1: "(case found of None \<Rightarrow> retE LoginSessionExpired
      | Some (session_id, session) \<Rightarrow>
        if \<not> csrf_verify (login_csrf_token ac session_id) (lo_csrf_token cmd)
        then bindE (record_failure env ctx ''login.failed'' t None (session_client_id session) ''csrf_mismatch'') (\<lambda>_. retE LoginCsrfMismatch)
        else
        bindE (rate_check ac ctx (fl_now fl)) (\<lambda>within.
        if \<not> within
        then bindE (record_failure env ctx ''login.failed'' t None (session_client_id session) ''ip_rate_limited'') (\<lambda>_. retE LoginRateLimited)
        else check_credentials env fl ac ctx t cmd session)) d1 = (r, d')" and c1: "db_sso d1 = db_sso d" "db_sso d' \<noteq> db_sso d1"
    using assms(1) [unfolded login_def Let_def] keeps_internal [OF keeps_pending_view [OF account_view_fields(1)]] c by (rule bindE_changes)
  from r1 c1(2) obtain sid session where f: "found = Some (sid, session)" by (cases found) auto
  note s = pending_session_Some [OF p [unfolded internal_Inr f]]
  from s have d1: "d1 = d" by simp
  from r1 have t: "lo_csrf_token cmd = login_csrf_token ac sid" by (auto simp: f dest: refused [OF _ c1(2)] split: if_splits)
  with r1 have "bindE (rate_check ac ctx (fl_now fl)) (\<lambda>within.
        if \<not> within
        then bindE (record_failure env ctx ''login.failed'' t None (session_client_id session) ''ip_rate_limited'') (\<lambda>_. retE LoginRateLimited)
        else check_credentials env fl ac ctx t cmd session) d = (r, d')" by (simp add: f d1)
  moreover have "keeps db_sso (rate_check ac ctx (fl_now fl) :: (db, login_outcome exit, bool) action)" by (rule keeps_rate_check) simp
  ultimately obtain within d2 where w: "rate_check ac ctx (fl_now fl) d = ((Inr within :: login_outcome exit + bool), d2)"
    and r2: "(if \<not> within
        then bindE (record_failure env ctx ''login.failed'' t None (session_client_id session) ''ip_rate_limited'') (\<lambda>_. retE LoginRateLimited)
        else check_credentials env fl ac ctx t cmd session) d2 = (r, d')" and c2: "db_sso d2 = db_sso d" "db_sso d' \<noteq> db_sso d2"
    using c by (rule bindE_changes)
  have "within" using r2 refused [OF _ c2(2)] by (auto split: if_splits)
  with w r2 have w: "within_limit fl ac ctx d" and "\<exists>m. d2 = d\<lparr>db_attempts := m\<rparr>" and r3: "check_credentials env fl ac ctx t cmd session d2 = (r, d')"
    using rate_check_Inr [of ac ctx fl d d2, where 'a = "login_outcome exit"] by auto
  then obtain m where d2: "d2 = d\<lparr>db_attempts := m\<rparr>" by blast
  have "form_session env fl ac t (lo_auth_session_id cmd) (lo_csrf_token cmd) d session"
    using s t by (auto simp: form_session_def)
  with w check_credentials_signs_in [OF r3 c2(2) g] show ?thesis by (auto simp: d2)
qed

section \<open>Second factor\<close>

text \<open>The one-time password of the user's confirmed app, for a step not used before; a live one-time code of the user.\<close>

definition totp_accepted :: "account \<Rightarrow> uuid \<Rightarrow> string \<Rightarrow> nat \<Rightarrow> db \<Rightarrow> bool" where
  "totp_accepted ac u code n d \<longleftrightarrow>
     (\<exists>rec secret. totp_find_by_user_id u (db_authenticators d) = Some rec \<and> totp_is_confirmed rec
        \<and> ac_decrypt ac (ts_secret_encrypted rec) = Inr secret
        \<and> verify_totp_code (ac_totp_build ac) (ac_totp_clock ac) secret code = Inr (Some n))
     \<and> (\<forall>a \<in> set (db_authenticators d). ua_user_id a = u \<and> ua_type a = AtTotp \<longrightarrow> \<not> is_blocked a)
     \<and> (\<exists>a \<in> set (db_authenticators d). live_totp u a \<and> last_step a < int n)"

definition single_use_accepted :: "env \<Rightarrow> account \<Rightarrow> uuid \<Rightarrow> authenticator_type \<Rightarrow> string \<Rightarrow> db \<Rightarrow> bool" where
  "single_use_accepted env ac u ty code d \<longleftrightarrow>
     (\<exists>a \<in> set (db_authenticators d).
        claimable (e_ci env) u ty (sha256_hex (e_lib env) (normalize_single_use_code ac ty code)) StActive (ac_code_now ac) a)"

text \<open>\<open>code\<close> is a second factor of kind \<open>m\<close> in \<open>d\<close> and used up in \<open>d'\<close>.\<close>

definition factor_spent :: "env \<Rightarrow> account \<Rightarrow> uuid \<Rightarrow> string \<Rightarrow> authentication_method \<Rightarrow> db \<Rightarrow> db \<Rightarrow> bool" where
  "factor_spent env ac u code m d d' \<longleftrightarrow>
     m = Totp \<and> (\<exists>n. totp_accepted ac u code n d \<and> (\<forall>a \<in> set (db_authenticators d'). live_totp u a \<longrightarrow> int n \<le> last_step a))
     \<or> (\<exists>ty. (ty, m) \<in> set single_use_factors \<and> single_use_accepted env ac u ty code d \<and> \<not> single_use_accepted env ac u ty code d')"

lemma factor_spent_view:
  "db_authenticators d1 = db_authenticators d \<Longrightarrow> db_authenticators d2 = db_authenticators d'
     \<Longrightarrow> factor_spent env ac u code m d1 d2 = factor_spent env ac u code m d d'"
  by (simp add: factor_spent_def totp_accepted_def single_use_accepted_def)

lemma authn_list_set [simp]: "set (authn_list_for_user u rows) = {a \<in> set rows. ua_user_id a = u}"
  by (auto simp: authn_list_for_user_def newest_first_def)

lemma recorded_step_rows:
  assumes "record_totp_step_if_newer u step at rows = (b, rows')"
  shows "b = (\<exists>a \<in> set rows. live_totp u a \<and> last_step a < step)" "\<forall>a \<in> set rows'. live_totp u a \<longrightarrow> step \<le> last_step a"
    "\<not> b \<Longrightarrow> rows' = rows"
proof -
  let ?hit = "\<lambda>r. live_totp u r \<and> last_step r < step"
  let ?set = "\<lambda>r. if ?hit r then r\<lparr>ua_totp_last_used_step := Some step, ua_last_used_at := Some at\<rparr> else r"
  from assms have b: "b \<longleftrightarrow> filter ?hit rows \<noteq> []" and rows': "rows' = map ?set rows"
    by (simp_all add: record_totp_step_if_newer_def authn_update_def)
  from b show "b = (\<exists>a \<in> set rows. live_totp u a \<and> last_step a < step)" by (simp add: filter_empty_conv)
  have "step \<le> last_step (?set r)" if "live_totp u (?set r)" for r
  proof (cases "?hit r")
    case False
    then have "?set r = r" by (rule if_not_P)
    with that False show ?thesis by auto
  qed (simp add: last_step_def)
  then show "\<forall>a \<in> set rows'. live_totp u a \<longrightarrow> step \<le> last_step a" unfolding rows' list.set_map by blast
  show "\<not> b \<Longrightarrow> rows' = rows" unfolding rows' b filter_empty_conv by (rule map_idI) auto
qed

lemma consumed_row_found: "filter (secret_matches ci u ty h) rows \<noteq> [] \<Longrightarrow> authn_consumed_row ci u ty h rows \<noteq> None"
  unfolding authn_consumed_row_def Let_def by (auto split: list.split)

lemma consume_code_rows:
  assumes "consume_single_use_code env ac u ty code (ac_code_now ac) d = (Inr b, d')"
  shows "b \<longrightarrow> single_use_accepted env ac u ty code d \<and> \<not> single_use_accepted env ac u ty code d'" "\<not> b \<longrightarrow> d' = d"
    "\<exists>rows. d' = d\<lparr>db_authenticators := rows\<rparr>"
proof -
  let ?h = "sha256_hex (e_lib env) (normalize_single_use_code ac ty code)"
  let ?hit = "claimable (e_ci env) u ty ?h StActive (ac_code_now ac)"
  let ?set = "\<lambda>r. if ?hit r then r\<lparr>ua_status := StRevoked, ua_revoked_at := Some (ac_code_now ac), ua_last_used_at := Some (ac_code_now ac)\<rparr> else r"
  let ?d = "d\<lparr>db_authenticators := map ?set (db_authenticators d)\<rparr>"
  have same: "map ?set (db_authenticators d) = db_authenticators d" if "filter ?hit (db_authenticators d) = []"
    using that by (intro map_idI) (simp add: filter_empty_conv)
  have found: "authn_consumed_row (e_ci env) u ty ?h (map ?set (db_authenticators d)) \<noteq> None" if "filter ?hit (db_authenticators d) \<noteq> []"
  proof -
    from that obtain r where r: "r \<in> set (db_authenticators d)" "?hit r" by (auto simp: filter_empty_conv)
    then have "secret_matches (e_ci env) u ty ?h (?set r)" by (simp add: claimable_def secret_matches_def)
    moreover have "?set r \<in> set (map ?set (db_authenticators d))" unfolding list.set_map by (rule imageI [OF r(1)])
    ultimately have "filter (secret_matches (e_ci env) u ty ?h) (map ?set (db_authenticators d)) \<noteq> []"
      unfolding filter_empty_conv by blast
    then show ?thesis by (rule consumed_row_found)
  qed
  have spent: "\<not> single_use_accepted env ac u ty code ?d"
  proof -
    have "\<not> ?hit (?set r)" for r by (cases "?hit r") (simp_all add: claimable_def)
    then show ?thesis by (auto simp: single_use_accepted_def claimable_def)
  qed
  consider (no) "\<not> b" "d' = d" | (yes) "b" "filter ?hit (db_authenticators d) \<noteq> []" "d' = ?d"
  proof (cases "normalize_single_use_code ac ty code = []")
    case True
    with assms show ?thesis using no by (simp add: consume_single_use_code_def)
  next
    case False
    with assms obtain n c d1 where n: "n = length (filter ?hit (db_authenticators d))" "d1 = ?d"
      and c: "(if n = 0 then retE None
        else db_query env ''authenticators.consume_single_use(select)'' (\<lambda>d. authn_consumed_row (e_ci env) u ty ?h (db_authenticators d))) d1
        = (Inr c, d' :: db)" and b: "b = (c \<noteq> None)"
      by (auto simp: consume_single_use_code_def Let_def bindE_Inr_iff repo_authn_consume_def authn_consume_single_use_def authn_update_def)
    show ?thesis
    proof (cases "n = 0")
      case True
      then show ?thesis using no c b n same by simp
    next
      case False
      then show ?thesis using yes c b n found by simp
    qed
  qed
  then have "(b \<longrightarrow> single_use_accepted env ac u ty code d \<and> \<not> single_use_accepted env ac u ty code d') \<and> (\<not> b \<longrightarrow> d' = d)
    \<and> (\<exists>rows. d' = d\<lparr>db_authenticators := rows\<rparr>)"
  proof cases
    case no
    have "d = d\<lparr>db_authenticators := db_authenticators d\<rparr>" by simp
    with no show ?thesis by blast
  next
    case yes
    from yes(2) have "single_use_accepted env ac u ty code d" by (auto simp: single_use_accepted_def filter_empty_conv)
    with yes(1,3) spent show ?thesis by blast
  qed
  then show "b \<longrightarrow> single_use_accepted env ac u ty code d \<and> \<not> single_use_accepted env ac u ty code d'" "\<not> b \<longrightarrow> d' = d"
    "\<exists>rows. d' = d\<lparr>db_authenticators := rows\<rparr>" by simp_all
qed

lemma record_step_Inr:
  "repo_totp_record_step env u step at d = (Inr b, d') \<longleftrightarrow> e_fault env ''totp_secrets.record_totp_step_if_newer'' = None
     \<and> (\<exists>rows. record_totp_step_if_newer u step at (db_authenticators d) = (b, rows) \<and> d' = d\<lparr>db_authenticators := rows\<rparr>)"
  by (cases "record_totp_step_if_newer u step at (db_authenticators d)") (auto simp: repo_totp_record_step_def)

lemma try_totp_Inr:
  assumes "try_totp env ac u code blocked d = (Inr b, d')"
    and "blocked = list_ex is_blocked (filter (\<lambda>a. ua_type a = AtTotp) (authn_list_for_user u (db_authenticators d)))"
  shows "b \<longrightarrow> factor_spent env ac u code Totp d d'" "\<not> b \<longrightarrow> d' = d"
proof -
  consider "\<not> b" "d' = d" | rec secret n rows where "totp_find_by_user_id u (db_authenticators d) = Some rec" "totp_is_confirmed rec" "\<not> blocked"
    "Inr secret = ac_decrypt ac (ts_secret_encrypted rec)" "verify_totp_code (ac_totp_build ac) (ac_totp_clock ac) secret code = Inr (Some n)"
    "record_totp_step_if_newer u (int n) (ac_totp_now ac) (db_authenticators d) = (b, rows)" "d' = d\<lparr>db_authenticators := rows\<rparr>"
  proof (cases "totp_find_by_user_id u (db_authenticators d)")
    case None
    then show ?thesis using assms(1) that(1) by (auto simp: try_totp_def bindE_Inr_iff repo_totp_find_def)
  next
    case (Some rec)
    show ?thesis
    proof (cases "totp_is_confirmed rec \<and> \<not> blocked")
      case False
      then show ?thesis using assms(1) Some that(1) by (auto simp: try_totp_def bindE_Inr_iff repo_totp_find_def)
    next
      case True
      with assms(1) Some obtain secret step where s: "Inr secret = ac_decrypt ac (ts_secret_encrypted rec)"
        "verify_totp_code (ac_totp_build ac) (ac_totp_clock ac) secret code = Inr step"
        and n: "(case step of None \<Rightarrow> retE False
            | Some n \<Rightarrow> mapErrE error_display (repo_totp_record_step env u (int n) (ac_totp_now ac))) d = (Inr b, d')"
        by (auto simp: try_totp_def bindE_Inr_iff repo_totp_find_def)
      show ?thesis
      proof (cases step)
        case None
        then show ?thesis using n that(1) by simp
      next
        case (Some k)
        then show ?thesis using n that(2) [OF \<open>totp_find_by_user_id u (db_authenticators d) = Some rec\<close>] True s by (auto simp: record_step_Inr)
      qed
    qed
  qed
  then have "(b \<longrightarrow> factor_spent env ac u code Totp d d') \<and> (\<not> b \<longrightarrow> d' = d)"
  proof cases
    case 2
    note r = recorded_step_rows [OF 2(6)]
    from r(3) 2(7) have "\<not> b \<longrightarrow> d' = d" by simp
    moreover have "b \<longrightarrow> factor_spent env ac u code Totp d d'"
    proof
      assume b
      with r(1) have "\<exists>a \<in> set (db_authenticators d). live_totp u a \<and> last_step a < int n" by simp
      moreover have "\<forall>a \<in> set (db_authenticators d). ua_user_id a = u \<and> ua_type a = AtTotp \<longrightarrow> \<not> is_blocked a"
        using 2(3) assms(2) by (auto simp: list_ex_iff)
      ultimately have "totp_accepted ac u code n d" using 2(1,2,5) 2(4) [symmetric] unfolding totp_accepted_def by blast
      then show "factor_spent env ac u code Totp d d'" using r(2) 2(7) unfolding factor_spent_def by auto
    qed
    ultimately show ?thesis by blast
  qed simp
  then show "b \<longrightarrow> factor_spent env ac u code Totp d d'" "\<not> b \<longrightarrow> d' = d" by simp_all
qed

lemma try_single_use_Inr:
  assumes "try_single_use env ac ctx t u code fs d = (Inr (Some m), d')" "set fs \<subseteq> set single_use_factors"
  shows "factor_spent env ac u code m d d' \<and> m \<in> snd ` set fs"
  using assms
proof (induction fs)
  case (Cons f fs)
  obtain ty k where f: "f = (ty, k)" by (cases f)
  from Cons.prems(1) obtain b d1 where b: "consume_single_use_code env ac u ty code (ac_code_now ac) d = (Inr b, d1)"
    and n: "(if b then bindE (audit_record env ctx ''recovery_code.used'' AuditSuccess (Some t) (Some u) None
                   (Some (''type='' @ enum_as_str authenticator_type_table ty))) (\<lambda>_. retE (Some k))
          else try_single_use env ac ctx t u code fs) d1 = (Inr (Some m), d')"
    by (auto simp: f bindE_Inr_iff)
  note c = consume_code_rows [OF b]
  show ?case
  proof (cases b)
    case True
    with n have "same_data d1 d'" "m = k" by (auto simp: bindE_Inr_iff dest!: audit_record_same)
    then have "db_authenticators d' = db_authenticators d1" using same_data_fields by blast
    with c(1) True Cons.prems(2) show ?thesis
      by (auto simp: f \<open>m = k\<close> factor_spent_def single_use_accepted_def)
  next
    case False
    then show ?thesis using Cons n c(2) by auto
  qed
qed simp

lemma verify_second_factor_Inr:
  assumes "verify_second_factor env ac ctx t u code d = (Inr (Some m), d')"
  shows "factor_spent env ac u code m d d' \<and> is_second_factor m \<and> m \<noteq> WebAuthn"
proof -
  from assms obtain b d1 where b: "try_totp env ac u code
      (list_ex is_blocked (filter (\<lambda>a. ua_type a = AtTotp) (authn_list_for_user u (db_authenticators d)))) d = (Inr b, d1)"
    and n: "(if b then retE (Some Totp) else try_single_use env ac ctx t u code single_use_factors) d1 = (Inr (Some m), d')"
    by (auto simp: verify_second_factor_def bindE_Inr_iff is_blocked_in_registry_def repo_authn_list_def)
  note c = try_totp_Inr [OF b refl]
  show ?thesis
  proof (cases b)
    case False
    with n c(2) try_single_use_Inr [of env ac ctx t u code single_use_factors d m d'] show ?thesis
      by (auto simp: single_use_factors_def is_second_factor_def)
  qed (use n c(1) in \<open>auto simp: is_second_factor_def\<close>)
qed

definition policy_view :: "db \<Rightarrow> authentication_policy list \<times> application list \<times> application_binding list \<times> client list" where
  "policy_view d = (db_policies d, db_applications d, db_bindings d, db_clients d)"

lemma policy_admits_view: "policy_view d' = policy_view d \<Longrightarrow> policy_admits env fl ctx t q u ms d' = policy_admits env fl ctx t q u ms d"
  by (simp add: policy_view_def policy_admits_def)

lemma log_free_policy_view [simp]: "log_free policy_view"
  by (simp add: log_free_def policy_view_def)

lemma keeps_second_factor:
  assumes "\<And>d rows. f (d\<lparr>db_authenticators := rows\<rparr>) = f d" "log_free f"
  shows "keeps f (verify_second_factor env ac ctx t u code)"
proof -
  have c: "keeps f (consume_single_use_code env ac u ty code now)" for ty now
    unfolding consume_single_use_code_def Let_def repo_authn_consume_def
    by (auto intro!: action_inv keeps_stateE simp: assms(1) split: prod.splits)
  have s: "keeps f (try_single_use env ac ctx t u code fs)" for fs
    by (induction fs) (auto intro!: keeps_bindE keeps_mapErrE c keeps_if keeps_audit keeps_retE assms(2))
  have "keeps f (repo_totp_record_step env u step at)" for step at
    unfolding repo_totp_record_step_def by (auto intro!: keeps_db_call keeps_stateE simp: assms(1) split: prod.splits)
  then have "keeps f (try_totp env ac u code blocked)" for blocked
    unfolding try_totp_def
    by (intro keeps_bindE keeps_mapErrE reads_account keeps_case_option keeps_retE keeps_if keeps_liftR)
  with s show ?thesis
    unfolding verify_second_factor_def by (intro keeps_bindE keeps_mapErrE keeps_blocked keeps_if keeps_retE)
qed

lemma keeps_finish_sign_in:
  assumes "account_view f" "\<And>d rows. f (d\<lparr>db_sso := rows\<rparr>) = f d" "gate_keeps fl f"
  shows "keeps f (finish_sign_in env fl ctx t session u methods)"
proof -
  have "keeps f (repo_sso_create env s)" for s
    unfolding repo_sso_create_def by (auto intro!: keeps_db_call keeps_tryStateE simp: rbind_Inr_iff assms(2))
  then have "keeps f (establish_sso_with_binding env fl si b ctx now)" for si b now
    unfolding establish_sso_with_binding_def
    by (intro keeps_bindE keeps_admit assms(3))
      (auto split: admission.splits prod.splits simp: Let_def
        intro!: keeps_bindE keeps_liftR keeps_retE keeps_audit account_view_log assms(1))
  then show ?thesis
    unfolding finish_sign_in_def establish_sso_def
    by (intro keeps_bindE) (auto split: establishment.splits intro!: keeps_bindE keeps_retE keeps_continue_authorization assms(1))
qed

lemma mfa_complete_signs_in:
  assumes r: "mfa_complete env fl ctx t session u m d = (r, d')" and c: "db_sso d' \<noteq> db_sso d"
    and g: "gate_keeps fl db_sso" "gate_keeps fl db_authenticators" and m: "is_second_factor m" "m \<noteq> WebAuthn"
  shows "policy_admits env fl ctx t (as_request session) (u_id u) [Password, m] d \<and> db_authenticators d' = db_authenticators d
     \<and> (\<exists>s. db_sso d' = db_sso d @ [s] \<and> fresh_session env fl (u_id u) [Password, m] s)"
proof -
  let ?refused = "\<lambda>reason. bindE (record_failure env ctx ''login.failed'' t (Some (u_id u)) (session_client_id session) reason)
      (\<lambda>_. retE MfaPolicyDenied) :: (db, mfa_login_outcome exit, mfa_login_outcome) action"
  let ?sign_in = "bindE (internal MfaInternal (reset_failures env u)) (\<lambda>_.
      bindE (internal MfaInternal (finish_sign_in env fl ctx t session u [Password, m])) (\<lambda>s. retE (mfa_continued u s)))"
  have refused: False if "?refused reason d = (r, d')" for reason
    using that c by (rule sso_kept) (simp add: keeps_bindE keeps_record_failure keeps_retE)
  have keep: "keeps db_authenticators ?sign_in"
    by (intro keeps_bindE keeps_internal keeps_reset_failures keeps_retE keeps_finish_sign_in g(2)) simp_all
  have adds: "adds_session (fresh_session env fl (u_id u) [Password, m]) ?sign_in"
    by (intro adds_keeps_bind [OF keeps_internal [OF keeps_reset_failures]]
        adds_bind_keeps [OF adds_internal [OF finish_sign_in_adds [OF g(1)]] keeps_retE]) simp
  obtain dec where dec: "session_policy env fl ctx t session (u_id u) d = (Inr dec, d)"
    and r1: "(case dec of DenyDecision code \<Rightarrow> ?refused ''policy_denied''
         | _ \<Rightarrow> case unmet_method_requirement dec [Password, m] False of
             Some unmet \<Rightarrow> ?refused ''method_required'' | None \<Rightarrow> ?sign_in) d = (r, d')"
    using r [unfolded mfa_complete_def Let_def] keeps_session_policy c by (rule internal_read_then)
  have "from_methods [Password, m] = MultiFactor" using m(1) by (auto simp: from_methods_MultiFactor_iff)
  with r1 have "meets_decision dec [Password, m] False" and s: "?sign_in d = (r, d')"
    by (cases dec; auto dest: refused split: option.splits)+
  then have "policy_admits env fl ctx t (as_request session) (u_id u) [Password, m] d"
    using session_policy_Inr [OF dec, of "[Password, m]"] m(2) by simp
  with adds_sessionD [OF adds s c] keepsD [OF keep s] show ?thesis by blast
qed

lemma keeps_totp_failure: "keeps db_sso (handle_totp_failure env ac ctx t u i now)"
  unfolding handle_totp_failure_def by (intro action_inv) simp_all

lemma user_find_by_id_id: "user_find_by_id i rows = Some u \<Longrightarrow> u_id u = i"
  unfolding user_find_by_id_def by (drule find_Some_mem) simp

lemma mfa_check_signs_in:
  assumes r: "mfa_check env fl ac ctx t cmd session uid d = (r, d')" and c: "db_sso d' \<noteq> db_sso d"
    and g: "gate_keeps fl db_sso" "gate_keeps fl db_authenticators"
  shows "\<exists>u m s. user_find_by_id uid (db_users d) = Some u \<and> u_id u = uid \<and> \<not> is_locked_at u (fl_now fl) \<and> user_is_active u
     \<and> factor_spent env ac uid (mf_totp_code cmd) m d d' \<and> policy_admits env fl ctx t (as_request session) uid [Password, m] d
     \<and> is_second_factor m \<and> db_sso d' = db_sso d @ [s] \<and> fresh_session env fl uid [Password, m] s"
proof -
  obtain found where f: "repo_user_find env uid d = (Inr found, d)"
    and r1: "(case found of None \<Rightarrow> retE MfaSessionExpired
      | Some u \<Rightarrow>
        if is_locked_at u (fl_now fl)
        then bindE (record_failure env ctx ''login.locked'' t (Some (u_id u)) (session_client_id session) ''account_locked'') (\<lambda>_. retE MfaLocked)
        else if \<not> user_is_active u then retE (MfaInternal ''user not active'')
        else
        bindE (mapErrE (\<lambda>e. Return (MfaInternal e)) (verify_second_factor env ac ctx t uid (mf_totp_code cmd))) (\<lambda>factor.
        case factor of None \<Rightarrow> handle_totp_failure env ac ctx t u (session_client_id session) (fl_now fl)
        | Some second_factor \<Rightarrow> mfa_complete env fl ctx t session u second_factor)) d = (r, d')"
    using r [unfolded mfa_check_def Let_def] keeps_queries(2) c by (rule internal_read_then)
  have refused: False if "bindE (record_failure env ctx e t v i reason) (\<lambda>_. retE (out :: mfa_login_outcome)) d = (r, d')" for e v i reason out
    using that c by (rule sso_kept) (simp add: keeps_bindE keeps_record_failure keeps_retE)
  from r1 c obtain u where u: "found = Some u" by (cases found) auto
  have i: "user_find_by_id uid (db_users d) = Some u" using f u by (simp add: repo_user_find_def)
  from r1 u have l: "\<not> is_locked_at u (fl_now fl)" "user_is_active u" using c by (auto dest: refused split: if_splits)
  with r1 u have "bindE (mapErrE (\<lambda>e. Return (MfaInternal e)) (verify_second_factor env ac ctx t uid (mf_totp_code cmd))) (\<lambda>factor.
        case factor of None \<Rightarrow> handle_totp_failure env ac ctx t u (session_client_id session) (fl_now fl)
        | Some second_factor \<Rightarrow> mfa_complete env fl ctx t session u second_factor) d = (r, d')" by simp
  moreover have "keeps db_sso (mapErrE (\<lambda>e. Return (MfaInternal e) :: mfa_login_outcome exit) (verify_second_factor env ac ctx t uid (mf_totp_code cmd)))"
    by (intro keeps_mapErrE keeps_second_factor) simp_all
  ultimately obtain factor d1 where v: "mapErrE (\<lambda>e. Return (MfaInternal e)) (verify_second_factor env ac ctx t uid (mf_totp_code cmd)) d = (Inr factor, d1)"
    and r2: "(case factor of None \<Rightarrow> handle_totp_failure env ac ctx t u (session_client_id session) (fl_now fl)
        | Some second_factor \<Rightarrow> mfa_complete env fl ctx t session u second_factor) d1 = (r, d')"
    and c1: "db_sso d1 = db_sso d" "db_sso d' \<noteq> db_sso d1"
    using c by (rule bindE_changes)
  from r2 obtain m where m: "factor = Some m"
    by (cases factor) (auto dest: sso_kept [OF _ c1(2) keeps_totp_failure])
  then have v: "verify_second_factor env ac ctx t uid (mf_totp_code cmd) d = (Inr (Some m), d1)" using v by simp
  note sf = verify_second_factor_Inr [OF v]
  have "policy_view d1 = policy_view d"
    by (rule keepsD [OF keeps_second_factor v]) (simp_all add: policy_view_def log_free_def)
  moreover have "mfa_complete env fl ctx t session u m d1 = (r, d')" using r2 m by simp
  note mc = mfa_complete_signs_in [OF this c1(2) g conjunct1 [OF conjunct2 [OF sf]] conjunct2 [OF conjunct2 [OF sf]]]
  ultimately show ?thesis
    using i l sf mc c1(1) user_find_by_id_id [OF i] policy_admits_view [of d1 d] factor_spent_view [of d d d1 d']
    by auto
qed

text \<open>
  (C16) Whenever the second step creates a single sign-on session, the cookie names a live authorization session whose
  password was verified for that user, the form carries its token, the address is within its limit, the account is neither
  locked nor inactive, the code is a second factor of the user that was usable and is used up afterwards, and the policies
  of the tenant admit the password with that factor; the session added is that user's, multi-factor, with these two methods.
\<close>

theorem mfa_session_sound:
  assumes "mfa_verify env fl ac ctx t cmd d = (r, d')" and c: "db_sso d' \<noteq> db_sso d"
    and g: "gate_keeps fl db_sso" "gate_keeps fl db_authenticators"
  shows "\<exists>session u m s. form_session env fl ac t (mf_auth_session_id cmd) (mf_csrf_token cmd) d session \<and> within_limit fl ac ctx d
     \<and> password_verified_user session = Some (u_id u) \<and> user_find_by_id (u_id u) (db_users d) = Some u
     \<and> \<not> is_locked_at u (fl_now fl) \<and> user_is_active u \<and> factor_spent env ac (u_id u) (mf_totp_code cmd) m d d'
     \<and> policy_admits env fl ctx t (as_request session) (u_id u) [Password, m] d
     \<and> db_sso d' = db_sso d @ [s] \<and> fresh_session env fl (u_id u) [Password, m] s \<and> ss_authentication_strength s = MultiFactor"
proof -
  have refused: False if "bindE (record_failure env ctx e t v i reason) (\<lambda>_. retE (out :: mfa_login_outcome)) d1 = (r, d')"
    "db_sso d' \<noteq> db_sso d1" for e v i reason out d1
    using that by (rule sso_kept) (simp add: keeps_bindE keeps_record_failure keeps_retE)
  obtain found d1 where p: "internal MfaInternal (pending_session env fl t (mf_auth_session_id cmd)) d = (Inr found, d1)"
    and r1: "(case found of None \<Rightarrow> retE MfaSessionExpired
     | Some (session_id, session) \<Rightarrow>
     case password_verified_user session of None \<Rightarrow> retE MfaSessionExpired
     | Some user_id \<Rightarrow>
       if \<not> csrf_verify (login_csrf_token ac session_id) (mf_csrf_token cmd) then retE MfaCsrfMismatch
       else
       bindE (rate_check ac ctx (fl_now fl)) (\<lambda>within.
       if \<not> within
       then bindE (record_failure env ctx ''login.failed'' t None (session_client_id session) ''ip_rate_limited'') (\<lambda>_. retE MfaRateLimited)
       else mfa_check env fl ac ctx t cmd session user_id)) d1 = (r, d')" and c1: "db_sso d1 = db_sso d" "db_sso d' \<noteq> db_sso d1"
    using assms(1) [unfolded mfa_verify_def] keeps_internal [OF keeps_pending_view [OF account_view_fields(1)]] c by (rule bindE_changes)
  from r1 c1(2) obtain sid session where f: "found = Some (sid, session)" by (cases found) auto
  note s = pending_session_Some [OF p [unfolded internal_Inr f]]
  from s have d1: "d1 = d" by simp
  from r1 c1(2) obtain uid where u: "password_verified_user session = Some uid" by (cases "password_verified_user session") (auto simp: f)
  from r1 u c1(2) have t: "mf_csrf_token cmd = login_csrf_token ac sid" by (auto simp: f split: if_splits)
  with r1 have "bindE (rate_check ac ctx (fl_now fl)) (\<lambda>within.
        if \<not> within
        then bindE (record_failure env ctx ''login.failed'' t None (session_client_id session) ''ip_rate_limited'') (\<lambda>_. retE MfaRateLimited)
        else mfa_check env fl ac ctx t cmd session uid) d = (r, d')" by (simp add: f d1 u)
  moreover have "keeps db_sso (rate_check ac ctx (fl_now fl) :: (db, mfa_login_outcome exit, bool) action)" by (rule keeps_rate_check) simp
  ultimately obtain within d2 where w: "rate_check ac ctx (fl_now fl) d = ((Inr within :: mfa_login_outcome exit + bool), d2)"
    and r2: "(if \<not> within
        then bindE (record_failure env ctx ''login.failed'' t None (session_client_id session) ''ip_rate_limited'') (\<lambda>_. retE MfaRateLimited)
        else mfa_check env fl ac ctx t cmd session uid) d2 = (r, d')" and c2: "db_sso d2 = db_sso d" "db_sso d' \<noteq> db_sso d2"
    using c by (rule bindE_changes)
  have "within" using r2 refused [OF _ c2(2)] by (auto split: if_splits)
  with w r2 have w: "within_limit fl ac ctx d" and "\<exists>m. d2 = d\<lparr>db_attempts := m\<rparr>" and r3: "mfa_check env fl ac ctx t cmd session uid d2 = (r, d')"
    using rate_check_Inr [of ac ctx fl d d2, where 'a = "mfa_login_outcome exit"] by auto
  then obtain rows where d2: "d2 = d\<lparr>db_attempts := rows\<rparr>" by blast
  have fs: "form_session env fl ac t (mf_auth_session_id cmd) (mf_csrf_token cmd) d session"
    using s t by (auto simp: form_session_def)
  from mfa_check_signs_in [OF r3 c2(2) g] obtain v m ss where m: "user_find_by_id uid (db_users d) = Some v" "u_id v = uid"
    "\<not> is_locked_at v (fl_now fl)" "user_is_active v" "factor_spent env ac uid (mf_totp_code cmd) m d2 d'"
    "policy_admits env fl ctx t (as_request session) uid [Password, m] d" "is_second_factor m"
    "db_sso d' = db_sso d @ [ss]" "fresh_session env fl uid [Password, m] ss"
    by (auto simp: d2)
  have "factor_spent env ac uid (mf_totp_code cmd) m d d'" using m(5) factor_spent_view [of d2 d d' d'] by (simp add: d2)
  moreover have "ss_authentication_strength ss = MultiFactor"
    using m(7,9) by (auto simp: fresh_session_def from_methods_MultiFactor_iff)
  ultimately show ?thesis using fs w u m by metis
qed

end
