(* ===== verification/Password_Change.thy ===== *)
theory Password_Change
  imports Login_Flow
begin

text \<open>
  The forced change of the password: what stands behind the session it creates, and which passwords it refuses as used
  before.
\<close>

section \<open>The new password\<close>

lemma keeps_store_new_password:
  assumes "log_free f" "\<And>d rows. f (d\<lparr>db_users := rows\<rparr>) = f d" "\<And>d h. f (d\<lparr>db_password_history := h\<rparr>) = f d"
  shows "keeps f (store_new_password env ac ctx t i u pw)"
proof -
  have "keeps f (repo_update_password env v e n)" for v e n
    unfolding repo_update_password_def by (auto intro!: keeps_db_call keeps_stateE simp: assms(2) split: prod.splits)
  moreover have "keeps f (repo_history_push env v h at n)" for v h at n
    unfolding repo_history_push_def by (intro keeps_db_call keeps_modifyE assms(3))
  then have "keeps f (record_password_change env ac hm v h :: (db, change_password_outcome exit, unit) action)" for hm v h
    unfolding record_password_change_def by (auto split: sum.splits intro!: keeps_retE keeps_bindE keeps_tryE)
  ultimately show ?thesis
    unfolding store_new_password_def
    by (intro keeps_bindE keeps_internal keeps_password_checks keeps_case_sum keeps_failE keeps_liftR keeps_if keeps_audit assms(1))
qed

text \<open>The row of \<open>u\<close> with the new hash.\<close>

definition renewed :: "env \<Rightarrow> user \<Rightarrow> string \<Rightarrow> user" where
  "renewed env u h = u\<lparr>u_password_hash := h, u_must_change_password := False, u_password_changed_at := Some (e_db_now env)\<rparr>"

lemma user_update_password_find:
  assumes "user_find_by_id i rows = Some u"
  shows "user_find_by_id i (snd (user_update_password ci at i (u_password_hash u) h rows))
     = Some (u\<lparr>u_password_hash := h, u_must_change_password := False, u_password_changed_at := Some at\<rparr>)"
  using assms
  by (induction rows) (auto simp: user_find_by_id_def user_update_password_def Let_def split: if_splits)

lemma store_new_password_Inr:
  assumes "store_new_password env ac ctx t i u pw d = (Inr x, d')" "user_find_by_id (u_id u) (db_users d) = Some u"
  shows "\<exists>p h. ac_password_policy ac (u_tenant_id u) = Inr p \<and> pp_min_length p \<le> length pw \<and> length pw \<le> pp_max_length p
     \<and> ac_hash ac pw = Inr h \<and> user_find_by_id (u_id u) (db_users d') = Some (renewed env u h)"
proof -
  from assms(1) obtain valid d1 where v0: "password_validate env ac (u_tenant_id u) (Some (u_id u)) (Some (u_password_hash u)) pw d = (Inr valid, d1)"
    and n: "(case valid of Inl rejection \<Rightarrow> failE (Return (ChangeWeakPassword rejection))
     | Inr _ \<Rightarrow>
       bindE (internal ChangeInternal (liftR (ac_hash ac pw))) (\<lambda>new_hash.
       bindE (internal ChangeInternal (repo_update_password env (u_id u) (u_password_hash u) new_hash)) (\<lambda>won.
       if \<not> won then failE (Return ChangeInvalidCurrentPassword)
       else
       bindE (record_password_change env ac (u_tenant_id u) (u_id u) (u_password_hash u)) (\<lambda>_.
       audit_record env ctx ''password.changed'' AuditSuccess (Some t) (Some (u_id u)) (Some i) None)))) d1 = (Inr x, d')"
    by (auto simp: store_new_password_def bindE_Inr_iff)
  from n obtain y where y: "valid = Inr y" by (cases valid) auto
  with v0 have v: "password_validate env ac (u_tenant_id u) (Some (u_id u)) (Some (u_password_hash u)) pw d = (Inr (Inr ()), d1)" by simp
  from n obtain h d2 d3 where h: "Inr h = ac_hash ac pw" and w: "repo_update_password env (u_id u) (u_password_hash u) h d1 = (Inr True, d2)"
    and rc: "record_password_change env ac (u_tenant_id u) (u_id u) (u_password_hash u) d2 = (Inr () :: change_password_outcome exit + unit, d3)"
    and au: "audit_record env ctx ''password.changed'' AuditSuccess (Some t) (Some (u_id u)) (Some i) None d3 = (Inr x :: change_password_outcome exit + unit, d')"
    by (auto simp: y bindE_Inr_iff split: if_splits)
  have d1: "d1 = d" using v by (rule keepsD [OF keeps_password_checks(3), where f = "\<lambda>s. s"])
  have d2: "db_users d2 = snd (user_update_password (e_ci env) (e_db_now env) (u_id u) (u_password_hash u) h (db_users d))"
    using w d1 by (auto simp: repo_update_password_def split: prod.splits)
  have "keeps db_users (repo_history_push env v k at n)" for v k at n
    unfolding repo_history_push_def by (intro keeps_db_call keeps_modifyE) simp
  then have "keeps db_users (record_password_change env ac hm v k :: (db, change_password_outcome exit, unit) action)" for hm v k
    unfolding record_password_change_def by (auto split: sum.splits intro!: keeps_retE keeps_bindE keeps_tryE)
  then have "db_users d3 = db_users d2" using rc keepsD by metis
  moreover have "db_users d' = db_users d3" using audit_record_same [OF au] same_data_fields by metis
  ultimately have "user_find_by_id (u_id u) (db_users d') = Some (renewed env u h)"
    using user_update_password_find [OF assms(2)] by (simp add: d2 renewed_def)
  moreover from v obtain p where "ac_password_policy ac (u_tenant_id u) = Inr p" "pp_min_length p \<le> length pw" "length pw \<le> pp_max_length p"
    by (cases "ac_password_policy ac (u_tenant_id u)")
      (auto simp: password_validate_def check_input_def bindE_Inr_iff split: sum.splits if_splits)
  ultimately show ?thesis using h by metis
qed

section \<open>The session\<close>

lemma after_change_signs_in:
  assumes r: "after_change env fl ctx t sid session u d = (r, d')" and c: "db_sso d' \<noteq> db_sso d"
    and g: "gate_keeps fl db_sso" "gate_keeps fl db_users"
  shows "policy_admits env fl ctx t (as_request session) (u_id u) [Password] d \<and> db_users d' = db_users d
     \<and> (\<exists>s. db_sso d' = db_sso d @ [s] \<and> fresh_session env fl (u_id u) [Password] s)"
proof -
  let ?denied = "\<lambda>reason out. bindE (record_failure env ctx ''login.policy_denied'' t (Some (u_id u)) (session_client_id session) reason)
      (\<lambda>_. retE out) :: (db, change_password_outcome exit, change_password_outcome) action"
  let ?sign_in = "bindE (internal ChangeInternal (finish_sign_in env fl ctx t session u [Password])) (\<lambda>s. retE (change_continued s))"
  let ?step = "\<lambda>b reason out. bindE (internal ChangeInternal (user_has_confirmed_totp env (u_id u))) (\<lambda>has_totp.
      if has_totp \<and> b then retE (ChangeMfaRequired sid) else ?denied reason out)"
  have denied: False if "?denied reason out d = (r, d')" for reason out
    using that c by (rule sso_kept) (simp add: keeps_bindE keeps_record_failure keeps_retE)
  have step: False if "?step b reason out d = (r, d')" for b reason out
    using that c by (rule sso_kept) (simp add: keeps_bindE keeps_internal keeps_confirmed_totp keeps_if keeps_record_failure keeps_retE)
  obtain dec where dec: "session_policy env fl ctx t session (u_id u) d = (Inr dec, d)"
    and r1: "(case dec of
           DenyDecision code \<Rightarrow> ?denied (''policy='' @ code) ChangePolicyDenied
         | RequireMfaDecision code \<Rightarrow>
             bindE (internal ChangeInternal (user_has_confirmed_totp env (u_id u))) (\<lambda>has_totp.
             if has_totp then retE (ChangeMfaRequired sid)
             else ?denied (''policy='' @ code @ '' reason=mfa_not_enrolled'') ChangeMfaEnrollmentRequired)
         | RequireMethodsDecision _ \<Rightarrow>
             (case unmet_method_requirement dec [Password] False of
                None \<Rightarrow> ?sign_in
              | Some unmet \<Rightarrow> ?step (satisfied_by_adding dec [Password] Totp False) (method_required_reason unmet) ChangePolicyDenied)
         | AllowDecision _ \<Rightarrow> ?sign_in) d = (r, d')"
    using r [unfolded after_change_def Let_def] keeps_session_policy c by (rule internal_read_then)
  have "meets_decision dec [Password] False" and s: "?sign_in d = (r, d')"
    using r1 step [of True] by (cases dec; auto dest: denied step split: option.splits)+
  then have "policy_admits env fl ctx t (as_request session) (u_id u) [Password] d"
    using session_policy_Inr [OF dec, of "[Password]"] by simp
  moreover have a: "adds_session (fresh_session env fl (u_id u) [Password]) ?sign_in"
    by (intro adds_bind_keeps [OF adds_internal [OF finish_sign_in_adds [OF g(1)]] keeps_retE])
  moreover have k: "keeps db_users ?sign_in"
    by (intro keeps_bindE keeps_internal keeps_retE keeps_finish_sign_in g(2)) simp_all
  ultimately show ?thesis using adds_sessionD [OF a s c] keepsD [OF k s] by blast
qed

lemma change_check_signs_in:
  assumes r: "change_check env fl ac ctx t cmd sid session uid d = (r, d')" and c: "db_sso d' \<noteq> db_sso d"
    and g: "gate_keeps fl db_sso" "gate_keeps fl db_users"
  shows "\<exists>u p h s. user_find_by_id uid (db_users d) = Some u \<and> u_id u = uid \<and> user_is_active u
     \<and> ac_password_policy ac (u_tenant_id u) = Inr p \<and> password_change_required u p (fl_now fl) = Some True
     \<and> ac_verify ac (cp_current_password cmd) (u_password_hash u) = Inr True
     \<and> pp_min_length p \<le> length (cp_new_password cmd) \<and> length (cp_new_password cmd) \<le> pp_max_length p
     \<and> ac_hash ac (cp_new_password cmd) = Inr h \<and> user_find_by_id uid (db_users d') = Some (renewed env u h)
     \<and> policy_admits env fl ctx t (as_request session) uid [Password] d
     \<and> db_sso d' = db_sso d @ [s] \<and> fresh_session env fl uid [Password] s"
proof -
  obtain found where f: "repo_user_find env uid d = (Inr found, d)"
    and r1: "(case found of None \<Rightarrow> retE ChangeSessionExpired
      | Some u \<Rightarrow>
        bindE (internal ChangeInternal (liftR (ac_password_policy ac (u_tenant_id u)))) (\<lambda>policy.
        bindE (if \<not> user_is_active u then retE False else unwrap_panic (password_change_required u policy (fl_now fl))) (\<lambda>awaits_change.
        if \<not> awaits_change then retE ChangeSessionExpired
        else
        bindE (internal ChangeInternal (liftR (ac_verify ac (cp_current_password cmd) (u_password_hash u)))) (\<lambda>verified.
        if \<not> verified
        then bindE (record_failure env ctx ''login.failed'' t (Some (u_id u)) (session_client_id session) ''invalid_current_password'') (\<lambda>_.
             retE ChangeInvalidCurrentPassword)
        else
        bindE (store_new_password env ac ctx t (session_client_id session) u (cp_new_password cmd)) (\<lambda>_.
        after_change env fl ctx t sid session u))))) d = (r, d')"
    using r [unfolded change_check_def Let_def] keeps_queries(2) c by (rule internal_read_then)
  from r1 c obtain u where u: "found = Some u" by (cases found) auto
  have i: "user_find_by_id uid (db_users d) = Some u" using f u by (simp add: repo_user_find_def)
  note id = user_find_by_id_id [OF i]
  from r1 u obtain p where p: "ac_password_policy ac (u_tenant_id u) = Inr p"
    and r2: "bindE (if \<not> user_is_active u then retE False else unwrap_panic (password_change_required u p (fl_now fl))) (\<lambda>awaits_change.
        if \<not> awaits_change then retE ChangeSessionExpired
        else
        bindE (internal ChangeInternal (liftR (ac_verify ac (cp_current_password cmd) (u_password_hash u)))) (\<lambda>verified.
        if \<not> verified
        then bindE (record_failure env ctx ''login.failed'' t (Some (u_id u)) (session_client_id session) ''invalid_current_password'') (\<lambda>_.
             retE ChangeInvalidCurrentPassword)
        else
        bindE (store_new_password env ac ctx t (session_client_id session) u (cp_new_password cmd)) (\<lambda>_.
        after_change env fl ctx t sid session u))) d = (r, d')"
    using internal_lift_then [OF _ c] by (metis (no_types, lifting) option.case(2))
  have k: "keeps db_sso (store_new_password env ac ctx t (session_client_id session) u (cp_new_password cmd))"
    by (rule keeps_store_new_password) simp_all
  from r2 c k have active: "user_is_active u" and ch: "password_change_required u p (fl_now fl) = Some True"
    by (auto simp: bindE_def unwrap_panic_def retE_def failE_def split: if_splits option.splits)
  with r2 have "bindE (internal ChangeInternal (liftR (ac_verify ac (cp_current_password cmd) (u_password_hash u)))) (\<lambda>verified.
        if \<not> verified
        then bindE (record_failure env ctx ''login.failed'' t (Some (u_id u)) (session_client_id session) ''invalid_current_password'') (\<lambda>_.
             retE ChangeInvalidCurrentPassword)
        else
        bindE (store_new_password env ac ctx t (session_client_id session) u (cp_new_password cmd)) (\<lambda>_.
        after_change env fl ctx t sid session u)) d = (r, d')"
    by (simp add: bindE_def unwrap_panic_def retE_def)
  from this c obtain verified where v: "ac_verify ac (cp_current_password cmd) (u_password_hash u) = Inr verified"
    and r3: "(if \<not> verified
        then bindE (record_failure env ctx ''login.failed'' t (Some (u_id u)) (session_client_id session) ''invalid_current_password'') (\<lambda>_.
             retE ChangeInvalidCurrentPassword)
        else
        bindE (store_new_password env ac ctx t (session_client_id session) u (cp_new_password cmd)) (\<lambda>_.
        after_change env fl ctx t sid session u)) d = (r, d')"
    by (rule internal_lift_then)
  have "verified"
  proof (rule ccontr)
    assume "\<not> verified"
    with r3 have "bindE (record_failure env ctx ''login.failed'' t (Some (u_id u)) (session_client_id session) ''invalid_current_password'') (\<lambda>_.
             retE ChangeInvalidCurrentPassword) d = (r, d')" by simp
    from this c show False by (rule sso_kept) (simp add: keeps_bindE keeps_record_failure keeps_retE)
  qed
  with r3 have "bindE (store_new_password env ac ctx t (session_client_id session) u (cp_new_password cmd)) (\<lambda>_.
        after_change env fl ctx t sid session u) d = (r, d')" by simp
  from this k c obtain x d1 where st: "store_new_password env ac ctx t (session_client_id session) u (cp_new_password cmd) d = (Inr x, d1)"
    and a: "after_change env fl ctx t sid session u d1 = (r, d')" and c1: "db_sso d1 = db_sso d" "db_sso d' \<noteq> db_sso d1"
    by (rule bindE_changes)
  have pv: "policy_view d1 = policy_view d"
    by (rule keepsD [OF keeps_store_new_password st]) (simp_all add: policy_view_def log_free_def)
  note ac = after_change_signs_in [OF a c1(2) g]
  note sn = store_new_password_Inr [OF st i [folded id]]
  from sn p obtain h where "pp_min_length p \<le> length (cp_new_password cmd)" "length (cp_new_password cmd) \<le> pp_max_length p"
    "ac_hash ac (cp_new_password cmd) = Inr h" "user_find_by_id uid (db_users d1) = Some (renewed env u h)"
    by (auto simp: id)
  with ac i id active p ch v \<open>verified\<close> c1(1) policy_admits_view [OF pv] show ?thesis by auto
qed

text \<open>
  (C17) Whenever the forced change of the password creates a single sign-on session, the cookie names a live authorization
  session whose password was verified for that user and the form carries its token, the account is active and its password due
  for a change, the current password was given, the new one has a length the policy of the user's home tenant allows and is
  the one stored from then on, with the duty to change it cleared, and the policies of the tenant admit the password alone.
\<close>

theorem change_session_sound:
  assumes "change_password env fl ac ctx t cmd d = (r, d')" and c: "db_sso d' \<noteq> db_sso d"
    and g: "gate_keeps fl db_sso" "gate_keeps fl db_users"
  shows "\<exists>session u p h s. form_session env fl ac t (cp_auth_session_id cmd) (cp_csrf_token cmd) d session
     \<and> password_verified_user session = Some (u_id u) \<and> user_find_by_id (u_id u) (db_users d) = Some u \<and> user_is_active u
     \<and> ac_password_policy ac (u_tenant_id u) = Inr p \<and> password_change_required u p (fl_now fl) = Some True
     \<and> ac_verify ac (cp_current_password cmd) (u_password_hash u) = Inr True
     \<and> pp_min_length p \<le> length (cp_new_password cmd) \<and> length (cp_new_password cmd) \<le> pp_max_length p
     \<and> ac_hash ac (cp_new_password cmd) = Inr h \<and> user_find_by_id (u_id u) (db_users d') = Some (renewed env u h)
     \<and> policy_admits env fl ctx t (as_request session) (u_id u) [Password] d
     \<and> db_sso d' = db_sso d @ [s] \<and> fresh_session env fl (u_id u) [Password] s"
proof -
  have refused: False if "bindE (record_failure env ctx e t v i reason) (\<lambda>_. retE (out :: change_password_outcome)) d1 = (r, d')"
    "db_sso d' \<noteq> db_sso d1" for e v i reason out d1
    using that by (rule sso_kept) (simp add: keeps_bindE keeps_record_failure keeps_retE)
  obtain found d1 where p: "internal ChangeInternal (pending_session env fl t (cp_auth_session_id cmd)) d = (Inr found, d1)"
    and r1: "(case found of None \<Rightarrow> retE ChangeSessionExpired
     | Some (session_id, session) \<Rightarrow>
     case password_verified_user session of None \<Rightarrow> retE ChangeSessionExpired
     | Some user_id \<Rightarrow>
       if \<not> csrf_verify (login_csrf_token ac session_id) (cp_csrf_token cmd)
       then bindE (record_failure env ctx ''login.failed'' t (Some user_id) (session_client_id session) ''password_change_csrf_mismatch'')
              (\<lambda>_. retE ChangeCsrfMismatch)
       else change_check env fl ac ctx t cmd session_id session user_id) d1 = (r, d')" and c1: "db_sso d1 = db_sso d" "db_sso d' \<noteq> db_sso d1"
    using assms(1) [unfolded change_password_def] keeps_internal [OF keeps_pending_view [OF account_view_fields(1)]] c by (rule bindE_changes)
  from r1 c1(2) obtain sid session where f: "found = Some (sid, session)" by (cases found) auto
  note s = pending_session_Some [OF p [unfolded internal_Inr f]]
  from s have d1: "d1 = d" by simp
  from r1 c1(2) obtain uid where u: "password_verified_user session = Some uid" by (cases "password_verified_user session") (auto simp: f)
  from r1 u have t: "cp_csrf_token cmd = login_csrf_token ac sid" by (auto simp: f dest: refused [OF _ c1(2)] split: if_splits)
  with r1 have r2: "change_check env fl ac ctx t cmd sid session uid d = (r, d')" by (simp add: f d1 u)
  have "form_session env fl ac t (cp_auth_session_id cmd) (cp_csrf_token cmd) d session" using s t by (auto simp: form_session_def)
  with change_check_signs_in [OF r2 c g] u show ?thesis by blast
qed

section \<open>Passwords used before\<close>

text \<open>A history of retired hashes, each with its user and time.\<close>

definition retire :: "nat \<Rightarrow> (uuid \<times> string \<times> instant) list \<Rightarrow> password_history \<Rightarrow> password_history" where
  "retire n es t = foldl (\<lambda>t (u, h, at). history_push u h at n t) t es"

definition hashes_of :: "uuid \<Rightarrow> (uuid \<times> string \<times> instant) list \<Rightarrow> string list" where
  "hashes_of u es = map (\<lambda>(v, h, at). h) (filter (\<lambda>(v, h, at). v = u) es)"

definition no_history :: password_history where
  "no_history = \<lparr>ph_next_id = 0, ph_rows = []\<rparr>"

lemma retire_snoc: "retire n (es @ [(u, h, at)]) t = history_push u h at n (retire n es t)"
  by (simp add: retire_def)

lemma history_push_rows: "r \<in> set (ph_rows (history_push u h at n t)) \<Longrightarrow> r \<in> set (ph_rows t) \<or> rp_retired_at r = at"
  by (auto simp: history_push_def Let_def split: if_splits)

lemma retire_inv:
  "history_inv (retire n es no_history) \<and> (\<forall>r \<in> set (ph_rows (retire n es no_history)). \<exists>(u, h, at) \<in> set es. rp_retired_at r = at)"
proof (induction es rule: rev_induct)
  case Nil
  then show ?case by (simp add: retire_def no_history_def history_inv_def)
next
  case (snoc e es)
  obtain u h at where e: "e = (u, h, at)" by (cases e)
  show ?case using snoc.IH unfolding e retire_snoc by (auto intro: history_push_inv dest!: history_push_rows)
qed

lemma take_Cons_cong: "take n xs = take n ys \<Longrightarrow> take n (x # xs) = take n (x # ys)"
proof (cases n)
  case (Suc k)
  assume "take n xs = take n ys"
  then have "take k (take n xs) = take k (take n ys)" by simp
  then show ?thesis by (simp add: Suc min_def)
qed simp

lemma retire_hashes:
  assumes "sorted (map (\<lambda>(u, h, at). at) es)"
  shows "take n (map rp_password_hash (retired_newest u (ph_rows (retire n es no_history)))) = take n (rev (hashes_of u es))"
  using assms
proof (induction es rule: rev_induct)
  case Nil
  then show ?case by (simp add: retire_def no_history_def hashes_of_def retired_newest_def)
next
  case (snoc e es)
  obtain v h at where e: "e = (v, h, at)" by (cases e)
  let ?t = "retire n es no_history"
  have IH: "take n (map rp_password_hash (retired_newest u (ph_rows ?t))) = take n (rev (hashes_of u es))"
    using snoc by (simp add: sorted_append)
  show ?case
  proof (cases "v = u")
    case False
    then show ?thesis using IH by (simp add: e retire_snoc history_push_other hashes_of_def)
  next
    case True
    have "\<forall>r \<in> set (ph_rows ?t). rp_user_id r = u \<longrightarrow> rp_retired_at r \<le> at"
      using retire_inv [of n es] snoc.prems by (fastforce simp: e sorted_append)
    then have "map rp_password_hash (retired_newest u (ph_rows (history_push u h at n ?t)))
        = take n (h # map rp_password_hash (retired_newest u (ph_rows ?t)))"
      using history_push_newest [OF conjunct1 [OF retire_inv [of n es]], of u at h n] by (simp add: take_map [symmetric])
    then show ?thesis using take_Cons_cong [OF IH, of h] by (simp add: e True retire_snoc hashes_of_def)
  qed
qed

lemma matches_retired_total:
  assumes "\<forall>h. \<exists>b. ac_verify ac pw h = Inr b"
  shows "matches_retired ac pw hs d = (Inr (\<exists>h \<in> set hs. ac_verify ac pw h = Inr True), d)"
proof (induction hs)
  case (Cons h hs)
  obtain b where "ac_verify ac pw h = Inr b" using assms by blast
  then show ?case using Cons by (cases b) (simp_all add: bindE_def liftR_def)
qed simp

text \<open>
  (C18) The check against passwords used before looks at exactly the newest \<open>history_count\<close> of them: after any
  interleaving of password changes of all users that each recorded and pruned the history as the service does, a
  new password is refused as reused if and only if it matches the current hash or one of the user's last
  \<open>history_count - 1\<close> retired ones.
\<close>

theorem password_reuse_exact:
  assumes "\<forall>h. \<exists>b. ac_verify ac pw h = Inr b" "e_fault env ''password_history.recent'' = None" "checks_history p"
    and "db_password_history d = retire (retained_history_len p) es no_history" "sorted (map (\<lambda>(u, h, at). at) es)"
  shows "check_reuse env ac p (Some u) (Some current) pw d =
     (Inr (if \<exists>h \<in> set (take (unat (pp_history_count p)) (current # rev (hashes_of u es))). ac_verify ac pw h = Inr True
           then Inl Reused else Inr ()), d)"
proof -
  let ?n = "retired_hashes_to_check p"
  have "pp_history_count p \<noteq> 0" using assms(3) by (auto simp: checks_history_def)
  then have "0 < unat (pp_history_count p)" by (simp add: unat_gt_0)
  then have n: "unat (pp_history_count p) = Suc ?n" by (simp add: retired_hashes_to_check_def)
  have h: "history_recent u ?n (db_password_history d) = take ?n (rev (hashes_of u es))"
    using retire_hashes [OF assms(5), of ?n u] by (simp add: history_recent_take assms(4) retained_history_len_def take_map)
  obtain b where b: "ac_verify ac pw current = Inr b" using assms(1) by blast
  show ?thesis
  proof (cases "b \<or> ?n = 0")
    case True
    then show ?thesis using b assms(3) by (auto simp: check_reuse_def bindE_def liftR_def retE_def n)
  next
    case False
    then have "repo_history_recent env u ?n d = (Inr (take ?n (rev (hashes_of u es))), d)"
      using assms(2) h by (simp add: repo_history_recent_def db_query_def db_call_def getsE_def)
    then show ?thesis
      using False b assms(3) by (simp add: check_reuse_def bindE_def liftR_def retE_def n matches_retired_total [OF assms(1)])
  qed
qed

end
