(* ===== verification/Sign_In_Tokens.thy ===== *)
theory Sign_In_Tokens
  imports Password_Change Authorize_Lifecycle
begin

text \<open>
  From a fresh sign-in to the tokens: the end that the three sign-in services share (\<open>establish_sso\<close>, then
  \<open>continue_authorization\<close>, in \<open>application/sign_in_completion.rs\<close>) composed with the exchange of the code it issues.
\<close>

lemma keeps_establish_sso:
  assumes "side_free f" "gate_keeps fl f"
  shows "keeps f (establish_sso env fl si ctx now)"
proof -
  have l: "log_free f" using assms(1) by (simp add: side_free_def)
  show ?thesis
    unfolding establish_sso_def establish_sso_with_binding_def Let_def
    by (intro keeps_bindE keeps_admit assms(2))
      (auto split: admission.splits prod.splits intro!: action_inv keeps_sessions(5) assms(1) l)
qed

text \<open>The session that was established is the one of the user, with the methods that were verified.\<close>

lemma establish_sso_session:
  assumes "establish_sso env fl si ctx now d = (Inr (Established sso), d')"
  shows "ss_user_id (es_session sso) = si_user_id si" "ss_authentication_methods (es_session sso) = si_methods si"
    "ss_session_hash (es_session sso) = sha256_hex (e_lib env) (fl_sso_id fl)"
  using assms
  by (auto simp: establish_sso_def establish_sso_with_binding_def Let_def bindE_Inr_iff sso_establish_def split_beta
      split: admission.splits; metis admission.exhaust)+

text \<open>(C10) From a fresh sign-in to the tokens: when the end of a sign-in with the given user and methods issues a code and that code is
  exchanged, the user had consented and the application gate admitted them, the token endpoint has authenticated the client of the
  authorization request, with the same redirect URI and the verifier of its PKCE challenge, and the ID token names that user, the
  time of this very sign-in, exactly its methods (\<open>acr\<close>, \<open>amr\<close>), the session it established and the request's nonce.\<close>
theorem fresh_sign_in_tokens:
  assumes "finish_sign_in env fl ctx t session u methods d = (r, d')" "db_codes d' \<noteq> db_codes d"
    and "gate_keeps fl base" "gate_keeps fl db_codes"
    and "exchange env' ctx' t' cmd d2 = (Inr tok, d3)" "tc_grant_type cmd = Some ''authorization_code''" "codes_inv (db_codes d2)"
    and "tc_code cmd = Some (fl_code fl)" "e_lib env' = e_lib env" "set (db_codes d') - set (db_codes d) \<subseteq> set (db_codes d2)"
    and "sha256_hex (e_lib env) (fl_code fl) \<notin> co_hash ` set (db_codes d)"
  shows "consented env t (u_id u) (as_request session) d
     \<and> \<not> gate_denies env d t (r_client_id (as_request session)) (u_id u)
     \<and> t' = t \<and> (\<exists>c user ic v. established_client env' t cmd d2 (r_client_id (as_request session)) c \<and> active_user_of d2 (u_id u) user
     \<and> tc_redirect_uri cmd = Some (r_redirect_uri (as_request session))
     \<and> tc_code_verifier cmd = Some v \<and> s256_challenge (e_lib env) v = pk_challenge (r_pkce (as_request session))
     \<and> map_option Inr (is_id_token tok) = Some (sign_id_token env' ic)
     \<and> it_sub ic = e_uuid_str env' (u_sub user) \<and> it_aud ic = r_client_id (as_request session)
     \<and> it_auth_time ic = timestamp (fl_now fl) \<and> tells_methods (Some methods) ic
     \<and> it_nonce ic = r_nonce (as_request session)
     \<and> it_sid ic = Some (sid_of (e_lib env) (sha256_hex (e_lib env) (fl_sso_id fl))))"
proof -
  let ?si = "\<lparr>si_tenant_id = t, si_user_id = u_id u, si_home_tenant_id = u_tenant_id u, si_methods = methods,
              si_client_id = Some (session_client_id session), si_success_event = ''login.succeeded'', si_success_detail = None\<rparr>"
  note k = keeps_establish_sso [OF side_free_fields(2) assms(4)] keeps_establish_sso [OF side_free_fields(1) assms(3)]
  obtain e d1 where e: "establish_sso env fl ?si ctx (fl_now fl) d = (Inr e, d1)"
    and n: "(case e of DeviceEnrollmentRequired ticket \<Rightarrow> retE (SignInEnrollment ticket)
     | Established sso \<Rightarrow>
         bindE (continue_authorization env fl t session sso (fl_now fl) ctx) (\<lambda>c.
         retE (SignInContinued (es_session_id sso) (absolute_ttl_secs (es_session sso)) c))) d1 = (r, d')"
    and c1: "db_codes d1 = db_codes d" "db_codes d' \<noteq> db_codes d1"
    using assms(1) unfolding finish_sign_in_def by (rule bindE_changes [OF _ k(1) assms(2)])
  have b: "base d1 = base d" using e by (rule keepsD [OF k(2)])
  obtain sso where sso: "e = Established sso" using n c1 by (cases e) auto
  note s = establish_sso_session [OF e [unfolded sso]]
  have n': "bindE (continue_authorization env fl t session sso (fl_now fl) ctx) (\<lambda>c.
         retE (SignInContinued (es_session_id sso) (absolute_ttl_secs (es_session sso)) c)) d1 = (r, d')"
    using n unfolding sso establishment.case .
  obtain x d4 where x: "continue_authorization env fl t session sso (fl_now fl) ctx d1 = (x, d4)" "db_codes d' = db_codes d4"
    using bindE_then_keeps [OF n' keeps_retE, of db_codes] by blast
  then have "db_codes d4 \<noteq> db_codes d1" using c1 by simp
  note j = sign_in_code_justified [OF x(1) this]
  let ?row = "issued_code_row env fl t (as_request session) (sign_in_authentication env sso (fl_now fl))"
  have "co_hash ?row = sha256_hex (e_lib env) (fl_code fl)" by (simp add: issued_code_row_def)
  then have "?row \<notin> set (db_codes d)" using assms(11) by (metis imageI)
  then have "?row \<in> set (db_codes d2)" using j x(2) c1 assms(10) by auto
  note f = issued_code_redeemed [OF assms(5-9) this]
  have a: "au_user_id (sign_in_authentication env sso (fl_now fl)) = u_id u"
    "au_auth_time (sign_in_authentication env sso (fl_now fl)) = fl_now fl"
    "au_sso_sid (sign_in_authentication env sso (fl_now fl)) = Some (sid_of (e_lib env) (sha256_hex (e_lib env) (fl_sso_id fl)))"
    "au_methods (sign_in_authentication env sso (fl_now fl)) = Some methods"
    by (simp_all add: sign_in_authentication_def s)
  have "consented env t (u_id u) (as_request session) d" "\<not> gate_denies env d t (r_client_id (as_request session)) (u_id u)"
    using j base_consented [OF b] base_gate_denies [OF b] s(1) by simp_all
  then show ?thesis using f unfolding a by blast
qed

end
