(* ===== verification/Login_Samples.thy ===== *)
theory Login_Samples
  imports Authorize_Samples Sign_In_Tokens
begin

text \<open>
  The flow of the sample deployment with an account: a password, a login identifier, an authentication app.  The properties
  of the sign-in with a password are applied to it, and three sequences of requests show what the sign-in lets through or
  locks out.
\<close>

definition sample_lockout :: lockout_policy where
  "sample_lockout = \<lparr>lp_max_failed_attempts = 5, lp_lock_duration_secs = 30, lp_max_lock_duration_secs = 60\<rparr>"

definition sample_account :: account where
  "sample_account = \<lparr>ac_password_policy = (\<lambda>_. Inr default_password_policy), ac_lockout = (\<lambda>_. Inr sample_lockout),
     ac_step_up_max_age = (\<lambda>_. Inr 300), ac_limiter = \<lparr>rl_max_attempts = 10, rl_window = secs 300\<rparr>,
     ac_hmac = (\<lambda>m. ''mac'' @ m), ac_hash = (\<lambda>p. Inr (''h:'' @ p)), ac_verify = (\<lambda>p h. Inr (h = ''h:'' @ p)),
     ac_is_breached = (\<lambda>_. Inr False), ac_decrypt = Inr, ac_totp_build = (\<lambda>_. Inr (\<lambda>code time. code = ''123456'')),
     ac_totp_clock = Inr 90, ac_lower = id, ac_upper = id, ac_failure_now = 110, ac_totp_now = 110, ac_code_now = 110,
     ac_history_now = 110, ac_id_password = ''p1''\<rparr>"

definition login_user :: user where
  "login_user = sample_user\<lparr>u_password_hash := ''h:secret''\<rparr>"

definition login_identifier :: user_login_identifier where
  "login_identifier = \<lparr>li_id = 1, li_tenant_id = 1, li_user_id = 9, li_identifier_type = LiUsername, li_display_value = ''user'',
     li_normalized_value = ''user'', li_is_active = True, li_is_primary = True, li_is_primary_email = False, li_created_at = 0, li_updated_at = 0\<rparr>"

definition app_row :: "uuid \<Rightarrow> authenticator_status \<Rightarrow> user_authenticator" where
  "app_row i st = \<lparr>ua_id = i, ua_user_id = 9, ua_type = AtTotp, ua_status = st, ua_label = ''app'', ua_secret_encrypted = Some ''key'',
     ua_target = None, ua_confirmed_at = Some 20, ua_last_used_at = None, ua_expires_at = None, ua_revoked_at = None,
     ua_created_at = 10, ua_updated_at = 10, ua_totp_last_used_step = None\<rparr>"

definition login_db :: "user \<Rightarrow> user_authenticator list \<Rightarrow> db" where
  "login_db u apps = (flow_db flow_request)\<lparr>db_sso := [], db_users := [u], db_login_identifiers := [login_identifier], db_authenticators := apps\<rparr>"

definition login_cmd :: login_command where
  "login_cmd = \<lparr>lo_auth_session_id = Some ''s'', lo_username = ''user'', lo_password = ''secret'', lo_csrf_token = ''maccsrf:s''\<rparr>"

definition verified_db :: "user \<Rightarrow> user_authenticator list \<Rightarrow> db" where
  "verified_db u apps = snd (login token_env sample_flow sample_account token_ctx 1 login_cmd (login_db u apps))"

definition mfa_cmd :: mfa_login_command where
  "mfa_cmd = \<lparr>mf_auth_session_id = Some ''p1'', mf_totp_code = ''123456'', mf_csrf_token = ''maccsrf:p1''\<rparr>"

definition change_cmd :: change_password_command where
  "change_cmd = \<lparr>cp_auth_session_id = Some ''p1'', cp_current_password = ''secret'', cp_new_password = ''correct horse'', cp_csrf_token = ''maccsrf:p1''\<rparr>"

definition due_user :: user where
  "due_user = login_user\<lparr>u_must_change_password := True\<rparr>"

section \<open>The properties at a concrete input\<close>

lemma csrf_verify_code [code]: "csrf_verify expected provided = (provided = expected)"
  by simp

lemma sample_gate: "gate_keeps sample_flow f"
  by (simp add: gate_keeps_def sample_flow_def)

lemma new_session: "length (db_sso d') = Suc 0 \<Longrightarrow> db_sso d = [] \<Longrightarrow> db_sso d' \<noteq> db_sso d"
  by auto

lemma login_db_sso: "db_sso (login_db u apps) = []"
  by (simp add: login_db_def)

definition mfa_db :: "user \<Rightarrow> user_authenticator list \<Rightarrow> db" where
  "mfa_db u apps = snd (mfa_verify token_env sample_flow sample_account token_ctx 1 mfa_cmd (verified_db u apps))"

definition changed_db :: "user \<Rightarrow> user_authenticator list \<Rightarrow> db" where
  "changed_db u apps = snd (change_password token_env sample_flow sample_account token_ctx 1 change_cmd (verified_db u apps))"

fun is_change_required :: "login_outcome exit + login_outcome \<Rightarrow> bool" where
  "is_change_required (Inr (LoginPasswordChangeRequired _)) = True"
| "is_change_required _ = False"

definition sessions_and_duties :: "db \<Rightarrow> authentication_method list list \<times> bool list" where
  "sessions_and_duties d = (map ss_authentication_methods (db_sso d), map u_must_change_password (db_users d))"

text \<open>The runs the samples need, evaluated together.\<close>

lemma login_runs:
  "map ss_authentication_methods (db_sso (verified_db login_user [])) = [[Password]]
   \<and> db_sso (verified_db login_user [app_row 30 StActive]) = []
   \<and> map ss_authentication_methods (db_sso (mfa_db login_user [app_row 30 StActive])) = [[Password, Totp]]
   \<and> db_sso (verified_db due_user []) = []
   \<and> map ss_authentication_methods (db_sso (changed_db due_user [])) = [[Password]]
   \<and> is_change_required (fst (login token_env sample_flow sample_account token_ctx 1 login_cmd (login_db due_user [app_row 30 StActive])))
   \<and> sessions_and_duties (mfa_db due_user [app_row 30 StActive]) = ([[Password, Totp]], [True])
   \<and> confirmed_totp 9 (login_db due_user [app_row 30 StActive])
   \<and> map ss_authentication_methods (db_sso (changed_db due_user [app_row 30 StActive])) = [[Password]]"
  by code_simp

lemma sample_login: "map ss_authentication_methods (db_sso (verified_db login_user [])) = [[Password]]"
  and sample_mfa: "db_sso (verified_db login_user [app_row 30 StActive]) = []"
    "map ss_authentication_methods (db_sso (mfa_db login_user [app_row 30 StActive])) = [[Password, Totp]]"
  and sample_change: "db_sso (verified_db due_user []) = []" "map ss_authentication_methods (db_sso (changed_db due_user [])) = [[Password]]"
  using login_runs by blast+

theorem login_session_sound_witness:
  "\<exists>u s. named_at token_env sample_account 1 ''user'' (login_db login_user []) u \<and> db_sso (verified_db login_user []) = [s]
     \<and> fresh_session token_env sample_flow (u_id u) [Password] s"
proof -
  obtain r d' where r: "login token_env sample_flow sample_account token_ctx 1 login_cmd (login_db login_user []) = (r, d')" by fastforce
  then have d': "d' = verified_db login_user []" by (simp add: verified_db_def)
  then have "db_sso d' \<noteq> db_sso (login_db login_user [])" using sample_login by (auto simp: login_db_sso)
  from login_session_sound [OF r this sample_gate] obtain u s where
    "named_at token_env sample_account 1 (lo_username login_cmd) (login_db login_user []) u"
    "db_sso d' = db_sso (login_db login_user []) @ [s]" "fresh_session token_env sample_flow (u_id u) [Password] s" by blast
  then show ?thesis unfolding d' by (simp add: login_cmd_def login_db_sso) blast
qed

theorem mfa_session_sound_witness:
  "\<exists>(u :: user) m s. factor_spent token_env sample_account (u_id u) ''123456'' m (verified_db login_user [app_row 30 StActive]) (mfa_db login_user [app_row 30 StActive])
     \<and> db_sso (mfa_db login_user [app_row 30 StActive]) = [s] \<and> ss_authentication_strength s = MultiFactor"
proof -
  let ?d = "verified_db login_user [app_row 30 StActive]"
  obtain r d' where r: "mfa_verify token_env sample_flow sample_account token_ctx 1 mfa_cmd ?d = (r, d')" by fastforce
  then have d': "d' = mfa_db login_user [app_row 30 StActive]" by (simp add: mfa_db_def)
  then have "db_sso d' \<noteq> db_sso ?d" using sample_mfa by auto
  from mfa_session_sound [OF r this sample_gate sample_gate] obtain u :: user and m s where
    "factor_spent token_env sample_account (u_id u) (mf_totp_code mfa_cmd) m ?d d'"
    "db_sso d' = db_sso ?d @ [s]" "ss_authentication_strength s = MultiFactor" by blast
  then show ?thesis using sample_mfa(1) unfolding d' by (simp add: mfa_cmd_def) blast
qed

theorem change_session_sound_witness:
  "\<exists>u s. user_find_by_id (u_id u) (db_users (changed_db due_user [])) = Some (renewed token_env u ''h:correct horse'')
     \<and> db_sso (changed_db due_user []) = [s] \<and> fresh_session token_env sample_flow (u_id u) [Password] s"
proof -
  let ?d = "verified_db due_user []"
  obtain r d' where r: "change_password token_env sample_flow sample_account token_ctx 1 change_cmd ?d = (r, d')" by fastforce
  then have d': "d' = changed_db due_user []" by (simp add: changed_db_def)
  then have "db_sso d' \<noteq> db_sso ?d" using sample_change by auto
  from change_session_sound [OF r this sample_gate sample_gate] obtain u h s where
    "ac_hash sample_account (cp_new_password change_cmd) = Inr h" "user_find_by_id (u_id u) (db_users d') = Some (renewed token_env u h)"
    "db_sso d' = db_sso ?d @ [s]" "fresh_session token_env sample_flow (u_id u) [Password] s" by blast
  then show ?thesis using sample_change(1) unfolding d' by (simp add: sample_account_def change_cmd_def) blast
qed

definition signed_db :: db where
  "signed_db = snd (finish_sign_in token_env sample_flow token_ctx 1 (flow_session flow_request) login_user [Password] (flow_db flow_request))"

lemma sample_tokens:
  "length (db_codes signed_db) = 2 \<and> is_ok (exchange token_env token_ctx 1 redeem_cmd signed_db) \<and> distinct (map co_hash (db_codes signed_db))"
  by code_simp

theorem fresh_sign_in_tokens_witness:
  "\<exists>tok d3 ic. exchange token_env token_ctx 1 redeem_cmd signed_db = (Inr tok, d3)
     \<and> map_option Inr (is_id_token tok) = Some (sign_id_token token_env ic) \<and> it_auth_time ic = timestamp 110
     \<and> tells_methods (Some [Password]) ic"
proof -
  let ?d = "flow_db flow_request"
  obtain tok d3 where x: "exchange token_env token_ctx 1 redeem_cmd signed_db = (Inr tok, d3)"
    using sample_tokens by (auto elim: is_okE)
  obtain r where r: "finish_sign_in token_env sample_flow token_ctx 1 (flow_session flow_request) login_user [Password] ?d = (r, signed_db)"
    unfolding signed_db_def by (metis prod.collapse)
  have c: "db_codes signed_db \<noteq> db_codes ?d" using sample_tokens by (auto simp: flow_db_def token_db_def)
  have h: "tc_grant_type redeem_cmd = Some ''authorization_code''" "codes_inv (db_codes signed_db)" "tc_code redeem_cmd = Some (fl_code sample_flow)"
    "set (db_codes signed_db) - set (db_codes ?d) \<subseteq> set (db_codes signed_db)"
    "sha256_hex (e_lib token_env) (fl_code sample_flow) \<notin> co_hash ` set (db_codes ?d)"
    using sample_tokens
    by (auto simp: redeem_cmd_def token_cmd_def codes_inv_def sample_flow_def flow_db_def token_db_def token_env_def sha256_hex_def
        toy_crypto_def token_code_def sample_code_def code_issue_def code_hash_def)
  from fresh_sign_in_tokens [OF r c sample_gate sample_gate x h(1-3) refl h(4,5)] x show ?thesis
    by (auto simp: sample_flow_def)
qed

definition strict_policy :: password_policy where
  "strict_policy = default_password_policy\<lparr>pp_history_count := 3\<rparr>"

definition old_passwords :: "(uuid \<times> string \<times> instant) list" where
  "old_passwords = [(9, ''h:first'', 10), (8, ''h:other'', 15), (9, ''h:second'', 20), (9, ''h:third'', 30)]"

definition history_db :: db where
  "history_db = token_db\<lparr>db_password_history := retire (retained_history_len strict_policy) old_passwords no_history\<rparr>"

theorem password_reuse_exact_witness:
  "check_reuse token_env sample_account strict_policy (Some 9) (Some ''h:secret'') ''second'' history_db = (Inr (Inl Reused), history_db)
   \<and> check_reuse token_env sample_account strict_policy (Some 9) (Some ''h:secret'') ''first'' history_db = (Inr (Inr ()), history_db)"
proof -
  have h: "checks_history strict_policy" "db_password_history history_db = retire (retained_history_len strict_policy) old_passwords no_history"
    "sorted (map (\<lambda>(u, h, at). at) old_passwords)" "e_fault token_env ''password_history.recent'' = None"
    by (simp_all add: checks_history_def strict_policy_def history_db_def old_passwords_def token_env_def)
  have v: "\<forall>h. \<exists>b. ac_verify sample_account pw h = Inr b" for pw by (simp add: sample_account_def)
  have n: "unat (pp_history_count strict_policy) = 3" by (simp add: strict_policy_def)
  have o: "hashes_of 9 old_passwords = [''h:first'', ''h:second'', ''h:third'']" by (simp add: hashes_of_def old_passwords_def)
  show ?thesis
    using password_reuse_exact [OF v h(4,1,2,3), of 9 "''h:secret''"] by (simp add: n o sample_account_def numeral_3_eq_3)
qed

section \<open>Ways around\<close>

text \<open>
  Of the two steps due after the password, a change of the password and the code of the authentication app, each can be
  taken instead of the other.  In the first run the user is told to change the password, gives the code and is signed in with
  the duty left; in the second the user changes the password and is signed in without the code.
\<close>

theorem each_step_skips_the_other:
  "is_change_required (fst (login token_env sample_flow sample_account token_ctx 1 login_cmd (login_db due_user [app_row 30 StActive])))
   \<and> confirmed_totp 9 (login_db due_user [app_row 30 StActive])
   \<and> map ss_authentication_methods (db_sso (mfa_db due_user [app_row 30 StActive])) = [[Password, Totp]]
   \<and> map u_must_change_password (db_users (mfa_db due_user [app_row 30 StActive])) = [True]
   \<and> map ss_authentication_methods (db_sso (changed_db due_user [app_row 30 StActive])) = [[Password]]"
  using login_runs by (simp add: sessions_and_duties_def)

text \<open>
  (C20) At the second step of the sign-in (not at a later confirmation, see \<open>Step_Up\<close>) a one-time password is never accepted
  from a user with a revoked or suspended authentication app, whatever app was registered since.
\<close>

theorem revoked_app_blocks_every_app:
  assumes "a \<in> set (db_authenticators d)" "ua_user_id a = u" "ua_type a = AtTotp" "is_blocked a"
  shows "fst (verify_second_factor env ac ctx t u code d) \<noteq> Inr (Some Totp)"
proof
  assume f: "fst (verify_second_factor env ac ctx t u code d) = Inr (Some Totp)"
  then obtain d' where "verify_second_factor env ac ctx t u code d = (Inr (Some Totp), d')" by (metis prod.collapse)
  from verify_second_factor_Inr [OF this] assms show False
    by (auto simp: factor_spent_def totp_accepted_def single_use_factors_def)
qed

theorem revoked_app_blocks_every_app_witness:
  "fst (verify_second_factor token_env sample_account token_ctx 1 9 ''123456''
      (login_db login_user [app_row 30 StRevoked, app_row 31 StActive])) \<noteq> Inr (Some Totp)"
  by (rule revoked_app_blocks_every_app [of "app_row 30 StRevoked"]) (simp_all add: login_db_def app_row_def is_blocked_def)

end
