(* ===== verification/Logout.thy ===== *)
theory Logout
  imports Login_Flow Access_Token Response_Mode Token_Samples
begin

text \<open>
  Logout at the request of a relying party (\<open>application/logout.rs\<close>): the verification of the \<open>id_token_hint\<close>, the end of
  the single sign-on session with its codes and refresh tokens, the front-channel notifications and the check of the
  redirect.

  \<open>id_hint\<close> is the decoding of an ID token by the library: algorithm, key and token to issuer, subject and audience, for
  a token whose signature is valid; expiry and audience are not checked there.  A statement that fails while the session
  is ended is logged and skipped, as in the code.
\<close>

section \<open>Types and queries\<close>

type_synonym id_hint = "signing_algorithm \<Rightarrow> string \<Rightarrow> string \<Rightarrow> (string \<times> string \<times> string) option"

datatype id_token_hint_outcome = HintAbsent | HintVerified string string | HintInvalid

record logout_result =
  lr_user_id :: "uuid option"
  lr_frontchannel_uris :: "string list"
  lr_post_logout_redirect_uri :: "string option"

datatype logout_outcome = LogoutCompleted logout_result | SubjectMismatch

record logout_command =
  lg_tenant :: tenant_id
  lg_sso_session_id :: "string option"
  lg_client_id :: "string option"
  lg_id_token_hint :: "string option"
  lg_redirect_uri :: "string option"

text \<open>\<open>filter(|s| !s.is_empty())\<close>.\<close>

definition given :: "string option \<Rightarrow> string option" where
  "given x = (case x of Some s \<Rightarrow> if s = [] then None else Some s | None \<Rightarrow> None)"

definition client_list :: "tenant_id \<Rightarrow> client list \<Rightarrow> client list" where
  "client_list t rows = sort_key (\<lambda>c. - c_created_at c) (filter (\<lambda>c. c_tenant_id c = t \<and> c_client_status c \<noteq> ClientDeleted) rows)"

definition repo_client_list :: "env \<Rightarrow> tenant_id \<Rightarrow> (db, domain_error, client list) action" where
  "repo_client_list env t = db_query env ''clients.list'' (\<lambda>d. client_list t (db_clients d))"

definition repo_codes_revoke_active :: "env \<Rightarrow> uuid \<Rightarrow> instant \<Rightarrow> (db, domain_error, unit) action" where
  "repo_codes_revoke_active env u now = db_call env ''codes.revoke_all_active_for_user''
     (modifyE (\<lambda>d. d\<lparr>db_codes := code_revoke_all_active_for_user u now (db_codes d)\<rparr>))"

definition repo_refresh_revoke_session :: "env \<Rightarrow> uuid \<Rightarrow> string \<Rightarrow> instant \<Rightarrow> (db, domain_error, nat) action" where
  "repo_refresh_revoke_session env u sid now = db_call env ''refresh_tokens.revoke_all_for_session''
     (stateE (\<lambda>d. case rt_revoke_all_for_session u sid now (db_refresh d) of (n, rows) \<Rightarrow> (n, d\<lparr>db_refresh := rows\<rparr>)))"

section \<open>The hint\<close>

definition hint_claims :: "env \<Rightarrow> verifier \<Rightarrow> id_hint \<Rightarrow> tenant_id \<Rightarrow> signing_key_row \<Rightarrow> string \<Rightarrow> id_token_hint_outcome" where
  "hint_claims env vr decode t key hint =
     (case decoding_key_for vr (sr_algorithm key) (sr_public_key key) of
        Inl _ \<Rightarrow> HintInvalid
      | Inr (dk, alg) \<Rightarrow>
        (case decode alg dk hint of
           None \<Rightarrow> HintInvalid
         | Some (iss, sub, aud) \<Rightarrow>
           if iss \<noteq> issuer_of env t then HintInvalid
           else if sub = [] \<or> aud = [] then HintInvalid
           else HintVerified sub aud))"

definition verify_id_token_hint ::
  "env \<Rightarrow> verifier \<Rightarrow> id_hint \<Rightarrow> tenant_id \<Rightarrow> string option \<Rightarrow> (db, 'e, id_token_hint_outcome) action" where
  "verify_id_token_hint env vr decode t raw =
     (case given raw of None \<Rightarrow> retE HintAbsent
      | Some hint \<Rightarrow>
        (case vr_decode_header vr hint of None \<Rightarrow> retE HintInvalid
         | Some (typ, hkid) \<Rightarrow>
           if typ \<noteq> None \<and> typ \<noteq> Some ''JWT'' then retE HintInvalid
           else case hkid of None \<Rightarrow> retE HintInvalid
           | Some kid \<Rightarrow>
             bindE (tryE (repo_key_find env vr kid)) (\<lambda>found.
             case found of Inr (Some key) \<Rightarrow> retE (hint_claims env vr decode t key hint) | _ \<Rightarrow> retE HintInvalid)))"

section \<open>The answer\<close>

definition encode_non_alphanumeric :: "string \<Rightarrow> string" where
  "encode_non_alphanumeric s = concat (map (\<lambda>c.
     let b = byte_val c in
     if 65 \<le> b \<and> b \<le> 90 \<or> 97 \<le> b \<and> b \<le> 122 \<or> 48 \<le> b \<and> b \<le> 57 then [c]
     else [CHR ''%'', hex_digit (b div 16), hex_digit (b mod 16)]) s)"

definition frontchannel_uris :: "string \<Rightarrow> client list \<Rightarrow> string list" where
  "frontchannel_uris issuer clients =
     concat (map (\<lambda>c. case c_frontchannel_logout_uri c of None \<Rightarrow> []
       | Some uri \<Rightarrow> [uri @ (if CHR ''?'' \<in> set uri then ''&'' else ''?'') @ ''iss='' @ encode_non_alphanumeric issuer]) clients)"

text \<open>The redirect that is answered: \<open>client_id\<close> and the audience of the hint must not contradict each other.\<close>

definition admitted_redirect ::
  "client list \<Rightarrow> id_token_hint_outcome \<Rightarrow> string option \<Rightarrow> string option \<Rightarrow> string option" where
  "admitted_redirect clients hint client_id redirect =
     (case given redirect of None \<Rightarrow> None
      | Some uri \<Rightarrow>
        if hint = HintInvalid then None
        else
        let audience = (case hint of HintVerified _ aud \<Rightarrow> Some aud | _ \<Rightarrow> None) in
        (case (given client_id, audience) of
           (Some param, Some aud) \<Rightarrow>
             if param \<noteq> aud then None
             else if (case find (\<lambda>c. c_client_id c = param) clients of None \<Rightarrow> False | Some c \<Rightarrow> allows_post_logout_redirect_uri c uri)
             then Some uri else None
         | (Some param, None) \<Rightarrow>
             if (case find (\<lambda>c. c_client_id c = param) clients of None \<Rightarrow> False | Some c \<Rightarrow> allows_post_logout_redirect_uri c uri)
             then Some uri else None
         | (None, Some aud) \<Rightarrow>
             if (case find (\<lambda>c. c_client_id c = aud) clients of None \<Rightarrow> False | Some c \<Rightarrow> allows_post_logout_redirect_uri c uri)
             then Some uri else None
         | (None, None) \<Rightarrow> if list_ex (\<lambda>c. allows_post_logout_redirect_uri c uri) clients then Some uri else None))"

definition logout_answer :: "env \<Rightarrow> logout_command \<Rightarrow> id_token_hint_outcome \<Rightarrow> uuid option \<Rightarrow> (db, 'e, logout_outcome) action" where
  "logout_answer env cmd hint u =
     bindE (tryE (repo_client_list env (lg_tenant cmd))) (\<lambda>listed.
     let clients = (case listed of Inr cs \<Rightarrow> cs | Inl (_ :: domain_error) \<Rightarrow> []) in
     retE (LogoutCompleted
       \<lparr>lr_user_id = u, lr_frontchannel_uris = (if u \<noteq> None then frontchannel_uris (issuer_of env (lg_tenant cmd)) clients else []),
        lr_post_logout_redirect_uri = admitted_redirect clients hint (lg_client_id cmd) (lg_redirect_uri cmd)\<rparr>))"

section \<open>The use case\<close>

definition end_session ::
  "env \<Rightarrow> request_context \<Rightarrow> tenant_id \<Rightarrow> string \<Rightarrow> sso_session \<Rightarrow> (db, 'e, unit) action" where
  "end_session env ctx t hash session =
     bindE (tryE (repo_sso_delete env hash)) (\<lambda>_.
     bindE (tryE (repo_codes_revoke_active env (ss_user_id session) (e_now env))) (\<lambda>_.
     bindE (tryE (repo_refresh_revoke_session env (ss_user_id session) (sid_of (e_lib env) (ss_session_hash session)) (e_now env))) (\<lambda>_.
     audit_record env ctx ''sso_session.terminated'' AuditSuccess (Some t) (Some (ss_user_id session)) None
       (Some ''rp_initiated_logout''))))"

definition hint_contradicts :: "id_token_hint_outcome \<Rightarrow> string option \<Rightarrow> bool" where
  "hint_contradicts hint sub \<longleftrightarrow> (case hint of HintVerified subject _ \<Rightarrow> sub \<noteq> Some subject | _ \<Rightarrow> False)"

definition logout ::
  "env \<Rightarrow> verifier \<Rightarrow> id_hint \<Rightarrow> request_context \<Rightarrow> logout_command \<Rightarrow> (db, 'e, logout_outcome) action" where
  "logout env vr decode ctx cmd =
     bindE (verify_id_token_hint env vr decode (lg_tenant cmd) (lg_id_token_hint cmd)) (\<lambda>hint.
     case given (lg_sso_session_id cmd) of
       None \<Rightarrow> logout_answer env cmd hint None
     | Some session_id \<Rightarrow>
       let hash = sha256_hex (e_lib env) session_id in
       bindE (tryE (repo_sso_find env hash)) (\<lambda>found.
       case found of
         Inr (Some session) \<Rightarrow>
           bindE (tryE (repo_user_find env (ss_user_id session))) (\<lambda>u.
           let sub = (case u of Inr (Some x) \<Rightarrow> Some (e_uuid_str env (u_sub x)) | _ \<Rightarrow> None) in
           if hint_contradicts hint sub
           then bindE (audit_record env ctx ''sso_session.terminated'' AuditFailure (Some (lg_tenant cmd)) (Some (ss_user_id session))
                  (case hint of HintVerified _ aud \<Rightarrow> Some aud | _ \<Rightarrow> None) (Some ''id_token_hint_subject_mismatch''))
                (\<lambda>_. retE SubjectMismatch)
           else bindE (end_session env ctx (lg_tenant cmd) hash session)
                (\<lambda>_. logout_answer env cmd hint (Some (ss_user_id session))))
       | _ \<Rightarrow> retE (LogoutCompleted \<lparr>lr_user_id = None, lr_frontchannel_uris = [], lr_post_logout_redirect_uri = None\<rparr>)))"

section \<open>Lemmas\<close>

lemma verify_hint_reads [action_inv]: "reads (verify_id_token_hint env vr decode t raw)"
  unfolding verify_id_token_hint_def repo_key_find_def by (intro action_inv)

text \<open>What the hint of a request amounts to.\<close>

definition hint_of :: "env \<Rightarrow> verifier \<Rightarrow> id_hint \<Rightarrow> logout_command \<Rightarrow> db \<Rightarrow> id_token_hint_outcome" where
  "hint_of env vr decode cmd d =
     (case (verify_id_token_hint env vr decode (lg_tenant cmd) (lg_id_token_hint cmd) :: (db, unit, id_token_hint_outcome) action) d of
        (Inr h, _) \<Rightarrow> h | _ \<Rightarrow> HintInvalid)"

lemma verify_hint_of:
  "verify_id_token_hint env vr decode (lg_tenant cmd) (lg_id_token_hint cmd) d = (Inr (hint_of env vr decode cmd d), d)"
  by (simp add: hint_of_def verify_id_token_hint_def bindE_def tryE_def retE_def repo_key_find_def db_query_def db_call_def
      getsE_def failE_def split: option.split prod.split sum.split)

lemma admitted_redirect_Some:
  "admitted_redirect clients hint cid redirect = Some uri \<Longrightarrow>
     redirect = Some uri \<and> (\<exists>c\<in>set clients. allows_post_logout_redirect_uri c uri)"
  by (auto simp: admitted_redirect_def given_def list_ex_iff Let_def find_Some_iff
      split: option.splits if_splits id_token_hint_outcome.splits dest: nth_mem)

lemma client_list_mem: "c \<in> set (client_list t rows) \<longleftrightarrow> c \<in> set rows \<and> c_tenant_id c = t \<and> c_client_status c \<noteq> ClientDeleted"
  by (auto simp: client_list_def)

definition redirect_registered :: "logout_command \<Rightarrow> db \<Rightarrow> string \<Rightarrow> bool" where
  "redirect_registered cmd d uri \<longleftrightarrow> lg_redirect_uri cmd = Some uri \<and>
     (\<exists>c\<in>set (db_clients d). c_tenant_id c = lg_tenant cmd \<and> c_client_status c \<noteq> ClientDeleted \<and> uri \<in> set (c_post_logout_redirect_uris c))"

lemma logout_answer_Inr:
  assumes "logout_answer env cmd hint u d = (x, d')"
  shows "d' = d \<and> (\<exists>res. x = Inr (LogoutCompleted res) \<and> lr_user_id res = u \<and> (u = None \<longrightarrow> lr_frontchannel_uris res = []) \<and>
     (\<forall>uri. lr_post_logout_redirect_uri res = Some uri \<longrightarrow> redirect_registered cmd d uri))"
proof -
  have "\<exists>clients. set clients \<subseteq> set (client_list (lg_tenant cmd) (db_clients d)) \<and> d' = d \<and> x = Inr (LogoutCompleted
     \<lparr>lr_user_id = u, lr_frontchannel_uris = (if u \<noteq> None then frontchannel_uris (issuer_of env (lg_tenant cmd)) clients else []),
      lr_post_logout_redirect_uri = admitted_redirect clients hint (lg_client_id cmd) (lg_redirect_uri cmd)\<rparr>)"
  proof (cases "e_fault env ''clients.list''")
    case None
    then show ?thesis using assms
      by (intro exI [of _ "client_list (lg_tenant cmd) (db_clients d)"])
        (simp add: logout_answer_def bindE_def tryE_def repo_client_list_def db_query_def db_call_def getsE_def Let_def)
  next
    case (Some e)
    then show ?thesis using assms
      by (intro exI [of _ "[]"])
        (simp add: logout_answer_def bindE_def tryE_def repo_client_list_def db_query_def db_call_def failE_def Let_def)
  qed
  then obtain clients where c: "set clients \<subseteq> set (client_list (lg_tenant cmd) (db_clients d))" "d' = d" "x = Inr (LogoutCompleted
     \<lparr>lr_user_id = u, lr_frontchannel_uris = (if u \<noteq> None then frontchannel_uris (issuer_of env (lg_tenant cmd)) clients else []),
      lr_post_logout_redirect_uri = admitted_redirect clients hint (lg_client_id cmd) (lg_redirect_uri cmd)\<rparr>)" by blast
  have "redirect_registered cmd d uri" if "admitted_redirect clients hint (lg_client_id cmd) (lg_redirect_uri cmd) = Some uri" for uri
  proof -
    from admitted_redirect_Some [OF that] obtain k where "lg_redirect_uri cmd = Some uri" "k \<in> set clients"
      "allows_post_logout_redirect_uri k uri" by blast
    then show ?thesis using c(1)
      by (auto simp: redirect_registered_def client_list_mem allows_post_logout_redirect_uri_def list_ex_iff subset_iff)
  qed
  then show ?thesis using c by simp
qed

text \<open>A session is ended: its row is gone and every code and token that came from it is dead; what does not belong to it stays.\<close>

definition session_ended :: "env \<Rightarrow> sso_session \<Rightarrow> db \<Rightarrow> db \<Rightarrow> bool" where
  "session_ended env s d d' \<longleftrightarrow>
     db_sso d' = filter (\<lambda>r. ss_session_hash r \<noteq> ss_session_hash s) (db_sso d) \<and>
     (\<forall>c\<in>set (db_codes d'). au_user_id (co_authentication c) = ss_user_id s \<longrightarrow> co_used_at c \<noteq> None \<or> co_expires_at c \<le> e_now env) \<and>
     (\<forall>r\<in>set (db_refresh d'). rt_user_id r = ss_user_id s \<and> rt_sid r = Some (sid_of (e_lib env) (ss_session_hash s)) \<longrightarrow>
        rt_revoked_at r \<noteq> None) \<and>
     filter (\<lambda>c. au_user_id (co_authentication c) \<noteq> ss_user_id s) (db_codes d')
       = filter (\<lambda>c. au_user_id (co_authentication c) \<noteq> ss_user_id s) (db_codes d) \<and>
     filter (\<lambda>r. rt_user_id r \<noteq> ss_user_id s) (db_refresh d') = filter (\<lambda>r. rt_user_id r \<noteq> ss_user_id s) (db_refresh d)"

lemma filter_map_other: "(\<And>x. P (f x) = P x) \<Longrightarrow> (\<And>x. P x \<Longrightarrow> f x = x) \<Longrightarrow> filter P (map f xs) = filter P xs"
  by (induction xs) auto

definition no_fault_ending :: "env \<Rightarrow> bool" where
  "no_fault_ending env \<longleftrightarrow> e_fault env ''sso_sessions.delete'' = None \<and> e_fault env ''codes.revoke_all_active_for_user'' = None \<and>
     e_fault env ''refresh_tokens.revoke_all_for_session'' = None"

lemma end_session_ends:
  assumes "end_session env ctx t (ss_session_hash s) s d = (x, d')" "no_fault_ending env"
  shows "x = Inr () \<and> session_ended env s d d' \<and> db_clients d' = db_clients d"
proof -
  let ?d = "d\<lparr>db_sso := sso_delete (ss_session_hash s) (db_sso d),
      db_codes := code_revoke_all_active_for_user (ss_user_id s) (e_now env) (db_codes d),
      db_refresh := snd (rt_revoke_all_for_session (ss_user_id s) (sid_of (e_lib env) (ss_session_hash s)) (e_now env) (db_refresh d))\<rparr>"
  have a: "audit_record env ctx ''sso_session.terminated'' AuditSuccess (Some t) (Some (ss_user_id s)) None
       (Some ''rp_initiated_logout'') ?d = (x, d')"
    using assms
    by (simp add: end_session_def no_fault_ending_def bindE_def tryE_def repo_sso_delete_def repo_codes_revoke_active_def
        repo_refresh_revoke_session_def db_call_def modifyE_def stateE_def case_prod_beta)
  have same: "same_data ?d d'" "x = Inr ()" using audit_record_same [OF a] by auto
  then have f: "db_sso d' = db_sso ?d" "db_codes d' = db_codes ?d" "db_refresh d' = db_refresh ?d" "db_clients d' = db_clients d"
    using log_freeD [of db_sso] log_freeD [of db_codes] log_freeD [of db_refresh] log_freeD [of db_clients] by fastforce+
  have "filter (\<lambda>c. au_user_id (co_authentication c) \<noteq> ss_user_id s) (db_codes d')
       = filter (\<lambda>c. au_user_id (co_authentication c) \<noteq> ss_user_id s) (db_codes d)"
    unfolding f by (simp add: code_revoke_all_active_for_user_def) (rule filter_map_other; simp)
  moreover have "filter (\<lambda>r. rt_user_id r \<noteq> ss_user_id s) (db_refresh d') = filter (\<lambda>r. rt_user_id r \<noteq> ss_user_id s) (db_refresh d)"
    unfolding f by (simp add: rt_revoke_all_for_session_def rt_update_revoked_def) (rule filter_map_other; simp)
  moreover have "db_sso d' = filter (\<lambda>r. ss_session_hash r \<noteq> ss_session_hash s) (db_sso d)"
    unfolding f by (simp add: sso_delete_def)
  moreover have "\<forall>c\<in>set (db_codes d'). au_user_id (co_authentication c) = ss_user_id s \<longrightarrow>
      co_used_at c \<noteq> None \<or> co_expires_at c \<le> e_now env"
    unfolding f by (auto simp: code_revoke_all_active_for_user_def)
  moreover have "\<forall>r\<in>set (db_refresh d'). rt_user_id r = ss_user_id s \<and>
      rt_sid r = Some (sid_of (e_lib env) (ss_session_hash s)) \<longrightarrow> rt_revoked_at r \<noteq> None"
    unfolding f by (auto simp: rt_revoke_all_for_session_def rt_update_revoked_def)
  ultimately show ?thesis unfolding session_ended_def by (intro conjI same(2) f(4))
qed

section \<open>Properties\<close>

text \<open>Whose session the hint of the request names, as far as it is verified.\<close>

definition names_user :: "env \<Rightarrow> id_token_hint_outcome \<Rightarrow> uuid \<Rightarrow> db \<Rightarrow> bool" where
  "names_user env hint u d \<longleftrightarrow>
     (\<forall>sub aud. hint = HintVerified sub aud \<longrightarrow> (\<exists>x. user_find_by_id u (db_users d) = Some x \<and> e_uuid_str env (u_sub x) = sub))"

lemma reads_user_and_sso: "reads (repo_user_find env u)" "reads (repo_sso_find env h)"
  unfolding repo_user_find_def repo_sso_find_def by (intro action_inv)+

lemma logout_without_cookie:
  "given (lg_sso_session_id cmd) = None \<Longrightarrow> logout env vr decode ctx cmd d = logout_answer env cmd (hint_of env vr decode cmd d) None d"
  by (simp add: logout_def bindE_step [OF verify_hint_of])

lemma bindE_try: "m d = (x, d') \<Longrightarrow> bindE (tryE m) f d = f x d'"
  by (simp add: bindE_def tryE_def)

lemma logout_without_session:
  assumes "given (lg_sso_session_id cmd) = Some sid" and "\<And>s. found \<noteq> Inr (Some s)"
    and f: "repo_sso_find env (sha256_hex (e_lib env) sid) d = (found, d)"
  shows "logout env vr decode ctx cmd d =
    (Inr (LogoutCompleted \<lparr>lr_user_id = None, lr_frontchannel_uris = [], lr_post_logout_redirect_uri = None\<rparr>), d)"
proof -
  from assms(2) have "found = Inr None \<or> (\<exists>e. found = Inl e)" by (metis not_None_eq sum.exhaust)
  then show ?thesis using assms(1)
    by (auto simp: logout_def bindE_step [OF verify_hint_of] bindE_try [where m = "repo_sso_find env (sha256_hex (e_lib env) sid)", OF f] Let_def)
qed

lemma logout_with_session:
  assumes "given (lg_sso_session_id cmd) = Some sid"
    and f: "repo_sso_find env (sha256_hex (e_lib env) sid) d = (Inr (Some s), d)"
    and u: "repo_user_find env (ss_user_id s) d = (u, d)"
  shows "logout env vr decode ctx cmd d =
    (if hint_contradicts (hint_of env vr decode cmd d) (case u of Inr (Some x) \<Rightarrow> Some (e_uuid_str env (u_sub x)) | _ \<Rightarrow> None)
     then bindE (audit_record env ctx ''sso_session.terminated'' AuditFailure (Some (lg_tenant cmd)) (Some (ss_user_id s))
            (case hint_of env vr decode cmd d of HintVerified _ aud \<Rightarrow> Some aud | _ \<Rightarrow> None)
            (Some ''id_token_hint_subject_mismatch'')) (\<lambda>_. retE SubjectMismatch)
     else bindE (end_session env ctx (lg_tenant cmd) (sha256_hex (e_lib env) sid) s)
            (\<lambda>_. logout_answer env cmd (hint_of env vr decode cmd d) (Some (ss_user_id s)))) d"
  using assms(1)
  by (simp add: logout_def bindE_step [OF verify_hint_of] Let_def bindE_try [where m = "repo_user_find env (ss_user_id s)", OF u]
      bindE_try [where m = "repo_sso_find env (sha256_hex (e_lib env) sid)", OF f])

lemma end_session_then:
  assumes "bindE (end_session env ctx t (ss_session_hash s) s) n d = (r, d')" "no_fault_ending env"
  obtains d1 where "session_ended env s d d1" "db_clients d1 = db_clients d" "n () d1 = (r, d')"
  using assms by (auto simp: bindE_def split: prod.splits sum.splits dest!: end_session_ends intro: that)

text \<open>With a session in the store: either the hint names someone else and only the log changes, or the session is ended.\<close>

lemma logout_of_session:
  assumes run: "logout env vr decode ctx cmd d = (r, d')" and ok: "no_fault_ending env"
    and some: "given (lg_sso_session_id cmd) = Some sid"
    and f: "repo_sso_find env (sha256_hex (e_lib env) sid) d = (Inr (Some s), d)"
  shows "r = Inr SubjectMismatch \<and> core d' = core d \<or>
    (\<exists>res. r = Inr (LogoutCompleted res) \<and> lr_user_id res = Some (ss_user_id s) \<and>
       (\<forall>uri. lr_post_logout_redirect_uri res = Some uri \<longrightarrow> redirect_registered cmd d uri) \<and>
       names_user env (hint_of env vr decode cmd d) (ss_user_id s) d \<and> session_ended env s d d')"
proof -
  let ?h = "hint_of env vr decode cmd d"
  from f have hash: "ss_session_hash s = sha256_hex (e_lib env) sid"
    by (auto simp: repo_sso_find_def sso_find_by_hash_def find_Some_iff2)
  obtain u where u: "repo_user_find env (ss_user_id s) d = (u, d)"
    using keepsD [OF reads_user_and_sso(1)] by (metis prod.exhaust)
  let ?sub = "case u of Inr (Some x) \<Rightarrow> Some (e_uuid_str env (u_sub x)) | _ \<Rightarrow> None"
  note run' = run [unfolded logout_with_session [OF some f u]]
  show ?thesis
  proof (cases "hint_contradicts ?h ?sub")
    case True
    then have "bindE (audit_record env ctx ''sso_session.terminated'' AuditFailure (Some (lg_tenant cmd)) (Some (ss_user_id s))
        (case ?h of HintVerified _ aud \<Rightarrow> Some aud | _ \<Rightarrow> None) (Some ''id_token_hint_subject_mismatch''))
        (\<lambda>_. retE SubjectMismatch) d = (r, d')" using run' by (simp only: if_True)
    then obtain d1 where "same_data d d1" "retE SubjectMismatch d1 = (r, d')" by (rule audit_then)
    then show ?thesis using log_freeD [of core d d1] by simp
  next
    case False
    then have named: "names_user env ?h (ss_user_id s) d"
      using u by (auto simp: hint_contradicts_def names_user_def repo_user_find_def split: sum.splits option.splits)
    have "bindE (end_session env ctx (lg_tenant cmd) (ss_session_hash s) s)
        (\<lambda>_. logout_answer env cmd ?h (Some (ss_user_id s))) d = (r, d')" using run' False by (simp only: if_False hash)
    then obtain d1 where ended: "session_ended env s d d1" "db_clients d1 = db_clients d"
      and "logout_answer env cmd ?h (Some (ss_user_id s)) d1 = (r, d')" by (rule end_session_then [OF _ ok])
    from logout_answer_Inr [OF this(3)] ended named show ?thesis by (auto simp: redirect_registered_def)
  qed
qed

text \<open>(C21) Logout ends exactly one session, and always answers, as long as the three statements that end a session (the deletion of the
  row, the revocation of the codes and of the refresh tokens) do not fail in the database; the code logs such a failure and reports
  the user all the same, which \<open>no_fault_ending\<close> excludes.  When it reports a user, the cookie named a stored session of
  that user, a verified hint names the same user, and the session is over: its row is gone, none of the user's codes can be
  redeemed and no refresh token of the session is left unrevoked, while the codes and tokens of every other user are
  untouched.  When it reports none, or refuses because the hint names someone else, nothing but the logs changes, and without
  a session no client is notified.  The redirect is the requested one and registered by a client of the tenant that is not
  deleted.\<close>
theorem logout_ends_one_session:
  assumes run: "logout env vr decode ctx cmd d = (r, d')" and ok: "no_fault_ending env"
  shows "\<exists>out. r = Inr out \<and>
    (case out of
       SubjectMismatch \<Rightarrow> core d' = core d
     | LogoutCompleted res \<Rightarrow>
         (\<forall>uri. lr_post_logout_redirect_uri res = Some uri \<longrightarrow> redirect_registered cmd d uri) \<and>
         (case lr_user_id res of
            None \<Rightarrow> core d' = core d \<and> lr_frontchannel_uris res = []
          | Some u \<Rightarrow>
              \<exists>session_id s. lg_sso_session_id cmd = Some session_id \<and>
                sso_find_by_hash (sha256_hex (e_lib env) session_id) (db_sso d) = Some s \<and> ss_user_id s = u \<and>
                names_user env (hint_of env vr decode cmd d) u d \<and> session_ended env s d d'))"
proof (cases "given (lg_sso_session_id cmd)")
  case None
  then have "logout_answer env cmd (hint_of env vr decode cmd d) None d = (r, d')" using run by (simp only: logout_without_cookie)
  from logout_answer_Inr [OF this] show ?thesis by auto
next
  case (Some sid)
  then have sid: "lg_sso_session_id cmd = Some sid" by (auto simp: given_def split: option.splits if_splits)
  obtain found where f: "repo_sso_find env (sha256_hex (e_lib env) sid) d = (found, d)"
    using keepsD [OF reads_user_and_sso(2)] by (metis prod.exhaust)
  show ?thesis
  proof (cases "\<exists>s. found = Inr (Some s)")
    case False
    then have "\<And>s. found \<noteq> Inr (Some s)" by blast
    from run [unfolded logout_without_session [OF Some this f]] show ?thesis by auto
  next
    case True
    then obtain s where s: "found = Inr (Some s)" by blast
    then have "sso_find_by_hash (sha256_hex (e_lib env) sid) (db_sso d) = Some s" using f by (auto simp: repo_sso_find_def)
    with logout_of_session [OF run ok Some f [unfolded s]] sid show ?thesis by auto
  qed
qed

text \<open>The user of the sample deployment logs out without a hint and returns to a registered address.\<close>

definition logout_client :: client where
  "logout_client = sample_client\<lparr>c_post_logout_redirect_uris := [''https://rp/bye''], c_frontchannel_logout_uri := Some ''https://rp/out?x''\<rparr>"

definition logout_session :: sso_session where
  "logout_session = sso_establish ''cookie'' 9 50 1000 10000 [Password] None None"

definition logout_db :: db where
  "logout_db = token_db\<lparr>db_clients := [logout_client], db_sso := [logout_session]\<rparr>"

definition logout_verifier :: verifier where
  "logout_verifier = \<lparr>vr_decode_header = (\<lambda>_. None), vr_keys = [], vr_load_public = (\<lambda>_ _. Inl ''none''), vr_decode = (\<lambda>_ _ _. None),
     vr_parse_uuid = (\<lambda>_. None), vr_now = 120, vr_clock_skew = 0\<rparr>"

definition logout_cmd :: logout_command where
  "logout_cmd = \<lparr>lg_tenant = 1, lg_sso_session_id = Some ''cookie'', lg_client_id = Some ''app'', lg_id_token_hint = None,
     lg_redirect_uri = Some ''https://rp/bye''\<rparr>"

definition logout_run :: "(unit + logout_outcome) \<times> db" where
  "logout_run = logout token_env logout_verifier (\<lambda>_ _ _. None) token_ctx logout_cmd logout_db"

lemma logout_run_result:
  "fst logout_run = Inr (LogoutCompleted \<lparr>lr_user_id = Some 9, lr_frontchannel_uris = [''https://rp/out?x&iss=https%3A%2F%2Fidp%2F1''],
     lr_post_logout_redirect_uri = Some ''https://rp/bye''\<rparr>)"
  by code_simp

theorem logout_ends_one_session_witness:
  "\<exists>s. ss_user_id s = 9 \<and> session_ended token_env s logout_db (snd logout_run) \<and> redirect_registered logout_cmd logout_db ''https://rp/bye''"
proof -
  have r: "logout token_env logout_verifier (\<lambda>_ _ _. None) token_ctx logout_cmd logout_db = (fst logout_run, snd logout_run)"
    by (simp add: logout_run_def)
  have "no_fault_ending token_env" by (simp add: no_fault_ending_def token_env_def)
  from logout_ends_one_session [OF r this] show ?thesis by (auto simp: logout_run_result)
qed

text \<open>A cookie without a session is answered without the redirect, which the same request without any cookie gets.\<close>

lemma stale_cookie_loses_redirect:
  "fst (logout token_env logout_verifier (\<lambda>_ _ _. None) token_ctx (logout_cmd\<lparr>lg_sso_session_id := Some ''old''\<rparr>) logout_db :: (unit + logout_outcome) \<times> db)
     = Inr (LogoutCompleted \<lparr>lr_user_id = None, lr_frontchannel_uris = [], lr_post_logout_redirect_uri = None\<rparr>)"
  "fst (logout token_env logout_verifier (\<lambda>_ _ _. None) token_ctx (logout_cmd\<lparr>lg_sso_session_id := None\<rparr>) logout_db :: (unit + logout_outcome) \<times> db)
     = Inr (LogoutCompleted \<lparr>lr_user_id = None, lr_frontchannel_uris = [], lr_post_logout_redirect_uri = Some ''https://rp/bye''\<rparr>)"
  by code_simp+

end
