(* ===== verification/Step_Up.thy ===== *)
theory Step_Up
  imports Login_Samples Logout
begin

text \<open>
  Confirming the identity again before a sensitive operation (\<open>domain/step_up.rs\<close>, \<open>application/step_up.rs\<close>): the
  judgement on a session, the confirmation with password and one-time password or with a passkey, and its record on the
  session.

  The state is the database with the table \<open>sso_session_contexts\<close>, the time of the last confirmation with a passkey per
  session.  The WebAuthn ceremony (\<open>application/passkey_assertion.rs\<close>) is the argument \<open>ceremony\<close>, an action that answers
  the user of the verified passkey.  A maximal age whose \<open>Duration\<close> is out of range panics.
\<close>

section \<open>The judgement\<close>

datatype sensitive_operation =
  OpChangePassword | OpManageAuthenticators | OpManageExternalIdentities | OpRevokeSession | OpRegisterDevice | OpManageSshKeys

definition sensitive_operation_table :: "sensitive_operation enum_table" where
  "sensitive_operation_table =
     [(OpChangePassword, ''change_password''), (OpManageAuthenticators, ''manage_authenticators''),
      (OpManageExternalIdentities, ''manage_external_identities''), (OpRevokeSession, ''revoke_session''),
      (OpRegisterDevice, ''register_device''), (OpManageSshKeys, ''manage_ssh_keys'')]"

definition passkey_only :: "sensitive_operation \<Rightarrow> bool" where
  "passkey_only op \<longleftrightarrow> op = OpRegisterDevice \<or> op = OpManageSshKeys"

definition requires_second_factor :: "sensitive_operation \<Rightarrow> bool" where
  "requires_second_factor op \<longleftrightarrow> op = OpManageAuthenticators \<or> op = OpManageExternalIdentities"

record step_up_requirement =
  sq_max_age_secs :: "64 word"
  sq_required_strength :: authentication_strength

definition for_operation :: "sensitive_operation \<Rightarrow> 64 word \<Rightarrow> bool \<Rightarrow> step_up_requirement" where
  "for_operation op max_age has_second_factor =
     \<lparr>sq_max_age_secs = max_age,
      sq_required_strength = (if requires_second_factor op \<and> has_second_factor then MultiFactor else SingleFactor)\<rparr>"

datatype step_up_decision = StepSatisfied | StepReauthenticationRequired | StepSecondFactorRequired

definition last_verified_at :: "sso_session \<Rightarrow> instant option \<Rightarrow> instant" where
  "last_verified_at s step_up_at =
     (case step_up_at of Some at \<Rightarrow> if at > ss_auth_time s then at else ss_auth_time s | None \<Rightarrow> ss_auth_time s)"

text \<open>\<open>None\<close> is the panic of \<open>Duration::seconds\<close>.\<close>

definition evaluate_step_up ::
  "sso_session \<Rightarrow> instant option \<Rightarrow> step_up_requirement \<Rightarrow> instant \<Rightarrow> step_up_decision option" where
  "evaluate_step_up s step_up_at q now =
     (if \<not> strength_satisfies (ss_authentication_strength s) (sq_required_strength q) then Some StepSecondFactorRequired
      else case duration_seconds (sint (sq_max_age_secs q)) of None \<Rightarrow> None
      | Some max_age \<Rightarrow>
        let fresh = (if sq_required_strength q = MultiFactor
              then (case ss_mfa_completed_at s of None \<Rightarrow> False | Some at \<Rightarrow> now - at \<le> max_age)
              else now - last_verified_at s step_up_at \<le> max_age)
        in Some (if fresh then StepSatisfied else StepReauthenticationRequired))"

definition registration_passkey_max_age_secs :: int where
  "registration_passkey_max_age_secs = 300"

definition passkey_verified_recently :: "sso_session \<Rightarrow> instant option \<Rightarrow> instant \<Rightarrow> bool" where
  "passkey_verified_recently s verified_at now \<longleftrightarrow>
     (let max_age = secs registration_passkey_max_age_secs in
      sso_used_method s WebAuthn \<and> now - ss_auth_time s \<le> max_age
      \<or> (case verified_at of None \<Rightarrow> False | Some at \<Rightarrow> now - at \<le> max_age))"

section \<open>State and repository calls\<close>

type_synonym step_state = "db \<times> (string \<times> instant) list"

definition on_db :: "(db, 'e, 'a) action \<Rightarrow> (step_state, 'e, 'a) action" where
  "on_db m st = (case m (fst st) of (r, d) \<Rightarrow> (r, d, snd st))"

definition step_internal :: "(string \<Rightarrow> 'r) \<Rightarrow> (db, domain_error, 'a) action \<Rightarrow> (step_state, 'r exit, 'a) action" where
  "step_internal F m = on_db (internal F m)"

definition step_call :: "env \<Rightarrow> string \<Rightarrow> (string \<Rightarrow> 'r) \<Rightarrow> (step_state \<Rightarrow> 'a \<times> step_state) \<Rightarrow> (step_state, 'r exit, 'a) action" where
  "step_call env op F f =
     (case e_fault env op of Some msg \<Rightarrow> failE (Return (F (error_display (Repository msg)))) | None \<Rightarrow> stateE f)"

definition repo_passkey_verified_at :: "env \<Rightarrow> (string \<Rightarrow> 'r) \<Rightarrow> string \<Rightarrow> (step_state, 'r exit, instant option) action" where
  "repo_passkey_verified_at env F h =
     step_call env ''sso_sessions.passkey_verified_at'' F (\<lambda>st. (sso_passkey_verified_at h (snd st), st))"

text \<open>Two statements: the session row, then, for a passkey, the row of its context.\<close>

definition repo_record_step_up ::
  "env \<Rightarrow> (string \<Rightarrow> 'r) \<Rightarrow> string \<Rightarrow> authentication_method list \<Rightarrow> instant \<Rightarrow> (step_state, 'r exit, unit) action" where
  "repo_record_step_up env F h methods at =
     bindE (step_call env ''sso_sessions.record_step_up'' F
       (\<lambda>(d, contexts). ((), d\<lparr>db_sso := fst (sso_record_step_up h methods at (db_sso d, contexts))\<rparr>, contexts))) (\<lambda>_.
     if WebAuthn \<in> set methods
     then step_call env ''sso_sessions.record_step_up(context)'' F
       (\<lambda>(d, contexts). ((), d, snd (sso_record_step_up h methods at (db_sso d, contexts))))
     else retE ())"

definition has_usable_passkey :: "env \<Rightarrow> uuid \<Rightarrow> (db, domain_error, bool) action" where
  "has_usable_passkey env u =
     bindE (repo_authn_list env u) (\<lambda>rows.
     retE (list_ex (\<lambda>a. ua_status a = StActive) (filter (\<lambda>a. ua_type a = AtWebAuthn \<and> ua_status a \<noteq> StRevoked) rows)))"

section \<open>The question\<close>

datatype step_up_check_outcome =
    CheckSatisfied
  | CheckChallengeRequired bool bool bool
  | CheckSessionExpired
  | CheckInternal string

definition step_up_check ::
  "env \<Rightarrow> account \<Rightarrow> instant \<Rightarrow> string \<Rightarrow> sensitive_operation \<Rightarrow> (step_state, step_up_check_outcome exit, step_up_check_outcome) action" where
  "step_up_check env ac now sid op =
     (let hash = sha256_hex (e_lib env) sid in
      bindE (step_internal CheckInternal (repo_sso_find env hash)) (\<lambda>found.
      case found of None \<Rightarrow> retE CheckSessionExpired
      | Some session \<Rightarrow>
        if \<not> sso_is_valid_at session now then retE CheckSessionExpired
        else
        bindE (step_internal CheckInternal (repo_user_find env (ss_user_id session))) (\<lambda>u.
        case u of None \<Rightarrow> retE CheckSessionExpired
        | Some user \<Rightarrow>
          if \<not> user_is_active user then retE CheckSessionExpired
          else
          bindE (step_internal CheckInternal (liftR (ac_step_up_max_age ac (u_tenant_id user)))) (\<lambda>max_age.
          if passkey_only op
          then bindE (repo_passkey_verified_at env CheckInternal hash) (\<lambda>verified_at.
               if passkey_verified_recently session verified_at now then retE CheckSatisfied
               else bindE (step_internal CheckInternal (has_usable_passkey env (ss_user_id session))) (\<lambda>passkey.
                    retE (CheckChallengeRequired True passkey True)))
          else
          bindE (step_internal CheckInternal (user_has_confirmed_totp env (ss_user_id session))) (\<lambda>has_second_factor.
          let requirement = for_operation op max_age has_second_factor in
          bindE (on_db (unwrap_panic (evaluate_step_up session (ss_step_up_at session) requirement now))) (\<lambda>decision.
          if decision = StepSatisfied then retE CheckSatisfied
          else bindE (step_internal CheckInternal (has_usable_passkey env (ss_user_id session))) (\<lambda>passkey.
            retE (if decision = StepReauthenticationRequired
              then CheckChallengeRequired (sq_required_strength requirement = MultiFactor) passkey False
              else CheckChallengeRequired True passkey False))))))))"

section \<open>The confirmation\<close>

datatype step_up_verify_outcome =
    VerifyOk
  | VerifyInvalidCredentials
  | VerifySecondFactorRequired
  | VerifyRateLimited
  | VerifySessionExpired
  | VerifyInternal string

record step_up_verify_command =
  sv_sso_session_id :: string
  sv_operation :: sensitive_operation
  sv_password :: string
  sv_totp_code :: "string option"

definition step_up_failure ::
  "env \<Rightarrow> request_context \<Rightarrow> tenant_id \<Rightarrow> sensitive_operation \<Rightarrow> uuid \<Rightarrow> string \<Rightarrow> (step_state, 'e, unit) action" where
  "step_up_failure env ctx t op u reason =
     on_db (audit_record env ctx ''step_up.failed'' AuditFailure (Some t) (Some u) None
       (Some (''operation='' @ enum_as_str sensitive_operation_table op @ '' reason='' @ reason)))"

definition step_up_success ::
  "env \<Rightarrow> request_context \<Rightarrow> tenant_id \<Rightarrow> uuid \<Rightarrow> string \<Rightarrow> (step_state, 'e, unit) action" where
  "step_up_success env ctx t u reason =
     on_db (audit_record env ctx ''step_up.succeeded'' AuditSuccess (Some t) (Some u) None (Some reason))"

text \<open>The code of the authentication app, and the step it spends.\<close>

definition step_up_totp ::
  "env \<Rightarrow> account \<Rightarrow> instant \<Rightarrow> uuid \<Rightarrow> string \<Rightarrow> (db, step_up_verify_outcome exit, bool option) action" where
  "step_up_totp env ac now u code =
     bindE (internal VerifyInternal (repo_totp_find env u)) (\<lambda>found.
     case found of None \<Rightarrow> retE None
     | Some record \<Rightarrow>
       if \<not> totp_is_confirmed record then retE None
       else
       bindE (liftR (map_err (\<lambda>e. Return (VerifyInternal e)) (ac_decrypt ac (ts_secret_encrypted record)))) (\<lambda>secret.
       bindE (liftR (map_err (\<lambda>e. Return (VerifyInternal (totp_error_display e)))
                (verify_totp_code (ac_totp_build ac) (ac_totp_clock ac) secret code))) (\<lambda>matched_step.
       bindE (case matched_step of Some n \<Rightarrow> internal VerifyInternal (repo_totp_record_step env u (int n) now)
              | None \<Rightarrow> retE False) (\<lambda>accepted. retE (Some accepted)))))"

definition finish_step_up ::
  "env \<Rightarrow> request_context \<Rightarrow> instant \<Rightarrow> tenant_id \<Rightarrow> string \<Rightarrow> uuid \<Rightarrow> sensitive_operation \<Rightarrow> authentication_method list
   \<Rightarrow> (step_state, step_up_verify_outcome exit, step_up_verify_outcome) action" where
  "finish_step_up env ctx now t hash u op methods =
     bindE (repo_record_step_up env VerifyInternal hash methods now) (\<lambda>_.
     bindE (step_up_success env ctx t u (''operation='' @ enum_as_str sensitive_operation_table op)) (\<lambda>_. retE VerifyOk))"

text \<open>After the password: the second factor, where the operation asks for it.\<close>

definition step_up_factors ::
  "env \<Rightarrow> account \<Rightarrow> request_context \<Rightarrow> instant \<Rightarrow> tenant_id \<Rightarrow> string \<Rightarrow> user \<Rightarrow> step_up_verify_command
   \<Rightarrow> (step_state, step_up_verify_outcome exit, step_up_verify_outcome) action" where
  "step_up_factors env ac ctx now t hash user cmd =
     bindE (step_internal VerifyInternal (user_has_confirmed_totp env (u_id user))) (\<lambda>has_second_factor.
     bindE (step_internal VerifyInternal (liftR (ac_step_up_max_age ac (u_tenant_id user)))) (\<lambda>max_age.
     if sq_required_strength (for_operation (sv_operation cmd) max_age has_second_factor) = MultiFactor
     then (case given (sv_totp_code cmd) of
         None \<Rightarrow> retE VerifySecondFactorRequired
       | Some code \<Rightarrow>
         bindE (on_db (step_up_totp env ac now (u_id user) code)) (\<lambda>r.
         case r of None \<Rightarrow> retE VerifySecondFactorRequired
         | Some accepted \<Rightarrow>
           if \<not> accepted
           then bindE (step_up_failure env ctx t (sv_operation cmd) (u_id user) ''invalid_totp'') (\<lambda>_. retE VerifyInvalidCredentials)
           else finish_step_up env ctx now t hash (u_id user) (sv_operation cmd) [Password, Totp]))
     else finish_step_up env ctx now t hash (u_id user) (sv_operation cmd) [Password]))"

definition step_up_verify ::
  "env \<Rightarrow> account \<Rightarrow> request_context \<Rightarrow> instant \<Rightarrow> tenant_id \<Rightarrow> step_up_verify_command
   \<Rightarrow> (step_state, step_up_verify_outcome exit, step_up_verify_outcome) action" where
  "step_up_verify env ac ctx now t cmd =
     bindE (on_db (rate_check ac ctx now)) (\<lambda>admitted.
     if \<not> admitted then retE VerifyRateLimited
     else if passkey_only (sv_operation cmd) then retE VerifyInvalidCredentials
     else
     let hash = sha256_hex (e_lib env) (sv_sso_session_id cmd) in
     bindE (step_internal VerifyInternal (repo_sso_find env hash)) (\<lambda>found.
     case found of None \<Rightarrow> retE VerifySessionExpired
     | Some session \<Rightarrow>
       if \<not> sso_is_valid_at session now then retE VerifySessionExpired
       else
       bindE (step_internal VerifyInternal (repo_user_find env (ss_user_id session))) (\<lambda>u.
       case u of None \<Rightarrow> retE VerifySessionExpired
       | Some user \<Rightarrow>
         if \<not> (user_is_active user \<and> \<not> is_locked_at user now) then retE VerifySessionExpired
         else
         bindE (step_internal VerifyInternal (liftR (ac_verify ac (sv_password cmd) (u_password_hash user)))) (\<lambda>password_ok.
         if \<not> password_ok
         then bindE (step_up_failure env ctx t (sv_operation cmd) (u_id user) ''invalid_password'') (\<lambda>_. retE VerifyInvalidCredentials)
         else step_up_factors env ac ctx now t hash user cmd))))"

text \<open>With a passkey.  \<open>ceremony\<close> fails with \<open>Some e\<close> for an internal error and \<open>None\<close> for any rejection.\<close>

definition step_up_verify_with_passkey ::
  "env \<Rightarrow> account \<Rightarrow> request_context \<Rightarrow> instant \<Rightarrow> tenant_id \<Rightarrow> (db, string option, uuid) action \<Rightarrow> string \<Rightarrow> sensitive_operation
   \<Rightarrow> (step_state, step_up_verify_outcome exit, step_up_verify_outcome) action" where
  "step_up_verify_with_passkey env ac ctx now t ceremony sid op =
     bindE (on_db (rate_check ac ctx now)) (\<lambda>admitted.
     if \<not> admitted then retE VerifyRateLimited
     else
     let hash = sha256_hex (e_lib env) sid in
     bindE (step_internal VerifyInternal (repo_sso_find env hash)) (\<lambda>found.
     case found of None \<Rightarrow> retE VerifySessionExpired
     | Some session \<Rightarrow>
       if \<not> sso_is_valid_at session now then retE VerifySessionExpired
       else
       bindE (step_internal VerifyInternal (repo_user_find env (ss_user_id session))) (\<lambda>u.
       case u of None \<Rightarrow> retE VerifySessionExpired
       | Some user \<Rightarrow>
         if \<not> user_is_active user then retE VerifySessionExpired
         else
         bindE (tryE (on_db ceremony)) (\<lambda>verified.
         case verified of
           Inl (Some e) \<Rightarrow> retE (VerifyInternal e)
         | Inl None \<Rightarrow>
           bindE (step_up_failure env ctx t op (u_id user) ''invalid_passkey'') (\<lambda>_. retE VerifyInvalidCredentials)
         | Inr v \<Rightarrow>
           if v \<noteq> u_id user
           then bindE (step_up_failure env ctx t op (u_id user) ''other_user_passkey'') (\<lambda>_. retE VerifyInvalidCredentials)
           else
           bindE (repo_record_step_up env VerifyInternal hash [WebAuthn] now) (\<lambda>_.
           bindE (step_up_success env ctx t (u_id user)
               (''operation='' @ enum_as_str sensitive_operation_table op @ '' method=webauthn'')) (\<lambda>_. retE VerifyOk))))))"

section \<open>Lemmas\<close>

lemma on_db_Inr [simp]: "on_db m st = (Inr a, st') \<longleftrightarrow> (\<exists>d'. m (fst st) = (Inr a, d') \<and> st' = (d', snd st))"
  by (auto simp: on_db_def split: prod.splits)

lemma step_internal_Inr [simp]: "step_internal F m st = (Inr a, st') \<longleftrightarrow> (\<exists>d'. m (fst st) = (Inr a, d') \<and> st' = (d', snd st))"
  by (auto simp: step_internal_def)

lemma step_call_Inr [simp]: "step_call env op F f st = (Inr a, st') \<longleftrightarrow> e_fault env op = None \<and> f st = (a, st')"
  by (auto simp: step_call_def stateE_def split: option.splits prod.splits)

lemma unwrap_panic_Inr [simp]: "unwrap_panic x d = (Inr a, d') \<longleftrightarrow> x = Some a \<and> d' = d"
  by (cases x) (auto simp: unwrap_panic_def)

definition confirmed_app :: "uuid \<Rightarrow> db \<Rightarrow> bool" where
  "confirmed_app u d \<longleftrightarrow> (\<exists>r. totp_find_by_user_id u (db_authenticators d) = Some r \<and> totp_is_confirmed r)"

lemma user_has_confirmed_totp_Inr: "user_has_confirmed_totp env u d = (Inr b, d') \<Longrightarrow> d' = d \<and> (b \<longleftrightarrow> confirmed_app u d)"
  by (auto simp: user_has_confirmed_totp_def repo_totp_find_def bindE_Inr_iff confirmed_app_def split: option.splits)

lemma has_usable_passkey_Inr: "has_usable_passkey env u d = (Inr b, d') \<Longrightarrow> d' = d"
  by (auto simp: has_usable_passkey_def repo_authn_list_def bindE_Inr_iff)

lemma seconds_value: "duration_seconds n = Some x \<Longrightarrow> x = secs n"
  by (auto simp: duration_seconds_def secs_def split: if_splits)

text \<open>A session is fresh for an operation of its user.\<close>

definition confirmed_for :: "account \<Rightarrow> instant \<Rightarrow> user \<Rightarrow> sso_session \<Rightarrow> sensitive_operation \<Rightarrow> db \<Rightarrow> bool" where
  "confirmed_for ac now user s op d \<longleftrightarrow>
     (\<exists>max_age. ac_step_up_max_age ac (u_tenant_id user) = Inr max_age \<and>
       (if requires_second_factor op \<and> confirmed_app (ss_user_id s) d
        then ss_authentication_strength s = MultiFactor \<and> (\<exists>at. ss_mfa_completed_at s = Some at \<and> now - at \<le> secs (sint max_age))
        else now - ss_auth_time s \<le> secs (sint max_age) \<or> (\<exists>at. ss_step_up_at s = Some at \<and> now - at \<le> secs (sint max_age))))"

lemma evaluate_satisfied:
  assumes "evaluate_step_up s (ss_step_up_at s) (for_operation op max_age (confirmed_app (ss_user_id s) d)) now = Some StepSatisfied"
    and "ac_step_up_max_age ac (u_tenant_id user) = Inr max_age"
  shows "confirmed_for ac now user s op d"
  using assms
  by (auto simp: evaluate_step_up_def for_operation_def confirmed_for_def last_verified_at_def Let_def dest!: seconds_value
      split: if_splits option.splits)

lemma rate_check_attempts: "rate_check ac ctx now d = (Inr b, d') \<Longrightarrow> d' = d\<lparr>db_attempts := db_attempts d'\<rparr>"
  by (auto simp: rate_check_def stateE_def split: option.splits prod.splits)

lemma repo_record_step_up_Inr:
  "repo_record_step_up env F h methods at st = (Inr x, st') \<Longrightarrow>
     st' = ((fst st)\<lparr>db_sso := fst (sso_record_step_up h methods at (db_sso (fst st), snd st))\<rparr>,
       snd (sso_record_step_up h methods at (db_sso (fst st), snd st)))"
  by (cases st) (auto simp: repo_record_step_up_def sso_record_step_up_def Let_def bindE_Inr_iff split: if_splits)

text \<open>The code matched a step the app had not spent, which is spent afterwards.\<close>

definition app_code_spent :: "account \<Rightarrow> instant \<Rightarrow> uuid \<Rightarrow> string \<Rightarrow> db \<Rightarrow> db \<Rightarrow> bool" where
  "app_code_spent ac now u code d d' \<longleftrightarrow>
     (\<exists>r secret n. totp_find_by_user_id u (db_authenticators d) = Some r \<and> totp_is_confirmed r \<and>
        ac_decrypt ac (ts_secret_encrypted r) = Inr secret \<and>
        verify_totp_code (ac_totp_build ac) (ac_totp_clock ac) secret code = Inr (Some n) \<and>
        record_totp_step_if_newer u (int n) now (db_authenticators d) = (True, db_authenticators d'))"

lemma step_up_totp_Inr:
  "step_up_totp env ac now u code d = (Inr (Some True), d') \<Longrightarrow>
     app_code_spent ac now u code d d' \<and> d' = d\<lparr>db_authenticators := db_authenticators d'\<rparr>"
  by (auto simp: step_up_totp_def app_code_spent_def repo_totp_find_def repo_totp_record_step_def bindE_Inr_iff stateE_def
      split: option.splits if_splits prod.splits)

lemma find_updated_session:
  "(\<And>r. ss_session_hash (f r) = ss_session_hash r) \<Longrightarrow> sso_find_by_hash h rows = Some s \<Longrightarrow>
     sso_find_by_hash h (sso_update_where h f rows) = Some (f s)"
  by (induction rows) (auto simp: sso_find_by_hash_def sso_update_where_def)

lemma user_row_id: "user_find_by_id u rows = Some x \<Longrightarrow> u_id x = u"
  by (auto simp: user_find_by_id_def find_Some_iff)

text \<open>What a confirmation leaves on the session.\<close>

definition same_life :: "sso_session \<Rightarrow> sso_session \<Rightarrow> bool" where
  "same_life s s' \<longleftrightarrow> ss_user_id s' = ss_user_id s \<and> (\<forall>n. sso_is_valid_at s' n = sso_is_valid_at s n)"

lemma same_life_updates [simp]:
  "same_life s (s\<lparr>ss_step_up_at := x\<rparr>)"
  "same_life s (s\<lparr>ss_authentication_methods := ms, ss_authentication_strength := st, ss_mfa_completed_at := m, ss_step_up_at := x\<rparr>)"
  by (simp_all add: same_life_def sso_is_valid_at_def)

lemma recorded_session:
  assumes "sso_find_by_hash h rows = Some s"
  shows "\<exists>s'. sso_find_by_hash h (fst (sso_record_step_up h [Password] at (rows, cs))) = Some s' \<and> ss_step_up_at s' = Some at \<and> same_life s s'"
    and "\<exists>s'. sso_find_by_hash h (fst (sso_record_step_up h [Password, Totp] at (rows, cs))) = Some s' \<and> ss_step_up_at s' = Some at \<and> same_life s s'
      \<and> ss_authentication_strength s' = MultiFactor \<and> ss_mfa_completed_at s' = Some at"
proof -
  have m: "from_methods [Password] = SingleFactor" "from_methods [Password, Totp] = MultiFactor" by code_simp+
  show "\<exists>s'. sso_find_by_hash h (fst (sso_record_step_up h [Password] at (rows, cs))) = Some s' \<and> ss_step_up_at s' = Some at \<and> same_life s s'"
    using find_updated_session [OF _ assms, of "\<lambda>r. r\<lparr>ss_step_up_at := Some at\<rparr>"] m by (simp add: sso_record_step_up_def Let_def)
  show "\<exists>s'. sso_find_by_hash h (fst (sso_record_step_up h [Password, Totp] at (rows, cs))) = Some s' \<and> ss_step_up_at s' = Some at \<and> same_life s s'
      \<and> ss_authentication_strength s' = MultiFactor \<and> ss_mfa_completed_at s' = Some at"
    using find_updated_session [OF _ assms, of "\<lambda>r. r\<lparr>ss_authentication_methods := [Password, Totp], ss_authentication_strength := MultiFactor,
      ss_mfa_completed_at := Some at, ss_step_up_at := Some at\<rparr>"] m by (simp add: sso_record_step_up_def Let_def)
qed

lemma record_step_up_elsewhere:
  assumes "sso_find_by_hash h rows = Some s"
  shows "filter (\<lambda>r. ss_session_hash r \<noteq> ss_session_hash s) (fst (sso_record_step_up h methods at (rows, cs)))
    = filter (\<lambda>r. ss_session_hash r \<noteq> ss_session_hash s) rows"
proof -
  have "ss_session_hash s = h" using assms by (auto simp: sso_find_by_hash_def find_Some_iff)
  then show ?thesis by (induction rows) (auto simp: sso_record_step_up_def sso_update_where_def Let_def)
qed

section \<open>Properties\<close>

definition session_user :: "env \<Rightarrow> instant \<Rightarrow> string \<Rightarrow> db \<Rightarrow> sso_session \<Rightarrow> user \<Rightarrow> bool" where
  "session_user env now sid d s user \<longleftrightarrow>
     sso_find_by_hash (sha256_hex (e_lib env) sid) (db_sso d) = Some s \<and> sso_is_valid_at s now \<and>
     user_find_by_id (ss_user_id s) (db_users d) = Some user \<and> user_is_active user"

text \<open>(C22) A sensitive operation is let through only for a live session of an active user and changes nothing.  Registering a
  device or an SSH key needs a passkey used within the last five minutes; managing authenticators or external identities, for a
  user with a confirmed app, needs a session with two factors whose second one is not older than the maximal age of the user's
  home tenant; otherwise the sign-in or a later confirmation has to be that recent.\<close>
theorem sensitive_operation_guarded:
  assumes "step_up_check env ac now sid op (d, contexts) = (Inr CheckSatisfied, st')"
  shows "st' = (d, contexts) \<and> (\<exists>s user. session_user env now sid d s user \<and>
    (if passkey_only op
     then passkey_verified_recently s (sso_passkey_verified_at (sha256_hex (e_lib env) sid) contexts) now
     else confirmed_for ac now user s op d))"
  using assms
  by (auto simp: step_up_check_def Let_def bindE_Inr_iff repo_sso_find_def repo_user_find_def repo_passkey_verified_at_def
      session_user_def dest!: user_has_confirmed_totp_Inr has_usable_passkey_Inr
      split: option.splits if_splits; blast intro: evaluate_satisfied [OF _ sym])

lemma step_up_success_Inr: "step_up_success env ctx t u reason st = (Inr x, st') \<Longrightarrow> same_data (fst st) (fst st') \<and> snd st' = snd st"
  by (auto simp: step_up_success_def dest!: audit_record_same)

lemma finish_step_up_Inr:
  assumes "finish_step_up env ctx now t hash u op methods (d, cs) = (Inr x, d', cs')"
  shows "db_sso d' = fst (sso_record_step_up hash methods now (db_sso d, cs)) \<and> db_authenticators d' = db_authenticators d
    \<and> db_users d' = db_users d"
proof -
  from assms obtain st where "repo_record_step_up env VerifyInternal hash methods now (d, cs) = (Inr (), st)"
    and a: "same_data (fst st) d'"
    by (auto simp: finish_step_up_def bindE_Inr_iff dest!: step_up_success_Inr)
  then have "fst st = d\<lparr>db_sso := fst (sso_record_step_up hash methods now (db_sso d, cs))\<rparr>"
    by (auto dest!: repo_record_step_up_Inr)
  then show ?thesis using log_freeD [of db_sso, OF _ a] log_freeD [of db_authenticators, OF _ a] log_freeD [of db_users, OF _ a] by simp
qed

text \<open>The factors that were given, from the database after the limit to the one before the record.\<close>

definition factors_given :: "account \<Rightarrow> instant \<Rightarrow> user \<Rightarrow> step_up_verify_command \<Rightarrow> db \<Rightarrow> db \<Rightarrow> authentication_method list \<Rightarrow> bool" where
  "factors_given ac now user cmd d1 d2 methods \<longleftrightarrow>
     methods = [Password] \<and> \<not> (requires_second_factor (sv_operation cmd) \<and> confirmed_app (u_id user) d1) \<and> d2 = d1
   \<or> methods = [Password, Totp] \<and> (\<exists>code. sv_totp_code cmd = Some code \<and> app_code_spent ac now (u_id user) code d1 d2)
       \<and> d2 = d1\<lparr>db_authenticators := db_authenticators d2\<rparr>"

lemma step_up_factors_Ok:
  assumes "step_up_factors env ac ctx now t hash user cmd (d1, cs) = (Inr VerifyOk, st)"
  obtains methods d2 where "factors_given ac now user cmd d1 d2 methods"
    "finish_step_up env ctx now t hash (u_id user) (sv_operation cmd) methods (d2, cs) = (Inr VerifyOk, st)"
  using assms
  by (auto simp: step_up_factors_def bindE_Inr_iff for_operation_def given_def factors_given_def
      dest!: user_has_confirmed_totp_Inr dest: step_up_totp_Inr split: if_splits option.splits)

lemma found_then:
  assumes "bindE m (\<lambda>x. case x of None \<Rightarrow> retE e | Some a \<Rightarrow> if \<not> P a then retE e else n a) st = (Inr y, st')" "y \<noteq> e"
  obtains a st1 where "m st = (Inr (Some a), st1)" "P a" "n a st1 = (Inr y, st')"
  using assms by (auto simp: bindE_def split: prod.splits sum.splits option.splits if_splits intro: that)

lemma password_then:
  assumes "bindE m (\<lambda>x. if \<not> x then bindE f (\<lambda>_. retE e) else n) st = (Inr y, st')" "y \<noteq> e"
  obtains st1 where "m st = (Inr True, st1)" "n st1 = (Inr y, st')"
  using assms by (auto simp: bindE_def split: prod.splits sum.splits if_splits intro: that)

lemma limit_then:
  assumes "bindE m (\<lambda>b. if \<not> b then retE e1 else if q then retE e2 else n) st = (Inr y, st')" "y \<noteq> e1" "y \<noteq> e2"
  obtains st1 where "m st = (Inr True, st1)" "\<not> q" "n st1 = (Inr y, st')"
  using assms by (auto simp: bindE_def split: prod.splits sum.splits if_splits intro: that)

lemma step_up_verify_Ok:
  assumes "step_up_verify env ac ctx now t cmd (d, cs) = (Inr VerifyOk, st)"
  obtains s user d1 where "session_user env now (sv_sso_session_id cmd) d1 s user" "\<not> is_locked_at user now"
    "\<not> passkey_only (sv_operation cmd)" "ac_verify ac (sv_password cmd) (u_password_hash user) = Inr True"
    "d1 = d\<lparr>db_attempts := db_attempts d1\<rparr>"
    "step_up_factors env ac ctx now t (sha256_hex (e_lib env) (sv_sso_session_id cmd)) user cmd (d1, cs) = (Inr VerifyOk, st)"
proof -
  let ?hash = "sha256_hex (e_lib env) (sv_sso_session_id cmd)"
  let ?after_user = "\<lambda>user. bindE (step_internal VerifyInternal (liftR (ac_verify ac (sv_password cmd) (u_password_hash user)))) (\<lambda>password_ok.
         if \<not> password_ok
         then bindE (step_up_failure env ctx t (sv_operation cmd) (u_id user) ''invalid_password'') (\<lambda>_. retE VerifyInvalidCredentials)
         else step_up_factors env ac ctx now t ?hash user cmd)"
  let ?after_session = "\<lambda>session. bindE (step_internal VerifyInternal (repo_user_find env (ss_user_id session))) (\<lambda>u.
       case u of None \<Rightarrow> retE VerifySessionExpired
       | Some user \<Rightarrow> if \<not> (user_is_active user \<and> \<not> is_locked_at user now) then retE VerifySessionExpired else ?after_user user)"
  let ?body = "bindE (step_internal VerifyInternal (repo_sso_find env ?hash)) (\<lambda>found.
     case found of None \<Rightarrow> retE VerifySessionExpired
     | Some session \<Rightarrow> if \<not> sso_is_valid_at session now then retE VerifySessionExpired else ?after_session session)"
  have ne: "VerifyOk \<noteq> VerifyRateLimited" "VerifyOk \<noteq> VerifyInvalidCredentials" "VerifyOk \<noteq> VerifySessionExpired" by simp_all
  obtain st0 where st0: "on_db (rate_check ac ctx now :: (db, step_up_verify_outcome exit, bool) action) (d, cs) = (Inr True, st0)"
    and p: "\<not> passkey_only (sv_operation cmd)" and body0: "?body st0 = (Inr VerifyOk, st)"
    by (rule limit_then [OF assms [unfolded step_up_verify_def Let_def] ne(1,2)])
  from st0 obtain d1 where r: "(rate_check ac ctx now :: (db, step_up_verify_outcome exit, bool) action) d = (Inr True, d1)" and "st0 = (d1, cs)" by auto
  with body0 have body: "?body (d1, cs) = (Inr VerifyOk, st)" by simp
  obtain s st1 where s: "step_internal VerifyInternal (repo_sso_find env ?hash) (d1, cs) = (Inr (Some s), st1)"
      "sso_is_valid_at s now" "?after_session s st1 = (Inr VerifyOk, st)"
    by (rule found_then [OF body ne(3)])
  obtain user st2 where u: "step_internal VerifyInternal (repo_user_find env (ss_user_id s)) st1 = (Inr (Some user), st2)"
      "user_is_active user \<and> \<not> is_locked_at user now" "?after_user user st2 = (Inr VerifyOk, st)"
    by (rule found_then [OF s(3) ne(3)])
  obtain st3 where v: "step_internal VerifyInternal (liftR (ac_verify ac (sv_password cmd) (u_password_hash user))) st2 = (Inr True, st3)"
      "step_up_factors env ac ctx now t ?hash user cmd st3 = (Inr VerifyOk, st)"
    by (rule password_then [OF u(3) ne(2)])
  from s(1) u(1) v(1) have "st3 = (d1, cs)" "ac_verify ac (sv_password cmd) (u_password_hash user) = Inr True"
      "session_user env now (sv_sso_session_id cmd) d1 s user"
    using s(2) u(2) by (auto simp: repo_sso_find_def repo_user_find_def session_user_def)
  then show thesis using that p u(2) v(2) rate_check_attempts [OF r] by blast
qed

text \<open>A fresh session is let through, when no database statement fails.\<close>

lemma evaluate_fresh:
  assumes "confirmed_for ac now user s op d" "ac_step_up_max_age ac (u_tenant_id user) = Inr max_age"
    and "duration_seconds (sint max_age) \<noteq> None"
  shows "evaluate_step_up s (ss_step_up_at s) (for_operation op max_age (confirmed_app (ss_user_id s) d)) now = Some StepSatisfied"
  using assms
  by (auto simp: evaluate_step_up_def for_operation_def confirmed_for_def last_verified_at_def Let_def
      dest!: seconds_value split: if_splits option.splits)

lemma step_up_check_satisfied:
  assumes "fault_free env" "session_user env now sid d s user" "\<not> passkey_only op"
    and "ac_step_up_max_age ac (u_tenant_id user) = Inr max_age" "duration_seconds (sint max_age) \<noteq> None"
    and "confirmed_for ac now user s op d"
  shows "step_up_check env ac now sid op (d, cs) = (Inr CheckSatisfied, d, cs)"
proof -
  have t: "user_has_confirmed_totp env (ss_user_id s) d = (Inr (confirmed_app (ss_user_id s) d), d)"
    using assms(1)
    by (auto simp: user_has_confirmed_totp_def repo_totp_find_def bindE_Inr_iff fault_free_def confirmed_app_def split: option.splits)
  show ?thesis
    using assms(1-5) t evaluate_fresh [OF assms(6,4,5)]
    by (simp add: step_up_check_def Let_def bindE_Inr_iff session_user_def repo_sso_find_def repo_user_find_def fault_free_def)
qed

text \<open>(C23) A confirmation with the password succeeds only in a live session, for the active user of it who is not locked, with
  the user's password, never for an operation reserved to passkeys, and, where the operation asks for a second factor and the
  user has a confirmed app, only with a code of the app that is spent by it.  It is recorded on that session alone, and at any
  time within the maximal age at which the session is still valid the check lets the operation through (as long as the database
  answers and the maximal age is a duration the clock library can represent).\<close>
theorem step_up_confirms:
  assumes run: "step_up_verify env ac ctx now t cmd (d, contexts) = (Inr VerifyOk, d', contexts')"
    and age: "ac_step_up_max_age ac (u_tenant_id user) = Inr max_age" "0 \<le> later" "later \<le> secs (sint max_age)"
    and s: "sso_find_by_hash (sha256_hex (e_lib env) (sv_sso_session_id cmd)) (db_sso d) = Some s"
    and u: "user_find_by_id (ss_user_id s) (db_users d) = Some user"
  shows "sso_is_valid_at s now \<and> user_is_active user \<and> \<not> is_locked_at user now \<and> \<not> passkey_only (sv_operation cmd)
    \<and> ac_verify ac (sv_password cmd) (u_password_hash user) = Inr True
    \<and> (requires_second_factor (sv_operation cmd) \<and> confirmed_app (ss_user_id s) d
        \<longrightarrow> (\<exists>code. sv_totp_code cmd = Some code \<and> app_code_spent ac now (ss_user_id s) code d d'))
    \<and> filter (\<lambda>r. ss_session_hash r \<noteq> ss_session_hash s) (db_sso d') = filter (\<lambda>r. ss_session_hash r \<noteq> ss_session_hash s) (db_sso d)
    \<and> (\<exists>s'. sso_find_by_hash (sha256_hex (e_lib env) (sv_sso_session_id cmd)) (db_sso d') = Some s' \<and> ss_user_id s' = ss_user_id s
         \<and> confirmed_for ac (now + later) user s' (sv_operation cmd) d')
    \<and> (fault_free env \<and> sso_is_valid_at s (now + later) \<and> duration_seconds (sint max_age) \<noteq> None
        \<longrightarrow> step_up_check env ac (now + later) (sv_sso_session_id cmd) (sv_operation cmd) (d', contexts')
              = (Inr CheckSatisfied, d', contexts'))"
proof -
  let ?hash = "sha256_hex (e_lib env) (sv_sso_session_id cmd)"
  obtain s1 user1 d1 where o: "session_user env now (sv_sso_session_id cmd) d1 s1 user1" "\<not> is_locked_at user1 now"
      "\<not> passkey_only (sv_operation cmd)" "ac_verify ac (sv_password cmd) (u_password_hash user1) = Inr True"
      "d1 = d\<lparr>db_attempts := db_attempts d1\<rparr>"
      "step_up_factors env ac ctx now t ?hash user1 cmd (d1, contexts) = (Inr VerifyOk, d', contexts')"
    by (rule step_up_verify_Ok [OF run])
  from o(5) have same: "db_sso d1 = db_sso d" "db_users d1 = db_users d" "db_authenticators d1 = db_authenticators d"
    by (metis db.select_convs db.update_convs db.surjective)+
  with o(1) s u have eq: "s1 = s" "user1 = user" by (auto simp: session_user_def)
  have id: "u_id user = ss_user_id s" by (rule user_row_id [OF u])
  obtain methods d2 where g: "factors_given ac now user cmd d1 d2 methods"
      and f: "finish_step_up env ctx now t ?hash (u_id user) (sv_operation cmd) methods (d2, contexts) = (Inr VerifyOk, d', contexts')"
    using step_up_factors_Ok [OF o(6) [unfolded eq]] by blast
  from g have d2: "db_sso d2 = db_sso d" using same by (auto simp: factors_given_def) (metis db.select_convs db.update_convs db.surjective)
  have d': "db_sso d' = fst (sso_record_step_up ?hash methods now (db_sso d, contexts))" "db_authenticators d' = db_authenticators d2"
    "db_users d' = db_users d"
    using finish_step_up_Inr [OF f] d2 same(2) g by (auto simp: factors_given_def) (metis db.select_convs db.update_convs db.surjective)
  have others: "filter (\<lambda>r. ss_session_hash r \<noteq> ss_session_hash s) (db_sso d') = filter (\<lambda>r. ss_session_hash r \<noteq> ss_session_hash s) (db_sso d)"
    unfolding d'(1) by (rule record_step_up_elsewhere [OF s])
  have confirmed: "confirmed_for ac (now + later) user s' (sv_operation cmd) d'"
    if "ss_step_up_at s' = Some now" "ss_user_id s' = ss_user_id s"
      "methods = [Password, Totp] \<longrightarrow> ss_authentication_strength s' = MultiFactor \<and> ss_mfa_completed_at s' = Some now" for s'
    using g that age same(3) d'(2) id by (auto simp: confirmed_for_def factors_given_def confirmed_app_def)
  have "\<exists>s'. sso_find_by_hash ?hash (db_sso d') = Some s' \<and> same_life s s' \<and> confirmed_for ac (now + later) user s' (sv_operation cmd) d'"
    using g recorded_session [OF s, of now contexts] unfolding d'(1) factors_given_def by (auto simp: same_life_def intro!: confirmed)
  then obtain s' where s': "sso_find_by_hash ?hash (db_sso d') = Some s'" "same_life s s'"
      "confirmed_for ac (now + later) user s' (sv_operation cmd) d'" by blast
  have "step_up_check env ac (now + later) (sv_sso_session_id cmd) (sv_operation cmd) (d', contexts') = (Inr CheckSatisfied, d', contexts')"
    if "fault_free env" "sso_is_valid_at s (now + later)" "duration_seconds (sint max_age) \<noteq> None"
  proof -
    have "session_user env (now + later) (sv_sso_session_id cmd) d' s' user"
      using s'(1,2) that(2) u o(1) d'(3) unfolding eq by (simp add: session_user_def same_life_def)
    then show ?thesis by (rule step_up_check_satisfied [OF that(1) _ o(3) age(1) that(3) s'(3)])
  qed
  moreover have "ss_user_id s' = ss_user_id s" using s'(2) by (simp add: same_life_def)
  moreover have "\<exists>code. sv_totp_code cmd = Some code \<and> app_code_spent ac now (ss_user_id s) code d d'"
    if "requires_second_factor (sv_operation cmd) \<and> confirmed_app (ss_user_id s) d"
    using g that same(3) d'(2) id by (auto simp: factors_given_def app_code_spent_def confirmed_app_def)
  ultimately show ?thesis using o(1-4) others s'(1,3) unfolding eq session_user_def by blast
qed

section \<open>A confirmation in the sample deployment\<close>

definition step_cmd :: step_up_verify_command where
  "step_cmd = \<lparr>sv_sso_session_id = ''z'', sv_operation = OpManageAuthenticators, sv_password = ''secret'', sv_totp_code = Some ''123456''\<rparr>"

definition step_db :: "authenticator_status \<Rightarrow> db" where
  "step_db st = (login_db login_user [app_row 30 st])\<lparr>db_sso := [flow_sso\<lparr>ss_session_hash := ''z''\<rparr>]\<rparr>"

definition step_run :: "authenticator_status \<Rightarrow> (step_up_verify_outcome exit + step_up_verify_outcome) \<times> step_state" where
  "step_run st = step_up_verify token_env sample_account token_ctx 120 1 step_cmd (step_db st, [])"

text \<open>The runs of the sample, evaluated together.\<close>

lemma sample_runs:
  "fst (step_run StActive) = Inr VerifyOk
   \<and> fst (step_up_check token_env sample_account 120 ''z'' OpManageAuthenticators (snd (step_run StActive))) = Inr CheckSatisfied
   \<and> fst (step_run StSuspended) = Inr VerifyOk
   \<and> fst (verify_second_factor token_env sample_account token_ctx 1 9 ''123456'' (step_db StSuspended)) = Inr None"
  by code_simp

lemmas sample_step_up = sample_runs [THEN conjunct1]
lemmas sample_step_up_checked = sample_runs [THEN conjunct2, THEN conjunct1]
lemmas suspended_runs = sample_runs [THEN conjunct2, THEN conjunct2]

theorem step_up_confirms_witness:
  "\<exists>s'. sso_find_by_hash ''z'' (db_sso (fst (snd (step_run StActive)))) = Some s'
     \<and> confirmed_for sample_account (120 + secs 300) login_user s' OpManageAuthenticators (fst (snd (step_run StActive)))"
proof -
  let ?d = "step_db StActive"
  obtain d' cs' where r: "step_run StActive = (Inr VerifyOk, d', cs')" using sample_step_up by (metis prod.collapse)
  have h: "sha256_hex (e_lib token_env) (sv_sso_session_id step_cmd) = ''z''"
    by (simp add: sha256_hex_def token_env_def toy_crypto_def step_cmd_def)
  have s: "sso_find_by_hash (sha256_hex (e_lib token_env) (sv_sso_session_id step_cmd)) (db_sso ?d) = Some (flow_sso\<lparr>ss_session_hash := ''z''\<rparr>)"
    by (simp add: h step_db_def sso_find_by_hash_def)
  have u: "user_find_by_id (ss_user_id (flow_sso\<lparr>ss_session_hash := ''z''\<rparr>)) (db_users ?d) = Some login_user"
    by code_simp
  have age: "ac_step_up_max_age sample_account (u_tenant_id login_user) = Inr 300" "0 \<le> secs 300" "secs 300 \<le> secs (sint (300 :: 64 word))"
    by (simp_all add: sample_account_def secs_def nanos_per_sec_def)
  have op: "sv_operation step_cmd = OpManageAuthenticators" by (simp add: step_cmd_def)
  from step_up_confirms [OF r [unfolded step_run_def] age s u] show ?thesis unfolding r fst_conv snd_conv h op by blast
qed

theorem sensitive_operation_guarded_witness:
  "\<exists>s user. session_user token_env 120 ''z'' (fst (snd (step_run StActive))) s user
     \<and> confirmed_for sample_account 120 user s OpManageAuthenticators (fst (snd (step_run StActive)))"
proof -
  obtain d cs where st: "snd (step_run StActive) = (d, cs)" by fastforce
  obtain st' where c: "step_up_check token_env sample_account 120 ''z'' OpManageAuthenticators (d, cs) = (Inr CheckSatisfied, st')"
    using sample_step_up_checked unfolding st by (metis prod.collapse)
  from sensitive_operation_guarded [OF c] show ?thesis unfolding st by (simp add: passkey_only_def)
qed

text \<open>A suspended app, whose codes the sign-in refuses, still confirms.\<close>

lemma suspended_app_confirms:
  "fst (step_run StSuspended) = Inr VerifyOk
   \<and> fst (verify_second_factor token_env sample_account token_ctx 1 9 ''123456'' (step_db StSuspended)) \<noteq> Inr (Some Totp)"
  using suspended_runs by simp

end
