(* ===== verification/Permission_Management.thy ===== *)
theory Permission_Management
  imports Login_Flow Token_Samples
begin

text \<open>
  Granting and revoking permissions of users (\<open>application/permission_management.rs\<close>) and of clients
  (\<open>application/client_permission_management.rs\<close>), the guard in front of the administrative operations
  (\<open>application/admin_account_guard.rs\<close>), the resolution of the codes of a session
  (\<open>application/admin_access.rs\<close>) and the handlers that compose them (\<open>handlers/admin_permissions.rs\<close>,
  \<open>handlers/admin_client_permissions.rs\<close>).

  A handler receives the tenant of the path, the codes \<open>held\<close> by the verified management token and its principal \<open>actor\<close>;
  the extractor \<open>RequirePerms\<close> is its first condition.
\<close>

section \<open>Repository calls\<close>

definition find_root :: "tenant list \<Rightarrow> tenant option" where
  "find_root tenants = find (\<lambda>t. t_parent_tenant_id t = None) tenants"

definition repo_find_root :: "env \<Rightarrow> (db, domain_error, tenant option) action" where
  "repo_find_root env = db_query env ''tenants.find_root'' (\<lambda>d. find_root (db_tenants d))"

definition repo_available_codes :: "env \<Rightarrow> (db, domain_error, string list) action" where
  "repo_available_codes env = db_query env ''permissions.list_available_codes'' (\<lambda>d. sort_key (e_ci env) (db_permission_codes d))"

definition repo_permission_list :: "env \<Rightarrow> tenant_id \<Rightarrow> uuid \<Rightarrow> (db, domain_error, string list) action" where
  "repo_permission_list env t u = db_query env ''permissions.list_codes_for_user'' (\<lambda>d. permission_list_codes t u (db_user_permissions d))"

definition repo_permission_scoped :: "env \<Rightarrow> uuid \<Rightarrow> (db, domain_error, (tenant_id \<times> string) list) action" where
  "repo_permission_scoped env u = db_query env ''permissions.list_scoped_codes_for_user'' (\<lambda>d. permission_list_scoped u (db_user_permissions d))"

definition repo_permission_has :: "env \<Rightarrow> tenant_id \<Rightarrow> uuid \<Rightarrow> string \<Rightarrow> (db, domain_error, bool) action" where
  "repo_permission_has env t u code = db_query env ''permissions.has_permission''
     (\<lambda>d. permission_has (e_ci env) t u code (db_user_permissions d))"

definition repo_permission_grant :: "env \<Rightarrow> tenant_id \<Rightarrow> uuid \<Rightarrow> string \<Rightarrow> instant \<Rightarrow> (db, domain_error, unit) action" where
  "repo_permission_grant env t u code granted_at = db_call env ''permissions.grant''
     (tryStateE (\<lambda>d. rbind (permission_grant (e_ci env) (db_permission_codes d) (db_users d) (db_tenants d)
          (map_option t_id (find_root (db_tenants d))) t u code granted_at (db_user_permissions d))
        (\<lambda>rows. Inr (d\<lparr>db_user_permissions := rows\<rparr>))))"

definition repo_permission_revoke :: "env \<Rightarrow> tenant_id \<Rightarrow> uuid \<Rightarrow> string \<Rightarrow> (db, domain_error, unit) action" where
  "repo_permission_revoke env t u code = db_call env ''permissions.revoke''
     (modifyE (\<lambda>d. d\<lparr>db_user_permissions := permission_revoke (e_ci env) t u code (db_user_permissions d)\<rparr>))"

definition repo_client_permission_grant :: "env \<Rightarrow> uuid \<Rightarrow> string \<Rightarrow> (db, domain_error, unit) action" where
  "repo_client_permission_grant env c code = db_call env ''client_permissions.grant''
     (tryStateE (\<lambda>d. rbind (client_permission_grant (e_ci env) (db_permission_codes d) (db_clients d) c code (db_client_permissions d))
        (\<lambda>rows. Inr (d\<lparr>db_client_permissions := rows\<rparr>))))"

definition repo_client_permission_revoke :: "env \<Rightarrow> uuid \<Rightarrow> string \<Rightarrow> (db, domain_error, unit) action" where
  "repo_client_permission_revoke env c code = db_call env ''client_permissions.revoke''
     (modifyE (\<lambda>d. d\<lparr>db_client_permissions := client_permission_revoke (e_ci env) c code (db_client_permissions d)\<rparr>))"

definition repo_client_assignments :: "env \<Rightarrow> tenant_id \<Rightarrow> uuid \<Rightarrow> (db, domain_error, application_assignment list) action" where
  "repo_client_assignments env t c = db_query env ''applications.list_account_assignments''
     (\<lambda>d. filter (\<lambda>x. asg_principal x = ServiceAccount c
        \<and> list_ex (\<lambda>a. ap_id a = asg_application_id x \<and> ap_tenant a = t) (db_applications d)) (db_assignments d))"

section \<open>Permissions of users\<close>

datatype permission_error =
    PmValidation message_key
  | PmNotFound
  | PmForbidden message_key
  | PmInternal string

definition pm_internal :: "(db, domain_error, 'a) action \<Rightarrow> (db, permission_error, 'a) action" where
  "pm_internal m = mapErrE (\<lambda>e. PmInternal (error_display e)) m"

fun pm_repo_error :: "domain_error \<Rightarrow> permission_error" where
  "pm_repo_error (InvalidValue s) = PmValidation (message_new ''api-permission-unknown'')"
| "pm_repo_error e = PmInternal (error_display e)"

definition pm_find_user :: "env \<Rightarrow> uuid \<Rightarrow> (db, permission_error, user option) action" where
  "pm_find_user env u = pm_internal (repo_user_find env u)"

definition pm_available_codes :: "env \<Rightarrow> (db, permission_error, string list) action" where
  "pm_available_codes env = pm_internal (repo_available_codes env)"

definition pm_get_user :: "env \<Rightarrow> tenant_id \<Rightarrow> uuid \<Rightarrow> (db, permission_error, user) action" where
  "pm_get_user env t target =
     bindE (pm_find_user env target) (\<lambda>found.
     case found of Some u \<Rightarrow> if u_tenant_id u = t then retE u else failE PmNotFound | None \<Rightarrow> failE PmNotFound)"

definition ensure_user_in_tenant :: "env \<Rightarrow> tenant_id \<Rightarrow> uuid \<Rightarrow> (db, permission_error, unit) action" where
  "ensure_user_in_tenant env t target =
     bindE (pm_find_user env target) (\<lambda>found.
     bindE (if found \<noteq> None then pm_internal (repo_is_active_member env t target) else retE False) (\<lambda>active_member.
     if active_member then retE () else failE PmNotFound))"

definition required_root :: "env \<Rightarrow> (db, permission_error, tenant) action" where
  "required_root env =
     bindE (pm_internal (repo_find_root env)) (\<lambda>root. liftR (ok_or (PmInternal ''root tenant not found'') root))"

definition ensure_root_scoped_code_stays_in_root :: "env \<Rightarrow> tenant_id \<Rightarrow> string \<Rightarrow> (db, permission_error, unit) action" where
  "ensure_root_scoped_code_stays_in_root env t code =
     (if \<not> is_root_scoped code then retE ()
      else bindE (required_root env) (\<lambda>root.
        if t = t_id root then retE () else failE (PmForbidden (message_new ''api-permission-insufficient''))))"

definition ensure_system_admin_change_allowed ::
  "env \<Rightarrow> tenant_id \<Rightarrow> string \<Rightarrow> admin_actor \<Rightarrow> (db, permission_error, unit) action" where
  "ensure_system_admin_change_allowed env t code actor =
     (if code \<noteq> system_admin then retE ()
      else case actor_user_id actor of
        None \<Rightarrow> failE (PmForbidden (message_new ''api-permission-system-admin-forbidden''))
      | Some u \<Rightarrow>
        bindE (required_root env) (\<lambda>root.
        if t \<noteq> t_id root then failE (PmForbidden (message_new ''api-permission-system-admin-root-only''))
        else bindE (pm_internal (repo_permission_has env (t_id root) u system_admin)) (\<lambda>has.
          if has then retE () else failE (PmForbidden (message_new ''api-permission-system-admin-forbidden'')))))"

definition pm_list :: "env \<Rightarrow> tenant_id \<Rightarrow> uuid \<Rightarrow> (db, permission_error, string list) action" where
  "pm_list env t target = bindE (ensure_user_in_tenant env t target) (\<lambda>_. pm_internal (repo_permission_list env t target))"

definition pm_audit_reason :: "env \<Rightarrow> string \<Rightarrow> uuid \<Rightarrow> string" where
  "pm_audit_reason env code target = ''permission='' @ code @ '' target='' @ e_uuid_str env target"

definition pm_parse :: "string \<Rightarrow> permission_error + string" where
  "pm_parse code = map_err (\<lambda>_. PmValidation (message_new ''api-permission-unknown'')) (permission_code_parse code)"

definition pm_grant ::
  "env \<Rightarrow> request_context \<Rightarrow> tenant_id \<Rightarrow> uuid \<Rightarrow> string \<Rightarrow> admin_actor \<Rightarrow> (db, permission_error, string list) action" where
  "pm_grant env ctx t target raw actor =
     bindE (liftR (pm_parse raw)) (\<lambda>code.
     bindE (ensure_user_in_tenant env t target) (\<lambda>_.
     bindE (ensure_system_admin_change_allowed env t code actor) (\<lambda>_.
     bindE (ensure_root_scoped_code_stays_in_root env t code) (\<lambda>_.
     bindE (mapErrE pm_repo_error (repo_permission_grant env t target code (e_now env))) (\<lambda>_.
     bindE (audit_record env ctx ''user_permission.granted'' AuditSuccess (Some t) (actor_user_id actor) (actor_client_id actor)
              (Some (pm_audit_reason env code target))) (\<lambda>_.
     pm_list env t target))))))"

definition pm_revoke ::
  "env \<Rightarrow> request_context \<Rightarrow> tenant_id \<Rightarrow> uuid \<Rightarrow> string \<Rightarrow> admin_actor \<Rightarrow> (db, permission_error, string list) action" where
  "pm_revoke env ctx t target raw actor =
     bindE (liftR (pm_parse raw)) (\<lambda>code.
     bindE (ensure_user_in_tenant env t target) (\<lambda>_.
     bindE (ensure_system_admin_change_allowed env t code actor) (\<lambda>_.
     bindE (mapErrE pm_repo_error (repo_permission_revoke env t target code)) (\<lambda>_.
     bindE (audit_record env ctx ''user_permission.revoked'' AuditSuccess (Some t) (actor_user_id actor) (actor_client_id actor)
              (Some (pm_audit_reason env code target))) (\<lambda>_.
     pm_list env t target)))))"

section \<open>Permissions of clients\<close>

datatype client_permission_error = CpNotFound | CpInvalid message_key | CpInternal string

fun cp_repo_error :: "domain_error \<Rightarrow> client_permission_error" where
  "cp_repo_error (InvalidValue s) = CpInvalid (message_new ''api-client-permission-not-grantable'')"
| "cp_repo_error e = CpInternal (error_display e)"

definition cp_load_client :: "env \<Rightarrow> tenant_id \<Rightarrow> string \<Rightarrow> (db, client_permission_error, client) action" where
  "cp_load_client env t client_id =
     bindE (mapErrE (\<lambda>e. CpInternal (error_display e)) (repo_client_find env t client_id)) (\<lambda>found.
     case found of Some c \<Rightarrow> if \<not> client_is_deleted c then retE c else failE CpNotFound | None \<Rightarrow> failE CpNotFound)"

definition cp_parse_code :: "string \<Rightarrow> client_permission_error + string" where
  "cp_parse_code raw = map_err (\<lambda>_. CpInvalid (message_new ''api-permission-code-required'')) (permission_code_parse (trim raw))"

definition cp_audit_reason :: "string \<Rightarrow> admin_actor \<Rightarrow> string" where
  "cp_audit_reason code actor =
     (case actor_audit_note actor of Some note \<Rightarrow> ''permission='' @ code @ '' '' @ note | None \<Rightarrow> ''permission='' @ code)"

definition cp_list :: "env \<Rightarrow> tenant_id \<Rightarrow> string \<Rightarrow> (db, client_permission_error, string list) action" where
  "cp_list env t client_id =
     bindE (cp_load_client env t client_id) (\<lambda>c.
     bindE (mapErrE cp_repo_error (repo_client_permissions env (c_id c))) (\<lambda>codes. retE (sort codes)))"

definition cp_grant ::
  "env \<Rightarrow> request_context \<Rightarrow> tenant_id \<Rightarrow> bool \<Rightarrow> string \<Rightarrow> string \<Rightarrow> admin_actor
   \<Rightarrow> (db, client_permission_error, string list) action" where
  "cp_grant env ctx t in_root client_id raw actor =
     bindE (liftR (cp_parse_code raw)) (\<lambda>code.
     bindE (cp_load_client env t client_id) (\<lambda>c.
     bindE (guardE (is_grantable_to_client code) (CpInvalid (message_new ''api-client-permission-not-grantable''))) (\<lambda>_.
     bindE (guardE (is_grantable_in_tenant code in_root) (CpInvalid (message_new ''api-client-permission-not-grantable''))) (\<lambda>_.
     bindE (mapErrE cp_repo_error (repo_client_permission_grant env (c_id c) code)) (\<lambda>_.
     bindE (audit_record env ctx ''client_permission.granted'' AuditSuccess (Some t) (actor_user_id actor) (Some (c_client_id c))
              (Some (cp_audit_reason code actor))) (\<lambda>_.
     cp_list env t client_id))))))"

definition cp_revoke ::
  "env \<Rightarrow> request_context \<Rightarrow> tenant_id \<Rightarrow> string \<Rightarrow> string \<Rightarrow> admin_actor \<Rightarrow> (db, client_permission_error, string list) action" where
  "cp_revoke env ctx t client_id raw actor =
     bindE (liftR (cp_parse_code raw)) (\<lambda>code.
     bindE (cp_load_client env t client_id) (\<lambda>c.
     bindE (mapErrE cp_repo_error (repo_client_permission_revoke env (c_id c) code)) (\<lambda>_.
     bindE (audit_record env ctx ''client_permission.revoked'' AuditSuccess (Some t) (actor_user_id actor) (Some (c_client_id c))
              (Some (cp_audit_reason code actor))) (\<lambda>_.
     cp_list env t client_id))))"

section \<open>The guard of accounts\<close>

datatype guard_error = GuardForbidden | GuardInternal string

definition guard_internal :: "(db, domain_error, 'a) action \<Rightarrow> (db, guard_error, 'a) action" where
  "guard_internal m = mapErrE (\<lambda>e. GuardInternal (error_display e)) m"

definition guard_decide :: "string list \<Rightarrow> held_by_target list \<Rightarrow> bool \<Rightarrow> guard_error + unit" where
  "guard_decide held target in_root = (if may_manage_account held target in_root then Inr () else Inl GuardForbidden)"

definition ensure_may_assign :: "string list \<Rightarrow> string \<Rightarrow> bool \<Rightarrow> guard_error + unit" where
  "ensure_may_assign held code in_root =
     (if code = system_admin \<or> may_assign held code in_root then Inr () else Inl GuardForbidden)"

definition ensure_may_manage_account ::
  "env \<Rightarrow> tenant_id \<Rightarrow> bool \<Rightarrow> string list \<Rightarrow> uuid \<Rightarrow> (db, guard_error, unit) action" where
  "ensure_may_manage_account env t in_root held target =
     bindE (guard_internal (repo_user_find env target)) (\<lambda>found.
     if map_option u_tenant_id found \<noteq> Some t then retE ()
     else
     bindE (guard_internal (repo_permission_scoped env target)) (\<lambda>scoped.
     bindE (guard_internal (repo_find_root env)) (\<lambda>root.
     bindE (liftR (ok_or (GuardInternal ''root tenant not found'') root)) (\<lambda>root.
     liftR (guard_decide held
       (map (\<lambda>(scope, code). \<lparr>hb_code = code,
          hb_scope = (if scope = t then RequestedTenant else if scope = t_id root then RootTenant else OtherTenant)\<rparr>) scoped)
       in_root)))))"

definition requested_codes :: "string list \<Rightarrow> held_by_target list" where
  "requested_codes codes = map (\<lambda>code. \<lparr>hb_code = code, hb_scope = RequestedTenant\<rparr>) codes"

definition ensure_may_manage_client ::
  "env \<Rightarrow> tenant_id \<Rightarrow> bool \<Rightarrow> string list \<Rightarrow> string \<Rightarrow> (db, guard_error, unit) action" where
  "ensure_may_manage_client env t in_root held client_id =
     bindE (guard_internal (repo_client_find env t client_id)) (\<lambda>found.
     case found of None \<Rightarrow> retE ()
     | Some c \<Rightarrow>
       bindE (guard_internal (repo_client_permissions env (c_id c))) (\<lambda>codes.
       bindE (liftR (guard_decide held (requested_codes codes) in_root)) (\<lambda>_.
       if perms_satisfy held applications_write then retE ()
       else bindE (guard_internal (repo_client_assignments env t (c_id c))) (\<lambda>assignments.
         if assignments = [] then retE () else failE GuardForbidden))))"

definition ensure_may_manage_membership ::
  "env \<Rightarrow> tenant_id \<Rightarrow> bool \<Rightarrow> string list \<Rightarrow> uuid \<Rightarrow> (db, guard_error, unit) action" where
  "ensure_may_manage_membership env t in_root held target =
     bindE (guard_internal (repo_permission_list env t target)) (\<lambda>codes.
     liftR (guard_decide held (requested_codes codes) in_root))"

section \<open>The codes of a session\<close>

record management_grant =
  mg_user_id :: uuid
  mg_name :: "string option"
  mg_preferred_username :: "string option"
  mg_permission_codes :: "string list"

definition resolve_session_user :: "env \<Rightarrow> string option \<Rightarrow> (db, 'e, user option) action" where
  "resolve_session_user env sid =
     (case (case sid of Some s \<Rightarrow> if s = [] then None else Some s | None \<Rightarrow> None) of None \<Rightarrow> retE None
      | Some session_id \<Rightarrow>
        bindE (tryE (repo_sso_find env (sha256_hex (e_lib env) session_id))) (\<lambda>found.
        case found of
          Inr (Some session) \<Rightarrow>
            if \<not> sso_is_valid_at session (e_now env) then retE None
            else bindE (tryE (repo_user_find env (ss_user_id session))) (\<lambda>u.
              case u of Inr (Some user) \<Rightarrow> retE (if user_is_active user then Some user else None) | _ \<Rightarrow> retE None)
        | _ \<Rightarrow> retE None))"

definition resolve_session_grant :: "env \<Rightarrow> tenant_id \<Rightarrow> string option \<Rightarrow> (db, 'e, management_grant option) action" where
  "resolve_session_grant env t sid =
     bindE (resolve_session_user env sid) (\<lambda>found.
     case found of None \<Rightarrow> retE None
     | Some user \<Rightarrow>
       bindE (tryE (repo_is_active_member env t (u_id user))) (\<lambda>active_member.
       bindE (if active_member = Inr True then tryE (repo_permission_list env t (u_id user)) else retE (Inr [])) (\<lambda>codes.
       retE (Some \<lparr>mg_user_id = u_id user, mg_name = u_name user, mg_preferred_username = u_preferred_username user,
                   mg_permission_codes = (case codes of Inr cs \<Rightarrow> cs | Inl _ \<Rightarrow> [])\<rparr>))))"

definition authenticated_user :: "env \<Rightarrow> string option \<Rightarrow> (db, 'e, uuid option) action" where
  "authenticated_user env sid = bindE (resolve_session_user env sid) (\<lambda>u. retE (map_option u_id u))"

text \<open>The codes travel in the claim \<open>perms\<close> of the management token, separated by blanks.\<close>

definition perms_claim :: "string list \<Rightarrow> string" where
  "perms_claim codes = join '' '' codes"

definition held_codes :: "string option \<Rightarrow> string list" where
  "held_codes perms = split_whitespace (case perms of None \<Rightarrow> [] | Some s \<Rightarrow> s)"

section \<open>Handlers\<close>

datatype admin_error =
    AdminForbidden
  | AdminGuard guard_error
  | AdminPermission permission_error
  | AdminClientPermission client_permission_error

definition require_perms :: "string list \<Rightarrow> string \<Rightarrow> tenant \<Rightarrow> admin_error + unit" where
  "require_perms held code tenant =
     (if perms_satisfy held code \<and> (code \<noteq> system_admin \<or> tenant_is_root tenant) then Inr () else Inl AdminForbidden)"

definition list_available_permissions ::
  "env \<Rightarrow> tenant \<Rightarrow> string list \<Rightarrow> string option \<Rightarrow> (db, admin_error, string list) action" where
  "list_available_permissions env tenant held grantable_to =
     bindE (liftR (require_perms held permissions_read tenant)) (\<lambda>_.
     bindE (mapErrE AdminPermission (pm_available_codes env)) (\<lambda>codes.
     let in_root = tenant_is_root tenant;
         codes = filter (\<lambda>c. may_assign held c in_root) (filter (\<lambda>c. is_grantable_in_tenant c in_root) codes)
     in retE (if grantable_to = Some ''client'' then filter is_grantable_to_client codes else codes)))"

definition list_permissions :: "env \<Rightarrow> tenant \<Rightarrow> string list \<Rightarrow> uuid \<Rightarrow> (db, admin_error, string list) action" where
  "list_permissions env tenant held target =
     bindE (liftR (require_perms held permissions_read tenant)) (\<lambda>_. mapErrE AdminPermission (pm_list env (t_id tenant) target))"

definition grant_permission ::
  "env \<Rightarrow> request_context \<Rightarrow> tenant \<Rightarrow> string list \<Rightarrow> admin_actor \<Rightarrow> uuid \<Rightarrow> string \<Rightarrow> (db, admin_error, string list) action" where
  "grant_permission env ctx tenant held actor target code =
     bindE (liftR (require_perms held permissions_write tenant)) (\<lambda>_.
     bindE (liftR (map_err AdminGuard (ensure_may_assign held (trim code) (tenant_is_root tenant)))) (\<lambda>_.
     mapErrE AdminPermission (pm_grant env ctx (t_id tenant) target code actor)))"

definition revoke_permission ::
  "env \<Rightarrow> request_context \<Rightarrow> tenant \<Rightarrow> string list \<Rightarrow> admin_actor \<Rightarrow> uuid \<Rightarrow> string \<Rightarrow> (db, admin_error, string list) action" where
  "revoke_permission env ctx tenant held actor target code =
     bindE (liftR (require_perms held permissions_write tenant)) (\<lambda>_.
     bindE (liftR (map_err AdminGuard (ensure_may_assign held (trim code) (tenant_is_root tenant)))) (\<lambda>_.
     mapErrE AdminPermission (pm_revoke env ctx (t_id tenant) target code actor)))"

definition grant_client_permission ::
  "env \<Rightarrow> request_context \<Rightarrow> tenant \<Rightarrow> string list \<Rightarrow> admin_actor \<Rightarrow> string \<Rightarrow> string \<Rightarrow> (db, admin_error, string list) action" where
  "grant_client_permission env ctx tenant held actor client_id code =
     bindE (liftR (require_perms held clients_write tenant)) (\<lambda>_.
     bindE (liftR (map_err AdminGuard (ensure_may_assign held (trim code) (tenant_is_root tenant)))) (\<lambda>_.
     mapErrE AdminClientPermission (cp_grant env ctx (t_id tenant) (tenant_is_root tenant) client_id code actor)))"

definition revoke_client_permission ::
  "env \<Rightarrow> request_context \<Rightarrow> tenant \<Rightarrow> string list \<Rightarrow> admin_actor \<Rightarrow> string \<Rightarrow> string \<Rightarrow> (db, admin_error, string list) action" where
  "revoke_client_permission env ctx tenant held actor client_id code =
     bindE (liftR (require_perms held clients_write tenant)) (\<lambda>_.
     bindE (liftR (map_err AdminGuard (ensure_may_assign held (trim code) (tenant_is_root tenant)))) (\<lambda>_.
     mapErrE AdminClientPermission (cp_revoke env ctx (t_id tenant) client_id code actor)))"

section \<open>What the checks read\<close>

lemmas permission_reads_defs = repo_find_root_def repo_permission_list_def repo_permission_has_def

lemma reads_permission_checks [action_inv]:
  "reads (ensure_user_in_tenant env t u)" "reads (ensure_system_admin_change_allowed env t code actor)"
  "reads (ensure_root_scoped_code_stays_in_root env t code)"
  unfolding ensure_user_in_tenant_def ensure_system_admin_change_allowed_def ensure_root_scoped_code_stays_in_root_def
    required_root_def pm_find_user_def pm_internal_def permission_reads_defs
  by (intro action_inv)+

lemma keeps_pm_list [action_inv]: "keeps f (pm_list env t u)"
  unfolding pm_list_def pm_internal_def permission_reads_defs
  by (intro action_inv keeps_reads [OF reads_permission_checks(1)])

lemma ensure_user_in_tenant_Inr:
  "ensure_user_in_tenant env t u d = (Inr (), d') \<Longrightarrow>
     d' = d \<and> is_active_member t u (db_memberships d) (db_users d) (db_tenants d)"
  by (auto simp: ensure_user_in_tenant_def pm_find_user_def pm_internal_def repo_is_active_member_def repo_user_find_def
      bindE_Inr_iff split: if_splits)

lemma required_root_Inr: "required_root env d = (Inr root, d') \<longleftrightarrow>
    e_fault env ''tenants.find_root'' = None \<and> find_root (db_tenants d) = Some root \<and> d' = d"
  by (auto simp: required_root_def pm_internal_def repo_find_root_def bindE_Inr_iff)

lemma ensure_system_admin_Inr:
  "ensure_system_admin_change_allowed env t code actor d = (Inr (), d') \<Longrightarrow>
     code \<noteq> system_admin \<or> (\<exists>root u. find_root (db_tenants d) = Some root \<and> t_id root = t \<and> actor_user_id actor = Some u \<and>
       permission_has (e_ci env) t u system_admin (db_user_permissions d))"
  by (auto simp: ensure_system_admin_change_allowed_def required_root_Inr pm_internal_def repo_permission_has_def
      bindE_Inr_iff split: if_splits option.splits)

lemma ensure_root_scoped_Inr:
  "ensure_root_scoped_code_stays_in_root env t code d = (Inr (), d') \<Longrightarrow>
     is_root_scoped code \<Longrightarrow> \<exists>root. find_root (db_tenants d) = Some root \<and> t_id root = t"
  by (auto simp: ensure_root_scoped_code_stays_in_root_def required_root_Inr bindE_Inr_iff split: if_splits)

lemma actor_user_id_Some: "actor_user_id actor = Some u \<longleftrightarrow> actor = ActorUser u"
  by (cases actor) auto

text \<open>A grant that changes the table has passed every check, and the statement is all that changes it.\<close>

lemma pm_grant_changes:
  assumes run: "pm_grant env ctx t target raw actor d = (r, d')" and new: "db_user_permissions d' \<noteq> db_user_permissions d"
  obtains "ensure_user_in_tenant env t target d = (Inr (), d)"
      "ensure_system_admin_change_allowed env t raw actor d = (Inr (), d)"
      "ensure_root_scoped_code_stays_in_root env t raw d = (Inr (), d)"
      "permission_grant (e_ci env) (db_permission_codes d) (db_users d) (db_tenants d)
           (map_option t_id (find_root (db_tenants d))) t target raw (e_now env) (db_user_permissions d) = Inr (db_user_permissions d')"
proof -
  obtain code where c: "pm_parse raw = Inr code" using run new
    by (cases "pm_parse raw") (auto simp: pm_grant_def bindE_def liftR_def)
  then have code: "code = raw" by (auto simp: pm_parse_def permission_code_parse_def split: if_splits)
  let ?rest = "\<lambda>_. bindE (audit_record env ctx ''user_permission.granted'' AuditSuccess (Some t) (actor_user_id actor)
      (actor_client_id actor) (Some (pm_audit_reason env raw target))) (\<lambda>_. pm_list env t target)"
  have run1: "bindE (ensure_user_in_tenant env t target) (\<lambda>_.
     bindE (ensure_system_admin_change_allowed env t raw actor) (\<lambda>_.
     bindE (ensure_root_scoped_code_stays_in_root env t raw) (\<lambda>_.
     bindE (mapErrE pm_repo_error (repo_permission_grant env t target raw (e_now env))) ?rest))) d = (r, d')"
    using run c by (simp add: pm_grant_def code bindE_def liftR_def)
  obtain u where s1: "ensure_user_in_tenant env t target d = (Inr u, d)"
    and run2: "bindE (ensure_system_admin_change_allowed env t raw actor) (\<lambda>_.
     bindE (ensure_root_scoped_code_stays_in_root env t raw) (\<lambda>_.
     bindE (mapErrE pm_repo_error (repo_permission_grant env t target raw (e_now env))) ?rest)) d = (r, d')"
    using read_then [OF run1 reads_permission_checks(1) new] by blast
  obtain v where s2: "ensure_system_admin_change_allowed env t raw actor d = (Inr v, d)"
    and run3: "bindE (ensure_root_scoped_code_stays_in_root env t raw) (\<lambda>_.
     bindE (mapErrE pm_repo_error (repo_permission_grant env t target raw (e_now env))) ?rest) d = (r, d')"
    using read_then [OF run2 reads_permission_checks(2) new] by blast
  obtain w where s3: "ensure_root_scoped_code_stays_in_root env t raw d = (Inr w, d)"
    and run4: "bindE (mapErrE pm_repo_error (repo_permission_grant env t target raw (e_now env))) ?rest d = (r, d')"
    using read_then [OF run3 reads_permission_checks(3) new] by blast
  obtain x d1 where g: "repo_permission_grant env t target raw (e_now env) d = (x, d1)" by fastforce
  have k: "keeps db_user_permissions (?rest ())" by (intro action_inv) (simp_all add: log_free_def)
  have "\<exists>z. x = Inr z"
  proof (rule ccontr)
    assume "\<not> (\<exists>z. x = Inr z)"
    then obtain e where x: "x = Inl e" by (cases x) auto
    then have "d1 = d" using g by (auto simp: repo_permission_grant_def db_call_Inl_iff)
    with run4 g x new show False by (auto simp: bindE_def mapErrE_def)
  qed
  then have gi: "repo_permission_grant env t target raw (e_now env) d = (Inr (), d1)" using g by auto
  then have "?rest () d1 = (r, d')" using run4 by (simp add: bindE_def mapErrE_def)
  then have "db_user_permissions d' = db_user_permissions d1" by (rule keepsD [OF k])
  with gi s1 s2 s3 show ?thesis
    by (intro that) (auto simp: repo_permission_grant_def rbind_Inr_iff)
qed

lemma grant_permission_changes:
  assumes "grant_permission env ctx tenant held actor target code d = (r, d')" "db_user_permissions d' \<noteq> db_user_permissions d"
  obtains r' where "perms_satisfy held permissions_write"
      "ensure_may_assign held (trim code) (tenant_is_root tenant) = Inr ()"
      "pm_grant env ctx (t_id tenant) target code actor d = (r', d')"
  using assms
  by (auto simp: grant_permission_def bindE_def liftR_def mapErrE_def require_perms_def split: if_splits sum.splits prod.splits
      elim!: map_err.elims)

section \<open>Properties\<close>

text \<open>(C24) Granting never escalates, for codes without blanks around them: whatever a request to grant a permission
  answers, a row it adds is the requested code of the requested user in the tenant of the path, the caller holds
  \<open>idp.permissions:write\<close>, the user is an active member of the tenant, and either the caller may assign the code (a code it
  holds or implies, or, with \<open>idp.admins:write\<close>, any code of a tenant administrator) or it is \<open>idp.system.admin\<close>, the tenant is the
  root and the caller is a user who holds that code there.  A code that reaches all tenants is only granted in the root.\<close>
theorem permission_grants_never_escalate:
  assumes run: "grant_permission env ctx tenant held actor target code d = (r, d')"
    and new: "x \<in> set (db_user_permissions d')" "x \<notin> set (db_user_permissions d)"
    and plain: "trim code = code"
  shows "up_user_id x = target \<and> up_permission_code x = code \<and> up_tenant_id x = t_id tenant
    \<and> perms_satisfy held permissions_write
    \<and> is_active_member (t_id tenant) target (db_memberships d) (db_users d) (db_tenants d)
    \<and> (perms_satisfy held code \<or> perms_satisfy held admins_write \<and> may_assign held code (tenant_is_root tenant)
       \<or> (\<exists>u. code = system_admin \<and> actor = ActorUser u \<and> map_option t_id (find_root (db_tenants d)) = Some (t_id tenant)
            \<and> permission_has (e_ci env) (t_id tenant) u system_admin (db_user_permissions d)))
    \<and> (is_root_scoped code \<longrightarrow> map_option t_id (find_root (db_tenants d)) = Some (t_id tenant))"
proof -
  have ne: "db_user_permissions d' \<noteq> db_user_permissions d" using new by auto
  obtain r' where w: "perms_satisfy held permissions_write"
    and a: "ensure_may_assign held code (tenant_is_root tenant) = Inr ()"
    and g: "pm_grant env ctx (t_id tenant) target code actor d = (r', d')"
    using grant_permission_changes [OF run ne] plain by metis
  obtain u: "ensure_user_in_tenant env (t_id tenant) target d = (Inr (), d)"
    and s: "ensure_system_admin_change_allowed env (t_id tenant) code actor d = (Inr (), d)"
    and rs: "ensure_root_scoped_code_stays_in_root env (t_id tenant) code d = (Inr (), d)"
    and pg: "permission_grant (e_ci env) (db_permission_codes d) (db_users d) (db_tenants d)
      (map_option t_id (find_root (db_tenants d))) (t_id tenant) target code (e_now env) (db_user_permissions d) = Inr (db_user_permissions d')"
    by (rule pm_grant_changes [OF g ne])
  from a have m: "code = system_admin \<or> may_assign held code (tenant_is_root tenant)"
    by (auto simp: ensure_may_assign_def split: if_splits)
  have x: "up_user_id x = target \<and> up_permission_code x = code \<and> up_tenant_id x = t_id tenant"
    using permission_grant_Inr(4) [OF pg new(1)] new(2) by blast
  have "is_root_scoped code \<Longrightarrow> map_option t_id (find_root (db_tenants d)) = Some (t_id tenant)"
    using ensure_root_scoped_Inr [OF rs] by auto
  moreover have "code = system_admin \<Longrightarrow> \<exists>u. actor = ActorUser u \<and> map_option t_id (find_root (db_tenants d)) = Some (t_id tenant)
      \<and> permission_has (e_ci env) (t_id tenant) u system_admin (db_user_permissions d)"
    using ensure_system_admin_Inr [OF s] by (auto simp: actor_user_id_Some)
  moreover have "code \<noteq> system_admin \<Longrightarrow> perms_satisfy held code \<or> perms_satisfy held admins_write"
    using m may_assign_plain [of held code "tenant_is_root tenant"] by auto
  ultimately show ?thesis using x w m ensure_user_in_tenant_Inr [OF u] by auto
qed

text \<open>A collation that ignores blanks at the end, as \<open>utf8mb4_unicode_ci\<close> does, and a root tenant whose user 9 holds
  \<open>idp.permissions:write\<close>.\<close>

definition pad_space :: "string \<Rightarrow> string" where
  "pad_space s = rev (dropWhile (\<lambda>c. c = CHR '' '') (rev s))"

definition permission_db :: db where
  "permission_db = token_db\<lparr>db_memberships := [new_home 1 9 0], db_permission_codes := [system_admin, permissions_write, permissions_read],
     db_user_permissions := [\<lparr>up_user_id = 9, up_permission_code = permissions_write, up_tenant_id = 1, up_granted_at = 0\<rparr>]\<rparr>"

definition permission_env :: env where
  "permission_env = token_env\<lparr>e_ci := pad_space\<rparr>"

definition request_grant :: "string \<Rightarrow> (admin_error + string list) \<times> db" where
  "request_grant code = grant_permission permission_env token_ctx sample_tenant [permissions_write] (ActorUser 9) 9 code permission_db"

lemma request_grant_read: "fst (request_grant permissions_read) = Inr [permissions_write, permissions_read]"
  by code_simp

lemma request_grant_read_rows:
  "db_user_permissions (snd (request_grant permissions_read)) = db_user_permissions permission_db @
     [\<lparr>up_user_id = 9, up_permission_code = permissions_read, up_tenant_id = 1, up_granted_at = 120\<rparr>]"
  by code_simp

theorem permission_grants_never_escalate_witness:
  "perms_satisfy [permissions_write] permissions_read \<or> perms_satisfy [permissions_write] admins_write
     \<and> may_assign [permissions_write] permissions_read True"
proof -
  let ?x = "\<lparr>up_user_id = 9, up_permission_code = permissions_read, up_tenant_id = 1, up_granted_at = 120\<rparr>"
  have r: "grant_permission permission_env token_ctx sample_tenant [permissions_write] (ActorUser 9) 9 permissions_read permission_db
      = (fst (request_grant permissions_read), snd (request_grant permissions_read))"
    by (simp add: request_grant_def)
  have n: "?x \<in> set (db_user_permissions (snd (request_grant permissions_read)))" unfolding request_grant_read_rows by simp
  have old: "?x \<notin> set (db_user_permissions permission_db)"
    by (simp add: permission_db_def permissions_read_def permissions_write_def)
  have t: "trim permissions_read = permissions_read" by code_simp
  show ?thesis
    using permission_grants_never_escalate [OF r n old t] by (auto simp: permissions_read_def system_admin_def sample_tenant_def tenant_is_root_def)
qed

text \<open>The run of a grant whose checks pass: the row is there afterwards.\<close>

lemma pm_grant_runs:
  assumes "\<forall>op. e_fault env op = None" "is_active_member t target (db_memberships d) (db_users d) (db_tenants d)"
    and "user_find_by_id target (db_users d) = Some user" "trim code \<noteq> []" "code \<noteq> system_admin"
    and "map_option t_id (find_root (db_tenants d)) = Some t"
    and "permission_grant (e_ci env) (db_permission_codes d) (db_users d) (db_tenants d) (Some t) t target code (e_now env)
           (db_user_permissions d) = Inr rows"
  shows "\<exists>codes d'. pm_grant env ctx t target code actor d = (Inr codes, d') \<and> db_user_permissions d' = rows"
proof -
  obtain root where root: "find_root (db_tenants d) = Some root" "t_id root = t" using assms(6) by auto
  have u: "ensure_user_in_tenant env t target e = (Inr (), e)"
    if "db_memberships e = db_memberships d" "db_users e = db_users d" "db_tenants e = db_tenants d" for e
    using assms(1-3) that
    by (simp add: ensure_user_in_tenant_def pm_find_user_def pm_internal_def repo_user_find_def repo_is_active_member_def bindE_Inr_iff ex_bool_eq)
  have r: "ensure_root_scoped_code_stays_in_root env t code d = (Inr (), d)"
    using assms(1) root by (simp add: ensure_root_scoped_code_stays_in_root_def required_root_Inr bindE_Inr_iff)
  let ?d = "d\<lparr>db_user_permissions := rows\<rparr>"
  have g: "mapErrE pm_repo_error (repo_permission_grant env t target code (e_now env)) d = (Inr (), ?d)"
    using assms(1,7) root by (simp add: repo_permission_grant_def rbind_Inr_iff)
  obtain x d2 where a: "audit_record env ctx ''user_permission.granted'' AuditSuccess (Some t) (actor_user_id actor) (actor_client_id actor)
      (Some (pm_audit_reason env code target)) ?d = (x :: permission_error + unit, d2)" by fastforce
  have x: "x = Inr ()" and same: "same_data ?d d2" using audit_record_same [OF a] by simp_all
  have l: "pm_list env t target d2 = (Inr (permission_list_codes t target (db_user_permissions d2)), d2)"
    using assms(1) u [of d2] same_data_fields [OF same]
    by (simp add: pm_list_def pm_internal_def repo_permission_list_def bindE_Inr_iff)
  have "pm_grant env ctx t target code actor d = (Inr (permission_list_codes t target (db_user_permissions d2)), d2)"
    using assms(4,5) u [of d] r g a x l
    by (simp add: pm_grant_def pm_parse_def permission_code_parse_def ensure_system_admin_change_allowed_def bindE_Inr_iff)
  then show ?thesis using same_data_fields [OF same] by simp
qed

text \<open>(C25) A code with blanks around it escapes the protection of \<open>idp.system.admin\<close>: where the collation ignores the
  blanks, as the tables' \<open>PAD SPACE\<close> collation ignores those at the end, every caller who holds \<open>idp.permissions:write\<close> in the root
  tenant can make any active member of it, itself included, a system administrator.  The guard of the handler looks at the trimmed
  code and leaves \<open>idp.system.admin\<close> to the use case, the use case compares the code as it came, and the database finds it in the
  master table and stores a row that answers the look-up of \<open>idp.system.admin\<close>.  The same request without the blanks is refused,
  unless the caller is a user who already is a system administrator.\<close>
theorem padded_code_escalates:
  assumes "perms_satisfy held permissions_write" "tenant_is_root tenant"
    and "map_option t_id (find_root (db_tenants d)) = Some (t_id tenant)"
    and "trim code = system_admin" "code \<noteq> system_admin" "e_ci env code = e_ci env system_admin"
    and "system_admin \<in> set (db_permission_codes d)" "\<forall>op. e_fault env op = None"
    and "is_active_member (t_id tenant) target (db_memberships d) (db_users d) (db_tenants d)"
    and "user_find_by_id target (db_users d) = Some user"
  shows "(\<exists>codes d'. grant_permission env ctx tenant held actor target code d = (Inr codes, d')
            \<and> permission_has (e_ci env) (t_id tenant) target system_admin (db_user_permissions d'))
    \<and> ((\<exists>u. actor = ActorUser u \<and> permission_has (e_ci env) (t_id tenant) u system_admin (db_user_permissions d))
       \<or> fst (grant_permission env ctx tenant held actor target system_admin d)
           = Inl (AdminPermission (PmForbidden (message_new ''api-permission-system-admin-forbidden''))))"
proof
  let ?grant = "permission_grant (e_ci env) (db_permission_codes d) (db_users d) (db_tenants d) (Some (t_id tenant)) (t_id tenant)
    target code (e_now env) (db_user_permissions d)"
  have m: "list_ex (\<lambda>c. e_ci env c = e_ci env code) (db_permission_codes d)" "list_ex (\<lambda>x. u_id x = target) (db_users d)"
    "list_ex (\<lambda>x. t_id x = t_id tenant) (db_tenants d)"
    using assms(3,6,7,10) by (auto simp: list_ex_iff find_root_def user_find_by_id_def dest!: find_Some_mem)
  have "\<exists>rows. ?grant = Inr rows \<and> permission_has (e_ci env) (t_id tenant) target system_admin rows"
  proof (cases "list_ex (permission_key (e_ci env) (t_id tenant) target code) (db_user_permissions d)")
    case True
    then show ?thesis using assms(6) by (auto simp: permission_grant_def permission_has_def permission_key_def list_ex_iff)
  next
    case False
    then show ?thesis using assms(6) m by (simp add: permission_grant_def permission_has_def permission_key_def)
  qed
  then obtain rows where rows: "?grant = Inr rows" "permission_has (e_ci env) (t_id tenant) target system_admin rows" by blast
  have "trim code \<noteq> []" using assms(4) by (simp add: system_admin_def)
  from pm_grant_runs [OF assms(8,9,10) this assms(5,3) rows(1), of ctx actor] rows(2)
  obtain codes d' where "pm_grant env ctx (t_id tenant) target code actor d = (Inr codes, d')"
    "permission_has (e_ci env) (t_id tenant) target system_admin (db_user_permissions d')" by blast
  then show "\<exists>codes d'. grant_permission env ctx tenant held actor target code d = (Inr codes, d')
            \<and> permission_has (e_ci env) (t_id tenant) target system_admin (db_user_permissions d')"
    using assms(1,2,4) by (simp add: grant_permission_def require_perms_def ensure_may_assign_def bindE_Inr_iff)
next
  have u: "ensure_user_in_tenant env (t_id tenant) target d = (Inr (), d)"
    using assms(8-10)
    by (simp add: ensure_user_in_tenant_def pm_find_user_def pm_internal_def repo_user_find_def repo_is_active_member_def bindE_Inr_iff ex_bool_eq)
  have p: "pm_parse system_admin = Inr system_admin" "trim system_admin = system_admin" by code_simp+
  have "fst (grant_permission env ctx tenant held actor target system_admin d)
      = Inl (AdminPermission (PmForbidden (message_new ''api-permission-system-admin-forbidden'')))"
    if n: "\<nexists>u. actor = ActorUser u \<and> permission_has (e_ci env) (t_id tenant) u system_admin (db_user_permissions d)"
  proof -
    have "ensure_system_admin_change_allowed env (t_id tenant) system_admin actor d
        = (Inl (PmForbidden (message_new ''api-permission-system-admin-forbidden'')), d)"
      using n assms(3,8)
      by (cases actor) (auto simp: ensure_system_admin_change_allowed_def bindE_def required_root_def pm_internal_def repo_find_root_def
        repo_permission_has_def mapErrE_def liftR_def db_query_def db_call_def getsE_def failE_def retE_def)
    then show ?thesis using u p assms(1,2)
      by (simp add: grant_permission_def pm_grant_def require_perms_def ensure_may_assign_def bindE_def liftR_def mapErrE_def)
  qed
  then show "(\<exists>u. actor = ActorUser u \<and> permission_has (e_ci env) (t_id tenant) u system_admin (db_user_permissions d))
       \<or> fst (grant_permission env ctx tenant held actor target system_admin d)
           = Inl (AdminPermission (PmForbidden (message_new ''api-permission-system-admin-forbidden'')))"
    by blast
qed

lemma padded_claim: "perms_satisfy (held_codes (Some (perms_claim [permissions_write, system_admin @ '' '']))) system_admin"
  by code_simp

theorem padded_code_escalates_witness:
  "\<exists>codes d'. request_grant (system_admin @ '' '') = (Inr codes, d') \<and> permission_has pad_space 1 9 system_admin (db_user_permissions d')"
proof -
  have f: "perms_satisfy [permissions_write] permissions_write" "tenant_is_root sample_tenant"
    "map_option t_id (find_root (db_tenants permission_db)) = Some (t_id sample_tenant)"
    "trim (system_admin @ '' '') = system_admin" "pad_space (system_admin @ '' '') = pad_space system_admin"
    "system_admin \<in> set (db_permission_codes permission_db)"
    "is_active_member (t_id sample_tenant) 9 (db_memberships permission_db) (db_users permission_db) (db_tenants permission_db)"
    "user_find_by_id 9 (db_users permission_db) \<noteq> None"
    by (code_simp+)
  have e: "e_ci permission_env (system_admin @ '' '') = e_ci permission_env system_admin" "\<forall>op. e_fault permission_env op = None"
    using f(5) by (simp_all add: permission_env_def token_env_def)
  obtain user where u: "user_find_by_id 9 (db_users permission_db) = Some user" using f(8) by blast
  have "t_id sample_tenant = 1" "e_ci permission_env = pad_space" by (simp_all add: sample_tenant_def permission_env_def)
  then show ?thesis
    using padded_code_escalates [OF f(1-4) _ e(1) f(6) e(2) f(7) u, of token_ctx "ActorUser 9"] by (simp add: request_grant_def)
qed

end
