(* ===== verification/Der.thy ===== *)
theory Der
  imports Assay_Prelude "HOL-Library.Word"
begin

unbundle bit_operations_syntax

text \<open>
  The reader of DER (\<open>domain/der.rs\<close>) that certificates and key attestations are read with.

  A reader is the list of the bytes not read yet; an operation that moves it returns the rest.  \<open>usize\<close> is \<open>nat\<close>:
  a length has at most three bytes.  \<open>der_encode\<close> is the encoding of an element as the rules of DER prescribe it,
  the reference the reader is compared with.
\<close>

type_synonym bytes = "8 word list"

datatype tag_class = Universal | Application | ContextSpecific | Private

record der_element =
  de_class :: tag_class
  de_constructed :: bool
  de_number :: "32 word"
  de_contents :: bytes
  de_raw :: bytes

datatype der_error = DerError

definition tag_boolean :: "32 word" where
  "tag_boolean = 1"

definition tag_integer :: "32 word" where
  "tag_integer = 2"

definition tag_bit_string :: "32 word" where
  "tag_bit_string = 3"

definition tag_octet_string :: "32 word" where
  "tag_octet_string = 4"

definition tag_null :: "32 word" where
  "tag_null = 5"

definition tag_oid :: "32 word" where
  "tag_oid = 6"

definition tag_enumerated :: "32 word" where
  "tag_enumerated = 10"

definition tag_sequence :: "32 word" where
  "tag_sequence = 16"

definition tag_set :: "32 word" where
  "tag_set = 17"

definition max_len :: nat where
  "max_len = 64 * 1024"

section \<open>The reader\<close>

definition class_of :: "8 word \<Rightarrow> tag_class" where
  "class_of first =
     (let c = drop_bit 6 first in
      if c = 0 then Universal else if c = 1 then Application else if c = 2 then ContextSpecific else Private)"

text \<open>Numbers from 31 on: seven bits a byte, the last byte with the high bit clear.\<close>

fun read_high_number :: "32 word \<Rightarrow> bytes \<Rightarrow> der_error + 32 word \<times> bytes" where
  "read_high_number number [] = Inl DerError"
| "read_high_number number (b # rest) =
     (if number > drop_bit 7 (- 1) then Inl DerError
      else let number' = push_bit 7 number OR ucast (b AND 0x7f) in
        if b AND 0x80 = 0 then Inr (number', rest) else read_high_number number' rest)"

definition read_number :: "8 word \<Rightarrow> bytes \<Rightarrow> der_error + 32 word \<times> bytes" where
  "read_number first cursor =
     (let number = ucast (first AND 0x1f) in
      if number = 0x1f then read_high_number 0 cursor else Inr (number, cursor))"

fun read_length :: "bytes \<Rightarrow> der_error + nat \<times> bytes" where
  "read_length [] = Inl DerError"
| "read_length (len_byte # cursor) =
     (if len_byte AND 0x80 = 0 then Inr (unat len_byte, cursor)
      else let count = unat (len_byte AND 0x7f) in
        if count = 0 \<or> count > 3 \<or> length cursor < count then Inl DerError
        else Inr (foldl (\<lambda>len b. push_bit 8 len OR unat b) 0 (take count cursor), drop count cursor))"

fun next_element :: "bytes \<Rightarrow> der_error + der_element \<times> bytes" where
  "next_element [] = Inl DerError"
| "next_element (first # cursor) =
     rbind (read_number first cursor) (\<lambda>(number, cursor1).
     rbind (read_length cursor1) (\<lambda>(len, cursor2).
     if len > max_len \<or> length cursor2 < len then Inl DerError
     else let header_len = length (first # cursor) - length cursor2 in
       Inr (\<lparr>de_class = class_of first, de_constructed = (first AND 0x20 \<noteq> 0), de_number = number,
             de_contents = take len cursor2, de_raw = take (header_len + len) (first # cursor)\<rparr>,
            drop len cursor2)))"

definition der_expect :: "32 word \<Rightarrow> bytes \<Rightarrow> der_error + der_element \<times> bytes" where
  "der_expect number rest =
     rbind (next_element rest) (\<lambda>(e, rest').
     if de_class e \<noteq> Universal \<or> de_number e \<noteq> number then Inl DerError else Inr (e, rest'))"

definition optional_context :: "32 word \<Rightarrow> bytes \<Rightarrow> der_error + der_element option \<times> bytes" where
  "optional_context number rest =
     (case next_element rest of
        Inr (e, peek) \<Rightarrow>
          if de_class e = ContextSpecific \<and> de_number e = number then Inr (Some e, peek) else Inr (None, rest)
      | Inl err \<Rightarrow> if rest = [] then Inr (None, rest) else Inl err)"

definition der_single :: "bytes \<Rightarrow> der_error + der_element" where
  "der_single input = rbind (next_element input) (\<lambda>(e, rest). if rest \<noteq> [] then Inl DerError else Inr e)"

section \<open>Values\<close>

definition der_unsigned :: "der_element \<Rightarrow> der_error + 64 word" where
  "der_unsigned e =
     (case de_contents e of [] \<Rightarrow> Inl DerError
      | b # bs \<Rightarrow>
        if b AND 0x80 \<noteq> 0 then Inl DerError
        else let digits = (if b = 0 then bs else b # bs) in
          if length digits > 8 then Inl DerError
          else Inr (foldl (\<lambda>n b. push_bit 8 n OR ucast b) 0 digits))"

definition der_boolean :: "der_element \<Rightarrow> der_error + bool" where
  "der_boolean e = (if de_contents e = [0x00] then Inr False else if de_contents e = [0xff] then Inr True else Inl DerError)"

definition bit_string_bytes :: "der_element \<Rightarrow> der_error + bytes" where
  "bit_string_bytes e = (case de_contents e of b # bs \<Rightarrow> if b = 0 then Inr bs else Inl DerError | [] \<Rightarrow> Inl DerError)"

text \<open>The arcs after the first byte; \<open>pending\<close> says that an arc is not complete.\<close>

fun oid_arcs :: "64 word \<Rightarrow> bool \<Rightarrow> bytes \<Rightarrow> der_error + 64 word list" where
  "oid_arcs value pending [] = (if pending then Inl DerError else Inr [])"
| "oid_arcs value pending (b # rest) =
     (if value > drop_bit 7 (- 1) then Inl DerError
      else let value' = push_bit 7 value OR ucast (b AND 0x7f) in
        if b AND 0x80 = 0 then rbind (oid_arcs 0 False rest) (\<lambda>arcs. Inr (value' # arcs)) else oid_arcs value' True rest)"

definition der_oid :: "der_element \<Rightarrow> der_error + string" where
  "der_oid e =
     (case de_contents e of [] \<Rightarrow> Inl DerError
      | first # rest \<Rightarrow>
        let part0 = min (ucast (first div 40)) (2 :: 64 word); part1 = ucast first - part0 * 40 in
        rbind (oid_arcs 0 False rest) (\<lambda>arcs.
        Inr (join ''.'' (map (\<lambda>p. nat_to_string (unat p)) (part0 # part1 # arcs)))))"

section \<open>Progress\<close>

lemma read_high_number_suffix:
  "read_high_number n bs = Inr (m, rest) \<Longrightarrow> \<exists>used. bs = used @ rest \<and> used \<noteq> []"
proof (induction n bs rule: read_high_number.induct)
  case (2 number b bs)
  then show ?case by (fastforce simp: Let_def split: if_splits)
qed simp

lemma read_number_suffix: "read_number f bs = Inr (m, rest) \<Longrightarrow> \<exists>used. bs = used @ rest"
  by (auto simp: read_number_def Let_def dest: read_high_number_suffix split: if_splits)

lemma read_length_suffix: "read_length bs = Inr (n, rest) \<Longrightarrow> \<exists>used. bs = used @ rest \<and> used \<noteq> []"
proof (cases bs)
  case (Cons a list)
  assume "read_length bs = Inr (n, rest)"
  then have "\<exists>k. rest = drop k list" by (auto simp: Cons Let_def split: if_splits intro: exI [of _ 0])
  then obtain k where "rest = drop k list" by blast
  then have "bs = (a # take k list) @ rest" by (simp add: Cons)
  then show ?thesis by blast
qed simp

text \<open>An element and the rest are the input.\<close>

lemma next_element_splits:
  assumes "next_element bs = Inr (e, rest)"
  shows "bs = de_raw e @ rest \<and> 2 \<le> length (de_raw e) \<and> (\<exists>header. de_raw e = header @ de_contents e) \<and> length (de_contents e) \<le> max_len"
proof -
  from assms obtain f cursor n c1 len c2 where b: "bs = f # cursor" and n: "read_number f cursor = Inr (n, c1)"
    and l: "read_length c1 = Inr (len, c2)" and len: "len \<le> max_len" "len \<le> length c2"
    and e: "de_raw e = take (length (f # cursor) - length c2 + len) (f # cursor)" "de_contents e = take len c2" "rest = drop len c2"
    by (cases bs) (auto simp: rbind_Inr_iff Let_def split: if_splits)
  from read_number_suffix [OF n] read_length_suffix [OF l] obtain u v where s: "cursor = u @ v @ c2" "v \<noteq> []" by auto
  have raw: "de_raw e = (f # u @ v) @ take len c2" using e(1) by (simp add: s(1))
  then show ?thesis using e s len by (cases v) (auto simp: b)
qed

lemma next_element_shorter: "next_element bs = Inr (e, rest) \<Longrightarrow> length rest < length bs"
  using arg_cong [of bs "de_raw e @ rest" length] next_element_splits [of bs e rest] by auto

text \<open>The loops \<open>while !items.is_empty()\<close> over the children of an element.\<close>

function der_elements :: "bytes \<Rightarrow> der_error + der_element list" where
  "der_elements bs =
     (if bs = [] then Inr []
      else case next_element bs of Inl e \<Rightarrow> Inl e
           | Inr (e, rest) \<Rightarrow> rbind (der_elements rest) (\<lambda>es. Inr (e # es)))"
  by pat_completeness auto
termination
  by (relation "measure length") (auto dest: next_element_shorter)

declare der_elements.simps [simp del]

section \<open>Bits\<close>

lemma byte_and_7f: "unat (b AND 0x7f :: 8 word) = unat b mod 128"
proof -
  have "b AND 0x7f = take_bit 7 b" by (simp add: take_bit_eq_mask mask_eq_exp_minus_1)
  then show ?thesis by (simp only: unsigned_take_bit_eq) (simp add: take_bit_eq_mod)
qed

lemma byte_and_1f: "unat (b AND 0x1f :: 8 word) = unat b mod 32"
proof -
  have "b AND 0x1f = take_bit 5 b" by (simp add: take_bit_eq_mask mask_eq_exp_minus_1)
  then show ?thesis by (simp only: unsigned_take_bit_eq) (simp add: take_bit_eq_mod)
qed

lemma byte_bit: "bit (b :: 8 word) n \<longleftrightarrow> odd (unat b div 2 ^ n)"
  proof -
  have "bit (unat b) n \<longleftrightarrow> bit b n" by (simp add: bit_unsigned_iff)
  then show ?thesis by (simp add: bit_iff_odd)
qed

lemma byte_and_80: "b AND 0x80 = (0 :: 8 word) \<longleftrightarrow> unat b < 128"
proof -
  have "b AND 0x80 = 0 \<longleftrightarrow> \<not> bit b 7" using and_exp_eq_0_iff_not_bit [of b 7] by simp
  moreover have "unat b < 256" using unsigned_less [of b] by simp
  then have "unat b div 128 = 0 \<or> unat b div 128 = 1" by linarith
  ultimately show ?thesis by (auto simp: byte_bit div_eq_0_iff)
qed

lemma byte_and_20: "b AND 0x20 = (0 :: 8 word) \<longleftrightarrow> even (unat b div 32)"
  using and_exp_eq_0_iff_not_bit [of b 5] by (simp add: byte_bit)

lemma byte_top_bits: "unat (drop_bit 6 b :: 8 word) = unat b div 64"
  by (simp add: drop_bit_eq_div unat_div)

lemma or_shift7:
  fixes m :: "'a::len word" and x :: "'a::len word"
  assumes "unat m * 128 + 127 < 2 ^ LENGTH('a)" "unat x < 128"
  shows "unat (push_bit 7 m OR x) = unat m * 128 + unat x"
proof -
  have "x = take_bit 7 x" using assms(2) by (simp add: word_unat_eq_iff unsigned_take_bit_eq take_bit_nat_eq_self)
  then have d: "\<not> bit (push_bit 7 m) n \<or> \<not> bit x n" for n
    by (metis bit_push_bit_iff bit_take_bit_iff linorder_not_less)
  have "push_bit 7 m OR x = push_bit 7 m + x" using disjunctive_add [OF d] by simp
  moreover have "unat (push_bit 7 m) = unat m * 128"
    using assms(1) by (simp only: unsigned_push_bit_eq) (simp add: push_bit_eq_mult take_bit_nat_eq_self)
  ultimately show ?thesis using assms by (simp add: unat_add_lem [THEN iffD1])
qed

lemma or_shift8: "x < 256 \<Longrightarrow> push_bit 8 n OR x = n * 256 + (x :: nat)"
proof -
  assume "x < 256"
  then have "x = take_bit 8 x" by (simp add: take_bit_nat_eq_self)
  then have d: "\<not> bit (push_bit 8 n) k \<or> \<not> bit x k" for k
    by (metis bit_push_bit_iff bit_take_bit_iff linorder_not_less)
  show ?thesis using disjunctive_add [OF d] by (simp add: push_bit_eq_mult)
qed

lemma over_max32: "(n > drop_bit 7 (- 1 :: 32 word)) \<longleftrightarrow> 2 ^ 25 \<le> unat n"
  by (simp add: word_less_nat_alt unsigned_drop_bit_eq drop_bit_eq_div) auto

lemma over_max64: "(n > drop_bit 7 (- 1 :: 64 word)) \<longleftrightarrow> 2 ^ 57 \<le> unat n"
  by (simp add: word_less_nat_alt unsigned_drop_bit_eq drop_bit_eq_div) auto


lemma word_by_unat: "unat (w :: 'a::len word) = n \<Longrightarrow> w = word_of_nat n"
  by (auto simp: of_nat_unat)

section \<open>The encoding\<close>

text \<open>The digits of a number to the base 128, the first one first.\<close>

function base128 :: "nat \<Rightarrow> nat list" where
  "base128 n = (if n < 128 then [n] else base128 (n div 128) @ [n mod 128])"
  by pat_completeness auto
termination
  by (relation "measure id") auto

declare base128.simps [simp del]

definition more_byte :: "nat \<Rightarrow> 8 word" where
  "more_byte d = word_of_nat (128 + d)"

definition continued :: "nat list \<Rightarrow> bytes" where
  "continued ds = map more_byte (butlast ds) @ [word_of_nat (last ds)]"

definition class_code :: "tag_class \<Rightarrow> nat" where
  "class_code c = (case c of Universal \<Rightarrow> 0 | Application \<Rightarrow> 1 | ContextSpecific \<Rightarrow> 2 | Private \<Rightarrow> 3)"

definition encode_tag :: "tag_class \<Rightarrow> bool \<Rightarrow> nat \<Rightarrow> bytes" where
  "encode_tag c constructed number =
     word_of_nat (64 * class_code c + (if constructed then 32 else 0) + min number 31)
     # (if number < 31 then [] else continued (base128 number))"

definition encode_length :: "nat \<Rightarrow> bytes" where
  "encode_length n =
     (if n < 128 then [word_of_nat n]
      else if n < 256 then [0x81, word_of_nat n]
      else if n < 65536 then [0x82, word_of_nat (n div 256), word_of_nat (n mod 256)]
      else [0x83, word_of_nat (n div 65536), word_of_nat (n div 256 mod 256), word_of_nat (n mod 256)])"

definition der_encode :: "tag_class \<Rightarrow> bool \<Rightarrow> nat \<Rightarrow> bytes \<Rightarrow> bytes" where
  "der_encode c constructed number contents = encode_tag c constructed number @ encode_length (length contents) @ contents"

definition value128 :: "nat \<Rightarrow> nat list \<Rightarrow> nat" where
  "value128 = foldl (\<lambda>n d. n * 128 + d)"

lemma value128_ge: "n \<le> value128 n ds"
proof (induction ds arbitrary: n)
  case (Cons d ds)
  have "n \<le> n * 128 + d" by simp
  then show ?case using Cons [of "n * 128 + d"] by (simp add: value128_def)
qed (simp add: value128_def)

lemma base128_not_Nil [simp]: "base128 n \<noteq> []"
  by (subst base128.simps) simp

lemma base128_value: "value128 0 (base128 n) = n"
proof (induction n rule: base128.induct)
  case (1 n)
  then show ?case by (subst base128.simps) (simp add: value128_def)
qed

lemma base128_digits: "\<forall>d \<in> set (base128 n). d < 128"
proof (induction n rule: base128.induct)
  case (1 n)
  then show ?case by (subst base128.simps) auto
qed

lemma base128_split: obtains ds d where "base128 n = ds @ [d]" "\<forall>x \<in> set ds. x < 128" "d < 128" "value128 0 (ds @ [d]) = n"
  using base128_value [of n] base128_digits [of n] append_butlast_last_id [OF base128_not_Nil, of n]
  by (metis (no_types, lifting) UnI1 UnI2 list.set_intros(1) set_append)

lemma byte_of_nat: "d < 256 \<Longrightarrow> unat (word_of_nat d :: 8 word) = d"
  by (simp add: unat_of_nat)

lemma byte_of_digit: "d < 128 \<Longrightarrow> unat (more_byte d) = 128 + d" "d < 256 \<Longrightarrow> unat (word_of_nat d :: 8 word) = d"
  using byte_of_nat [of "128 + d"] byte_of_nat [of d] by (simp_all add: more_byte_def del: of_nat_add)

lemma continued_snoc [simp]: "continued (ds @ [d]) = map more_byte ds @ [word_of_nat d]"
  by (simp add: continued_def)

lemma ucast_low: "unat (ucast (b AND 0x7f) :: 'a::len word) = unat b mod 128" if "7 \<le> LENGTH('a)" for b :: "8 word"
proof -
  have "unat b mod 128 < 2 ^ LENGTH('a)"
    using power_increasing [OF that, of "2 :: nat"] by (rule_tac order.strict_trans2 [of _ 128]) simp_all
  then show ?thesis by (simp only: unsigned_ucast_eq byte_and_7f) (simp add: take_bit_nat_eq_self)
qed

lemma read_high_number_continued:
  assumes "\<forall>x \<in> set ds. x < 128" "d < 128" "value128 (unat m) (ds @ [d]) < 2 ^ 32"
  shows "read_high_number m (map more_byte ds @ word_of_nat d # rest) = Inr (word_of_nat (value128 (unat m) (ds @ [d])), rest)"
  using assms
proof (induction ds arbitrary: m)
  case Nil
  then have m: "unat m * 128 + d < 2 ^ 32" by (simp add: value128_def)
  then have g: "unat m < 2 ^ 25" by simp
  then have "\<not> m > drop_bit 7 (- 1)" by (simp only: over_max32 not_le)
  moreover from g have "unat m * 128 + 127 < 2 ^ 32" by simp
  then have "unat (push_bit 7 m OR ucast ((word_of_nat d :: 8 word) AND 0x7f)) = unat m * 128 + d"
    using Nil.prems(2) or_shift7 [of m "ucast ((word_of_nat d :: 8 word) AND 0x7f)"] by (simp add: ucast_low byte_of_digit)
  then have "push_bit 7 m OR ucast ((word_of_nat d :: 8 word) AND 0x7f) = word_of_nat (unat m * 128 + d)" by (rule word_by_unat)
  ultimately show ?case using m Nil.prems(2) by (simp add: byte_and_80 byte_of_digit value128_def)
next
  case (Cons x ds)
  let ?m = "push_bit 7 m OR ucast (more_byte x AND 0x7f)"
  have "unat m * 128 + x < 2 ^ 32"
    using value128_ge [of "unat m * 128 + x" "ds @ [d]"] Cons.prems(3) by (simp add: value128_def)
  then have m: "unat m < 2 ^ 25" by simp
  then have m7: "unat m * 128 + 127 < 2 ^ 32" by simp
  from m7 have v: "unat ?m = unat m * 128 + x"
    using Cons.prems(1) or_shift7 [of m "ucast (more_byte x AND 0x7f)"] by (simp add: ucast_low byte_of_digit)
  have "\<not> more_byte x AND 0x80 = 0"
    using Cons.prems(1) by (simp add: byte_and_80 byte_of_digit)
  moreover have "\<not> m > drop_bit 7 (- 1)" using m by (simp only: over_max32 not_le)
  ultimately have "read_high_number m (map more_byte (x # ds) @ word_of_nat d # rest)
      = read_high_number ?m (map more_byte ds @ word_of_nat d # rest)"
    by (simp add: Let_def)
  also have "\<dots> = Inr (word_of_nat (value128 (unat ?m) (ds @ [d])), rest)"
    using Cons.prems v by (intro Cons.IH) (simp_all add: value128_def)
  finally show ?case by (simp add: v value128_def)
qed

lemma read_length_encoded:
  assumes "n < 2 ^ 24"
  shows "read_length (encode_length n @ rest) = Inr (n, rest)"
proof -
  have c: "unat ((0x81 :: 8 word) AND 0x7f) = 1" "unat ((0x82 :: 8 word) AND 0x7f) = 2" "unat ((0x83 :: 8 word) AND 0x7f) = 3"
    "(0x81 :: 8 word) AND 0x80 \<noteq> 0" "(0x82 :: 8 word) AND 0x80 \<noteq> 0" "(0x83 :: 8 word) AND 0x80 \<noteq> 0"
    by simp_all
  consider "n < 128" | "128 \<le> n" "n < 256" | "256 \<le> n" "n < 65536" | "65536 \<le> n" by linarith
  then show ?thesis
  proof cases
    case 1
    then show ?thesis by (simp add: encode_length_def byte_and_80 byte_of_digit)
  next
    case 2
    then show ?thesis by (simp add: encode_length_def c byte_of_digit or_shift8 Let_def)
  next
    case 3
    then have "n div 256 < 256" by (simp add: less_mult_imp_div_less)
    with 3 show ?thesis by (simp add: encode_length_def c byte_of_digit or_shift8 Let_def)
  next
    case 4
    then have "n div 65536 < 256" "n div 65536 * 256 + n div 256 mod 256 = n div 256"
      using assms div_mult_mod_eq [of "n div 256" 256] by (simp_all add: less_mult_imp_div_less div_mult2_eq [symmetric])
    with 4 show ?thesis by (simp add: encode_length_def c byte_of_digit or_shift8 Let_def)
  qed
qed


lemma first_byte:
  fixes c :: tag_class and k :: bool
  assumes "m < 32"
  defines "b \<equiv> word_of_nat (64 * class_code c + (if k then 32 else 0) + m) :: 8 word"
  shows "class_of b = c" "(b AND 0x20 \<noteq> 0) = k" "unat (b AND 0x1f) = m"
proof -
  have u: "unat b = 64 * class_code c + (if k then 32 else 0) + m"
    unfolding b_def by (rule byte_of_nat) (use assms(1) in \<open>auto simp: class_code_def split: tag_class.splits\<close>)
  have e: "64 * class_code c + (if k then 32 else 0) + m = m + 32 * (2 * class_code c + (if k then 1 else 0))" by simp
  show "unat (b AND 0x1f) = m" using assms(1) by (simp only: byte_and_1f u e mod_mult_self2; simp)
  have "unat b div 32 = 2 * class_code c + (if k then 1 else 0)" using assms(1) by (simp only: u e div_mult_self2; simp)
  then show "(b AND 0x20 \<noteq> 0) = k" by (simp add: byte_and_20)
  have "unat (drop_bit 6 b) = class_code c" using assms(1) by (auto simp: byte_top_bits u)
  then have "drop_bit 6 b = word_of_nat (class_code c)" by (rule word_by_unat)
  then show "class_of b = c" by (simp add: class_of_def class_code_def split: tag_class.splits)
qed

lemma read_number_encoded:
  assumes "number < 2 ^ 32"
  shows "encode_tag c k number = f # fs \<Longrightarrow> read_number f (fs @ rest) = Inr (word_of_nat number, rest)"
proof -
  assume e: "encode_tag c k number = f # fs"
  then have f: "f = word_of_nat (64 * class_code c + (if k then 32 else 0) + min number 31)" by (simp add: encode_tag_def)
  have u: "unat (f AND 0x1f) = min number 31" unfolding f by (rule first_byte) simp
  then have n: "ucast (f AND 0x1f) = (word_of_nat (min number 31) :: 32 word)" using of_nat_unat [of "f AND 0x1f", where 'a = "32 word"] by simp
  show ?thesis
  proof (cases "number < 31")
    case True
    then have "fs = []" "word_of_nat number \<noteq> (31 :: 32 word)"
      using e word_of_nat_eq_iff [of number 31, where 'a = 32] by (auto simp: encode_tag_def take_bit_nat_eq_self)
    with True n show ?thesis by (simp add: read_number_def)
  next
    case False
    obtain ds d where d: "base128 number = ds @ [d]" "\<forall>x \<in> set ds. x < 128" "d < 128" "value128 0 (ds @ [d]) = number"
      by (rule base128_split)
    have "fs = map more_byte ds @ [word_of_nat d]" using e False by (simp add: encode_tag_def d(1))
    then show ?thesis
      using False n read_high_number_continued [OF d(2,3), of 0 rest] d(4) assms by (simp add: read_number_def)
  qed
qed

text \<open>
  (C36) The reader reads back what the rules of DER prescribe: for every class, form, tag number of 32 bits and contents of up to
  64 KiB, reading the encoding followed by any bytes gives the element with these contents and exactly the bytes after it.
\<close>

theorem der_roundtrip:
  assumes "number < 2 ^ 32" "length contents \<le> max_len"
  shows "next_element (der_encode c k number contents @ rest) =
     Inr (\<lparr>de_class = c, de_constructed = k, de_number = word_of_nat number, de_contents = contents, de_raw = der_encode c k number contents\<rparr>, rest)"
proof -
  obtain f fs where e: "encode_tag c k number = f # fs" by (simp add: encode_tag_def)
  have f: "class_of f = c" "(f AND 0x20 \<noteq> 0) = k"
    using e first_byte [of "min number 31" c k] by (auto simp: encode_tag_def)
  have n: "read_number f (fs @ encode_length (length contents) @ contents @ rest) = Inr (word_of_nat number, encode_length (length contents) @ contents @ rest)"
    using read_number_encoded [OF assms(1) e, of "encode_length (length contents) @ contents @ rest"] .
  have l: "read_length (encode_length (length contents) @ contents @ rest) = Inr (length contents, contents @ rest)"
    using assms(2) by (intro read_length_encoded) (simp add: max_len_def)
  show ?thesis using assms(2) f by (simp add: der_encode_def e n l)
qed

theorem der_roundtrip_witness:
  "next_element (der_encode ContextSpecific True 709 [4, 1, 0xaa]) =
     Inr (\<lparr>de_class = ContextSpecific, de_constructed = True, de_number = 709, de_contents = [4, 1, 0xaa],
           de_raw = der_encode ContextSpecific True 709 [4, 1, 0xaa]\<rparr>, [])"
  using der_roundtrip [of 709 "[4, 1, 0xaa]" ContextSpecific True "[]"] by (simp add: max_len_def)

section \<open>The loop over elements\<close>

text \<open>
  (C37) Reading elements until nothing is left ends on every input: after at most half as many elements as there are bytes.  When
  it succeeds the elements tile the input, each one's bytes ending with its contents of at most 64 KiB; nothing is skipped and
  nothing read twice.
\<close>

theorem der_elements_tile:
  "case der_elements bs of
     Inl _ \<Rightarrow> bs \<noteq> []
   | Inr es \<Rightarrow> concat (map de_raw es) = bs \<and> 2 * length es \<le> length bs
       \<and> list_all (\<lambda>e. \<exists>header. de_raw e = header @ de_contents e \<and> length (de_contents e) \<le> max_len) es"
proof (induction bs rule: der_elements.induct)
  case (1 bs)
  show ?case
  proof (cases "bs = [] \<or> (\<exists>x. next_element bs = Inl x)")
    case True
    then show ?thesis by (subst der_elements.simps) auto
  next
    case False
    then obtain e rest where n: "next_element bs = Inr (e, rest)" by (cases "next_element bs") auto
    note s = next_element_splits [OF n]
    have d: "der_elements bs = rbind (der_elements rest) (\<lambda>es. Inr (e # es))"
      using False n by (subst der_elements.simps) simp
    show ?thesis
    proof (cases "der_elements rest")
      case (Inl x)
      then show ?thesis using False d by simp
    next
      case (Inr es)
      with 1 False n have "concat (map de_raw es) = rest" "2 * length es \<le> length rest"
        "list_all (\<lambda>e. \<exists>header. de_raw e = header @ de_contents e \<and> length (de_contents e) \<le> max_len) es" by auto
      moreover have "length bs = length (de_raw e) + length rest" using s by (metis length_append)
      ultimately show ?thesis unfolding d Inr rbind.simps sum.case using s by auto
    qed
  qed
qed

section \<open>Object identifiers\<close>

lemma oid_arcs_continued:
  assumes "\<forall>x \<in> set ds. x < 128" "d < 128" "value128 (unat m) (ds @ [d]) < 2 ^ 64"
  shows "oid_arcs m p (map more_byte ds @ word_of_nat d # rest)
     = rbind (oid_arcs 0 False rest) (\<lambda>arcs. Inr (word_of_nat (value128 (unat m) (ds @ [d])) # arcs))"
  using assms
proof (induction ds arbitrary: m p)
  case Nil
  then have m: "unat m * 128 + d < 2 ^ 64" by (simp add: value128_def)
  then have g: "unat m < 2 ^ 57" by simp
  then have "\<not> m > drop_bit 7 (- 1)" by (simp only: over_max64 not_le)
  moreover from g have "unat m * 128 + 127 < 2 ^ 64" by simp
  then have "unat (push_bit 7 m OR ucast ((word_of_nat d :: 8 word) AND 0x7f)) = unat m * 128 + d"
    using Nil.prems(2) or_shift7 [of m "ucast ((word_of_nat d :: 8 word) AND 0x7f)"] by (simp add: ucast_low byte_of_digit)
  then have "push_bit 7 m OR ucast ((word_of_nat d :: 8 word) AND 0x7f) = word_of_nat (unat m * 128 + d)" by (rule word_by_unat)
  ultimately show ?case using m Nil.prems(2) by (simp add: byte_and_80 byte_of_digit value128_def)
next
  case (Cons x ds)
  let ?m = "push_bit 7 m OR ucast (more_byte x AND 0x7f)"
  have "unat m * 128 + x < 2 ^ 64"
    using value128_ge [of "unat m * 128 + x" "ds @ [d]"] Cons.prems(3) by (simp add: value128_def)
  then have m: "unat m < 2 ^ 57" by simp
  then have m7: "unat m * 128 + 127 < 2 ^ 64" by simp
  from m7 have v: "unat ?m = unat m * 128 + x"
    using Cons.prems(1) or_shift7 [of m "ucast (more_byte x AND 0x7f)"] by (simp add: ucast_low byte_of_digit)
  have "\<not> more_byte x AND 0x80 = 0"
    using Cons.prems(1) by (simp add: byte_and_80 byte_of_digit)
  moreover have "\<not> m > drop_bit 7 (- 1)" using m by (simp only: over_max64 not_le)
  ultimately have "oid_arcs m p (map more_byte (x # ds) @ word_of_nat d # rest) = oid_arcs ?m True (map more_byte ds @ word_of_nat d # rest)"
    by (simp add: Let_def)
  also have "\<dots> = rbind (oid_arcs 0 False rest) (\<lambda>arcs. Inr (word_of_nat (value128 (unat ?m) (ds @ [d])) # arcs))"
    using Cons.prems v by (intro Cons.IH) (simp_all add: value128_def)
  finally show ?case by (simp add: v value128_def)
qed

lemma oid_arcs_encoded:
  "\<forall>a \<in> set arcs. a < 2 ^ 64 \<Longrightarrow> oid_arcs 0 False (concat (map (\<lambda>a. continued (base128 a)) arcs)) = Inr (map word_of_nat arcs)"
proof (induction arcs)
  case (Cons a arcs)
  obtain ds d where d: "base128 a = ds @ [d]" "\<forall>x \<in> set ds. x < 128" "d < 128" "value128 0 (ds @ [d]) = a"
    by (rule base128_split)
  have "oid_arcs 0 False (map more_byte ds @ word_of_nat d # concat (map (\<lambda>a. continued (base128 a)) arcs))
     = rbind (Inr (map word_of_nat arcs)) (\<lambda>arcs. Inr (word_of_nat (value128 (unat (0 :: 64 word)) (ds @ [d])) # arcs))"
    using Cons d by (subst oid_arcs_continued) (simp_all add: d(4))
  then show ?case by (simp add: d(1,4))
qed simp

text \<open>
  An object identifier is read as written when its first two arcs fit the first byte: for \<open>a\<close> up to 2 and \<open>40 a + b\<close> below
  128, with \<open>b\<close> below 40 unless \<open>a\<close> is 2, and any further arcs of 64 bits, the text is the arcs joined by dots.
\<close>

theorem der_oid_reads:
  assumes "a \<le> 2" "a < 2 \<longrightarrow> b < 40" "40 * a + b < 128" "\<forall>x \<in> set arcs. x < 2 ^ 64"
    and "de_contents e = word_of_nat (40 * a + b) # concat (map (\<lambda>x. continued (base128 x)) arcs)"
  shows "der_oid e = Inr (join ''.'' (map nat_to_string (a # b # arcs)))"
proof -
  define f where "f = (word_of_nat (40 * a + b) :: 8 word)"
  have u: "unat f = 40 * a + b" unfolding f_def using assms(3) by (intro byte_of_nat) simp
  have d: "unat (ucast (f div 40) :: 64 word) = (40 * a + b) div 40"
  proof -
    have "unat (f div 40) = (40 * a + b) div 40" by (simp only: unat_div u) simp
    then show ?thesis using assms(3) by (simp only: unsigned_ucast_eq) (simp add: take_bit_nat_eq_self)
  qed
  have p0: "min (ucast (f div 40)) (2 :: 64 word) = word_of_nat a"
  proof (rule word_by_unat)
    have "min ((40 * a + b) div 40) 2 = a" using assms(1,2) by (cases "a = 2") auto
    then show "unat (min (ucast (f div 40)) (2 :: 64 word)) = a"
      using d by (simp add: min_def word_le_nat_alt split: if_splits)
  qed
  have p1: "ucast f - word_of_nat a * 40 = (word_of_nat b :: 64 word)"
  proof -
    have "ucast f = (word_of_nat (40 * a + b) :: 64 word)" using of_nat_unat [of f, where 'a = "64 word"] unfolding u by (rule sym)
    then show ?thesis by simp
  qed
  have m: "map (\<lambda>x. nat_to_string (unat (word_of_nat x :: 64 word))) arcs = map nat_to_string arcs"
    using assms(4) by (simp add: unat_of_nat take_bit_nat_eq_self)
  have "unat (word_of_nat a :: 64 word) = a" "unat (word_of_nat b :: 64 word) = b"
    using assms(1-3) by (simp_all add: unat_of_nat take_bit_nat_eq_self)
  then show ?thesis using assms(4) unfolding der_oid_def assms(5) f_def [symmetric]
    by (simp add: Let_def p0 p1 oid_arcs_encoded comp_def m)
qed

definition oid_element :: "bytes \<Rightarrow> der_element" where
  "oid_element contents = \<lparr>de_class = Universal, de_constructed = False, de_number = tag_oid, de_contents = contents,
     de_raw = [6, word_of_nat (length contents)] @ contents\<rparr>"

theorem der_oid_reads_witness:
  "der_oid (oid_element [0x55, 0x1d, 0x81, 3]) = Inr ''2.5.29.131''"
proof -
  have b: "base128 29 = [29]" "base128 131 = [1, 3]" "base128 1 = [1]" "base128 (Suc 0) = [1]"
    by (simp_all add: base128.simps)
  have "der_oid (oid_element [0x55, 0x1d, 0x81, 3]) = Inr (join ''.'' (map nat_to_string (2 # 5 # [29, 131])))"
    by (rule der_oid_reads) (simp_all add: oid_element_def b continued_def more_byte_def)
  also have "join ''.'' (map nat_to_string (2 # 5 # [29, 131])) = ''2.5.29.131''" by code_simp
  finally show ?thesis .
qed

text \<open>The identifier 2.999, whose first two arcs take two bytes, is read as 2.56.55.\<close>

lemma wide_first_arcs_misread: "continued (base128 (40 * 2 + 999)) = [0x88, 0x37]" "der_oid (oid_element [0x88, 0x37]) = Inr ''2.56.55''"
proof -
  show "continued (base128 (40 * 2 + 999)) = [0x88, 0x37]" by (simp add: base128.simps continued_def more_byte_def)
  show "der_oid (oid_element [0x88, 0x37]) = Inr ''2.56.55''" by code_simp
qed

end
