(* ===== verification/Key_Attestation.thy ===== *)
theory Key_Attestation
  imports Der Crypto
begin

text \<open>
  The check of an Android key attestation (\<open>domain/key_attestation.rs\<close>): the chain of certificates of a key made in the
  Keystore of a device, the description of the key in its extension and the conditions the server puts on it.

  \<open>sig_verify\<close> is the signature verification of the library: algorithm, public key, message and signature.  Its
  algorithms are the constants the code passes to it.
\<close>

section \<open>Types\<close>

definition as_bytes :: "string \<Rightarrow> bytes" where
  "as_bytes s = map (\<lambda>c. word_of_nat (byte_val c)) s"

definition oid_key_description :: string where
  "oid_key_description = ''1.3.6.1.4.1.11129.2.1.17''"

definition oid_basic_constraints :: string where
  "oid_basic_constraints = ''2.5.29.19''"

definition max_chain_len :: nat where
  "max_chain_len = 8"

datatype key_security_level = LevelSoftware | TrustedEnvironment | StrongBox

definition key_security_level_table :: "key_security_level enum_table" where
  "key_security_level_table = [(LevelSoftware, ''software''), (TrustedEnvironment, ''tee''), (StrongBox, ''strongbox'')]"

definition level_from_der :: "64 word \<Rightarrow> key_security_level option" where
  "level_from_der value = (if value = 0 then Some LevelSoftware else if value = 1 then Some TrustedEnvironment
     else if value = 2 then Some StrongBox else None)"

record attestation_policy =
  kp_trusted_root_keys :: "bytes list"
  kp_package_name :: string
  kp_signing_cert_digests :: "bytes list"
  kp_allow_software :: bool

record attested_key =
  ak_public_key_spki :: bytes
  ak_security_level :: key_security_level

datatype attestation_rejection =
    AttMalformed
  | UntrustedChain
  | WrongChallenge
  | InsecureKeyStore
  | WrongKeyParameters
  | NoBiometricRequirement
  | UnverifiedDevice
  | WrongApplication

definition attestation_rejection_table :: "attestation_rejection enum_table" where
  "attestation_rejection_table = [(AttMalformed, ''malformed''), (UntrustedChain, ''untrusted_chain''), (WrongChallenge, ''wrong_challenge''),
     (InsecureKeyStore, ''insecure_key_store''), (WrongKeyParameters, ''wrong_key_parameters''),
     (NoBiometricRequirement, ''no_biometric_requirement''), (UnverifiedDevice, ''unverified_device''),
     (WrongApplication, ''wrong_application'')]"

text \<open>\<open>From<DerError>\<close>.\<close>

definition der :: "der_error + 'a \<Rightarrow> attestation_rejection + 'a" where
  "der = map_err (\<lambda>_. AttMalformed)"

lemma rbind_cong [fundef_cong]: "x = y \<Longrightarrow> (\<And>a. y = Inr a \<Longrightarrow> f a = g a) \<Longrightarrow> rbind x f = rbind y g"
  by (cases y) auto

lemma der_Inr [simp]: "der r = Inr a \<longleftrightarrow> r = Inr a"
  by (simp add: der_def)

lemma der_expect_shorter: "der_expect n bs = Inr (e, rest) \<Longrightarrow> length rest < length bs"
  by (auto simp: der_expect_def rbind_Inr_iff dest: next_element_shorter split: if_splits)

definition expect_sequence :: "der_element \<Rightarrow> attestation_rejection + bytes" where
  "expect_sequence e = (if de_class e \<noteq> Universal \<or> de_number e \<noteq> tag_sequence then Inl AttMalformed else Inr (de_contents e))"

section \<open>Certificates\<close>

record certificate =
  ct_tbs :: bytes
  ct_signature_algorithm :: string
  ct_signature :: bytes
  ct_issuer :: bytes
  ct_subject :: bytes
  ct_spki :: bytes
  ct_extensions :: "(string \<times> bytes) list"

definition parse_extension :: "bytes \<Rightarrow> attestation_rejection + string \<times> bytes" where
  "parse_extension e =
     rbind (der (der_expect tag_oid e)) (\<lambda>(oid_element, e1).
     rbind (der (der_oid oid_element)) (\<lambda>oid.
     rbind (der (next_element e1)) (\<lambda>(nxt, e2).
     rbind (if de_class nxt = Universal \<and> de_number nxt = tag_boolean then der (next_element e2) else Inr (nxt, e2)) (\<lambda>(v, _).
     if de_class v \<noteq> Universal \<or> de_number v \<noteq> tag_octet_string then Inl AttMalformed else Inr (oid, de_contents v)))))"

function parse_extensions :: "bytes \<Rightarrow> (string \<times> bytes) list \<Rightarrow> attestation_rejection + (string \<times> bytes) list" where
  "parse_extensions items extensions =
     (if items = [] then Inr extensions
      else rbind (der (der_expect tag_sequence items)) (\<lambda>(ext, rest).
           rbind (parse_extension (de_contents ext)) (\<lambda>(oid, v).
           if list_ex (\<lambda>(name, _). name = oid) extensions then Inl AttMalformed
           else parse_extensions rest (extensions @ [(oid, v)]))))"
  by pat_completeness auto
termination
  by (relation "measure (\<lambda>(items, _). length items)") (auto dest: der_expect_shorter)

declare parse_extensions.simps [simp del]

definition parse_fields :: "bytes \<Rightarrow> attestation_rejection + bytes \<times> bytes \<times> bytes \<times> (string \<times> bytes) list" where
  "parse_fields contents =
     rbind (der (optional_context 0 contents)) (\<lambda>(_, f1).
     rbind (der (der_expect tag_integer f1)) (\<lambda>(_, f2).
     rbind (der (der_expect tag_sequence f2)) (\<lambda>(_, f3).
     rbind (der (der_expect tag_sequence f3)) (\<lambda>(issuer, f4).
     rbind (der (der_expect tag_sequence f4)) (\<lambda>(_, f5).
     rbind (der (der_expect tag_sequence f5)) (\<lambda>(subject, f6).
     rbind (der (der_expect tag_sequence f6)) (\<lambda>(spki, f7).
     rbind (der (optional_context 1 f7)) (\<lambda>(_, f8).
     rbind (der (optional_context 2 f8)) (\<lambda>(_, f9).
     rbind (der (optional_context 3 f9)) (\<lambda>(wrapper, _).
     rbind (case wrapper of None \<Rightarrow> Inr []
            | Some w \<Rightarrow> rbind (der (der_expect tag_sequence (de_contents w))) (\<lambda>(list, _). parse_extensions (de_contents list) [])) (\<lambda>extensions.
     Inr (de_raw issuer, de_raw subject, de_raw spki, extensions))))))))))))"

definition parse_certificate :: "bytes \<Rightarrow> attestation_rejection + certificate" where
  "parse_certificate input =
     rbind (der (der_single input)) (\<lambda>cert.
     rbind (expect_sequence cert) (\<lambda>parts.
     rbind (der (der_expect tag_sequence parts)) (\<lambda>(tbs, parts1).
     rbind (der (der_expect tag_sequence parts1)) (\<lambda>(algorithm, parts2).
     rbind (der (der_expect tag_bit_string parts2)) (\<lambda>(s, parts3).
     rbind (der (bit_string_bytes s)) (\<lambda>signature.
     if parts3 \<noteq> [] then Inl AttMalformed
     else
     rbind (der (der_expect tag_oid (de_contents algorithm))) (\<lambda>(oid_element, _).
     rbind (der (der_oid oid_element)) (\<lambda>signature_algorithm.
     rbind (parse_fields (de_contents tbs)) (\<lambda>(issuer, subject, spki, extensions).
     Inr \<lparr>ct_tbs = de_raw tbs, ct_signature_algorithm = signature_algorithm, ct_signature = signature, ct_issuer = issuer,
          ct_subject = subject, ct_spki = spki, ct_extensions = extensions\<rparr>)))))))))"

definition cert_extension :: "certificate \<Rightarrow> string \<Rightarrow> bytes option" where
  "cert_extension c oid = map_option snd (find (\<lambda>(name, _). name = oid) (ct_extensions c))"

definition cert_is_ca :: "certificate \<Rightarrow> attestation_rejection + bool" where
  "cert_is_ca c =
     (case cert_extension c oid_basic_constraints of None \<Rightarrow> Inr False
      | Some v \<Rightarrow>
        rbind (der (der_single v)) (\<lambda>constraints.
        rbind (expect_sequence constraints) (\<lambda>items.
        if items = [] then Inr False
        else rbind (der (next_element items)) (\<lambda>(first, _).
          if de_class first = Universal \<and> de_number first = tag_boolean then der (der_boolean first) else Inr False))))"

datatype key_kind = KindP256 | KindP384 | KindRsa

definition public_key_of :: "bytes \<Rightarrow> attestation_rejection + key_kind \<times> bytes" where
  "public_key_of spki =
     rbind (der (der_single spki)) (\<lambda>info.
     rbind (expect_sequence info) (\<lambda>parts.
     rbind (der (der_expect tag_sequence parts)) (\<lambda>(algorithm, parts1).
     rbind (der (der_expect tag_bit_string parts1)) (\<lambda>(k, _).
     rbind (der (bit_string_bytes k)) (\<lambda>key.
     rbind (der (der_expect tag_oid (de_contents algorithm))) (\<lambda>(oid_element, alg).
     rbind (der (der_oid oid_element)) (\<lambda>oid.
     rbind (if oid = ''1.2.840.10045.2.1''
            then rbind (der (der_expect tag_oid alg)) (\<lambda>(c, _).
                 rbind (der (der_oid c)) (\<lambda>curve.
                 if curve = ''1.2.840.10045.3.1.7'' then Inr KindP256
                 else if curve = ''1.3.132.0.34'' then Inr KindP384
                 else Inl AttMalformed))
            else if oid = ''1.2.840.113549.1.1.1'' then Inr KindRsa
            else Inl AttMalformed) (\<lambda>kind.
     Inr (kind, key)))))))))"

definition is_p256_key :: "bytes \<Rightarrow> attestation_rejection + bool" where
  "is_p256_key spki = rbind (public_key_of spki) (\<lambda>(kind, _). Inr (kind = KindP256))"

datatype signature_scheme =
    EcdsaP256Sha256 | EcdsaP256Sha384 | EcdsaP384Sha256 | EcdsaP384Sha384 | RsaPkcs1Sha256 | RsaPkcs1Sha384 | RsaPkcs1Sha512

type_synonym sig_verify = "signature_scheme \<Rightarrow> bytes \<Rightarrow> bytes \<Rightarrow> bytes \<Rightarrow> bool"

definition signature_schemes :: "((key_kind \<times> string) \<times> signature_scheme) list" where
  "signature_schemes =
     [((KindP256, ''1.2.840.10045.4.3.2''), EcdsaP256Sha256), ((KindP256, ''1.2.840.10045.4.3.3''), EcdsaP256Sha384),
      ((KindP384, ''1.2.840.10045.4.3.2''), EcdsaP384Sha256), ((KindP384, ''1.2.840.10045.4.3.3''), EcdsaP384Sha384),
      ((KindRsa, ''1.2.840.113549.1.1.11''), RsaPkcs1Sha256), ((KindRsa, ''1.2.840.113549.1.1.12''), RsaPkcs1Sha384),
      ((KindRsa, ''1.2.840.113549.1.1.13''), RsaPkcs1Sha512)]"

definition is_signed_by :: "sig_verify \<Rightarrow> certificate \<Rightarrow> bytes \<Rightarrow> attestation_rejection + bool" where
  "is_signed_by verify c issuer_spki =
     rbind (public_key_of issuer_spki) (\<lambda>(kind, key).
     case map_of signature_schemes (kind, ct_signature_algorithm c) of None \<Rightarrow> Inr False
     | Some algorithm \<Rightarrow> Inr (verify algorithm key (ct_tbs c) (ct_signature c)))"

definition verify_p256_signature :: "sig_verify \<Rightarrow> bytes \<Rightarrow> bytes \<Rightarrow> bytes \<Rightarrow> bool" where
  "verify_p256_signature verify spki message signature_der =
     (case public_key_of spki of Inr (KindP256, point) \<Rightarrow> verify EcdsaP256Sha256 point message signature_der | _ \<Rightarrow> False)"

section \<open>The description of a key\<close>

record root_of_trust =
  ro_device_locked :: bool
  ro_verified_boot_state :: "64 word"

record application_id =
  ai_package_names :: "bytes list"
  ai_signature_digests :: "bytes list"

record authorization_list =
  al_purposes :: "64 word list"
  al_algorithm :: "64 word option"
  al_ec_curve :: "64 word option"
  al_no_auth_required :: bool
  al_user_auth_type :: "64 word option"
  al_auth_timeout :: "64 word option"
  al_origin :: "64 word option"
  al_root_of_trust :: "root_of_trust option"
  al_application_id :: "application_id option"

record key_description =
  kd_attestation_level :: key_security_level
  kd_keymint_level :: key_security_level
  kd_challenge :: bytes
  kd_software_enforced :: authorization_list
  kd_hardware_enforced :: authorization_list

definition default_authorization_list :: authorization_list where
  "default_authorization_list = \<lparr>al_purposes = [], al_algorithm = None, al_ec_curve = None, al_no_auth_required = False,
     al_user_auth_type = None, al_auth_timeout = None, al_origin = None, al_root_of_trust = None, al_application_id = None\<rparr>"

definition attested_integer :: "der_element \<Rightarrow> attestation_rejection + 64 word" where
  "attested_integer e =
     (if de_class e \<noteq> Universal \<or> \<not> (de_number e = tag_integer \<or> de_number e = tag_enumerated) then Inl AttMalformed
      else der (der_unsigned e))"

definition parse_root_of_trust :: "der_element \<Rightarrow> attestation_rejection + root_of_trust" where
  "parse_root_of_trust e =
     rbind (expect_sequence e) (\<lambda>items.
     rbind (der (der_expect tag_octet_string items)) (\<lambda>(_, i1).
     rbind (der (der_expect tag_boolean i1)) (\<lambda>(b, i2).
     rbind (der (der_boolean b)) (\<lambda>device_locked.
     rbind (der (der_expect tag_enumerated i2)) (\<lambda>(s, _).
     rbind (der (der_unsigned s)) (\<lambda>verified_boot_state.
     Inr \<lparr>ro_device_locked = device_locked, ro_verified_boot_state = verified_boot_state\<rparr>))))))"

text \<open>The loops over the children: the purposes, the names and the digests.\<close>

function read_all :: "32 word \<Rightarrow> (der_element \<Rightarrow> attestation_rejection + 'a) \<Rightarrow> bytes \<Rightarrow> 'a list \<Rightarrow> attestation_rejection + 'a list" where
  "read_all number f items out =
     (if items = [] then Inr out
      else rbind (der (der_expect number items)) (\<lambda>(e, rest). rbind (f e) (\<lambda>a. read_all number f rest (out @ [a]))))"
  by pat_completeness auto
termination
  by (relation "measure (\<lambda>(_, _, items, _). length items)") (auto dest: der_expect_shorter)

declare read_all.simps [simp del]

definition parse_application_id :: "bytes \<Rightarrow> attestation_rejection + application_id" where
  "parse_application_id v =
     rbind (der (der_single v)) (\<lambda>outer.
     rbind (expect_sequence outer) (\<lambda>items.
     rbind (der (der_expect tag_set items)) (\<lambda>(packages, i1).
     rbind (der (der_expect tag_set i1)) (\<lambda>(digests, _).
     rbind (read_all tag_sequence (\<lambda>info. rbind (der (der_expect tag_octet_string (de_contents info))) (\<lambda>(n, _). Inr (de_contents n)))
              (de_contents packages) []) (\<lambda>package_names.
     rbind (read_all tag_octet_string (\<lambda>d. Inr (de_contents d)) (de_contents digests) []) (\<lambda>signature_digests.
     Inr \<lparr>ai_package_names = package_names, ai_signature_digests = signature_digests\<rparr>))))))"

definition authorization_item :: "der_element \<Rightarrow> authorization_list \<Rightarrow> attestation_rejection + authorization_list" where
  "authorization_item tagged out =
     (if de_class tagged \<noteq> ContextSpecific \<or> \<not> de_constructed tagged then Inl AttMalformed
      else
      rbind (der (der_single (de_contents tagged))) (\<lambda>inner.
      let n = unat (de_number tagged) in
      if n = 1 then
        (if de_number inner \<noteq> tag_set then Inl AttMalformed
         else rbind (read_all tag_integer (\<lambda>e. der (der_unsigned e)) (de_contents inner) (al_purposes out)) (\<lambda>ps. Inr (out\<lparr>al_purposes := ps\<rparr>)))
      else if n = 2 then rbind (attested_integer inner) (\<lambda>v. Inr (out\<lparr>al_algorithm := Some v\<rparr>))
      else if n = 10 then rbind (attested_integer inner) (\<lambda>v. Inr (out\<lparr>al_ec_curve := Some v\<rparr>))
      else if n = 503 then
        (if de_number inner \<noteq> tag_null then Inl AttMalformed else Inr (out\<lparr>al_no_auth_required := True\<rparr>))
      else if n = 504 then rbind (attested_integer inner) (\<lambda>v. Inr (out\<lparr>al_user_auth_type := Some v\<rparr>))
      else if n = 505 then rbind (attested_integer inner) (\<lambda>v. Inr (out\<lparr>al_auth_timeout := Some v\<rparr>))
      else if n = 702 then rbind (attested_integer inner) (\<lambda>v. Inr (out\<lparr>al_origin := Some v\<rparr>))
      else if n = 704 then rbind (parse_root_of_trust inner) (\<lambda>v. Inr (out\<lparr>al_root_of_trust := Some v\<rparr>))
      else if n = 709 then
        (if de_number inner \<noteq> tag_octet_string then Inl AttMalformed
         else rbind (parse_application_id (de_contents inner)) (\<lambda>v. Inr (out\<lparr>al_application_id := Some v\<rparr>)))
      else Inr out))"

function parse_items :: "bytes \<Rightarrow> authorization_list \<Rightarrow> attestation_rejection + authorization_list" where
  "parse_items items out =
     (if items = [] then Inr out
      else rbind (der (next_element items)) (\<lambda>(tagged, rest). rbind (authorization_item tagged out) (\<lambda>out'. parse_items rest out')))"
  by pat_completeness auto
termination
  by (relation "measure (\<lambda>(items, _). length items)") (auto dest: next_element_shorter)

declare parse_items.simps [simp del]

definition parse_authorization_list :: "der_element \<Rightarrow> attestation_rejection + authorization_list" where
  "parse_authorization_list list = rbind (expect_sequence list) (\<lambda>items. parse_items items default_authorization_list)"

definition security_level :: "der_element \<Rightarrow> attestation_rejection + key_security_level" where
  "security_level e = rbind (der (der_unsigned e)) (\<lambda>v. ok_or AttMalformed (level_from_der v))"

definition parse_key_description :: "bytes \<Rightarrow> attestation_rejection + key_description" where
  "parse_key_description v =
     rbind (der (der_single v)) (\<lambda>outer.
     rbind (expect_sequence outer) (\<lambda>items.
     rbind (der (der_expect tag_integer items)) (\<lambda>(_, i1).
     rbind (der (der_expect tag_enumerated i1)) (\<lambda>(a, i2).
     rbind (security_level a) (\<lambda>attestation_level.
     rbind (der (der_expect tag_integer i2)) (\<lambda>(_, i3).
     rbind (der (der_expect tag_enumerated i3)) (\<lambda>(k, i4).
     rbind (security_level k) (\<lambda>keymint_level.
     rbind (der (der_expect tag_octet_string i4)) (\<lambda>(c, i5).
     rbind (der (der_expect tag_octet_string i5)) (\<lambda>(_, i6).
     rbind (der (der_expect tag_sequence i6)) (\<lambda>(sw, i7).
     rbind (parse_authorization_list sw) (\<lambda>software_enforced.
     rbind (der (der_expect tag_sequence i7)) (\<lambda>(hw, _).
     rbind (parse_authorization_list hw) (\<lambda>hardware_enforced.
     Inr \<lparr>kd_attestation_level = attestation_level, kd_keymint_level = keymint_level, kd_challenge = de_contents c,
          kd_software_enforced = software_enforced, kd_hardware_enforced = hardware_enforced\<rparr>))))))))))))))"

section \<open>The check\<close>

fun check_chain :: "sig_verify \<Rightarrow> certificate list \<Rightarrow> attestation_rejection + unit" where
  "check_chain verify (child # parent # rest) =
     (if ct_issuer child \<noteq> ct_subject parent then Inl UntrustedChain
      else
      rbind (cert_is_ca parent) (\<lambda>ca.
      if \<not> ca then Inl UntrustedChain
      else if cert_extension parent oid_key_description \<noteq> None then Inl UntrustedChain
      else
      rbind (is_signed_by verify child (ct_spki parent)) (\<lambda>signed.
      if \<not> signed then Inl UntrustedChain else check_chain verify (parent # rest))))"
| "check_chain verify _ = Inr ()"

definition auth_type_password :: "64 word" where
  "auth_type_password = 1"

definition auth_type_fingerprint :: "64 word" where
  "auth_type_fingerprint = 2"

definition check_key :: "attestation_policy \<Rightarrow> bytes \<Rightarrow> key_description \<Rightarrow> certificate \<Rightarrow> attestation_rejection + key_security_level" where
  "check_key policy challenge d leaf =
     (if kd_challenge d \<noteq> challenge then Inl WrongChallenge
      else if kd_attestation_level d \<noteq> kd_keymint_level d then Inl InsecureKeyStore
      else
      let level = kd_attestation_level d in
      if level = LevelSoftware \<and> \<not> kp_allow_software policy then Inl InsecureKeyStore
      else
      let enforced = (if level = LevelSoftware then kd_software_enforced d else kd_hardware_enforced d) in
      rbind (if al_algorithm enforced \<noteq> Some 3 \<or> al_ec_curve enforced \<noteq> Some 1 \<or> 2 \<notin> set (al_purposes enforced) \<or> al_origin enforced \<noteq> Some 0
             then Inr True else rbind (is_p256_key (ct_spki leaf)) (\<lambda>p. Inr (\<not> p))) (\<lambda>wrong.
      if wrong then Inl WrongKeyParameters
      else
      let either_no_auth = al_no_auth_required (kd_software_enforced d) \<or> al_no_auth_required (kd_hardware_enforced d);
          auth_type = (case al_user_auth_type enforced of None \<Rightarrow> 0 | Some x \<Rightarrow> x);
          timed = (\<lambda>t. case t of None \<Rightarrow> False | Some x \<Rightarrow> 0 < (x :: 64 word))
      in if either_no_auth \<or> auth_type AND auth_type_fingerprint = 0 \<or> auth_type AND auth_type_password \<noteq> 0
            \<or> timed (al_auth_timeout enforced) \<or> timed (al_auth_timeout (kd_software_enforced d))
         then Inl NoBiometricRequirement
         else Inr level))"

definition check_device :: "attestation_policy \<Rightarrow> key_description \<Rightarrow> attestation_rejection + unit" where
  "check_device policy d =
     (if \<not> kp_allow_software policy
      then (case al_root_of_trust (kd_hardware_enforced d) of
              Some root \<Rightarrow> if ro_device_locked root \<and> ro_verified_boot_state root = 0 then Inr () else Inl UnverifiedDevice
            | None \<Rightarrow> Inl UnverifiedDevice)
      else Inr ())"

definition check_application :: "attestation_policy \<Rightarrow> key_description \<Rightarrow> attestation_rejection + unit" where
  "check_application policy d =
     rbind (ok_or WrongApplication
       (case al_application_id (kd_software_enforced d) of Some a \<Rightarrow> Some a | None \<Rightarrow> al_application_id (kd_hardware_enforced d))) (\<lambda>application.
     if \<not> list_ex (\<lambda>name. name = as_bytes (kp_package_name policy)) (ai_package_names application)
        \<or> ai_signature_digests application = []
        \<or> \<not> list_all (\<lambda>d. list_ex (\<lambda>ok. ok = d) (kp_signing_cert_digests policy)) (ai_signature_digests application)
     then Inl WrongApplication else Inr ())"

definition verify_attestation ::
  "sig_verify \<Rightarrow> bytes list \<Rightarrow> bytes \<Rightarrow> attestation_policy \<Rightarrow> attestation_rejection + attested_key" where
  "verify_attestation verify chain challenge policy =
     (if length chain < 2 \<or> length chain > max_chain_len then Inl AttMalformed
      else
      rbind (collect_results parse_certificate chain) (\<lambda>certs.
      rbind (check_chain verify certs) (\<lambda>_.
      if \<not> list_ex (\<lambda>root. root = ct_spki (last certs)) (kp_trusted_root_keys policy) then Inl UntrustedChain
      else
      let leaf = hd certs in
      rbind (ok_or AttMalformed (cert_extension leaf oid_key_description)) (\<lambda>v.
      rbind (parse_key_description v) (\<lambda>description.
      rbind (check_key policy challenge description leaf) (\<lambda>level.
      rbind (check_device policy description) (\<lambda>_.
      rbind (check_application policy description) (\<lambda>_.
      Inr \<lparr>ak_public_key_spki = ct_spki leaf, ak_security_level = level\<rparr>))))))))"

text \<open>Root keys of the configuration: the public keys of the certificates of a PEM file.  \<open>decode\<close> is base64.\<close>

fun pem_lines ::
  "(string \<Rightarrow> bytes option) \<Rightarrow> string list \<Rightarrow> bytes list \<Rightarrow> string \<Rightarrow> bool \<Rightarrow> attestation_rejection + bytes list" where
  "pem_lines decode [] keys body inside = (if inside then Inl AttMalformed else Inr keys)"
| "pem_lines decode (l # ls) keys body inside =
     (let line = trim l in
      if line = ''-----BEGIN CERTIFICATE-----'' then pem_lines decode ls keys [] True
      else if line = ''-----END CERTIFICATE-----''
      then rbind (ok_or AttMalformed (decode body)) (\<lambda>der_bytes.
           rbind (parse_certificate der_bytes) (\<lambda>c. pem_lines decode ls (keys @ [ct_spki c]) body False))
      else pem_lines decode ls keys (if inside then body @ line else body) inside)"

definition root_keys_from_pem :: "(string \<Rightarrow> bytes option) \<Rightarrow> string \<Rightarrow> attestation_rejection + bytes list" where
  "root_keys_from_pem decode pem = pem_lines decode (split_on (CHR 0x0A) pem) [] [] False"

section \<open>What is accepted\<close>

text \<open>One certificate stands above the other: the names chain, the upper one is a CA without a description of its own, and its
  key has signed the lower one.\<close>

definition issued_by :: "sig_verify \<Rightarrow> certificate \<Rightarrow> certificate \<Rightarrow> bool" where
  "issued_by verify child parent \<longleftrightarrow>
     ct_issuer child = ct_subject parent \<and> cert_is_ca parent = Inr True \<and> cert_extension parent oid_key_description = None \<and>
     is_signed_by verify child (ct_spki parent) = Inr True"

definition chain_linked :: "sig_verify \<Rightarrow> certificate list \<Rightarrow> bool" where
  "chain_linked verify certs \<longleftrightarrow> (\<forall>i. Suc i < length certs \<longrightarrow> issued_by verify (certs ! i) (certs ! Suc i))"

lemma chain_linked_Cons:
  "chain_linked verify (child # parent # rest) \<longleftrightarrow> issued_by verify child parent \<and> chain_linked verify (parent # rest)"
  by (auto simp: chain_linked_def nth_Cons split: nat.splits)

lemma check_chain_Inr_iff: "check_chain verify certs = Inr () \<longleftrightarrow> chain_linked verify certs"
  by (induction verify certs rule: check_chain.induct)
    (auto simp: chain_linked_Cons issued_by_def rbind_Inr_iff, auto simp: chain_linked_def)

text \<open>The list the store of the key enforces, and the conditions on the key in it.\<close>

definition enforced_list :: "key_description \<Rightarrow> authorization_list" where
  "enforced_list d = (if kd_attestation_level d = LevelSoftware then kd_software_enforced d else kd_hardware_enforced d)"

definition signing_key_of_the_keystore :: "certificate \<Rightarrow> key_description \<Rightarrow> bool" where
  "signing_key_of_the_keystore leaf d \<longleftrightarrow>
     (let a = enforced_list d in
      al_algorithm a = Some 3 \<and> al_ec_curve a = Some 1 \<and> 2 \<in> set (al_purposes a) \<and> al_origin a = Some 0) \<and>
     is_p256_key (ct_spki leaf) = Inr True"

definition asks_biometrics_every_time :: "key_description \<Rightarrow> bool" where
  "asks_biometrics_every_time d \<longleftrightarrow>
     \<not> al_no_auth_required (kd_software_enforced d) \<and> \<not> al_no_auth_required (kd_hardware_enforced d) \<and>
     (\<exists>t. al_user_auth_type (enforced_list d) = Some t \<and> t AND auth_type_fingerprint \<noteq> 0 \<and> t AND auth_type_password = 0) \<and>
     al_auth_timeout (enforced_list d) \<in> {None, Some 0} \<and> al_auth_timeout (kd_software_enforced d) \<in> {None, Some 0}"

definition made_by_the_app :: "attestation_policy \<Rightarrow> key_description \<Rightarrow> bool" where
  "made_by_the_app policy d \<longleftrightarrow>
     (\<exists>a. (al_application_id (kd_software_enforced d) = Some a \<or>
           al_application_id (kd_software_enforced d) = None \<and> al_application_id (kd_hardware_enforced d) = Some a) \<and>
          as_bytes (kp_package_name policy) \<in> set (ai_package_names a) \<and>
          ai_signature_digests a \<noteq> [] \<and> set (ai_signature_digests a) \<subseteq> set (kp_signing_cert_digests policy))"

definition booted_verified :: "key_description \<Rightarrow> bool" where
  "booted_verified d \<longleftrightarrow>
     (\<exists>root. al_root_of_trust (kd_hardware_enforced d) = Some root \<and> ro_device_locked root \<and> ro_verified_boot_state root = 0)"

definition store_allowed :: "attestation_policy \<Rightarrow> key_security_level \<Rightarrow> bool" where
  "store_allowed policy level \<longleftrightarrow> (level = LevelSoftware \<longrightarrow> kp_allow_software policy)"

lemma check_key_Inr_iff:
  "check_key policy challenge d leaf = Inr level \<longleftrightarrow>
     kd_challenge d = challenge \<and> kd_attestation_level d = level \<and> kd_keymint_level d = level \<and>
     store_allowed policy level \<and>
     signing_key_of_the_keystore leaf d \<and> asks_biometrics_every_time d"
  by (auto simp: check_key_def rbind_Inr_iff Let_def signing_key_of_the_keystore_def asks_biometrics_every_time_def
      enforced_list_def store_allowed_def word_gt_0 auth_type_fingerprint_def auth_type_password_def split: if_splits option.splits)

lemma check_device_Inr_iff: "check_device policy d = Inr () \<longleftrightarrow> kp_allow_software policy \<or> booted_verified d"
  by (auto simp: check_device_def booted_verified_def split: option.splits)

lemma check_application_Inr_iff: "check_application policy d = Inr () \<longleftrightarrow> made_by_the_app policy d"
  by (auto simp: check_application_def made_by_the_app_def rbind_Inr_iff list_ex_iff list_all_iff split: option.splits)

text \<open>(C35) A key is accepted exactly when the whole chain of two to eight certificates reads, each is issued by the next one,
  which is a CA and has no description of a key itself, the last key is one of the trusted roots, and the description in the
  leaf names the challenge that was sent, one store at both levels (software only where the policy allows it), a P-256 signing
  key generated in the store that asks for biometrics at every use, a verified boot (unless software is allowed) and the app
  with trusted signing certificates alone.  The key that is returned is the leaf's, with the level of its store.\<close>
theorem attestation_accepted_iff:
  "verify_attestation verify chain challenge policy = Inr key \<longleftrightarrow>
     (\<exists>certs v d.
        2 \<le> length chain \<and> length chain \<le> max_chain_len \<and> collect_results parse_certificate chain = Inr certs \<and>
        chain_linked verify certs \<and>
        ct_spki (last certs) \<in> set (kp_trusted_root_keys policy) \<and>
        cert_extension (hd certs) oid_key_description = Some v \<and> parse_key_description v = Inr d \<and>
        kd_challenge d = challenge \<and> kd_attestation_level d = ak_security_level key \<and> kd_keymint_level d = ak_security_level key \<and>
        store_allowed policy (ak_security_level key) \<and>
        signing_key_of_the_keystore (hd certs) d \<and> asks_biometrics_every_time d \<and>
        (kp_allow_software policy \<or> booted_verified d) \<and> made_by_the_app policy d \<and>
        ak_public_key_spki key = ct_spki (hd certs))"
  by (cases key)
    (auto simp: verify_attestation_def rbind_Inr_iff Let_def check_chain_Inr_iff check_key_Inr_iff check_device_Inr_iff
      check_application_Inr_iff list_ex_iff)

section \<open>A sample\<close>

text \<open>The description of a key of a locked device that asks for a fingerprint; a key that opens for a while after the
  screen lock, or whose app is signed by one more certificate, is refused.\<close>

definition sample_attestation_policy :: attestation_policy where
  "sample_attestation_policy =
     \<lparr>kp_trusted_root_keys = [], kp_package_name = ''app'', kp_signing_cert_digests = [[7, 7]], kp_allow_software = False\<rparr>"

definition sample_hardware :: authorization_list where
  "sample_hardware = default_authorization_list\<lparr>al_purposes := [2, 3], al_algorithm := Some 3, al_ec_curve := Some 1,
     al_user_auth_type := Some 2, al_origin := Some 0,
     al_root_of_trust := Some \<lparr>ro_device_locked = True, ro_verified_boot_state = 0\<rparr>\<rparr>"

definition sample_description :: "64 word option \<Rightarrow> bytes list \<Rightarrow> key_description" where
  "sample_description timeout digests =
     \<lparr>kd_attestation_level = TrustedEnvironment, kd_keymint_level = TrustedEnvironment, kd_challenge = [9, 9],
      kd_software_enforced = default_authorization_list\<lparr>
        al_application_id := Some \<lparr>ai_package_names = [as_bytes ''app''], ai_signature_digests = digests\<rparr>\<rparr>,
      kd_hardware_enforced = sample_hardware\<lparr>al_auth_timeout := timeout\<rparr>\<rparr>"

lemma sample_description_accepted:
  assumes "is_p256_key (ct_spki leaf) = Inr True"
  shows "check_key sample_attestation_policy [9, 9] (sample_description None [[7, 7]]) leaf = Inr TrustedEnvironment"
    and "check_device sample_attestation_policy (sample_description None [[7, 7]]) = Inr ()"
    and "check_application sample_attestation_policy (sample_description None [[7, 7]]) = Inr ()"
    and "check_key sample_attestation_policy [9, 9] (sample_description (Some 30) [[7, 7]]) leaf = Inl NoBiometricRequirement"
    and "check_key sample_attestation_policy [9, 8] (sample_description None [[7, 7]]) leaf = Inl WrongChallenge"
    and "check_application sample_attestation_policy (sample_description None [[7, 7], [7, 8]]) = Inl WrongApplication"
  using assms by (simp_all add: check_key_def check_device_def check_application_def sample_attestation_policy_def
      sample_description_def sample_hardware_def default_authorization_list_def auth_type_fingerprint_def auth_type_password_def)

end
