(* ===== verification/Spec2Isabelle.thy ===== *)
theory Spec2Isabelle
  imports Auth_Session_Flow Token_Race Response_Mode Lockout Authentication_Policy Key_Rotation Token_Lifecycle
    Step_Up Permission_Management Key_Attestation
begin

text \<open>
  A model of the core of assay, an OpenID Connect identity provider (\<open>src/crates/core\<close>).

  \<^bold>\<open>The program.\<close>  A relying party sends the user's browser to the authorization endpoint.  The request is
  accepted against the registered client (\<open>domain/authorization_request.rs\<close>) and bound to an authorization
  session (\<open>domain/auth_session.rs\<close>), which the sign-in drives from anonymous over password-verified to
  authenticated, across the hand-over of the session from the protocol origin to the sign-in origin.
  The sign-in is judged by the tenant's authentication policies and counted against the lockout ladder
  (\<open>domain/authentication_policy.rs\<close>, \<open>infrastructure/repositories/user.rs\<close>), and establishes a single
  sign-on session (\<open>domain/sso_session.rs\<close>).  The session yields an authorization code
  (\<open>domain/authorization_code.rs\<close>), returned in a response mode (\<open>domain/response_mode.rs\<close>).  The token
  endpoint (\<open>application/token.rs\<close>) authenticates the client (\<open>application/client_authentication.rs\<close>,
  \<open>domain/client_assertion.rs\<close>), checks the proof of possession (\<open>domain/dpop.rs\<close>), redeems the code or
  rotates a refresh token (\<open>domain/refresh_token.rs\<close>), asks the application gate
  (\<open>application/application_access.rs\<close>) and signs ID and access tokens with the current signing key
  (\<open>application/key_service.rs\<close>).  Access tokens are then accepted by \<open>/userinfo\<close>, reported by
  \<open>/introspect\<close> and revoked by \<open>/revoke\<close>.

  \<^bold>\<open>Theories.\<close>
  \<^item> \<open>Assay_Prelude\<close>: strings as UTF-8 bytes, machine integers and instants, results (\<open>rbind\<close>, \<open>map_err\<close>) and
    state actions (\<open>bindE\<close>) with the rules \<open>keeps\<close>, \<open>inv_action\<close>, \<open>err_inv\<close> and \<open>validE\<close> that carry frame conditions
    and invariants through a use case.
  \<^item> \<open>Values\<close>, \<open>Crypto\<close>, \<open>Entities\<close>: \<open>domain/values.rs\<close>, \<open>error.rs\<close>, \<open>crypto.rs\<close>, \<open>pkce.rs\<close>, \<open>client_jwks.rs\<close>,
    \<open>client.rs\<close>, \<open>user.rs\<close>, \<open>tenant.rs\<close>, \<open>issuer.rs\<close>.
  \<^item> \<open>Response_Mode\<close>, \<open>Authorization_Request\<close>: percent encoding and the three response modes decode back
    to the parameters; acceptance of a request is equivalent to a declarative specification, and an error
    is redirected only to a registered URI of an active client.
  \<^item> \<open>Auth_Session\<close>, \<open>Auth_Session_Flow\<close>: the aggregate and the statements on \<open>auth_sessions\<close>.  The row-to-entity
    map is the abstraction function of a refinement; \<open>flow_reach\<close> interleaves the writers of the table, and
    \<open>session_history\<close> follows one session through the rotations of its identifier.
  \<^item> \<open>Single_Use\<close>: the locale of conditional writes that succeed at most once, interpreted on the hand-over
    handle, the code (\<open>Authorization_Code\<close>), the refresh token under rotation (\<open>Refresh_Token\<close>) and the one-time
    identifiers of assertions and proofs (\<open>Proof_Tokens\<close>).
  \<^item> \<open>Sso_Session\<close>, \<open>Applications\<close>, \<open>Token_Claims\<close>: the SSO session and its strength, the application gate, the claims.
  \<^item> \<open>Store\<close>, \<open>Client_Authentication\<close>, \<open>Token\<close>: the database \<open>db\<close>, the environment \<open>env\<close> of one request, and the
    use cases as actions, each repository call one \<open>db_call\<close> that may fail.
  \<^item> \<open>Token_Properties\<close>, \<open>Token_Samples\<close>, \<open>Token_Race\<close>: what each grant requires and produces, how failures and
    replays end; a small deployment for the witnesses; the interleaving of the database statements of
    concurrent token requests, with the invariant that one grant has at most one live chain.
  \<^item> \<open>Network_Zone\<close>, \<open>Authentication_Policy\<close>, \<open>Lockout\<close>: IP ranges (with the address parser of the Rust
    standard library), time windows, policy evaluation and its enforcement; the escalation ladder in Rust and
    its translation to an SQL \<open>CASE\<close>, proved equal.
  \<^item> \<open>Signing_Keys\<close>, \<open>Key_Rotation\<close>: the table and service of signing keys; \<open>key_life\<close> is the life of a deployment
    under rotation, bootstrapping, generation and deletion, and \<open>chained\<close> the invariant by which signing goes on.
  \<^item> \<open>Access_Token\<close>, \<open>Token_Services\<close>, \<open>Token_Lifecycle\<close>: the verifier, userinfo, introspection and revocation, and
    the composition of the endpoints over the life of one token.
  \<^item> \<open>Tenant_Tables\<close>: memberships, consents and policies of a tenant with the statements of their repositories.
  \<^item> \<open>Authorize\<close>, \<open>Authorize_Flow\<close>, \<open>Authorize_Lifecycle\<close>, \<open>Authorize_Samples\<close>: the use cases between request, session and
    code (\<open>authorize.rs\<close>, \<open>sso_restore.rs\<close>, \<open>authentication_policy_gate.rs\<close>, \<open>consent.rs\<close>, \<open>code_issuance.rs\<close>,
    \<open>sign_in_completion.rs\<close>); a code is issued only when session, policies, freshness and consent justify it, and the
    tokens redeemed for it tell of that sign-in; a deployment for the witnesses.
  \<^item> \<open>Authenticators\<close>, \<open>Login_Identifiers\<close>, \<open>Passwords\<close>, \<open>Rate_Limit\<close>: the registry of authenticators with the recorded steps of
    one-time passwords, the names a user signs in with, password policy and history, the limit per address.
  \<^item> \<open>Account_Services\<close>, \<open>Login\<close>, \<open>Login_Flow\<close>, \<open>Password_Change\<close>, \<open>Sign_In_Tokens\<close>, \<open>Login_Samples\<close>: the sign-in with a password, the second
    step and the forced change, and what the tokens tell of a fresh sign-in; each single sign-on session they create is justified by what the theorems list; runs that
    show which of the two steps after the password can be skipped.
  \<^item> \<open>Permissions\<close>: permission codes, what they imply and who may hand them out, the tables of grants.
  \<^item> \<open>Permission_Management\<close>: the use cases, guard and handlers that grant and revoke, and the codes of a session: what is granted
    never exceeds what the caller may hand out, but for a code with a blank at its end.
  \<^item> \<open>Logout\<close>: logout at the request of a relying party ends exactly one session with its codes and refresh tokens.
  \<^item> \<open>Step_Up\<close>: confirming the identity again before a sensitive operation; what lets an operation through, and what a
    confirmation takes and leaves on the session.
  \<^item> \<open>Der\<close>, \<open>Key_Attestation\<close>: the reader of DER, inverse to the encoding, and the check of an Android key attestation, which
    accepts exactly the chains that meet the declarative conditions.

  \<^bold>\<open>Correspondence.\<close>  A struct is a record, an enum a datatype with the source's variants, a table a list of
  row records in insertion order, a use case an action on \<open>db\<close> returning \<open>Inl\<close> error or \<open>Inr\<close> value with the state
  it leaves (a failing use case keeps the writes it has made, as the code runs without a transaction).
  A conditional \<open>UPDATE\<close> or \<open>DELETE\<close> is one atomic step that reports the number of affected rows.  All functions are total
  and structurally recursive or with a measure; no fuel is used.

  \<^bold>\<open>Parameters.\<close>  Code outside \<open>src\<close> is an argument: digests, base64url, JOSE signing and decoding, password hashing, key
  generation, the random source, the verification of signatures, the settings store and the collation of the database (\<open>e_ci\<close>); the gate of registered
  devices, the cached look-up of a tenant and URL parsing are fields of \<open>flow\<close>.  What a theorem
  needs of them (injectivity of the digest on the strings at hand, that a signed token decodes to its claims)
  is a named hypothesis, and its witness instantiates the parameter.

  \<^bold>\<open>Simplifications.\<close>
  \<^item> \<open>chrono\<close> instants are unbounded nanosecond counts; the range check that makes their arithmetic panic far from the present
    and the truncation of \<open>DATETIME(6)\<close> columns to microseconds are left out.
  \<^item> \<open>updated_at\<close> columns set by the database and foreign-key cascades are left out; JSON and UUID columns are typed.
  \<^item> A fault of the database is a value of \<open>e_fault\<close> per statement label, constant during one request.
  \<^item> Within one request the clock reads the same; \<open>Key_Rotation\<close> states the steadiness it needs, and the effect of time passing
    inside a run is a property of its own.
  \<^item> Freshness of random tokens is a condition on the concurrent runs (\<open>ra_seen\<close>) and a hypothesis elsewhere.
  \<^item> Rows with equal sort keys are returned in insertion order, where SQL leaves the order open; the truncation of an over-long
    \<open>jti\<close> by \<open>INSERT IGNORE\<close> is left out; \<open>tracing\<close> output is left out.

  \<^bold>\<open>Not modelled.\<close>  Portal and console sign-in, the administration of clients, users and
  tenants, the user lifecycle, settings: use cases over the tables modelled here.  SAML, external
  identity providers and WebAuthn rest on third-party protocols and libraries; handlers, templates, data transfer
  objects and the API client are presentation and input/output.
\<close>

end
